(* ===== verification/Prelude.thy ===== *)
theory Prelude
  imports Main "HOL-Library.Word" "HOL-Library.Sublist"
begin

text \<open>
  The vocabulary the other theories share: the machine integers, the parts of Rust's
  \<open>str\<close> and integer parsing that the sources call, and generic lemmas on lists.

  A Rust \<open>&str\<close> is a UTF-8 byte sequence; it is a \<^typ>\<open>string\<close> here, one
  \<^typ>\<open>char\<close> per byte. The operations that look at Unicode characters
  (\<open>trim\<close>, \<open>split_whitespace\<close>, \<open>is_control\<close>) recognise the multi-byte
  encodings explicitly; UTF-8 is self-synchronising, so a match of an encoding in a valid
  string is always that character.
\<close>

named_theorems text_simps \<open>rewrite rules for the text operations\<close>
named_theorems printable_intros \<open>closure rules for printable texts\<close>

type_synonym u8 = "8 word"
type_synonym u16 = "16 word"
type_synonym u32 = "32 word"
type_synonym u64 = "64 word"
type_synonym u128 = "128 word"

section \<open>Bytes of a text\<close>

definition byte_of :: "char \<Rightarrow> nat" where
  "byte_of c = of_char c"

lemma byte_of_less [simp]: "byte_of c < 256"
  by (simp add: byte_of_def)

lemma byte_of_inj: "byte_of a = byte_of b \<longleftrightarrow> a = b"
  by (simp add: byte_of_def)

lemma byte_of_char_of: "n < 256 \<Longrightarrow> byte_of (char_of n) = n"
  by (simp add: byte_of_def)

lemma char_of_byte_of [simp]: "char_of (byte_of c) = c"
  by (simp add: byte_of_def)

definition text_bytes :: "string \<Rightarrow> u8 list" where
  "text_bytes s = map (\<lambda>c. of_nat (byte_of c)) s"

definition bytes_text :: "u8 list \<Rightarrow> string" where
  "bytes_text bs = map (\<lambda>b. char_of (unat b)) bs"

lemma bytes_text_text_bytes [simp]: "bytes_text (text_bytes s) = s"
proof -
  have "char_of (unat (of_nat (byte_of c) :: u8)) = c" for c
    by (simp add: byte_of_def unat_of_nat)
  then show ?thesis
    by (simp add: bytes_text_def text_bytes_def map_idI)
qed

lemma length_text_bytes [simp]: "length (text_bytes s) = length s"
  by (simp add: text_bytes_def)

lemma text_bytes_Nil [simp]: "text_bytes [] = []"
  by (simp add: text_bytes_def)

lemma text_bytes_Cons [simp]: "text_bytes (c # s) = of_nat (byte_of c) # text_bytes s"
  by (simp add: text_bytes_def)

lemma text_bytes_append [simp]: "text_bytes (s @ t) = text_bytes s @ text_bytes t"
  by (simp add: text_bytes_def)

definition ascii_lower :: "char \<Rightarrow> char" where
  "ascii_lower c = (if 65 \<le> byte_of c \<and> byte_of c \<le> 90 then char_of (byte_of c + 32) else c)"

definition ascii_upper :: "char \<Rightarrow> char" where
  "ascii_upper c = (if 97 \<le> byte_of c \<and> byte_of c \<le> 122 then char_of (byte_of c - 32) else c)"

definition to_ascii_lowercase :: "string \<Rightarrow> string" where
  "to_ascii_lowercase s = map ascii_lower s"

definition to_ascii_uppercase :: "string \<Rightarrow> string" where
  "to_ascii_uppercase s = map ascii_upper s"

definition eq_ignore_ascii_case :: "string \<Rightarrow> string \<Rightarrow> bool" where
  "eq_ignore_ascii_case a b \<longleftrightarrow> to_ascii_lowercase a = to_ascii_lowercase b"

definition is_ascii :: "string \<Rightarrow> bool" where
  "is_ascii s \<longleftrightarrow> list_all (\<lambda>c. byte_of c < 128) s"

lemma byte_of_upper:
  "byte_of (ascii_upper c) = (if 97 \<le> byte_of c \<and> byte_of c \<le> 122 then byte_of c - 32 else byte_of c)"
  by (simp add: ascii_upper_def byte_of_char_of less_imp_diff_less)

lemma byte_of_lower:
  "byte_of (ascii_lower c) = (if 65 \<le> byte_of c \<and> byte_of c \<le> 90 then byte_of c + 32 else byte_of c)"
  by (simp add: ascii_lower_def byte_of_char_of)

lemma ascii_lower_upper [simp]: "ascii_lower (ascii_upper c) = ascii_lower c"
proof -
  have "byte_of (ascii_lower (ascii_upper c)) = byte_of (ascii_lower c)"
    by (auto simp: byte_of_lower byte_of_upper)
  then show ?thesis by (simp add: byte_of_inj)
qed

lemma ascii_lower_idem [simp]: "ascii_lower (ascii_lower c) = ascii_lower c"
  by (auto simp: ascii_lower_def byte_of_char_of)

lemma to_ascii_lowercase_idem [simp]:
  "to_ascii_lowercase (to_ascii_lowercase s) = to_ascii_lowercase s"
  by (simp add: to_ascii_lowercase_def)

lemma to_ascii_lowercase_Nil [simp]: "to_ascii_lowercase [] = []"
  by (simp add: to_ascii_lowercase_def)

lemma to_ascii_lowercase_append [simp]:
  "to_ascii_lowercase (s @ t) = to_ascii_lowercase s @ to_ascii_lowercase t"
  by (simp add: to_ascii_lowercase_def)

lemma length_to_ascii_lowercase [simp]: "length (to_ascii_lowercase s) = length s"
  by (simp add: to_ascii_lowercase_def)

lemma to_ascii_lowercase_eq_Nil [simp]: "to_ascii_lowercase s = [] \<longleftrightarrow> s = []"
  by (simp add: to_ascii_lowercase_def)

lemma eq_ignore_ascii_case_refl [simp]: "eq_ignore_ascii_case s s"
  by (simp add: eq_ignore_ascii_case_def)

lemma eq_ignore_ascii_case_sym: "eq_ignore_ascii_case s t \<longleftrightarrow> eq_ignore_ascii_case t s"
  by (auto simp: eq_ignore_ascii_case_def)

lemma eq_ignore_ascii_case_trans:
  "eq_ignore_ascii_case s t \<Longrightarrow> eq_ignore_ascii_case t u \<Longrightarrow> eq_ignore_ascii_case s u"
  by (simp add: eq_ignore_ascii_case_def)

lemma eq_ignore_ascii_case_lower [simp]:
  "eq_ignore_ascii_case (to_ascii_lowercase s) t \<longleftrightarrow> eq_ignore_ascii_case s t"
  "eq_ignore_ascii_case s (to_ascii_lowercase t) \<longleftrightarrow> eq_ignore_ascii_case s t"
  by (simp_all add: eq_ignore_ascii_case_def)

section \<open>White space\<close>

text \<open>
  \<open>char::is_whitespace\<close> is the Unicode property \<open>White_Space\<close>: the ASCII
  characters 9 to 13 and 32, and the characters whose encodings take two
  (\<open>U+0085\<close>, \<open>U+00A0\<close>) or three bytes (\<open>U+1680\<close>, \<open>U+2000\<close> to
  \<open>U+200A\<close>, \<open>U+2028\<close>, \<open>U+2029\<close>, \<open>U+202F\<close>, \<open>U+205F\<close>,
  \<open>U+3000\<close>).
\<close>

definition ws1 :: "char \<Rightarrow> bool" where
  "ws1 a \<longleftrightarrow> (9 \<le> byte_of a \<and> byte_of a \<le> 13) \<or> byte_of a = 32"

definition ws2 :: "char \<Rightarrow> char \<Rightarrow> bool" where
  "ws2 a b \<longleftrightarrow> byte_of a = 0xC2 \<and> (byte_of b = 0x85 \<or> byte_of b = 0xA0)"

definition ws3 :: "char \<Rightarrow> char \<Rightarrow> char \<Rightarrow> bool" where
  "ws3 a b c \<longleftrightarrow>
     (byte_of a = 0xE1 \<and> byte_of b = 0x9A \<and> byte_of c = 0x80) \<or>
     (byte_of a = 0xE2 \<and> byte_of b = 0x80 \<and>
        ((0x80 \<le> byte_of c \<and> byte_of c \<le> 0x8A) \<or> byte_of c = 0xA8 \<or> byte_of c = 0xA9 \<or> byte_of c = 0xAF)) \<or>
     (byte_of a = 0xE2 \<and> byte_of b = 0x81 \<and> byte_of c = 0x9F) \<or>
     (byte_of a = 0xE3 \<and> byte_of b = 0x80 \<and> byte_of c = 0x80)"

text \<open>The number of bytes of the white-space character a text starts with, 0 if none.\<close>

definition ws_len :: "string \<Rightarrow> nat" where
  "ws_len s = (case s of [] \<Rightarrow> 0 | a # t \<Rightarrow>
     if ws1 a then 1 else (case t of [] \<Rightarrow> 0 | b # u \<Rightarrow>
     if ws2 a b then 2 else (case u of [] \<Rightarrow> 0 | c # _ \<Rightarrow>
     if ws3 a b c then 3 else 0)))"

text \<open>The same for the character a text ends with; the argument is the text reversed.\<close>

definition ws_rlen :: "string \<Rightarrow> nat" where
  "ws_rlen s = (case s of [] \<Rightarrow> 0 | a # t \<Rightarrow>
     if ws1 a then 1 else (case t of [] \<Rightarrow> 0 | b # u \<Rightarrow>
     if ws2 b a then 2 else (case u of [] \<Rightarrow> 0 | c # _ \<Rightarrow>
     if ws3 c b a then 3 else 0)))"

lemma ws_len_le: "ws_len s \<le> length s"
  by (auto simp: ws_len_def split: list.splits)

lemma ws_len_Nil [simp]: "ws_len [] = 0"
  by (simp add: ws_len_def)

lemma ws_rlen_Nil [simp]: "ws_rlen [] = 0"
  by (simp add: ws_rlen_def)

function trim_start :: "string \<Rightarrow> string" where
  "trim_start s = (if ws_len s = 0 then s else trim_start (drop (ws_len s) s))"
  by pat_completeness auto
termination
proof (relation "measure length")
  fix s :: string
  assume "ws_len s \<noteq> 0"
  moreover from this have "s \<noteq> []" by auto
  ultimately show "(drop (ws_len s) s, s) \<in> measure length" by simp
qed simp

function trim_rev :: "string \<Rightarrow> string" where
  "trim_rev s = (if ws_rlen s = 0 then s else trim_rev (drop (ws_rlen s) s))"
  by pat_completeness auto
termination
proof (relation "measure length")
  fix s :: string
  assume "ws_rlen s \<noteq> 0"
  moreover from this have "s \<noteq> []" by auto
  ultimately show "(drop (ws_rlen s) s, s) \<in> measure length" by simp
qed simp

declare trim_start.simps [simp del] trim_rev.simps [simp del]

definition trim_end :: "string \<Rightarrow> string" where
  "trim_end s = rev (trim_rev (rev s))"

definition trim :: "string \<Rightarrow> string" where
  "trim s = trim_end (trim_start s)"

text \<open>Printable ASCII without the blank: never white space, never a control character.\<close>

definition vchar :: "char \<Rightarrow> bool" where
  "vchar c \<longleftrightarrow> 33 \<le> byte_of c \<and> byte_of c \<le> 126"

abbreviation vtext :: "string \<Rightarrow> bool" where
  "vtext s \<equiv> list_all vchar s"

lemma vchar_not_ws: "vchar a \<Longrightarrow> ws_len (a # s) = 0"
  by (auto simp: vchar_def ws_len_def ws1_def ws2_def ws3_def split: list.splits)

lemma vchar_not_ws_rev: "vchar a \<Longrightarrow> ws_rlen (a # s) = 0"
  by (auto simp: vchar_def ws_rlen_def ws1_def ws2_def ws3_def split: list.splits)

lemma trim_start_id: "ws_len s = 0 \<Longrightarrow> trim_start s = s"
  by (subst trim_start.simps) simp

lemma trim_start_vchar [text_simps]: "vchar a \<Longrightarrow> trim_start (a # s) = a # s"
  by (simp add: trim_start_id vchar_not_ws)

lemma trim_start_Nil [simp]: "trim_start [] = []"
  by (simp add: trim_start_id)

lemma trim_end_Nil [simp]: "trim_end [] = []"
  by (simp add: trim_end_def trim_rev.simps)

lemma trim_Nil [simp]: "trim [] = []"
  by (simp add: trim_def)

lemma trim_end_vchar [text_simps]: "vchar a \<Longrightarrow> trim_end (s @ [a]) = s @ [a]"
  by (simp add: trim_end_def trim_rev.simps [of "a # rev s"] vchar_not_ws_rev)

lemma trim_start_blank [simp]: "trim_start (CHR '' '' # s) = trim_start s"
  by (subst trim_start.simps) (simp add: ws_len_def ws1_def byte_of_def)

text \<open>The usual reason why trimming changes nothing.\<close>

lemma trim_id:
  assumes "s = [] \<or> (vchar (hd s) \<and> vchar (last s))"
  shows "trim s = s"
proof (cases s)
  case Nil
  then show ?thesis by simp
next
  case (Cons a t)
  with assms have "vchar a" and l: "vchar (last s)" by auto
  then have "trim_start s = s" using Cons by (simp add: trim_start_vchar)
  moreover have "trim_end s = s"
    using trim_end_vchar [OF l, of "butlast s"] Cons by (metis append_butlast_last_id list.distinct(1))
  ultimately show ?thesis by (simp add: trim_def)
qed

lemma trim_vtext [text_simps]: "vtext s \<Longrightarrow> trim s = s"
  by (cases "s = []") (auto intro!: trim_id simp: list_all_iff)

lemma trim_start_vtext [text_simps]: "vtext s \<Longrightarrow> trim_start s = s"
  by (cases s) (auto simp: trim_start_vchar)

section \<open>Splitting\<close>

definition strip_prefix :: "string \<Rightarrow> string \<Rightarrow> string option" where
  "strip_prefix p s = (if take (length p) s = p then Some (drop (length p) s) else None)"

definition starts_with :: "string \<Rightarrow> string \<Rightarrow> bool" where
  "starts_with p s \<longleftrightarrow> take (length p) s = p"

definition split_once :: "char \<Rightarrow> string \<Rightarrow> (string \<times> string) option" where
  "split_once c s = (case dropWhile (\<lambda>x. x \<noteq> c) s of
     [] \<Rightarrow> None | _ # t \<Rightarrow> Some (takeWhile (\<lambda>x. x \<noteq> c) s, t))"

definition rsplit_once :: "char \<Rightarrow> string \<Rightarrow> (string \<times> string) option" where
  "rsplit_once c s = map_option (\<lambda>(a, b). (rev b, rev a)) (split_once c (rev s))"

fun split_on :: "char \<Rightarrow> string \<Rightarrow> string list" where
  "split_on c [] = [[]]"
| "split_on c (x # xs) =
     (if x = c then [] # split_on c xs
      else (case split_on c xs of [] \<Rightarrow> [[x]] | y # ys \<Rightarrow> (x # y) # ys))"

fun join :: "string \<Rightarrow> string list \<Rightarrow> string" where
  "join sep [] = []"
| "join sep [x] = x"
| "join sep (x # y # ys) = x @ sep @ join sep (y # ys)"

text \<open>\<open>trim_matches\<close> and its one-sided forms, for a set of one-byte characters.\<close>

definition trim_start_matches :: "(char \<Rightarrow> bool) \<Rightarrow> string \<Rightarrow> string" where
  "trim_start_matches p s = dropWhile p s"

definition trim_end_matches :: "(char \<Rightarrow> bool) \<Rightarrow> string \<Rightarrow> string" where
  "trim_end_matches p s = rev (dropWhile p (rev s))"

definition trim_matches :: "(char \<Rightarrow> bool) \<Rightarrow> string \<Rightarrow> string" where
  "trim_matches p s = trim_end_matches p (trim_start_matches p s)"

text \<open>Splitting at white space (\<open>split_once(char::is_whitespace)\<close>, \<open>split_whitespace\<close>).\<close>

fun break_ws :: "string \<Rightarrow> string \<times> string" where
  "break_ws [] = ([], [])"
| "break_ws (c # s) =
     (if ws_len (c # s) = 0 then (let (w, r) = break_ws s in (c # w, r)) else ([], c # s))"

definition split_once_ws :: "string \<Rightarrow> (string \<times> string) option" where
  "split_once_ws s =
     (let (w, r) = break_ws s in if r = [] then None else Some (w, drop (ws_len r) r))"

lemma break_ws_length: "break_ws s = (w, r) \<Longrightarrow> length w + length r = length s"
  by (induction s arbitrary: w r) (auto split: if_splits prod.splits)

lemma trim_start_length: "length (trim_start s) \<le> length s"
proof (induction s rule: trim_start.induct)
  case (1 s)
  show ?case
  proof (cases "ws_len s = 0")
    case True
    then show ?thesis by (simp add: trim_start_id)
  next
    case False
    with "1.IH" have "length (trim_start (drop (ws_len s) s)) \<le> length s"
      by simp
    with False show ?thesis by (subst trim_start.simps) simp
  qed
qed

lemma trim_start_ws: "ws_len (trim_start s) = 0"
proof (induction s rule: trim_start.induct)
  case (1 s)
  then show ?case by (cases "ws_len s = 0") (simp_all add: trim_start.simps [of s])
qed

lemma break_ws_consumes:
  "s \<noteq> [] \<Longrightarrow> ws_len s = 0 \<Longrightarrow> break_ws s = (w, r) \<Longrightarrow> length r < length s"
proof (cases s)
  case (Cons c t)
  assume "ws_len s = 0" "break_ws s = (w, r)"
  with Cons obtain w' where "break_ws t = (w', r)"
    by (auto split: prod.splits)
  with Cons show ?thesis using break_ws_length [of t] by fastforce
qed simp

function split_whitespace :: "string \<Rightarrow> string list" where
  "split_whitespace s =
     (let t = trim_start s in
      if t = [] then [] else (let (w, r) = break_ws t in w # split_whitespace r))"
  by pat_completeness auto
termination
proof (relation "measure length")
  fix s t x w r
  assume t: "t = trim_start s" and "t \<noteq> []" and "x = break_ws t" and "(w, r) = x"
  then have "length r < length t"
    using break_ws_consumes [of t w r] trim_start_ws [of s] by simp
  then show "(r, s) \<in> measure length"
    using t trim_start_length [of s] by simp
qed simp

declare split_whitespace.simps [simp del]

subsection \<open>What the splitters do\<close>

lemma takeWhile_noteq_append:
  "c \<notin> set a \<Longrightarrow> takeWhile (\<lambda>x. x \<noteq> c) (a @ c # b) = a"
  by (induction a) auto

lemma dropWhile_noteq_append:
  "c \<notin> set a \<Longrightarrow> dropWhile (\<lambda>x. x \<noteq> c) (a @ c # b) = c # b"
  by (induction a) auto

lemma split_once_append [text_simps]: "c \<notin> set a \<Longrightarrow> split_once c (a @ c # b) = Some (a, b)"
  by (simp add: split_once_def takeWhile_noteq_append dropWhile_noteq_append)

lemma split_once_None [text_simps]: "c \<notin> set a \<Longrightarrow> split_once c a = None"
proof -
  assume "c \<notin> set a"
  then have "dropWhile (\<lambda>x. x \<noteq> c) a = []" by (auto simp: dropWhile_eq_Nil_conv)
  then show ?thesis by (simp add: split_once_def del: dropWhile_eq_Nil_conv)
qed

lemma split_once_None_iff: "split_once c a = None \<longleftrightarrow> c \<notin> set a"
proof
  assume "split_once c a = None"
  then have "dropWhile (\<lambda>x. x \<noteq> c) a = []" by (auto simp: split_once_def split: list.splits)
  then show "c \<notin> set a" by auto
qed (rule split_once_None)

lemma split_once_Some_iff:
  "split_once c s = Some (a, b) \<longleftrightarrow> s = a @ c # b \<and> c \<notin> set a"
proof
  assume h: "split_once c s = Some (a, b)"
  then obtain x t where d: "dropWhile (\<lambda>x. x \<noteq> c) s = x # t"
    and ab: "a = takeWhile (\<lambda>x. x \<noteq> c) s" "b = t"
    by (auto simp: split_once_def split: list.splits)
  from d have "x = c" by (auto simp: dropWhile_eq_Cons_conv)
  with d ab have "s = a @ c # b" by (metis takeWhile_dropWhile_id)
  moreover have "c \<notin> set a" using ab(1) set_takeWhileD by fastforce
  ultimately show "s = a @ c # b \<and> c \<notin> set a" by simp
qed (auto simp: split_once_append)

lemma rsplit_once_append [text_simps]: "c \<notin> set b \<Longrightarrow> rsplit_once c (a @ c # b) = Some (a, b)"
  by (simp add: rsplit_once_def split_once_append)

lemma rsplit_once_None [text_simps]: "c \<notin> set a \<Longrightarrow> rsplit_once c a = None"
  by (simp add: rsplit_once_def split_once_None)

lemma rsplit_once_Some_iff:
  "rsplit_once c s = Some (a, b) \<longleftrightarrow> s = a @ c # b \<and> c \<notin> set b"
proof -
  have "rsplit_once c s = Some (a, b) \<longleftrightarrow> split_once c (rev s) = Some (rev b, rev a)"
    by (auto simp: rsplit_once_def)
  also have "\<dots> \<longleftrightarrow> rev s = rev b @ c # rev a \<and> c \<notin> set b"
    by (simp add: split_once_Some_iff)
  also have "rev s = rev b @ c # rev a \<longleftrightarrow> s = a @ c # b"
    by (metis append.assoc append_Cons append_Nil rev.simps(2) rev_append rev_rev_ident)
  finally show ?thesis .
qed

lemma split_on_nonempty [simp]: "split_on c s \<noteq> []"
  by (induction s) (auto split: list.splits)

lemma split_on_none [text_simps]: "c \<notin> set s \<Longrightarrow> split_on c s = [s]"
  by (induction s) auto

lemma split_on_append [text_simps]:
  "c \<notin> set a \<Longrightarrow> split_on c (a @ c # b) = a # split_on c b"
  by (induction a) auto

lemma split_on_join:
  "list_all (\<lambda>x. c \<notin> set x) xs \<Longrightarrow> xs \<noteq> [] \<Longrightarrow> split_on c (join [c] xs) = xs"
proof (induction xs rule: induct_list012)
  case (3 x y zs)
  then show ?case by (simp add: split_on_append)
qed (simp_all add: split_on_none)

lemma split_on_no_sep: "x \<in> set (split_on c s) \<Longrightarrow> c \<notin> set x"
  by (induction s arbitrary: x) (fastforce split: list.splits if_splits)+

lemma split_on_subset: "x \<in> set (split_on c s) \<Longrightarrow> set x \<subseteq> set s"
proof (induction s arbitrary: x)
  case (Cons a s)
  then show ?case
    by (cases "split_on c s") (fastforce split: if_splits)+
qed simp

lemma strip_prefix_append [simp]: "strip_prefix p (p @ s) = Some s"
  by (simp add: strip_prefix_def)

lemma strip_prefix_Cons [text_simps]:
  "strip_prefix [c] (a # s) = (if a = c then Some s else None)"
  by (simp add: strip_prefix_def)

lemma strip_prefix_Nil [text_simps]: "strip_prefix [c] [] = None"
  by (simp add: strip_prefix_def)

lemma strip_prefix_Some_iff: "strip_prefix p s = Some t \<longleftrightarrow> s = p @ t"
proof
  assume "strip_prefix p s = Some t"
  then have "take (length p) s = p" "drop (length p) s = t"
    by (auto simp: strip_prefix_def split: if_splits)
  then show "s = p @ t" by (metis append_take_drop_id)
qed simp

lemma break_ws_vtext [text_simps]:
  "vtext a \<Longrightarrow> break_ws (a @ CHR '' '' # b) = (a, CHR '' '' # b)"
proof (induction a)
  case Nil
  then show ?case by (simp add: ws_len_def ws1_def byte_of_def)
qed (simp add: vchar_not_ws)

lemma break_ws_vtext_all [text_simps]: "vtext a \<Longrightarrow> break_ws a = (a, [])"
  by (induction a) (simp_all add: vchar_not_ws)

lemma split_once_ws_vtext [text_simps]:
  "vtext a \<Longrightarrow> split_once_ws (a @ CHR '' '' # b) = Some (a, b)"
  by (simp add: split_once_ws_def break_ws_vtext) (simp add: ws_len_def ws1_def byte_of_def)

lemma split_whitespace_Nil [simp]: "split_whitespace [] = []"
  by (subst split_whitespace.simps) simp

lemma split_whitespace_vtext [text_simps]:
  "vtext a \<Longrightarrow> a \<noteq> [] \<Longrightarrow> split_whitespace a = [a]"
  by (subst split_whitespace.simps) (simp add: trim_start_vtext break_ws_vtext_all)

lemma split_whitespace_blank [simp]: "split_whitespace (CHR '' '' # s) = split_whitespace s"
  by (subst (1 2) split_whitespace.simps) simp

lemma split_whitespace_vtext_Cons [text_simps]:
  assumes "vtext a" and "a \<noteq> []"
  shows "split_whitespace (a @ CHR '' '' # b) = a # split_whitespace b"
proof -
  from assms have "trim_start (a @ CHR '' '' # b) = a @ CHR '' '' # b"
    by (cases a) (auto simp: trim_start_vchar)
  with assms show ?thesis
    by (subst split_whitespace.simps) (simp add: break_ws_vtext)
qed

section \<open>Numbers as text\<close>

definition digit_char :: "nat \<Rightarrow> char" where
  "digit_char d = char_of (if d < 10 then 48 + d else 87 + d)"

definition digit_val :: "char \<Rightarrow> nat option" where
  "digit_val c = (if 48 \<le> byte_of c \<and> byte_of c \<le> 57 then Some (byte_of c - 48) else None)"

definition hex_val :: "char \<Rightarrow> nat option" where
  "hex_val c =
     (if 48 \<le> byte_of c \<and> byte_of c \<le> 57 then Some (byte_of c - 48)
      else if 97 \<le> byte_of c \<and> byte_of c \<le> 102 then Some (byte_of c - 87)
      else if 65 \<le> byte_of c \<and> byte_of c \<le> 70 then Some (byte_of c - 55)
      else None)"

text \<open>The decimal rendering of \<open>{}\<close>, and the hexadecimal one of \<open>{:x}\<close>.\<close>

fun show_radix :: "nat \<Rightarrow> nat \<Rightarrow> string" where
  "show_radix b n =
     (if b < 2 \<or> n < b then [digit_char n] else show_radix b (n div b) @ [digit_char (n mod b)])"

declare show_radix.simps [simp del]

definition show_nat :: "nat \<Rightarrow> string" where
  "show_nat n = show_radix 10 n"

definition show_hex :: "nat \<Rightarrow> string" where
  "show_hex n = show_radix 16 n"

text \<open>\<open>{:0wx}\<close>: at least \<open>w\<close> digits.\<close>

definition show_hex_pad :: "nat \<Rightarrow> nat \<Rightarrow> string" where
  "show_hex_pad w n = replicate (w - length (show_hex n)) (CHR ''0'') @ show_hex n"

fun digits_val :: "(char \<Rightarrow> nat option) \<Rightarrow> nat \<Rightarrow> nat \<Rightarrow> string \<Rightarrow> nat option" where
  "digits_val val b acc [] = Some acc"
| "digits_val val b acc (c # s) =
     (case val c of None \<Rightarrow> None | Some d \<Rightarrow> digits_val val b (acc * b + d) s)"

text \<open>
  \<open>str::parse\<close> for an unsigned type with values below \<open>bound\<close>: one optional plus
  sign, at least one digit, nothing else, and no overflow.
\<close>

definition parse_radix :: "(char \<Rightarrow> nat option) \<Rightarrow> nat \<Rightarrow> nat \<Rightarrow> string \<Rightarrow> nat option" where
  "parse_radix val b bound s =
     (let t = (case strip_prefix ''+'' s of Some r \<Rightarrow> r | None \<Rightarrow> s) in
      if t = [] then None
      else (case digits_val val b 0 t of
              None \<Rightarrow> None | Some n \<Rightarrow> if n < bound then Some n else None))"

definition parse_uint :: "nat \<Rightarrow> string \<Rightarrow> nat option" where
  "parse_uint bound s = parse_radix digit_val 10 bound s"

definition parse_hex :: "nat \<Rightarrow> string \<Rightarrow> nat option" where
  "parse_hex bound s = parse_radix hex_val 16 bound s"

definition parse_u8 :: "string \<Rightarrow> u8 option" where
  "parse_u8 s = map_option of_nat (parse_uint (2 ^ 8) s)"

definition parse_u16 :: "string \<Rightarrow> u16 option" where
  "parse_u16 s = map_option of_nat (parse_uint (2 ^ 16) s)"

definition parse_u32 :: "string \<Rightarrow> u32 option" where
  "parse_u32 s = map_option of_nat (parse_uint (2 ^ 32) s)"

definition parse_usize :: "string \<Rightarrow> nat option" where
  "parse_usize s = parse_uint (2 ^ 64) s"

lemma digit_val_digit_char: "d < 10 \<Longrightarrow> digit_val (digit_char d) = Some d"
  by (simp add: digit_val_def digit_char_def byte_of_char_of)

lemma hex_val_digit_char: "d < 16 \<Longrightarrow> hex_val (digit_char d) = Some d"
  by (simp add: hex_val_def digit_char_def byte_of_char_of)

lemma digits_val_append:
  "digits_val val b acc (s @ t) =
     (case digits_val val b acc s of None \<Rightarrow> None | Some m \<Rightarrow> digits_val val b m t)"
  by (induction s arbitrary: acc) (auto split: option.splits)

lemma digits_val_show_radix:
  assumes "2 \<le> b" and val: "\<And>d. d < b \<Longrightarrow> val (digit_char d) = Some d"
  shows "digits_val val b 0 (show_radix b n) = Some n"
proof (induction n rule: less_induct)
  case (less n)
  show ?case
  proof (cases "n < b")
    case True
    then show ?thesis by (simp add: show_radix.simps [of b n] val)
  next
    case False
    with assms(1) have "n div b < n" by (intro div_less_dividend) auto
    from less.IH [OF this] False assms(1) show ?thesis
      by (simp add: show_radix.simps [of b n] digits_val_append val)
  qed
qed

lemma show_radix_set:
  assumes "c \<in> set (show_radix b n)" and "2 \<le> b"
  shows "\<exists>d < b. c = digit_char d"
  using assms
proof (induction b n rule: show_radix.induct)
  case (1 b n)
  show ?case
  proof (cases "n < b")
    case True
    with 1 show ?thesis by (auto simp: show_radix.simps [of b n])
  next
    case False
    have "n mod b < b" using "1.prems"(2) by simp
    moreover from "1.prems" False
    have c: "c \<in> set (show_radix b (n div b)) \<or> c = digit_char (n mod b)"
      by (auto simp add: show_radix.simps [of b n])
    ultimately show ?thesis using "1.IH" "1.prems"(2) False by (metis leD)
  qed
qed

lemma show_radix_nonempty [simp]: "show_radix b n \<noteq> []"
  by (subst show_radix.simps) simp

lemma show_nat_nonempty [simp]: "show_nat n \<noteq> []"
  by (simp add: show_nat_def)

lemma show_hex_nonempty [simp]: "show_hex n \<noteq> []"
  by (simp add: show_hex_def)

lemma show_nat_digit: "c \<in> set (show_nat n) \<Longrightarrow> 48 \<le> byte_of c \<and> byte_of c \<le> 57"
  using show_radix_set [of c 10 n]
  by (auto simp: show_nat_def digit_char_def byte_of_char_of)

lemma show_hex_digit:
  "c \<in> set (show_hex n) \<Longrightarrow> (48 \<le> byte_of c \<and> byte_of c \<le> 57) \<or> (97 \<le> byte_of c \<and> byte_of c \<le> 102)"
proof -
  assume "c \<in> set (show_hex n)"
  then obtain d where d: "d < 16" "c = digit_char d"
    using show_radix_set [of c 16 n] by (auto simp: show_hex_def)
  show ?thesis
    by (cases "d < 10") (use d in \<open>simp_all add: digit_char_def byte_of_char_of\<close>)
qed

lemma vtext_show_nat [simp, printable_intros]: "vtext (show_nat n)"
  by (auto simp: list_all_iff vchar_def dest!: show_nat_digit)

lemma vtext_show_hex [simp, printable_intros]: "vtext (show_hex n)"
  by (auto simp: list_all_iff vchar_def dest!: show_hex_digit)

lemma show_nat_notin: "byte_of c < 48 \<or> 57 < byte_of c \<Longrightarrow> c \<notin> set (show_nat n)"
  by (auto dest: show_nat_digit)

lemma parse_uint_show_nat [text_simps]: "n < bound \<Longrightarrow> parse_uint bound (show_nat n) = Some n"
proof -
  assume "n < bound"
  have "strip_prefix ''+'' (show_nat n) = None"
  proof (cases "show_nat n")
    case (Cons a t)
    then have "48 \<le> byte_of a" using show_nat_digit [of a n] by simp
    then have "a \<noteq> CHR ''+''" by (auto simp: byte_of_def)
    with Cons show ?thesis by (simp add: strip_prefix_Cons)
  qed simp
  with \<open>n < bound\<close> show ?thesis
    using digits_val_show_radix [of 10 digit_val n]
    by (simp add: parse_uint_def parse_radix_def show_nat_def digit_val_digit_char)
qed

lemma parse_uint_bound: "parse_uint bound s = Some n \<Longrightarrow> n < bound"
  by (auto simp: parse_uint_def parse_radix_def Let_def split: option.splits if_splits)

lemma parse_u16_show [text_simps]: "parse_u16 (show_nat (unat p)) = Some p"
proof -
  have "unat p < 2 ^ 16" using unsigned_less [of p] by simp
  then show ?thesis by (simp add: parse_u16_def parse_uint_show_nat)
qed

lemma parse_u32_show [text_simps]: "parse_u32 (show_nat (unat p)) = Some p"
proof -
  have "unat p < 2 ^ 32" using unsigned_less [of p] by simp
  then show ?thesis by (simp add: parse_u32_def parse_uint_show_nat)
qed

lemma parse_u8_show [text_simps]: "parse_u8 (show_nat (unat p)) = Some p"
proof -
  have "unat p < 2 ^ 8" using unsigned_less [of p] by simp
  then show ?thesis by (simp add: parse_u8_def parse_uint_show_nat)
qed

lemma parse_usize_show [text_simps]: "n < 2 ^ 64 \<Longrightarrow> parse_usize (show_nat n) = Some n"
  by (simp add: parse_usize_def parse_uint_show_nat)

lemma show_nat_inj: "show_nat m = show_nat n \<longleftrightarrow> m = n"
  by (metis less_Suc_eq max_less_iff_conj not_less_eq option.inject parse_uint_show_nat)

text \<open>A signed decimal (\<open>i64::from_str\<close>): the sign may be a minus.\<close>

definition parse_i64 :: "string \<Rightarrow> int option" where
  "parse_i64 s =
     (case strip_prefix ''-'' s of
        Some r \<Rightarrow> (if r = [] then None else
          (case digits_val digit_val 10 0 r of
             None \<Rightarrow> None | Some n \<Rightarrow> if n \<le> 2 ^ 63 then Some (- int n) else None))
      | None \<Rightarrow> map_option int (parse_uint (2 ^ 63) s))"

definition show_int :: "int \<Rightarrow> string" where
  "show_int i = (if i < 0 then CHR ''-'' # show_nat (nat (- i)) else show_nat (nat i))"

lemma parse_i64_show_int [text_simps]:
  assumes "- (2 ^ 63) \<le> i" and "i < 2 ^ 63"
  shows "parse_i64 (show_int i) = Some i"
proof (cases "i < 0")
  case True
  with assms show ?thesis
    using digits_val_show_radix [of 10 digit_val "nat (- i)"]
    by (simp add: parse_i64_def show_int_def strip_prefix_Cons show_nat_def digit_val_digit_char)
next
  case False
  have "strip_prefix ''-'' (show_nat (nat i)) = None"
  proof (cases "show_nat (nat i)")
    case (Cons a t)
    then have "48 \<le> byte_of a" using show_nat_digit [of a "nat i"] by simp
    then have "a \<noteq> CHR ''-''" by (auto simp: byte_of_def)
    with Cons show ?thesis by (simp add: strip_prefix_Cons)
  qed simp
  with False assms show ?thesis
    by (simp add: parse_i64_def show_int_def parse_uint_show_nat)
qed

section \<open>UTF-8\<close>

text \<open>
  One step of the decoder of \<open>core::str\<close>: whether a well-formed character starts the text
  (Unicode, table 3-7), and how many bytes belong to it, or to the maximal ill-formed prefix
  that \<open>from_utf8_lossy\<close> replaces by one \<open>U+FFFD\<close>.
\<close>

definition in_range :: "nat \<Rightarrow> nat \<Rightarrow> nat \<Rightarrow> bool" where
  "in_range lo hi n \<longleftrightarrow> lo \<le> n \<and> n \<le> hi"

definition byte_at :: "string \<Rightarrow> nat \<Rightarrow> nat" where
  "byte_at s i = (if i < length s then byte_of (s ! i) else 0)"

definition utf8_step :: "string \<Rightarrow> bool \<times> nat" where
  "utf8_step s =
     (let b0 = byte_at s 0; b1 = byte_at s 1; c2 = in_range 0x80 0xBF (byte_at s 2);
          c3 = in_range 0x80 0xBF (byte_at s 3) in
      if b0 < 0x80 then (True, 1)
      else if in_range 0xC2 0xDF b0 then (if in_range 0x80 0xBF b1 then (True, 2) else (False, 1))
      else if in_range 0xE0 0xEF b0 then
        (if (b0 = 0xE0 \<and> in_range 0xA0 0xBF b1) \<or> (in_range 0xE1 0xEC b0 \<and> in_range 0x80 0xBF b1)
            \<or> (b0 = 0xED \<and> in_range 0x80 0x9F b1) \<or> (in_range 0xEE 0xEF b0 \<and> in_range 0x80 0xBF b1)
         then (if c2 then (True, 3) else (False, 2)) else (False, 1))
      else if in_range 0xF0 0xF4 b0 then
        (if (b0 = 0xF0 \<and> in_range 0x90 0xBF b1) \<or> (in_range 0xF1 0xF3 b0 \<and> in_range 0x80 0xBF b1)
            \<or> (b0 = 0xF4 \<and> in_range 0x80 0x8F b1)
         then (if c2 then (if c3 then (True, 4) else (False, 3)) else (False, 2)) else (False, 1))
      else (False, 1))"

lemma utf8_step_pos: "0 < snd (utf8_step s)"
  by (simp add: utf8_step_def Let_def)

function utf8_valid :: "string \<Rightarrow> bool" where
  "utf8_valid s =
     (if s = [] then True
      else (let (ok, n) = utf8_step s in if ok then utf8_valid (drop n s) else False))"
  by pat_completeness auto
termination
proof (relation "measure length")
  fix s :: string and x ok n
  assume "s \<noteq> []" "x = utf8_step s" "(ok, n) = x"
  then have "0 < n" using utf8_step_pos [of s] by (metis snd_conv)
  with \<open>s \<noteq> []\<close> show "(drop n s, s) \<in> measure length" by simp
qed simp

definition replacement_char :: string where
  "replacement_char = [char_of (0xEF::nat), char_of (0xBF::nat), char_of (0xBD::nat)]"

function from_utf8_lossy :: "string \<Rightarrow> string" where
  "from_utf8_lossy s =
     (if s = [] then []
      else (let (ok, n) = utf8_step s in
            (if ok then take n s else replacement_char) @ from_utf8_lossy (drop n s)))"
  by pat_completeness auto
termination
proof (relation "measure length")
  fix s :: string and x ok n
  assume "s \<noteq> []" "x = utf8_step s" "(ok, n) = x"
  then have "0 < n" using utf8_step_pos [of s] by (metis snd_conv)
  with \<open>s \<noteq> []\<close> show "(drop n s, s) \<in> measure length" by simp
qed simp

declare utf8_valid.simps [simp del] from_utf8_lossy.simps [simp del]

lemma utf8_valid_Nil [simp]: "utf8_valid []"
  by (subst utf8_valid.simps) simp

lemma from_utf8_lossy_Nil [simp]: "from_utf8_lossy [] = []"
  by (subst from_utf8_lossy.simps) simp

lemma byte_at_0 [simp]: "byte_at (c # s) 0 = byte_of c"
  by (simp add: byte_at_def)

lemma utf8_step_ascii: "byte_of c < 128 \<Longrightarrow> utf8_step (c # s) = (True, 1)"
  unfolding utf8_step_def Let_def by simp

lemma utf8_valid_ascii: "is_ascii s \<Longrightarrow> utf8_valid s"
  by (induction s) (simp_all add: is_ascii_def utf8_valid.simps [of "_ # _"] utf8_step_ascii)

lemma from_utf8_lossy_valid [text_simps]: "utf8_valid s \<Longrightarrow> from_utf8_lossy s = s"
proof (induction s rule: from_utf8_lossy.induct)
  case (1 s)
  show ?case
  proof (cases "s = []")
    case False
    obtain ok n where st: "utf8_step s = (ok, n)" by (cases "utf8_step s")
    from "1.prems" False st have ok: "ok" and "utf8_valid (drop n s)"
      by (auto simp: utf8_valid.simps [of s] split: if_splits)
    then have "from_utf8_lossy (drop n s) = drop n s"
      using "1.IH" False st by simp
    with False st ok show ?thesis by (simp add: from_utf8_lossy.simps [of s])
  qed simp
qed

lemma vtext_is_ascii: "vtext s \<Longrightarrow> is_ascii s"
  by (auto simp: is_ascii_def list_all_iff vchar_def)

lemma is_ascii_append [simp]: "is_ascii (s @ t) \<longleftrightarrow> is_ascii s \<and> is_ascii t"
  by (simp add: is_ascii_def)

section \<open>Printable texts\<close>

text \<open>Text of printable ASCII characters and blanks.\<close>

definition ptext :: "string \<Rightarrow> bool" where
  "ptext s \<longleftrightarrow> list_all (\<lambda>c. 32 \<le> byte_of c \<and> byte_of c \<le> 126) s"

lemma vtext_ptext: "vtext s \<Longrightarrow> ptext s"
  by (auto simp: ptext_def list_all_iff vchar_def)

lemma ptext_simps [simp]: "ptext []" "ptext (c # s) \<longleftrightarrow> (32 \<le> byte_of c \<and> byte_of c \<le> 126) \<and> ptext s"
  "ptext (s @ t) \<longleftrightarrow> ptext s \<and> ptext t"
  by (simp_all add: ptext_def)

lemma ptext_notin: "ptext s \<Longrightarrow> byte_of c < 32 \<or> 126 < byte_of c \<Longrightarrow> c \<notin> set s"
  by (auto simp: ptext_def list_all_iff)

section \<open>Lines\<close>

text \<open>\<open>str::lines\<close>: pieces that end in a line feed, or in CR and LF; a last piece without
  a line feed is a line as it stands, unless it is empty.\<close>

definition strip_cr :: "string \<Rightarrow> string" where
  "strip_cr l = (case rev l of c # r \<Rightarrow> if c = CHR 0x0D then rev r else l | [] \<Rightarrow> [])"

definition str_lines :: "string \<Rightarrow> string list" where
  "str_lines s =
     (let parts = split_on (CHR 0x0A) s in
      map strip_cr (butlast parts) @ (if last parts = [] then [] else [last parts]))"

lemma str_lines_crlf [text_simps]:
  assumes "CHR 0x0A \<notin> set l"
  shows "str_lines (l @ CHR 0x0D # CHR 0x0A # s) = l # str_lines s"
proof -
  have "split_on (CHR 0x0A) ((l @ [CHR 0x0D]) @ CHR 0x0A # s) = (l @ [CHR 0x0D]) # split_on (CHR 0x0A) s"
    using assms by (intro split_on_append) simp
  moreover have "strip_cr (l @ [CHR 0x0D]) = l" by (simp add: strip_cr_def)
  moreover have "split_on (CHR 0x0A) s \<noteq> []" by (cases s) (auto split: list.splits)
  ultimately show ?thesis by (simp add: str_lines_def Let_def)
qed

lemma str_lines_Nil [simp]: "str_lines [] = []"
  by (simp add: str_lines_def)

end
