(* ===== verification/IpText.thy ===== *)
theory IpText
  imports Prelude
begin

text \<open>
  The addresses of \<open>std::net\<close> the gateway handles: \<open>IpAddr\<close> with its textual
  forms (\<open>FromStr\<close> and \<open>Display\<close> of the standard library, which the SIP, SDP and DNS
  code calls on text from the network), and \<open>SocketAddr\<close>. An address is kept as the
  number \<open>u32::from\<close> or \<open>u128::from\<close> gives for it.
\<close>

unbundle bit_operations_syntax

datatype ip_addr = V4 u32 | V6 u128

record socket_addr =
  sa_ip :: ip_addr
  sa_port :: u16

definition is_ipv6 :: "ip_addr \<Rightarrow> bool" where
  "is_ipv6 a = (case a of V4 _ \<Rightarrow> False | V6 _ \<Rightarrow> True)"

definition is_unspecified :: "ip_addr \<Rightarrow> bool" where
  "is_unspecified a = (case a of V4 n \<Rightarrow> n = 0 | V6 n \<Rightarrow> n = 0)"

section \<open>Reading\<close>

text \<open>
  The parser of \<open>core::net\<close>: a number of at most \<open>maxd\<close> digits, with or without
  leading zeros, below \<open>bound\<close>; the rest of the text is returned.
\<close>

definition read_number ::
  "(char \<Rightarrow> nat option) \<Rightarrow> nat \<Rightarrow> nat \<Rightarrow> bool \<Rightarrow> nat \<Rightarrow> string \<Rightarrow> (nat \<times> string) option" where
  "read_number val radix maxd zeros bound s =
     (let ds = takeWhile (\<lambda>c. val c \<noteq> None) s; rest = dropWhile (\<lambda>c. val c \<noteq> None) s in
      if ds = [] \<or> maxd < length ds \<or> (\<not> zeros \<and> hd ds = CHR ''0'' \<and> 1 < length ds) then None
      else (case digits_val val radix 0 ds of
              None \<Rightarrow> None | Some n \<Rightarrow> if n < bound then Some (n, rest) else None))"

definition read_octet :: "string \<Rightarrow> (nat \<times> string) option" where
  "read_octet s = read_number digit_val 10 3 False 256 s"

definition read_dot_octet :: "string \<Rightarrow> (nat \<times> string) option" where
  "read_dot_octet s = (case strip_prefix ''.'' s of None \<Rightarrow> None | Some t \<Rightarrow> read_octet t)"

definition read_ipv4 :: "string \<Rightarrow> (u32 \<times> string) option" where
  "read_ipv4 s =
     (case read_octet s of None \<Rightarrow> None | Some (a, s1) \<Rightarrow>
      (case read_dot_octet s1 of None \<Rightarrow> None | Some (b, s2) \<Rightarrow>
      (case read_dot_octet s2 of None \<Rightarrow> None | Some (c, s3) \<Rightarrow>
      (case read_dot_octet s3 of None \<Rightarrow> None | Some (d, s4) \<Rightarrow>
         Some (of_nat (((a * 256 + b) * 256 + c) * 256 + d), s4)))))"

text \<open>\<open>read_separator\<close>: a colon in front of every group but the first.\<close>

definition read_sep :: "nat \<Rightarrow> (string \<Rightarrow> ('a \<times> string) option) \<Rightarrow> string \<Rightarrow> ('a \<times> string) option" where
  "read_sep i p s =
     (if i = 0 then p s else (case strip_prefix '':'' s of None \<Rightarrow> None | Some t \<Rightarrow> p t))"

text \<open>
  \<open>read_groups\<close>: up to \<open>limit\<close> groups from group \<open>i\<close> on; an embedded IPv4
  address takes two. The result is the groups read, whether they end in an IPv4 address, and
  the rest of the text.
\<close>

fun read_groups :: "nat \<Rightarrow> nat \<Rightarrow> string \<Rightarrow> nat list \<times> bool \<times> string" where
  "read_groups i 0 s = ([], False, s)"
| "read_groups i (Suc left) s =
     (case (if left = 0 then None else read_sep i read_ipv4 s) of
        Some (v, r) \<Rightarrow> ([unat v div 65536, unat v mod 65536], True, r)
      | None \<Rightarrow>
          (case read_sep i (read_number hex_val 16 4 True 65536) s of
             None \<Rightarrow> ([], False, s)
           | Some (g, r) \<Rightarrow>
               (let (gs, v4, r') = read_groups (Suc i) left r in (g # gs, v4, r'))))"

fun groups_val :: "nat list \<Rightarrow> nat" where
  "groups_val gs = foldl (\<lambda>acc g. acc * 65536 + g) 0 gs"

definition read_ipv6 :: "string \<Rightarrow> (u128 \<times> string) option" where
  "read_ipv6 s =
     (let (head, v4, r) = read_groups 0 8 s in
      if length head = 8 then Some (of_nat (groups_val head), r)
      else if v4 then None
      else (case strip_prefix ''::'' r of
              None \<Rightarrow> None
            | Some t \<Rightarrow>
                (let (tail, _, r') = read_groups 0 (8 - (length head + 1)) t in
                 Some (of_nat (groups_val
                   (head @ replicate (8 - length head - length tail) 0 @ tail)), r'))))"

definition parse_ip_addr :: "string \<Rightarrow> ip_addr option" where
  "parse_ip_addr s =
     (case read_ipv4 s of
        Some (a, r) \<Rightarrow> if r = [] then Some (V4 a) else None
      | None \<Rightarrow> (case read_ipv6 s of
          Some (a, r) \<Rightarrow> if r = [] then Some (V6 a) else None
        | None \<Rightarrow> None))"

section \<open>Writing\<close>

definition octet :: "u32 \<Rightarrow> nat \<Rightarrow> nat" where
  "octet a i = unat a div 256 ^ (3 - i) mod 256"

definition show_ipv4 :: "u32 \<Rightarrow> string" where
  "show_ipv4 a = join ''.'' (map (\<lambda>i. show_nat (octet a i)) [0, 1, 2, 3])"

definition segments :: "u128 \<Rightarrow> nat list" where
  "segments a = map (\<lambda>i. unat a div 65536 ^ (7 - i) mod 65536) [0, 1, 2, 3, 4, 5, 6, 7]"

text \<open>The first longest run of zero segments, as start and length.\<close>

fun zero_span :: "nat \<Rightarrow> nat \<times> nat \<Rightarrow> nat \<times> nat \<Rightarrow> nat list \<Rightarrow> nat \<times> nat" where
  "zero_span i best cur [] = best"
| "zero_span i best cur (g # gs) =
     (if g = 0 then
        (let c = (if snd cur = 0 then (i, 1) else (fst cur, snd cur + 1)) in
         zero_span (Suc i) (if snd best < snd c then c else best) c gs)
      else zero_span (Suc i) best (0, 0) gs)"

definition show_ipv6 :: "u128 \<Rightarrow> string" where
  "show_ipv6 a =
     (let segs = segments a; hex = (\<lambda>gs. join '':'' (map show_hex gs)) in
      if take 6 segs = [0, 0, 0, 0, 0, 65535] then
        ''::ffff:'' @ show_ipv4 (of_nat (unat a mod 2 ^ 32))
      else
        (let (start, n) = zero_span 0 (0, 0) (0, 0) segs in
         if 1 < n then hex (take start segs) @ ''::'' @ hex (drop (start + n) segs)
         else hex segs))"

definition show_ip :: "ip_addr \<Rightarrow> string" where
  "show_ip a = (case a of V4 n \<Rightarrow> show_ipv4 n | V6 n \<Rightarrow> show_ipv6 n)"

section \<open>The IPv4 round trip\<close>

lemma show_nat_short:
  assumes "n < 256"
  shows "length (show_nat n) \<le> 3 \<and> (hd (show_nat n) = CHR ''0'' \<longrightarrow> length (show_nat n) = 1)"
proof -
  consider "n < 10" | "10 \<le> n" "n < 100" | "100 \<le> n" "n < 1000" using assms by linarith
  then show ?thesis
  proof cases
    case 1
    then show ?thesis by (simp add: show_nat_def show_radix.simps)
  next
    case 2
    then have "show_nat n = [digit_char (n div 10), digit_char (n mod 10)]"
      by (simp add: show_nat_def show_radix.simps)
    moreover have "digit_char (n div 10) \<noteq> CHR ''0''"
    proof
      assume "digit_char (n div 10) = CHR ''0''"
      moreover have "n div 10 < 10" "0 < n div 10" using 2 by auto
      ultimately have "digit_val (CHR ''0'') = Some (n div 10)" by (metis digit_val_digit_char)
      with \<open>0 < n div 10\<close> show False by (simp add: digit_val_def byte_of_def)
    qed
    ultimately show ?thesis by simp
  next
    case 3
    then have "n div 10 div 10 < 10" and "\<not> n div 10 < 10" by auto
    with 3 have "show_nat n = [digit_char (n div 10 div 10), digit_char (n div 10 mod 10), digit_char (n mod 10)]"
      by (simp add: show_nat_def show_radix.simps)
    moreover have "digit_char (n div 10 div 10) \<noteq> CHR ''0''"
    proof
      assume "digit_char (n div 10 div 10) = CHR ''0''"
      moreover have "n div 10 div 10 < 10" "0 < n div 10 div 10" using 3 by auto
      ultimately have "digit_val (CHR ''0'') = Some (n div 10 div 10)"
        by (metis digit_val_digit_char)
      with \<open>0 < n div 10 div 10\<close> show False by (simp add: digit_val_def byte_of_def)
    qed
    ultimately show ?thesis by simp
  qed
qed

lemma digit_val_show_nat: "c \<in> set (show_nat n) \<Longrightarrow> digit_val c \<noteq> None"
  by (auto simp: digit_val_def dest: show_nat_digit)

lemma read_octet_show:
  assumes "n < 256" and "r = [] \<or> digit_val (hd r) = None"
  shows "read_octet (show_nat n @ r) = Some (n, r)"
proof -
  have tw: "takeWhile (\<lambda>c. digit_val c \<noteq> None) (show_nat n @ r) = show_nat n"
    and dw: "dropWhile (\<lambda>c. digit_val c \<noteq> None) (show_nat n @ r) = r"
    using assms(2) digit_val_show_nat
    by (auto simp: takeWhile_append dropWhile_append takeWhile_eq_Nil_iff dropWhile_eq_self_iff)
  have "digits_val digit_val 10 0 (show_nat n) = Some n"
    using digits_val_show_radix [of 10 digit_val n] by (simp add: show_nat_def digit_val_digit_char)
  with assms(1) show ?thesis
    using show_nat_short [OF assms(1)]
    unfolding read_octet_def read_number_def tw dw Let_def by simp
qed

lemma octet_less: "octet a i < 256"
  by (simp add: octet_def)

lemma octets_val:
  "((octet a 0 * 256 + octet a 1) * 256 + octet a 2) * 256 + octet a 3 = unat a"
proof -
  define x where "x = unat a"
  have "x < 4294967296" using unsigned_less [of a] by (simp add: x_def)
  then have top: "x div 16777216 mod 256 = x div 16777216" by (simp add: less_mult_imp_div_less)
  have "x = x div 256 * 256 + x mod 256"
    and "x div 256 = x div 65536 * 256 + x div 256 mod 256"
    and "x div 65536 = x div 16777216 * 256 + x div 65536 mod 256"
    using div_mult_mod_eq [of "x div 256" 256] div_mult_mod_eq [of "x div 65536" 256]
    by (simp_all flip: div_mult2_eq)
  then show ?thesis using top by (simp add: octet_def flip: x_def)
qed

lemma octets_word:
  "(of_nat (((octet a 0 * 256 + octet a 1) * 256 + octet a 2) * 256 + octet a 3) :: u32) = a"
  by (simp only: octets_val) simp

lemma read_ipv4_show [text_simps]:
  assumes "r = [] \<or> digit_val (hd r) = None"
  shows "read_ipv4 (show_ipv4 a @ r) = Some (a, r)"
proof -
  have dot: "digit_val (CHR ''.'') = None" by (simp add: digit_val_def byte_of_def)
  have "show_ipv4 a @ r = show_nat (octet a 0) @ ''.'' @ show_nat (octet a 1) @ ''.'' @
      show_nat (octet a 2) @ ''.'' @ show_nat (octet a 3) @ r"
    by (simp add: show_ipv4_def)
  then show ?thesis
    using assms octets_word [of a]
    by (simp add: read_ipv4_def read_dot_octet_def read_octet_show octet_less dot strip_prefix_Cons)
qed

lemma parse_ip_addr_show_ipv4 [text_simps]: "parse_ip_addr (show_ip (V4 a)) = Some (V4 a)"
  using read_ipv4_show [of "[]" a] by (simp add: parse_ip_addr_def show_ip_def)

lemma show_ipv4_chars: "c \<in> set (show_ipv4 a) \<Longrightarrow> c = CHR ''.'' \<or> (48 \<le> byte_of c \<and> byte_of c \<le> 57)"
  by (auto simp: show_ipv4_def dest: show_nat_digit)

lemma vtext_show_ipv4 [simp, printable_intros]: "vtext (show_ipv4 a)"
  by (auto simp: list_all_iff vchar_def byte_of_def dest!: show_ipv4_chars)

lemma show_ipv4_nonempty [simp]: "show_ipv4 a \<noteq> []"
  by (simp add: show_ipv4_def)

end
