(* ===== verification/SipUri.thy ===== *)
theory SipUri
  imports IpText
begin

text \<open>
  The model of \<open>src/sip/uri.rs\<close>: SIP URIs, name-addr header values, their parsers and
  their \<open>Display\<close>. The laws the rest of the stack relies on are the parameter-store laws
  (\<open>param\<close> after \<open>set_param\<close>, stated once in the locale \<open>param_store\<close>) and
  the round trips: what is written out is read back as the same value.
\<close>

section \<open>Parameters\<close>

type_synonym params = "(string \<times> string option) list"

definition find_param :: "string \<Rightarrow> (string \<times> 'v) list \<Rightarrow> 'v option" where
  "find_param name ps =
     (case find (\<lambda>(k, _). eq_ignore_ascii_case k name) ps of
        Some (_, v) \<Rightarrow> Some v | None \<Rightarrow> None)"

definition drop_param :: "string \<Rightarrow> (string \<times> 'v) list \<Rightarrow> (string \<times> 'v) list" where
  "drop_param name ps = filter (\<lambda>(k, _). \<not> eq_ignore_ascii_case k name) ps"

text \<open>One \<open>;name\<close> or \<open>;name=value\<close> of a URI or a Via.\<close>

definition parse_param :: "string \<Rightarrow> string \<times> string option" where
  "parse_param p = (case split_once (CHR ''='') p of
     Some (k, v) \<Rightarrow> (to_ascii_lowercase k, Some v)
   | None \<Rightarrow> (to_ascii_lowercase p, None))"

definition show_param :: "string \<times> string option \<Rightarrow> string" where
  "show_param p = (case p of
     (k, Some v) \<Rightarrow> CHR '';'' # k @ CHR ''='' # v
   | (k, None) \<Rightarrow> CHR '';'' # k)"

section \<open>Hosts and ports\<close>

definition host_for_wire :: "string \<Rightarrow> string" where
  "host_for_wire host =
     (if CHR '':'' \<in> set host \<and> \<not> starts_with ''['' host
      then CHR ''['' # host @ '']'' else host)"

definition split_plain_host_port :: "string \<Rightarrow> string \<times> u16 option" where
  "split_plain_host_port s =
     (case rsplit_once (CHR '':'') s of
        Some (h, p) \<Rightarrow>
          (if CHR '':'' \<notin> set h then
             (case parse_u16 p of Some port \<Rightarrow> (h, Some port) | None \<Rightarrow> (s, None))
           else (s, None))
      | None \<Rightarrow> (s, None))"

definition split_host_port :: "string \<Rightarrow> string \<times> u16 option" where
  "split_host_port s0 =
     (let s = trim s0 in
      case strip_prefix ''['' s of
        Some rest \<Rightarrow>
          (case split_once (CHR '']'') rest of
             Some (host, after) \<Rightarrow>
               (host, (case strip_prefix '':'' after of
                         Some p \<Rightarrow> parse_u16 p | None \<Rightarrow> None))
           | None \<Rightarrow> split_plain_host_port s)
      | None \<Rightarrow> split_plain_host_port s)"

section \<open>URIs\<close>

record uri =
  u_scheme :: string
  u_user :: "string option"
  u_password :: "string option"
  u_host :: string
  u_port :: "u16 option"
  u_params :: params
  u_headers :: "(string \<times> string) list"

definition uri_new :: "string option \<Rightarrow> string \<Rightarrow> u16 option \<Rightarrow> uri" where
  "uri_new user host port =
     \<lparr>u_scheme = ''sip'', u_user = user, u_password = None, u_host = host, u_port = port,
      u_params = [], u_headers = []\<rparr>"

definition cut :: "char \<Rightarrow> string \<Rightarrow> string \<times> string option" where
  "cut c s = (case split_once c s of Some (a, b) \<Rightarrow> (a, Some b) | None \<Rightarrow> (s, None))"

definition parse_uri_params :: "string option \<Rightarrow> params" where
  "parse_uri_params ps = (case ps of None \<Rightarrow> []
     | Some s \<Rightarrow> map parse_param (filter (\<lambda>p. p \<noteq> []) (split_on (CHR '';'') s)))"

definition parse_uri_headers :: "string option \<Rightarrow> (string \<times> string) list" where
  "parse_uri_headers hs = (case hs of None \<Rightarrow> []
     | Some s \<Rightarrow> List.map_filter (split_once (CHR ''=''))
         (filter (\<lambda>h. h \<noteq> []) (split_on (CHR ''&'') s)))"

definition uri_parse :: "string \<Rightarrow> uri option" where
  "uri_parse s =
     (case split_once (CHR '':'') (trim s) of
        None \<Rightarrow> None
      | Some (scheme0, rest0) \<Rightarrow>
          (let scheme = to_ascii_lowercase (trim scheme0) in
           if scheme \<noteq> ''sip'' \<and> scheme \<noteq> ''sips'' \<and> scheme \<noteq> ''tel'' then None
           else
             (let (rest, headers_str) = cut (CHR ''?'') rest0;
                  (userinfo_host, params_str) = cut (CHR '';'') rest;
                  (userinfo, hostport) =
                    (case rsplit_once (CHR ''@'') userinfo_host of
                       Some (u, h) \<Rightarrow> (Some u, h) | None \<Rightarrow> (None, userinfo_host));
                  (user0, password) =
                    (case userinfo of
                       Some ui \<Rightarrow> (case cut (CHR '':'') ui of (u, p) \<Rightarrow> (Some u, p))
                     | None \<Rightarrow> (None, None));
                  (user, host, port) =
                    (if scheme = ''tel'' then (Some (trim hostport), [], None)
                     else (case split_host_port hostport of (h, p) \<Rightarrow> (user0, h, p)))
              in Some \<lparr>u_scheme = scheme, u_user = user, u_password = password, u_host = host,
                       u_port = port, u_params = parse_uri_params params_str,
                       u_headers = parse_uri_headers headers_str\<rparr>)))"

definition uri_param :: "uri \<Rightarrow> string \<Rightarrow> string option" where
  "uri_param u name = (case find_param name (u_params u) of Some v \<Rightarrow> v | None \<Rightarrow> None)"

definition uri_set_param :: "uri \<Rightarrow> string \<Rightarrow> string option \<Rightarrow> uri" where
  "uri_set_param u name v = u\<lparr>u_params := drop_param name (u_params u) @ [(name, v)]\<rparr>"

definition uri_bare :: "uri \<Rightarrow> uri" where
  "uri_bare u = u\<lparr>u_password := None, u_params := [], u_headers := []\<rparr>"

definition show_userinfo :: "uri \<Rightarrow> string" where
  "show_userinfo u = (case u_user u of None \<Rightarrow> []
     | Some us \<Rightarrow> us @ (case u_password u of None \<Rightarrow> [] | Some p \<Rightarrow> CHR '':'' # p)
                    @ (if u_host u \<noteq> [] then ''@'' else []))"

definition show_port :: "u16 option \<Rightarrow> string" where
  "show_port p = (case p of None \<Rightarrow> [] | Some n \<Rightarrow> CHR '':'' # show_nat (unat n))"

definition show_uri_headers :: "(string \<times> string) list \<Rightarrow> string" where
  "show_uri_headers hs =
     (if hs = [] then [] else CHR ''?'' # join ''&'' (map (\<lambda>(k, v). k @ CHR ''='' # v) hs))"

definition uri_show :: "uri \<Rightarrow> string" where
  "uri_show u = u_scheme u @ '':'' @ show_userinfo u @ host_for_wire (u_host u)
     @ show_port (u_port u) @ concat (map show_param (u_params u)) @ show_uri_headers (u_headers u)"

section \<open>Name-addr values\<close>

record name_addr =
  na_display :: "string option"
  na_uri :: uri
  na_params :: "(string \<times> string) list"

definition name_addr_new :: "uri \<Rightarrow> name_addr" where
  "name_addr_new u = \<lparr>na_display = None, na_uri = u, na_params = []\<rparr>"

text \<open>The display name and what follows it.\<close>

definition na_split_display :: "string \<Rightarrow> (string option \<times> string) option" where
  "na_split_display s =
     (case strip_prefix [CHR 0x22] s of
        Some stripped \<Rightarrow>
          map_option (\<lambda>(d, after). (Some d, trim_start after)) (split_once (CHR 0x22) stripped)
      | None \<Rightarrow>
          if starts_with ''<'' s then Some (None, s)
          else (case split_once (CHR ''<'') s of
                  Some (d0, after) \<Rightarrow>
                    (let d = trim d0 in
                     Some (if d = [] then None else Some d, CHR ''<'' # after))
                | None \<Rightarrow> Some (None, s)))"

text \<open>The URI and the text of the header parameters.\<close>

definition na_split_params :: "string \<Rightarrow> (string \<times> string) option" where
  "na_split_params rest =
     (case strip_prefix ''<'' rest of
        Some r \<Rightarrow>
          map_option (\<lambda>(u, after). (u, trim_start after)) (split_once (CHR ''>'') r)
      | None \<Rightarrow>
          Some (case split_once (CHR '';'') rest of Some (u, p) \<Rightarrow> (u, p) | None \<Rightarrow> (rest, [])))"

definition parse_na_param :: "string \<Rightarrow> string \<times> string" where
  "parse_na_param p = (case split_once (CHR ''='') p of
     Some (k, v) \<Rightarrow> (to_ascii_lowercase (trim k), trim v)
   | None \<Rightarrow> (to_ascii_lowercase p, []))"

definition parse_na_params :: "string \<Rightarrow> (string \<times> string) list" where
  "parse_na_params s =
     map parse_na_param (filter (\<lambda>p. p \<noteq> [])
       (map trim (split_on (CHR '';'') (trim_start_matches (\<lambda>c. c = CHR '';'') s))))"

definition name_addr_parse :: "string \<Rightarrow> name_addr option" where
  "name_addr_parse s =
     (case na_split_display (trim s) of
        None \<Rightarrow> None
      | Some (display, rest) \<Rightarrow>
          (case na_split_params rest of
             None \<Rightarrow> None
           | Some (uri_str, params_str) \<Rightarrow>
               (case uri_parse uri_str of
                  None \<Rightarrow> None
                | Some u \<Rightarrow> Some \<lparr>na_display = display, na_uri = u,
                                  na_params = parse_na_params params_str\<rparr>)))"

definition na_param :: "name_addr \<Rightarrow> string \<Rightarrow> string option" where
  "na_param n name = find_param name (na_params n)"

definition na_tag :: "name_addr \<Rightarrow> string option" where
  "na_tag n = na_param n ''tag''"

definition na_set_param :: "name_addr \<Rightarrow> string \<Rightarrow> string option \<Rightarrow> name_addr" where
  "na_set_param n name v = n\<lparr>na_params := drop_param name (na_params n)
     @ [(to_ascii_lowercase name, (case v of Some x \<Rightarrow> x | None \<Rightarrow> []))]\<rparr>"

definition na_with_tag :: "name_addr \<Rightarrow> string \<Rightarrow> name_addr" where
  "na_with_tag n tag = na_set_param n ''tag'' (Some tag)"

definition show_na_param :: "string \<times> string \<Rightarrow> string" where
  "show_na_param p = (case p of (k, v) \<Rightarrow>
     if v = [] then CHR '';'' # k else CHR '';'' # k @ CHR ''='' # v)"

definition name_addr_show :: "name_addr \<Rightarrow> string" where
  "name_addr_show n =
     (case na_display n of None \<Rightarrow> [] | Some d \<Rightarrow> [CHR 0x22] @ d @ [CHR 0x22, CHR '' ''])
     @ ''<'' @ uri_show (na_uri n) @ ''>'' @ concat (map show_na_param (na_params n))"

section \<open>The parameter-store contract\<close>

text \<open>
  What every user of \<open>param\<close>/\<open>set_param\<close> relies on, whether the parameters belong to
  a URI, a name-addr or a Via: the names are compared ignoring ASCII case, a stored value is read
  back, other parameters are untouched, and a store leaves no older copy behind.
\<close>

locale param_store =
  fixes get :: "'s \<Rightarrow> string \<Rightarrow> string option"
    and set :: "'s \<Rightarrow> string \<Rightarrow> string \<Rightarrow> 's"
    and copies :: "'s \<Rightarrow> string \<Rightarrow> nat"
  assumes get_set: "get (set s n v) n = Some v"
    and get_set_other: "\<not> eq_ignore_ascii_case n k \<Longrightarrow> get (set s n v) k = get s k"
    and get_ignore_case: "eq_ignore_ascii_case n k \<Longrightarrow> get s n = get s k"
    and copies_set: "copies (set s n v) n = 1"
    and copies_set_other: "\<not> eq_ignore_ascii_case n k \<Longrightarrow> copies (set s n v) k = copies s k"
begin

lemma get_set_any_case:
  "eq_ignore_ascii_case n k \<Longrightarrow> get (set s n v) k = Some v"
  by (metis get_ignore_case get_set)

lemma set_overwrites:
  "eq_ignore_ascii_case n k \<Longrightarrow> get (set (set s n v) k w) n = Some w"
  by (metis get_ignore_case get_set)

lemma set_commutes:
  assumes "\<not> eq_ignore_ascii_case n k"
  shows "get (set (set s n v) k w) m = get (set (set s k w) n v) m"
proof -
  have nk: "\<not> eq_ignore_ascii_case k n" using assms eq_ignore_ascii_case_sym by blast
  consider "eq_ignore_ascii_case n m" | "eq_ignore_ascii_case k m"
    | "\<not> eq_ignore_ascii_case n m" "\<not> eq_ignore_ascii_case k m" by blast
  then show ?thesis
  proof cases
    case 1
    then have "\<not> eq_ignore_ascii_case k m"
      using assms eq_ignore_ascii_case_sym eq_ignore_ascii_case_trans by blast
    with 1 show ?thesis by (simp add: get_set_other get_set_any_case)
  next
    case 2
    then have "\<not> eq_ignore_ascii_case n m"
      using assms eq_ignore_ascii_case_sym eq_ignore_ascii_case_trans by blast
    with 2 show ?thesis by (simp add: get_set_other get_set_any_case)
  qed (simp add: get_set_other)
qed

lemma set_twice_one_copy: "copies (set (set s n v) n w) n = 1"
  by (rule copies_set)

end

lemma find_param_drop_same: "eq_ignore_ascii_case n k \<Longrightarrow> find_param k (drop_param n ps) = None"
  unfolding find_param_def drop_param_def
  by (induction ps) (auto simp: eq_ignore_ascii_case_def)

lemma find_param_drop_other:
  "\<not> eq_ignore_ascii_case n k \<Longrightarrow> find_param k (drop_param n ps) = find_param k ps"
  unfolding find_param_def drop_param_def
  by (induction ps) (auto simp: eq_ignore_ascii_case_def)

lemma find_param_append:
  "find_param k (ps @ qs) = (case find_param k ps of Some v \<Rightarrow> Some v | None \<Rightarrow> find_param k qs)"
  unfolding find_param_def by (induction ps) auto

lemma find_param_single:
  "find_param k [(n, v)] = (if eq_ignore_ascii_case n k then Some v else None)"
  by (simp add: find_param_def)

lemma find_param_cong: "eq_ignore_ascii_case n k \<Longrightarrow> find_param n ps = find_param k ps"
  by (simp add: find_param_def eq_ignore_ascii_case_def)

definition count_param :: "string \<Rightarrow> (string \<times> 'v) list \<Rightarrow> nat" where
  "count_param name ps = length (filter (\<lambda>(k, _). eq_ignore_ascii_case k name) ps)"

lemma count_param_drop_same: "count_param n (drop_param n ps) = 0"
  by (auto simp: count_param_def drop_param_def filter_empty_conv)

lemma count_param_drop_other:
  "\<not> eq_ignore_ascii_case n k \<Longrightarrow> count_param k (drop_param n ps) = count_param k ps"
  unfolding count_param_def drop_param_def
  by (induction ps) (auto simp: eq_ignore_ascii_case_def)

lemma count_param_append: "count_param k (ps @ qs) = count_param k ps + count_param k qs"
  by (simp add: count_param_def)

lemma count_param_single:
  "count_param k [(n, v)] = (if eq_ignore_ascii_case n k then 1 else 0)"
  by (simp add: count_param_def)

lemmas param_list_simps = find_param_drop_same find_param_drop_other find_param_append
  find_param_single count_param_drop_same count_param_drop_other count_param_append
  count_param_single

lemma uri_param_cong: "eq_ignore_ascii_case n k \<Longrightarrow> uri_param u n = uri_param u k"
  by (simp add: uri_param_def find_param_cong [of n k])

lemma na_param_cong: "eq_ignore_ascii_case n k \<Longrightarrow> na_param a n = na_param a k"
  by (simp add: na_param_def find_param_cong [of n k])

interpretation up: param_store uri_param "\<lambda>u n v. uri_set_param u n (Some v)"
    "\<lambda>u n. count_param n (u_params u)"
proof (unfold_locales, goal_cases)
  case (3 n k s)
  then show ?case by (rule uri_param_cong)
qed (auto simp: uri_param_def uri_set_param_def param_list_simps split: option.splits)

interpretation np: param_store na_param "\<lambda>a n v. na_set_param a n (Some v)"
    "\<lambda>a n. count_param n (na_params a)"
proof (unfold_locales, goal_cases)
  case (3 n k s)
  then show ?case by (rule na_param_cong)
qed (auto simp: na_param_def na_set_param_def param_list_simps split: option.splits)

section \<open>Hosts: the wire form is read back\<close>

lemma vtext_notin: "vtext s \<Longrightarrow> \<not> vchar c \<Longrightarrow> c \<notin> set s"
  by (auto simp: list_all_iff)

lemma vchar_punct [simp]:
  "vchar (CHR '':'')" "vchar (CHR '';'')" "vchar (CHR ''='')" "vchar (CHR ''?'')"
  "vchar (CHR ''@'')" "vchar (CHR ''['')" "vchar (CHR '']'')" "vchar (CHR ''&'')"
  "vchar (CHR ''<'')" "vchar (CHR ''>'')" "vchar (CHR 0x22)" "vchar (CHR '','')"
  "vchar (CHR ''.'')" "vchar (CHR ''/'')"
  by (simp_all add: vchar_def byte_of_def)

lemma vtext_show_port [simp]: "vtext (show_port p)"
  by (simp add: show_port_def split: option.splits)

definition wf_host :: "string \<Rightarrow> bool" where
  "wf_host h \<longleftrightarrow> vtext h \<and> h \<noteq> [] \<and> set h \<inter> set ''[]@;?><'' = {}"

lemma split_host_port_show:
  assumes "wf_host h"
  shows "split_host_port (host_for_wire h @ show_port p) = (h, p)"
proof -
  have vt: "vtext (host_for_wire h @ show_port p)"
    using assms by (simp add: host_for_wire_def wf_host_def)
  have colon: "CHR '':'' \<notin> set (show_nat n)" for n
    by (rule show_nat_notin) (simp add: byte_of_def)
  show ?thesis
  proof (cases "CHR '':'' \<in> set h")
    case True
    then have w: "host_for_wire h = CHR ''['' # h @ '']''"
      using assms by (cases h) (auto simp: host_for_wire_def starts_with_def wf_host_def)
    have "CHR '']'' \<notin> set h" using assms by (auto simp: wf_host_def)
    then show ?thesis using vt unfolding w
      by (cases p) (simp_all add: split_host_port_def trim_vtext strip_prefix_Cons strip_prefix_Nil
          split_once_append show_port_def parse_u16_show)
  next
    case False
    then have w: "host_for_wire h = h" by (simp add: host_for_wire_def)
    have nb: "strip_prefix ''['' (h @ show_port p) = None"
      using assms by (cases h) (auto simp: wf_host_def strip_prefix_Cons)
    have "split_plain_host_port (h @ show_port p) = (h, p)"
      using False colon by (cases p)
        (auto simp: split_plain_host_port_def show_port_def rsplit_once_None rsplit_once_append
           parse_u16_show)
    then show ?thesis using vt nb unfolding w
      by (simp add: split_host_port_def trim_vtext)
  qed
qed

section \<open>URIs: what is written out is read back\<close>

text \<open>
  Well-formed values: printable text without the delimiters of the position it stands in,
  parameter names in lower case (the parser lowers them), and a \<open>tel:\<close> URI with
  everything in the user part.
\<close>

definition wf_param :: "string \<times> string option \<Rightarrow> bool" where
  "wf_param p = (case p of (k, v) \<Rightarrow>
     vtext k \<and> to_ascii_lowercase k = k \<and> set k \<inter> set '';=?<>'' = {} \<and> (k \<noteq> [] \<or> v \<noteq> None) \<and>
     (case v of None \<Rightarrow> True | Some x \<Rightarrow> vtext x \<and> set x \<inter> set '';?<>'' = {}))"

definition wf_uri_header :: "string \<times> string \<Rightarrow> bool" where
  "wf_uri_header h = (case h of (k, v) \<Rightarrow>
     vtext k \<and> set k \<inter> set ''=&<>'' = {} \<and> vtext v \<and> set v \<inter> set ''&<>'' = {})"

definition wf_userinfo :: "uri \<Rightarrow> bool" where
  "wf_userinfo u = (case u_user u of
       None \<Rightarrow> u_password u = None
     | Some us \<Rightarrow> vtext us \<and> set us \<inter> set '':;?<>'' = {} \<and>
         (case u_password u of None \<Rightarrow> True
          | Some pw \<Rightarrow> vtext pw \<and> set pw \<inter> set '';?<>'' = {}))"

definition wf_authority :: "uri \<Rightarrow> bool" where
  "wf_authority u =
     (if u_scheme u = ''tel'' then
        u_host u = [] \<and> u_port u = None \<and> u_password u = None \<and>
        (case u_user u of None \<Rightarrow> False
         | Some us \<Rightarrow> vtext us \<and> set us \<inter> set ''@;?<>'' = {})
      else (u_scheme u = ''sip'' \<or> u_scheme u = ''sips'') \<and> wf_host (u_host u) \<and> wf_userinfo u)"

definition wf_uri :: "uri \<Rightarrow> bool" where
  "wf_uri u \<longleftrightarrow> wf_authority u \<and> list_all wf_param (u_params u) \<and> list_all wf_uri_header (u_headers u)"

definition param_body :: "string \<times> string option \<Rightarrow> string" where
  "param_body p = (case p of (k, Some v) \<Rightarrow> k @ CHR ''='' # v | (k, None) \<Rightarrow> k)"

lemma show_param_body: "show_param p = CHR '';'' # param_body p"
  by (auto simp: show_param_def param_body_def split: prod.splits option.splits)

lemma concat_prefixed:
  "concat (map (\<lambda>x. c # f x) xs) = (if xs = [] then [] else c # join [c] (map f xs))"
  by (induction xs rule: induct_list012) auto

lemma concat_show_param:
  "concat (map show_param ps) = (if ps = [] then [] else CHR '';'' # join '';'' (map param_body ps))"
proof -
  have "show_param = (\<lambda>p. CHR '';'' # param_body p)" by (rule ext) (rule show_param_body)
  then show ?thesis using concat_prefixed [of "CHR '';''" param_body ps] by simp
qed

lemma join_notin:
  "c \<notin> set sep \<Longrightarrow> \<forall>x \<in> set xs. c \<notin> set x \<Longrightarrow> c \<notin> set (join sep xs)"
  by (induction xs rule: induct_list012) auto

lemma vtext_join: "vtext sep \<Longrightarrow> list_all vtext xs \<Longrightarrow> vtext (join sep xs)"
  by (induction xs rule: induct_list012) auto

lemma param_body_wf:
  assumes "wf_param p"
  shows "vtext (param_body p)" and "CHR '';'' \<notin> set (param_body p)" and "CHR ''?'' \<notin> set (param_body p)"
    and "CHR ''<'' \<notin> set (param_body p)" and "CHR ''>'' \<notin> set (param_body p)"
    and "param_body p \<noteq> []" and "parse_param (param_body p) = p"
  using assms
  by (auto simp: wf_param_def param_body_def parse_param_def split_once_append split_once_None
      split: option.splits)

lemma param_bodies_wf:
  assumes "list_all wf_param ps"
  shows "list_all vtext (map param_body ps)"
    and "\<forall>x \<in> set (map param_body ps). CHR ''<'' \<notin> set x \<and> CHR ''>'' \<notin> set x"
  using assms by (induction ps) (simp_all add: param_body_wf)

lemma parse_uri_params_show:
  assumes "list_all wf_param ps" and "ps \<noteq> []"
  shows "parse_uri_params (Some (join '';'' (map param_body ps))) = ps"
proof -
  have "split_on (CHR '';'') (join '';'' (map param_body ps)) = map param_body ps"
    using assms by (intro split_on_join) (auto simp: list_all_iff param_body_wf)
  moreover have "filter (\<lambda>p. p \<noteq> []) (map param_body ps) = map param_body ps"
    using assms by (auto simp: list_all_iff param_body_wf filter_id_conv)
  ultimately show ?thesis
    using assms by (auto simp: parse_uri_params_def list_all_iff param_body_wf map_idI)
qed

definition header_body :: "string \<times> string \<Rightarrow> string" where
  "header_body h = (case h of (k, v) \<Rightarrow> k @ CHR ''='' # v)"

lemma show_uri_headers_body:
  "show_uri_headers hs = (if hs = [] then [] else CHR ''?'' # join ''&'' (map header_body hs))"
proof -
  have "header_body = (\<lambda>(k, v). k @ CHR ''='' # v)"
    by (simp add: fun_eq_iff header_body_def)
  then show ?thesis by (simp add: show_uri_headers_def)
qed

lemma header_body_wf:
  assumes "wf_uri_header h"
  shows "vtext (header_body h)" and "CHR ''&'' \<notin> set (header_body h)"
    and "CHR ''<'' \<notin> set (header_body h)" and "CHR ''>'' \<notin> set (header_body h)"
    and "header_body h \<noteq> []" and "split_once (CHR ''='') (header_body h) = Some h"
  using assms by (auto simp: wf_uri_header_def header_body_def split_once_append)

lemma header_bodies_wf:
  assumes "list_all wf_uri_header hs"
  shows "list_all vtext (map header_body hs)"
    and "\<forall>x \<in> set (map header_body hs). CHR ''<'' \<notin> set x \<and> CHR ''>'' \<notin> set x"
  using assms by (induction hs) (simp_all add: header_body_wf)

lemma parse_uri_headers_show:
  assumes "list_all wf_uri_header hs" and "hs \<noteq> []"
  shows "parse_uri_headers (Some (join ''&'' (map header_body hs))) = hs"
proof -
  have "split_on (CHR ''&'') (join ''&'' (map header_body hs)) = map header_body hs"
    using assms by (intro split_on_join) (auto simp: list_all_iff header_body_wf)
  moreover have "filter (\<lambda>p. p \<noteq> []) (map header_body hs) = map header_body hs"
    using assms by (auto simp: list_all_iff header_body_wf filter_id_conv)
  moreover have "List.map_filter (split_once (CHR ''='')) (map header_body hs) = hs"
    using assms(1) by (induction hs) (simp_all add: header_body_wf map_filter_simps)
  ultimately show ?thesis by (simp add: parse_uri_headers_def)
qed

text \<open>The authority part: everything between the scheme and the parameters.\<close>

definition show_authority :: "uri \<Rightarrow> string" where
  "show_authority u = show_userinfo u @ host_for_wire (u_host u) @ show_port (u_port u)"

lemma uri_show_authority:
  "uri_show u = u_scheme u @ CHR '':'' # (show_authority u @ concat (map show_param (u_params u)) @
     show_uri_headers (u_headers u))"
  by (simp add: uri_show_def show_authority_def)

lemma set_show_port: "set (show_port p) \<inter> set ''@;?<>'' = {}"
proof -
  have "c \<notin> set (show_nat n)" if "c \<in> set ''@;?<>''" for c n
    using that by (intro show_nat_notin) (auto simp: byte_of_def)
  then show ?thesis by (auto simp: show_port_def split: option.splits)
qed

lemma authority_chars:
  assumes "wf_authority u"
  shows "vtext (show_authority u)" and "set (show_authority u) \<inter> set '';?<>'' = {}"
  using assms set_show_port [of "u_port u"]
  by (auto simp: wf_authority_def show_authority_def show_userinfo_def wf_userinfo_def wf_host_def
      host_for_wire_def starts_with_def split: option.splits if_splits)

lemma cut_append [text_simps]: "c \<notin> set a \<Longrightarrow> cut c (a @ c # b) = (a, Some b)"
  by (simp add: cut_def split_once_append)

lemma cut_none [text_simps]: "c \<notin> set a \<Longrightarrow> cut c a = (a, None)"
  by (simp add: cut_def split_once_None)

text \<open>What the parser makes of the authority.\<close>

definition parse_authority :: "string \<Rightarrow> string \<Rightarrow> string option \<times> string option \<times> string \<times> u16 option" where
  "parse_authority scheme userinfo_host =
     (let (userinfo, hostport) =
        (case rsplit_once (CHR ''@'') userinfo_host of
           Some (u, h) \<Rightarrow> (Some u, h) | None \<Rightarrow> (None, userinfo_host));
        (user0, password) =
          (case userinfo of
             Some ui \<Rightarrow> (case cut (CHR '':'') ui of (u, p) \<Rightarrow> (Some u, p))
           | None \<Rightarrow> (None, None));
        (user, host, port) =
          (if scheme = ''tel'' then (Some (trim hostport), [], None)
           else (case split_host_port hostport of (h, p) \<Rightarrow> (user0, h, p)))
      in (user, password, host, port))"

lemma parse_authority_tel:
  assumes "wf_authority u" and "u_scheme u = ''tel''"
  shows "parse_authority (u_scheme u) (show_authority u) =
    (u_user u, u_password u, u_host u, u_port u)"
  using assms
  by (auto simp: wf_authority_def parse_authority_def show_authority_def show_userinfo_def
      host_for_wire_def show_port_def rsplit_once_None trim_vtext split: option.splits)

lemma parse_authority_sip:
  assumes "wf_authority u" and "u_scheme u \<noteq> ''tel''"
  shows "parse_authority (u_scheme u) (show_authority u) =
    (u_user u, u_password u, u_host u, u_port u)"
proof -
  have h: "wf_host (u_host u)" and ui: "wf_userinfo u" using assms by (auto simp: wf_authority_def)
  let ?hp = "host_for_wire (u_host u) @ show_port (u_port u)"
  have at: "CHR ''@'' \<notin> set ?hp"
    using h set_show_port [of "u_port u"] by (auto simp: wf_host_def host_for_wire_def)
  have ne: "u_host u \<noteq> []" using h by (simp add: wf_host_def)
  show ?thesis
  proof (cases "u_user u")
    case None
    with ui have "u_password u = None" by (simp add: wf_userinfo_def)
    with None at assms(2) show ?thesis
      by (simp add: parse_authority_def show_authority_def show_userinfo_def rsplit_once_None
          split_host_port_show [OF h])
  next
    case (Some us)
    then have us: "CHR '':'' \<notin> set us" using ui by (simp add: wf_userinfo_def)
    let ?ui = "us @ (case u_password u of None \<Rightarrow> [] | Some p \<Rightarrow> CHR '':'' # p)"
    have "show_authority u = ?ui @ CHR ''@'' # ?hp"
      using Some ne by (simp add: show_authority_def show_userinfo_def split: option.splits)
    moreover have "rsplit_once (CHR ''@'') (?ui @ CHR ''@'' # ?hp) = Some (?ui, ?hp)"
      by (rule rsplit_once_append [OF at])
    ultimately show ?thesis
      using Some us assms(2) split_host_port_show [OF h, of "u_port u"]
      by (cases "u_password u") (simp_all add: parse_authority_def cut_append cut_none)
  qed
qed

lemma uri_parse_alt:
  "uri_parse s =
     (case split_once (CHR '':'') (trim s) of
        None \<Rightarrow> None
      | Some (scheme0, rest0) \<Rightarrow>
          (let scheme = to_ascii_lowercase (trim scheme0);
               (rest, headers_str) = cut (CHR ''?'') rest0;
               (userinfo_host, params_str) = cut (CHR '';'') rest;
               (user, password, host, port) = parse_authority scheme userinfo_host in
           if scheme \<noteq> ''sip'' \<and> scheme \<noteq> ''sips'' \<and> scheme \<noteq> ''tel'' then None
           else Some \<lparr>u_scheme = scheme, u_user = user, u_password = password, u_host = host,
                       u_port = port, u_params = parse_uri_params params_str,
                       u_headers = parse_uri_headers headers_str\<rparr>))"
  unfolding uri_parse_def parse_authority_def Let_def
  by (auto split: option.splits prod.splits)

lemma uri_show_chars:
  assumes "wf_uri u"
  shows "vtext (uri_show u)" and "set (uri_show u) \<inter> set ''<>'' = {}"
proof -
  have ps: "list_all vtext (map param_body (u_params u))"
    "\<forall>x \<in> set (map param_body (u_params u)). CHR ''<'' \<notin> set x \<and> CHR ''>'' \<notin> set x"
    using assms param_bodies_wf [of "u_params u"] unfolding wf_uri_def by blast+
  have hs: "list_all vtext (map header_body (u_headers u))"
    "\<forall>x \<in> set (map header_body (u_headers u)). CHR ''<'' \<notin> set x \<and> CHR ''>'' \<notin> set x"
    using assms header_bodies_wf [of "u_headers u"] unfolding wf_uri_def by blast+
  have sch: "vtext (u_scheme u)" "set (u_scheme u) \<inter> set ''<>'' = {}"
    using assms by (auto simp: wf_uri_def wf_authority_def vchar_def byte_of_def split: if_splits)
  show "vtext (uri_show u)"
    using sch ps hs authority_chars(1) [of u] assms
    by (simp add: uri_show_authority wf_uri_def concat_show_param show_uri_headers_body vtext_join)
  have "CHR ''<'' \<notin> set (join '';'' (map param_body (u_params u)))"
    "CHR ''>'' \<notin> set (join '';'' (map param_body (u_params u)))"
    "CHR ''<'' \<notin> set (join ''&'' (map header_body (u_headers u)))"
    "CHR ''>'' \<notin> set (join ''&'' (map header_body (u_headers u)))"
    using ps(2) hs(2) by (simp_all add: join_notin)
  then show "set (uri_show u) \<inter> set ''<>'' = {}"
    using sch(2) authority_chars(2) [of u] assms
    by (auto simp: uri_show_authority wf_uri_def concat_show_param show_uri_headers_body
        split: if_splits)
qed

lemma uri_parse_show_aux:
  assumes "wf_uri u"
  shows "uri_parse (uri_show u) = Some u"
proof -
  have au: "wf_authority u" and ps: "list_all wf_param (u_params u)"
    and hs: "list_all wf_uri_header (u_headers u)" using assms by (auto simp: wf_uri_def)
  have sch: "u_scheme u \<in> {''sip'', ''sips'', ''tel''}"
    using au by (auto simp: wf_authority_def split: if_splits)
  then have low: "to_ascii_lowercase (trim (u_scheme u)) = u_scheme u"
    and nocol: "CHR '':'' \<notin> set (u_scheme u)"
    by (auto simp: trim_vtext vchar_def byte_of_def to_ascii_lowercase_def ascii_lower_def)
  let ?P = "concat (map show_param (u_params u))"
  let ?H = "show_uri_headers (u_headers u)"
  have noq: "CHR ''?'' \<notin> set (show_authority u @ ?P)"
    using authority_chars(2) [OF au] ps
      join_notin [of "CHR ''?''" "'';''" "map param_body (u_params u)"]
    by (auto simp: concat_show_param list_all_iff param_body_wf split: if_splits)
  have nos: "CHR '';'' \<notin> set (show_authority u)" using authority_chars(2) [OF au] by auto
  have q: "cut (CHR ''?'') (show_authority u @ ?P @ ?H) =
      (show_authority u @ ?P, if u_headers u = [] then None
         else Some (join ''&'' (map header_body (u_headers u))))"
    using noq cut_append [OF noq] cut_none [OF noq] by (simp add: show_uri_headers_body)
  have p: "cut (CHR '';'') (show_authority u @ ?P) =
      (show_authority u, if u_params u = [] then None
         else Some (join '';'' (map param_body (u_params u))))"
    using nos by (simp add: concat_show_param cut_append cut_none)
  have a: "parse_authority (u_scheme u) (show_authority u) =
      (u_user u, u_password u, u_host u, u_port u)"
    using parse_authority_tel [OF au] parse_authority_sip [OF au] by blast
  have s: "split_once (CHR '':'') (trim (uri_show u)) =
      Some (u_scheme u, show_authority u @ ?P @ ?H)"
    using trim_vtext [OF uri_show_chars(1) [OF assms]] nocol
    by (simp add: uri_show_authority split_once_append)
  have "parse_uri_params (if u_params u = [] then None
         else Some (join '';'' (map param_body (u_params u)))) = u_params u"
    using parse_uri_params_show [OF ps] by (simp add: parse_uri_params_def)
  moreover have "parse_uri_headers (if u_headers u = [] then None
         else Some (join ''&'' (map header_body (u_headers u)))) = u_headers u"
    using parse_uri_headers_show [OF hs] by (simp add: parse_uri_headers_def)
  ultimately show ?thesis
    unfolding uri_parse_alt s using sch by (auto simp: q p a low)
qed

section \<open>Name-addr values: what is written out is read back\<close>

definition wf_na_param :: "string \<times> string \<Rightarrow> bool" where
  "wf_na_param p = (case p of (k, v) \<Rightarrow>
     vtext k \<and> to_ascii_lowercase k = k \<and> set k \<inter> set '';='' = {} \<and> (k \<noteq> [] \<or> v \<noteq> []) \<and>
     vtext v \<and> CHR '';'' \<notin> set v)"

definition wf_name_addr :: "name_addr \<Rightarrow> bool" where
  "wf_name_addr n \<longleftrightarrow> wf_uri (na_uri n) \<and> list_all wf_na_param (na_params n) \<and>
     (case na_display n of None \<Rightarrow> True | Some d \<Rightarrow> CHR 0x22 \<notin> set d)"

definition na_param_body :: "string \<times> string \<Rightarrow> string" where
  "na_param_body p = (case p of (k, v) \<Rightarrow> if v = [] then k else k @ CHR ''='' # v)"

lemma concat_show_na_param:
  "concat (map show_na_param ps) =
     (if ps = [] then [] else CHR '';'' # join '';'' (map na_param_body ps))"
proof -
  have "show_na_param = (\<lambda>p. CHR '';'' # na_param_body p)"
    by (simp add: fun_eq_iff show_na_param_def na_param_body_def)
  then show ?thesis using concat_prefixed [of "CHR '';''" na_param_body ps] by simp
qed

lemma na_param_body_wf:
  assumes "wf_na_param p"
  shows "vtext (na_param_body p)" and "CHR '';'' \<notin> set (na_param_body p)"
    and "na_param_body p \<noteq> []" and "parse_na_param (na_param_body p) = p"
  using assms
  by (auto simp: wf_na_param_def na_param_body_def parse_na_param_def split_once_append
      split_once_None trim_vtext split: if_splits)

lemma na_param_bodies_vtext: "list_all wf_na_param ps \<Longrightarrow> list_all vtext (map na_param_body ps)"
  by (induction ps) (simp_all add: na_param_body_wf)

lemma show_na_params_vtext:
  "list_all wf_na_param ps \<Longrightarrow> vtext (concat (map show_na_param ps))"
  using na_param_bodies_vtext [of ps] by (simp add: concat_show_na_param vtext_join)

lemma drop_semicolons:
  assumes "b \<noteq> []" and "CHR '';'' \<notin> set b"
  shows "trim_start_matches (\<lambda>c. c = CHR '';'') (CHR '';'' # join '';'' (b # bs)) = join '';'' (b # bs)"
  using assms by (cases b; cases bs) (auto simp: trim_start_matches_def)

lemma parse_na_params_show:
  assumes "list_all wf_na_param ps"
  shows "parse_na_params (concat (map show_na_param ps)) = ps"
proof (cases ps)
  case Nil
  then show ?thesis by (simp add: parse_na_params_def trim_start_matches_def)
next
  case (Cons p qs)
  let ?bs = "map na_param_body ps"
  have "trim_start_matches (\<lambda>c. c = CHR '';'') (concat (map show_na_param ps)) = join '';'' ?bs"
    using Cons assms drop_semicolons [of "na_param_body p" "map na_param_body qs"]
    unfolding concat_show_na_param by (simp add: na_param_body_wf)
  moreover have "split_on (CHR '';'') (join '';'' ?bs) = ?bs"
    using assms Cons by (intro split_on_join) (auto simp: list_all_iff na_param_body_wf)
  moreover have "map trim ?bs = ?bs"
    using assms by (induction ps) (simp_all add: na_param_body_wf trim_vtext)
  moreover have "filter (\<lambda>p. p \<noteq> []) ?bs = ?bs"
    using assms by (auto simp: list_all_iff na_param_body_wf filter_id_conv)
  moreover have "map parse_na_param ?bs = ps"
    using assms by (induction ps) (simp_all add: na_param_body_wf)
  ultimately show ?thesis by (simp only: parse_na_params_def)
qed

lemma name_addr_parse_show_aux:
  assumes "wf_name_addr n"
  shows "name_addr_parse (name_addr_show n) = Some n"
proof -
  let ?U = "uri_show (na_uri n)" and ?P = "concat (map show_na_param (na_params n))"
  let ?rest = "CHR ''<'' # ?U @ CHR ''>'' # ?P"
  have u: "wf_uri (na_uri n)" and ps: "list_all wf_na_param (na_params n)"
    using assms by (auto simp: wf_name_addr_def)
  have P: "vtext ?P" by (rule show_na_params_vtext [OF ps])
  then have tail: "vchar (last (CHR ''>'' # ?P))"
    using last_in_set [of "CHR ''>'' # ?P"] unfolding list_all_iff by fastforce
  have tr: "trim (name_addr_show n) = name_addr_show n"
    using tail by (intro trim_id) (auto simp: name_addr_show_def split: option.splits)
  have d: "na_split_display (name_addr_show n) = Some (na_display n, ?rest)"
  proof (cases "na_display n")
    case None
    then show ?thesis
      by (simp add: name_addr_show_def na_split_display_def strip_prefix_Cons starts_with_def)
  next
    case (Some d)
    then have "CHR 0x22 \<notin> set d" using assms by (simp add: wf_name_addr_def)
    with Some show ?thesis
      by (simp add: name_addr_show_def na_split_display_def strip_prefix_Cons split_once_append
          trim_start_vchar)
  qed
  have r: "na_split_params ?rest = Some (?U, ?P)"
    using uri_show_chars(2) [OF u]
    by (simp add: na_split_params_def strip_prefix_Cons split_once_append trim_start_vtext [OF P])
  show ?thesis
    using uri_parse_show_aux [OF u] parse_na_params_show [OF ps]
    by (simp add: name_addr_parse_def tr d r)
qed

section \<open>Properties\<close>

text \<open>A URI the gateway writes out (Contact, Request-URI, the \<open>uri\<close> of a digest) is
  read back as exactly the same URI: scheme, user, password, host, port, parameters and headers,
  for \<open>sip:\<close>, \<open>sips:\<close> and \<open>tel:\<close> URIs and for IPv6 hosts in brackets.\<close>

lemma uri_round_trip:
  assumes "wf_uri u"
  shows "uri_parse (uri_show u) = Some u"
  using assms by (rule uri_parse_show_aux)

definition example_uri :: uri where
  "example_uri = \<lparr>u_scheme = ''sip'', u_user = Some ''+8210'', u_password = None,
     u_host = ''2001:db8::5'', u_port = Some 5060,
     u_params = [(''transport'', Some ''udp''), (''lr'', None)], u_headers = [(''a'', ''b'')]\<rparr>"

lemma example_uri_wf: "wf_uri example_uri"
  by code_simp

theorem uri_round_trip_witness:
  "uri_parse (uri_show example_uri) = Some example_uri"
  by (rule uri_round_trip [OF example_uri_wf])

text \<open>A name-addr value (To, From, Contact) the gateway writes out is read back as the
  same display name, URI and header parameters, so a dialog tag survives the wire.\<close>

theorem name_addr_round_trip:
  assumes "wf_name_addr n"
  shows "name_addr_parse (name_addr_show n) = Some n"
  using assms by (rule name_addr_parse_show_aux)

definition example_name_addr :: name_addr where
  "example_name_addr = \<lparr>na_display = Some ''Alice B'', na_uri = example_uri,
     na_params = [(''tag'', ''1928301774''), (''messagetype'', ''sms'')]\<rparr>"

lemma example_name_addr_wf: "wf_name_addr example_name_addr"
  by code_simp

theorem name_addr_round_trip_witness:
  "name_addr_parse (name_addr_show example_name_addr) = Some example_name_addr"
  by (rule name_addr_round_trip [OF example_name_addr_wf])

text \<open>Setting a name-addr parameter makes it readable under any ASCII case of its name,
  changes no other parameter, and leaves exactly one copy (the binding's \<open>expires\<close> in a
  REGISTER answer replaces the one the client sent).\<close>

theorem name_addr_set_param_replaces:
  "na_param (na_set_param a n (Some v)) k =
     (if eq_ignore_ascii_case n k then Some v else na_param a k) \<and>
   count_param n (na_params (na_set_param a n (Some v))) = 1"
  by (auto simp: np.get_set_any_case np.get_set_other np.copies_set)

end
