(* ===== verification/SipMessage.thy ===== *)
theory SipMessage
  imports SipUri
begin

text \<open>
  The model of \<open>src/sip/message.rs\<close>: methods, header fields, the Via header, requests and
  responses, the parser of a datagram and the serialiser. A datagram is a \<^typ>\<open>string\<close>, one
  character per byte. The contract of the header fields is the locale \<open>header_store\<close>; the
  main results are that no header value can end its own line on the wire, and that a serialised
  message is parsed back, whatever padding follows it in the datagram.
\<close>

section \<open>Methods\<close>

datatype sip_method =
  Invite | Ack | Bye | Cancel | Register | Options | Info | Message | Notify | Subscribe
| Update | Prack | Refer

fun method_str :: "sip_method \<Rightarrow> string" where
  "method_str Invite = ''INVITE''"
| "method_str Ack = ''ACK''"
| "method_str Bye = ''BYE''"
| "method_str Cancel = ''CANCEL''"
| "method_str Register = ''REGISTER''"
| "method_str Options = ''OPTIONS''"
| "method_str Info = ''INFO''"
| "method_str Message = ''MESSAGE''"
| "method_str Notify = ''NOTIFY''"
| "method_str Subscribe = ''SUBSCRIBE''"
| "method_str Update = ''UPDATE''"
| "method_str Prack = ''PRACK''"
| "method_str Refer = ''REFER''"

definition all_methods :: "sip_method list" where
  "all_methods = [Invite, Ack, Bye, Cancel, Register, Options, Info, Message, Notify, Subscribe,
     Update, Prack, Refer]"

definition method_parse :: "string \<Rightarrow> sip_method option" where
  "method_parse s = find (\<lambda>m. method_str m = to_ascii_uppercase s) all_methods"

section \<open>Header fields\<close>

type_synonym headers = "(string \<times> string) list"

definition canonical :: "string \<Rightarrow> string" where
  "canonical name =
     (let lower = to_ascii_lowercase (trim name) in
      if lower = ''i'' then ''call-id''
      else if lower = ''m'' then ''contact''
      else if lower = ''f'' then ''from''
      else if lower = ''t'' then ''to''
      else if lower = ''v'' then ''via''
      else if lower = ''c'' then ''content-type''
      else if lower = ''l'' then ''content-length''
      else if lower = ''s'' then ''subject''
      else if lower = ''k'' then ''supported''
      else if lower = ''e'' then ''content-encoding''
      else if lower = ''o'' then ''event''
      else if lower = ''r'' then ''refer-to''
      else if lower = ''x'' then ''session-expires''
      else lower)"

text \<open>
  The loop of \<open>pretty\<close>. The names it is given are the literals of the sources, all ASCII,
  so \<open>char::to_uppercase\<close> is the ASCII one.
\<close>

fun title_case :: "bool \<Rightarrow> string \<Rightarrow> string" where
  "title_case upper [] = []"
| "title_case upper (c # s) =
     (if upper then ascii_upper c else c) # title_case (c = CHR ''-'') s"

definition pretty :: "string \<Rightarrow> string" where
  "pretty name =
     (let canon = canonical name in
      if canon = ''call-id'' then ''Call-ID''
      else if canon = ''cseq'' then ''CSeq''
      else if canon = ''www-authenticate'' then ''WWW-Authenticate''
      else if canon = ''mime-version'' then ''MIME-Version''
      else title_case True canon)"

definition hget :: "headers \<Rightarrow> string \<Rightarrow> string option" where
  "hget hs name = map_option snd (find (\<lambda>(k, _). k = canonical name) hs)"

definition hget_all :: "headers \<Rightarrow> string \<Rightarrow> string list" where
  "hget_all hs name = map snd (filter (\<lambda>(k, _). k = canonical name) hs)"

definition hremove :: "headers \<Rightarrow> string \<Rightarrow> headers" where
  "hremove hs name = filter (\<lambda>(k, _). k \<noteq> canonical name) hs"

definition hset :: "headers \<Rightarrow> string \<Rightarrow> string \<Rightarrow> headers" where
  "hset hs name v = hremove hs name @ [(canonical name, v)]"

definition hpush :: "headers \<Rightarrow> string \<Rightarrow> string \<Rightarrow> headers" where
  "hpush hs name v = hs @ [(canonical name, v)]"

fun replace_first_key :: "string \<Rightarrow> string \<Rightarrow> headers \<Rightarrow> headers" where
  "replace_first_key n v [] = [(n, v)]"
| "replace_first_key n v ((k, w) # hs) =
     (if k = n then (k, v) # hs else (k, w) # replace_first_key n v hs)"

definition hreplace_first :: "headers \<Rightarrow> string \<Rightarrow> string \<Rightarrow> headers" where
  "hreplace_first hs name v = replace_first_key (canonical name) v hs"

definition h_from :: "headers \<Rightarrow> name_addr option" where
  "h_from hs = Option.bind (hget hs ''from'') name_addr_parse"

definition h_to :: "headers \<Rightarrow> name_addr option" where
  "h_to hs = Option.bind (hget hs ''to'') name_addr_parse"

definition h_contact :: "headers \<Rightarrow> name_addr option" where
  "h_contact hs = Option.bind (hget hs ''contact'') name_addr_parse"

definition h_call_id :: "headers \<Rightarrow> string option" where
  "h_call_id hs = hget hs ''call-id''"

definition h_cseq :: "headers \<Rightarrow> (u32 \<times> sip_method) option" where
  "h_cseq hs =
     (case hget hs ''cseq'' of None \<Rightarrow> None
      | Some raw \<Rightarrow>
          (case split_whitespace raw of
             n # m # _ \<Rightarrow>
               (case parse_u32 n of None \<Rightarrow> None
                | Some num \<Rightarrow> map_option (\<lambda>mth. (num, mth)) (method_parse m))
           | _ \<Rightarrow> None))"

definition h_content_type :: "headers \<Rightarrow> string option" where
  "h_content_type hs = hget hs ''content-type''"

section \<open>Via\<close>

record via =
  via_protocol :: string
  via_host :: string
  via_port :: "u16 option"
  via_params :: params

definition parse_via_params :: "string option \<Rightarrow> params" where
  "parse_via_params ps = (case ps of None \<Rightarrow> []
     | Some s \<Rightarrow> map parse_param (filter (\<lambda>p. p \<noteq> []) (map trim (split_on (CHR '';'') s))))"

definition via_parse :: "string \<Rightarrow> via option" where
  "via_parse s0 =
     (let s = trim (hd (split_on (CHR '','') s0)) in
      case split_once_ws s of
        None \<Rightarrow> None
      | Some (proto, rest0) \<Rightarrow>
          (let rest = trim rest0;
               (hostport, params_str) =
                 (case split_once (CHR '';'') rest of
                    Some (h, p) \<Rightarrow> (trim h, Some p) | None \<Rightarrow> (rest, None));
               (host, port) = split_host_port hostport
           in Some \<lparr>via_protocol = proto, via_host = host, via_port = port,
                    via_params = parse_via_params params_str\<rparr>))"

definition via_param :: "via \<Rightarrow> string \<Rightarrow> string option" where
  "via_param v name = (case find_param name (via_params v) of Some x \<Rightarrow> x | None \<Rightarrow> None)"

definition via_branch :: "via \<Rightarrow> string option" where
  "via_branch v = via_param v ''branch''"

definition via_has_param :: "via \<Rightarrow> string \<Rightarrow> bool" where
  "via_has_param v name \<longleftrightarrow> list_ex (\<lambda>(k, _). eq_ignore_ascii_case k name) (via_params v)"

definition via_set_param :: "via \<Rightarrow> string \<Rightarrow> string option \<Rightarrow> via" where
  "via_set_param v name x = v\<lparr>via_params := drop_param name (via_params v) @ [(name, x)]\<rparr>"

definition via_show :: "via \<Rightarrow> string" where
  "via_show v = via_protocol v @ '' '' @ via_host v @ show_port (via_port v)
     @ concat (map show_param (via_params v))"

definition h_top_via :: "headers \<Rightarrow> via option" where
  "h_top_via hs = Option.bind (hget hs ''via'') via_parse"

lemma via_param_cong: "eq_ignore_ascii_case n k \<Longrightarrow> via_param u n = via_param u k"
  by (simp add: via_param_def find_param_cong [of n k])

interpretation vp: param_store via_param "\<lambda>u n v. via_set_param u n (Some v)"
    "\<lambda>u n. count_param n (via_params u)"
proof (unfold_locales, goal_cases)
  case (3 n k s)
  then show ?case by (rule via_param_cong)
qed (auto simp: via_param_def via_set_param_def param_list_simps split: option.splits)

section \<open>Messages\<close>

record request =
  rq_method :: sip_method
  rq_uri :: uri
  rq_headers :: headers
  rq_body :: string

record response =
  rs_code :: u16
  rs_reason :: string
  rs_headers :: headers
  rs_body :: string

datatype message = RequestMsg request | ResponseMsg response

definition cr :: char where "cr = CHR 0x0D"
definition lf :: char where "lf = CHR 0x0A"
definition crlf :: string where "crlf = [cr, lf]"

fun find_sub :: "'a list \<Rightarrow> 'a list \<Rightarrow> nat option" where
  "find_sub needle [] = (if needle = [] then Some 0 else None)"
| "find_sub needle (c # h) =
     (if take (length needle) (c # h) = needle then Some 0
      else map_option Suc (find_sub needle h))"

definition find_body_start :: "string \<Rightarrow> nat \<times> nat" where
  "find_body_start buf =
     (case find_sub (crlf @ crlf) buf of
        Some pos \<Rightarrow> (pos, pos + 4)
      | None \<Rightarrow> (case find_sub [lf, lf] buf of
          Some pos \<Rightarrow> (pos, pos + 2)
        | None \<Rightarrow> (length buf, length buf)))"

fun replace_crlf :: "string \<Rightarrow> string" where
  "replace_crlf (a # b # s) =
     (if a = cr \<and> b = lf then lf # replace_crlf s else a # replace_crlf (b # s))"
| "replace_crlf s = s"

fun split_crlf :: "string \<Rightarrow> string list" where
  "split_crlf (a # b # s) =
     (if a = cr \<and> b = lf then [] # split_crlf s
      else (case split_crlf (b # s) of [] \<Rightarrow> [[a]] | y # ys \<Rightarrow> (a # y) # ys))"
| "split_crlf s = [s]"

fun unfold_rest :: "string list \<Rightarrow> string" where
  "unfold_rest [] = []"
| "unfold_rest (l # ls) =
     (if starts_with '' '' l \<or> starts_with [CHR 0x09] l then CHR '' '' # trim_start l
      else crlf @ l) @ unfold_rest ls"

definition unfold_head :: "string \<Rightarrow> string" where
  "unfold_head head =
     (case split_on lf (replace_crlf head) of [] \<Rightarrow> [] | l # ls \<Rightarrow> l @ unfold_rest ls)"

definition parse_header_line :: "string \<Rightarrow> (string \<times> string) option" where
  "parse_header_line line =
     map_option (\<lambda>(name, v). (canonical name, trim v)) (split_once (CHR '':'') line)"

definition trim_body :: "headers \<Rightarrow> string \<Rightarrow> string" where
  "trim_body hs body =
     (case Option.bind (hget hs ''content-length'') (\<lambda>v. parse_usize (trim v)) of
        Some len \<Rightarrow> if len \<le> length body then take len body else body
      | None \<Rightarrow> body)"

definition parse_status_line :: "string \<Rightarrow> (u16 \<times> string) option" where
  "parse_status_line start =
     (case cut (CHR '' '') start of
        (_, None) \<Rightarrow> None
      | (_, Some rest) \<Rightarrow>
          (case cut (CHR '' '') rest of (c, reason) \<Rightarrow>
             map_option (\<lambda>code. (code, case reason of Some r \<Rightarrow> r | None \<Rightarrow> [])) (parse_u16 c)))"

definition parse_request_line :: "string \<Rightarrow> (sip_method \<times> uri) option" where
  "parse_request_line start =
     (case split_whitespace start of
        m # u # _ \<Rightarrow>
          (case method_parse m of None \<Rightarrow> None
           | Some mth \<Rightarrow> map_option (\<lambda>x. (mth, x)) (uri_parse u))
      | _ \<Rightarrow> None)"

definition message_parse :: "string \<Rightarrow> message option" where
  "message_parse buf =
     (let (head_end, body_start) = find_body_start buf;
          head0 = take head_end buf in
      if \<not> utf8_valid head0 then None
      else
        (case filter (\<lambda>l. l \<noteq> []) (split_crlf (unfold_head head0)) of
           [] \<Rightarrow> None
         | start # lines \<Rightarrow>
             (let hs = List.map_filter parse_header_line lines;
                  body = trim_body hs (drop body_start buf) in
              if starts_with ''SIP/'' start then
                map_option (\<lambda>(c, r). ResponseMsg
                    \<lparr>rs_code = c, rs_reason = r, rs_headers = hs, rs_body = body\<rparr>)
                  (parse_status_line start)
              else
                map_option (\<lambda>(m, u). RequestMsg
                    \<lparr>rq_method = m, rq_uri = u, rq_headers = hs, rq_body = body\<rparr>)
                  (parse_request_line start))))"

section \<open>The serialiser\<close>

definition ctl_byte :: "char \<Rightarrow> bool" where
  "ctl_byte c \<longleftrightarrow> byte_of c < 0x20 \<or> byte_of c = 0x7F"

text \<open>
  \<open>filter(|c| !c.is_control())\<close>: the ASCII controls are one byte, \<open>U+0080\<close> to
  \<open>U+009F\<close> are \<open>C2 80\<close> to \<open>C2 9F\<close>.
\<close>

fun strip_controls :: "string \<Rightarrow> string" where
  "strip_controls [] = []"
| "strip_controls [c] = (if ctl_byte c then [] else [c])"
| "strip_controls (c # d # s) =
     (if ctl_byte c then strip_controls (d # s)
      else if byte_of c = 0xC2 \<and> in_range 0x80 0x9F (byte_of d) then strip_controls s
      else c # strip_controls (d # s))"

definition header_safe :: "string \<Rightarrow> string" where
  "header_safe v = (if list_ex ctl_byte v then strip_controls v else v)"

definition header_line :: "nat \<Rightarrow> string \<times> string \<Rightarrow> string" where
  "header_line len kv = (case kv of (k, v) \<Rightarrow>
     if k = ''content-length'' then ''Content-Length: '' @ show_nat len
     else pretty k @ '': '' @ header_safe v)"

definition head_lines :: "string \<Rightarrow> headers \<Rightarrow> nat \<Rightarrow> string list" where
  "head_lines start hs len =
     header_safe start # map (header_line len) hs
     @ (if list_ex (\<lambda>(k, _). k = ''content-length'') hs then []
        else [''Content-Length: '' @ show_nat len])"

definition serialize :: "string \<Rightarrow> headers \<Rightarrow> string \<Rightarrow> string" where
  "serialize start hs body =
     concat (map (\<lambda>l. l @ crlf) (head_lines start hs (length body))) @ crlf @ body"

definition request_new :: "sip_method \<Rightarrow> uri \<Rightarrow> request" where
  "request_new m u = \<lparr>rq_method = m, rq_uri = u, rq_headers = [], rq_body = []\<rparr>"

definition request_encode :: "request \<Rightarrow> string" where
  "request_encode r =
     serialize (method_str (rq_method r) @ '' '' @ uri_show (rq_uri r) @ '' SIP/2.0'')
       (rq_headers r) (rq_body r)"

definition response_encode :: "response \<Rightarrow> string" where
  "response_encode r =
     serialize (''SIP/2.0 '' @ show_nat (unat (rs_code r)) @ '' '' @ rs_reason r)
       (rs_headers r) (rs_body r)"

definition push_all :: "headers \<Rightarrow> string \<Rightarrow> string list \<Rightarrow> headers" where
  "push_all hs name vs = fold (\<lambda>v h. hpush h name v) vs hs"

definition set_from :: "headers \<Rightarrow> string \<Rightarrow> headers \<Rightarrow> headers" where
  "set_from src name hs = (case hget src name of Some v \<Rightarrow> hset hs name v | None \<Rightarrow> hs)"

definition reply :: "request \<Rightarrow> u16 \<Rightarrow> string \<Rightarrow> response" where
  "reply r code reason =
     (let rh = rq_headers r;
          h1 = push_all [] ''via'' (hget_all rh ''via'');
          h2 = push_all h1 ''record-route'' (hget_all rh ''record-route'');
          h3 = set_from rh ''from'' h2;
          h4 = set_from rh ''to'' h3;
          h5 = set_from rh ''call-id'' h4;
          h6 = set_from rh ''cseq'' h5
      in \<lparr>rs_code = code, rs_reason = reason, rs_headers = h6, rs_body = []\<rparr>)"

definition is_provisional :: "response \<Rightarrow> bool" where
  "is_provisional r \<longleftrightarrow> 100 \<le> rs_code r \<and> rs_code r < 200"

definition is_success :: "response \<Rightarrow> bool" where
  "is_success r \<longleftrightarrow> 200 \<le> rs_code r \<and> rs_code r < 300"

definition reason_phrase :: "u16 \<Rightarrow> string" where
  "reason_phrase code =
     (if code = 100 then ''Trying'' else if code = 180 then ''Ringing''
      else if code = 183 then ''Session Progress'' else if code = 200 then ''OK''
      else if code = 202 then ''Accepted'' else if code = 400 then ''Bad Request''
      else if code = 401 then ''Unauthorized'' else if code = 403 then ''Forbidden''
      else if code = 404 then ''Not Found'' else if code = 405 then ''Method Not Allowed''
      else if code = 408 then ''Request Timeout''
      else if code = 415 then ''Unsupported Media Type''
      else if code = 420 then ''Bad Extension'' else if code = 423 then ''Interval Too Brief''
      else if code = 480 then ''Temporarily Unavailable''
      else if code = 481 then ''Call/Transaction Does Not Exist''
      else if code = 486 then ''Busy Here'' else if code = 487 then ''Request Terminated''
      else if code = 488 then ''Not Acceptable Here'' else if code = 491 then ''Request Pending''
      else if code = 500 then ''Server Internal Error'' else if code = 502 then ''Bad Gateway''
      else if code = 503 then ''Service Unavailable'' else if code = 504 then ''Server Time-out''
      else if code = 600 then ''Busy Everywhere'' else if code = 603 then ''Decline''
      else if code = 604 then ''Does Not Exist Anywhere'' else ''Unknown'')"

section \<open>The contract of the header fields\<close>

text \<open>
  Names are compared in canonical form (case and compact forms do not matter). \<open>set\<close>
  leaves exactly one value, \<open>push\<close> adds one at the end, and neither touches a field of
  another name. \<open>get\<close> is the first value.
\<close>

locale header_store =
  fixes get :: "'h \<Rightarrow> string \<Rightarrow> string option"
    and get_all :: "'h \<Rightarrow> string \<Rightarrow> string list"
    and set1 :: "'h \<Rightarrow> string \<Rightarrow> string \<Rightarrow> 'h"
    and push :: "'h \<Rightarrow> string \<Rightarrow> string \<Rightarrow> 'h"
  assumes get_first: "get h n = (case get_all h n of [] \<Rightarrow> None | v # _ \<Rightarrow> Some v)"
    and get_all_set: "canonical n = canonical k \<Longrightarrow> get_all (set1 h n v) k = [v]"
    and get_all_set_other: "canonical n \<noteq> canonical k \<Longrightarrow> get_all (set1 h n v) k = get_all h k"
    and get_all_push: "canonical n = canonical k \<Longrightarrow> get_all (push h n v) k = get_all h k @ [v]"
    and get_all_push_other: "canonical n \<noteq> canonical k \<Longrightarrow> get_all (push h n v) k = get_all h k"
begin

lemma get_set: "canonical n = canonical k \<Longrightarrow> get (set1 h n v) k = Some v"
  by (simp add: get_first get_all_set)

lemma get_set_other: "canonical n \<noteq> canonical k \<Longrightarrow> get (set1 h n v) k = get h k"
  by (simp add: get_first get_all_set_other)

lemma get_push: "canonical n = canonical k \<Longrightarrow>
    get (push h n v) k = (case get h k of Some w \<Rightarrow> Some w | None \<Rightarrow> Some v)"
  by (simp add: get_first get_all_push split: list.splits)

lemma get_push_other: "canonical n \<noteq> canonical k \<Longrightarrow> get (push h n v) k = get h k"
  by (simp add: get_first get_all_push_other)

lemma get_all_pushes: "canonical n = canonical k \<Longrightarrow>
    get_all (fold (\<lambda>v h. push h n v) vs h) k = get_all h k @ vs"
  by (induction vs arbitrary: h) (simp_all add: get_all_push)

lemma get_all_pushes_other: "canonical n \<noteq> canonical k \<Longrightarrow>
    get_all (fold (\<lambda>v h. push h n v) vs h) k = get_all h k"
  by (induction vs arbitrary: h) (simp_all add: get_all_push_other)

lemma get_None: "get h n = None \<longleftrightarrow> get_all h n = []"
  by (simp add: get_first split: list.splits)

lemma get_take: "(case get h n of Some v \<Rightarrow> [v] | None \<Rightarrow> []) = take 1 (get_all h n)"
  by (simp add: get_first split: list.splits)

end

interpretation hs: header_store hget hget_all hset hpush
proof (unfold_locales, goal_cases)
  case (1 h n)
  show ?case by (induction h) (auto simp: hget_def hget_all_def)
qed (auto simp: hget_all_def hset_def hremove_def hpush_def filter_empty_conv
      intro: filter_cong intro!: arg_cong [where f = "map snd"])

lemma canonical_literals [simp]:
  "canonical ''via'' = ''via''" "canonical ''record-route'' = ''record-route''"
  "canonical ''from'' = ''from''" "canonical ''to'' = ''to''" "canonical ''call-id'' = ''call-id''"
  "canonical ''cseq'' = ''cseq''" "canonical ''contact'' = ''contact''"
  "canonical ''content-type'' = ''content-type''" "canonical ''content-length'' = ''content-length''"
  "canonical ''expires'' = ''expires''" "canonical ''user-agent'' = ''user-agent''"
  "canonical ''allow'' = ''allow''" "canonical ''www-authenticate'' = ''www-authenticate''"
  "canonical ''Content-Length'' = ''content-length''"
  by code_simp+

lemma hget_all_push_all:
  "hget_all (push_all h n vs) k = (if canonical n = canonical k then hget_all h k @ vs else hget_all h k)"
  by (simp add: push_all_def hs.get_all_pushes hs.get_all_pushes_other)

lemma hget_all_set_from:
  "hget_all (set_from src n h) k =
     (if canonical n = canonical k \<and> hget src n \<noteq> None then take 1 (hget_all src n)
      else hget_all h k)"
  using hs.get_take [of src n]
  by (auto simp: set_from_def hs.get_all_set hs.get_all_set_other split: option.splits)

section \<open>Lines on the wire\<close>

lemma crlf_parts [simp]: "crlf = [cr, lf]" "cr \<noteq> lf" "lf \<noteq> cr"
  by (simp_all add: crlf_def cr_def lf_def)

text \<open>A line: not empty, not a continuation line, free of CR and LF.\<close>

definition clean_line :: "string \<Rightarrow> bool" where
  "clean_line l \<longleftrightarrow> l \<noteq> [] \<and> \<not> starts_with '' '' l \<and> \<not> starts_with [CHR 0x09] l \<and>
     cr \<notin> set l \<and> lf \<notin> set l"

lemma find_sub_skip:
  "c \<notin> set l \<Longrightarrow> find_sub (c # n) (l @ h) = map_option (\<lambda>i. length l + i) (find_sub (c # n) h)"
  by (induction l; cases "find_sub (c # n) h") auto

lemma find_sub_head:
  assumes "list_all clean_line ls" and "ls \<noteq> []"
  shows "find_sub [cr, lf, cr, lf] (concat (map (\<lambda>l. l @ crlf) ls) @ crlf @ rest) =
    Some (length (join crlf ls))"
  using assms
proof (induction ls rule: induct_list012)
  case (2 l)
  then have "cr \<notin> set l" by (simp add: clean_line_def)
  then show ?case by (simp add: find_sub_skip)
next
  case (3 l m ls)
  then have l: "cr \<notin> set l" and m: "m \<noteq> []" "cr \<notin> set m" by (simp_all add: clean_line_def)
  then obtain c t where "m = c # t" "c \<noteq> cr" by (cases m) auto
  let ?T = "concat (map (\<lambda>l. l @ crlf) (m # ls)) @ crlf @ rest"
  have "find_sub [cr, lf, cr, lf] ?T = Some (length (join crlf (m # ls)))"
    using 3 by simp
  moreover have "find_sub [cr, lf, cr, lf] (cr # lf # ?T) =
      map_option (\<lambda>i. Suc (Suc i)) (find_sub [cr, lf, cr, lf] ?T)"
    using \<open>m = c # t\<close> \<open>c \<noteq> cr\<close> by (simp add: option.map_comp comp_def)
  moreover have "concat (map (\<lambda>l. l @ crlf) (l # m # ls)) @ crlf @ rest = l @ (cr # lf # ?T)"
    by simp
  ultimately show ?case
    by (simp only: find_sub_skip [OF l]) simp
qed simp

lemma join_take:
  "ls \<noteq> [] \<Longrightarrow> concat (map (\<lambda>l. l @ crlf) ls) @ crlf @ rest = join crlf ls @ crlf @ crlf @ rest"
  by (induction ls rule: induct_list012) auto

lemma replace_crlf_skip:
  "cr \<notin> set l \<Longrightarrow> replace_crlf (l @ h) = l @ replace_crlf h"
proof (induction l)
  case (Cons a l)
  then show ?case by (cases "l @ h") auto
qed simp

lemma replace_crlf_none: "cr \<notin> set l \<Longrightarrow> replace_crlf l = l"
  using replace_crlf_skip [of l "[]"] by simp

lemma replace_crlf_join:
  "list_all clean_line ls \<Longrightarrow> replace_crlf (join crlf ls) = join [lf] ls"
  by (induction ls rule: induct_list012)
    (simp_all add: clean_line_def replace_crlf_none replace_crlf_skip)

lemma split_crlf_nonempty [simp]: "split_crlf s \<noteq> []"
  by (induction s rule: split_crlf.induct) (auto split: list.splits)

lemma split_crlf_skip:
  "cr \<notin> set l \<Longrightarrow> split_crlf (l @ cr # lf # h) = l # split_crlf h"
proof (induction l)
  case (Cons a l)
  then show ?case by (cases "l @ cr # lf # h") auto
qed simp

lemma split_crlf_none: "cr \<notin> set l \<Longrightarrow> split_crlf l = [l]"
proof (induction l)
  case (Cons a l)
  then show ?case by (cases l) auto
qed simp

lemma split_crlf_join:
  "list_all clean_line ls \<Longrightarrow> ls \<noteq> [] \<Longrightarrow> split_crlf (join crlf ls) = ls"
  by (induction ls rule: induct_list012)
    (simp_all add: clean_line_def split_crlf_none split_crlf_skip)

lemma unfold_rest_clean:
  "list_all clean_line ls \<Longrightarrow> unfold_rest ls = concat (map (\<lambda>l. crlf @ l) ls)"
  by (induction ls) (simp_all add: clean_line_def)

lemma join_concat: "join sep (l # ls) = l @ concat (map (\<lambda>x. sep @ x) ls)"
  by (induction ls arbitrary: l) simp_all

lemma unfold_head_join:
  assumes "list_all clean_line ls" and "ls \<noteq> []"
  shows "unfold_head (join crlf ls) = join crlf ls"
proof -
  have "split_on lf (join [lf] ls) = ls"
    using assms by (intro split_on_join) (auto simp: list_all_iff clean_line_def)
  then have "unfold_head (join crlf ls) = (case ls of [] \<Rightarrow> [] | l # ms \<Rightarrow> l @ unfold_rest ms)"
    by (simp only: unfold_head_def replace_crlf_join [OF assms(1)])
  then show ?thesis
    using assms by (cases ls) (simp_all only: join_concat list.case list.pred_inject unfold_rest_clean)
qed

text \<open>What the parser does with a head made of clean lines, whatever follows the blank line.\<close>

definition parse_lines :: "string \<Rightarrow> string list \<Rightarrow> string \<Rightarrow> message option" where
  "parse_lines start lines rest =
     (let hs = List.map_filter parse_header_line lines;
          body = trim_body hs rest in
      if starts_with ''SIP/'' start then
        map_option (\<lambda>(c, r). ResponseMsg
            \<lparr>rs_code = c, rs_reason = r, rs_headers = hs, rs_body = body\<rparr>)
          (parse_status_line start)
      else
        map_option (\<lambda>(m, u). RequestMsg
            \<lparr>rq_method = m, rq_uri = u, rq_headers = hs, rq_body = body\<rparr>)
          (parse_request_line start))"

lemma is_ascii_join: "is_ascii sep \<Longrightarrow> list_all is_ascii xs \<Longrightarrow> is_ascii (join sep xs)"
  by (induction xs rule: induct_list012) (simp_all add: is_ascii_def)

lemma message_parse_lines:
  assumes "list_all clean_line (start # lines)" and "list_all is_ascii (start # lines)"
  shows "message_parse (concat (map (\<lambda>l. l @ crlf) (start # lines)) @ crlf @ rest) =
    parse_lines start lines rest"
proof -
  let ?ls = "start # lines"
  let ?buf = "concat (map (\<lambda>l. l @ crlf) ?ls) @ crlf @ rest"
  let ?n = "length (join crlf ?ls)"
  have buf: "?buf = join crlf ?ls @ [cr, lf, cr, lf] @ rest"
    using join_take [of ?ls rest] by simp
  have fs: "find_body_start ?buf = (?n, ?n + 4)"
    using find_sub_head [OF assms(1), of rest] by (simp add: find_body_start_def)
  have t: "take ?n ?buf = join crlf ?ls" and d: "drop (?n + 4) ?buf = rest"
    unfolding buf by simp_all
  have "is_ascii (join crlf ?ls)"
    using assms(2)
    by (intro is_ascii_join) (simp_all add: is_ascii_def crlf_def cr_def lf_def byte_of_def)
  then have v: "utf8_valid (join crlf ?ls)" by (rule utf8_valid_ascii)
  have "filter (\<lambda>l. l \<noteq> []) ?ls = ?ls"
    using assms(1) by (auto simp: filter_id_conv list_all_iff clean_line_def)
  then have f: "filter (\<lambda>l. l \<noteq> []) (split_crlf (unfold_head (join crlf ?ls))) = ?ls"
    using assms(1) by (simp only: unfold_head_join split_crlf_join list.distinct not_False_eq_True)
  show ?thesis
    unfolding message_parse_def fs Let_def prod.case t d f list.case parse_lines_def
    using v by simp
qed

section \<open>The lines the serialiser writes\<close>

lemma ptext_no_ctl: "ptext s \<Longrightarrow> \<not> list_ex ctl_byte s"
  by (induction s) (auto simp: ctl_byte_def)

lemma header_safe_ptext [text_simps]: "ptext s \<Longrightarrow> header_safe s = s"
  by (simp add: header_safe_def ptext_no_ctl)

lemma strip_controls_no_ctl: "c \<in> set (strip_controls s) \<Longrightarrow> c \<in> set s \<and> \<not> ctl_byte c"
  by (induction s rule: strip_controls.induct) (auto split: if_splits)

lemma header_safe_no_ctl: "c \<in> set (header_safe s) \<Longrightarrow> c \<in> set s \<and> \<not> ctl_byte c"
  by (auto simp: header_safe_def list_ex_iff dest: strip_controls_no_ctl split: if_splits)

lemma header_safe_ascii: "is_ascii s \<Longrightarrow> ptext (header_safe s)"
  by (force simp: ptext_def is_ascii_def list_all_iff ctl_byte_def dest: header_safe_no_ctl)

lemma trim_start_set: "set (trim_start s) \<subseteq> set s"
proof (induction s rule: trim_start.induct)
  case (1 s)
  then show ?case
    by (cases "ws_len s = 0") (auto simp: trim_start.simps [of s] dest: in_set_dropD)
qed

lemma trim_rev_set: "set (trim_rev s) \<subseteq> set s"
proof (induction s rule: trim_rev.induct)
  case (1 s)
  then show ?case
    by (cases "ws_rlen s = 0") (auto simp: trim_rev.simps [of s] dest: in_set_dropD)
qed

lemma trim_set: "set (trim s) \<subseteq> set s"
  using trim_start_set [of s] trim_rev_set [of "rev (trim_start s)"]
  by (auto simp: trim_def trim_end_def)

lemma ascii_upper_ctl [simp]: "ctl_byte (ascii_upper c) = ctl_byte c"
  by (auto simp: ctl_byte_def ascii_upper_def byte_of_char_of)

lemma ascii_lower_ctl [simp]: "ctl_byte (ascii_lower c) = ctl_byte c"
  by (auto simp: ctl_byte_def ascii_lower_def byte_of_char_of)

lemma title_case_ctl: "list_ex ctl_byte (title_case b s) = list_ex ctl_byte s"
  by (induction s arbitrary: b) auto

lemma canonical_ctl: "\<not> list_ex ctl_byte k \<Longrightarrow> \<not> list_ex ctl_byte (canonical k)"
proof -
  assume "\<not> list_ex ctl_byte k"
  then have "\<not> list_ex ctl_byte (to_ascii_lowercase (trim k))"
    using trim_set [of k] by (auto simp: list_ex_iff to_ascii_lowercase_def)
  then show ?thesis
    unfolding canonical_def Let_def by (simp add: ctl_byte_def byte_of_def)
qed

lemma pretty_ctl: "\<not> list_ex ctl_byte k \<Longrightarrow> \<not> list_ex ctl_byte (pretty k)"
  using canonical_ctl [of k]
  by (simp add: pretty_def Let_def title_case_ctl) (simp add: ctl_byte_def byte_of_def)

lemma show_nat_ctl: "\<not> list_ex ctl_byte (show_nat n)"
  by (rule ptext_no_ctl) (rule vtext_ptext [OF vtext_show_nat])

lemma header_line_ctl: "\<not> list_ex ctl_byte k \<Longrightarrow> \<not> list_ex ctl_byte (header_line n (k, v))"
  using pretty_ctl [of k] header_safe_no_ctl [of _ v] show_nat_ctl [of n]
  by (auto simp: header_line_def list_ex_iff) (auto simp: ctl_byte_def byte_of_def)

section \<open>What a receiver reads\<close>

definition wf_header_name :: "string \<Rightarrow> bool" where
  "wf_header_name k \<longleftrightarrow> vtext k \<and> k \<noteq> [] \<and> canonical k = k \<and> CHR '':'' \<notin> set k"

text \<open>The header fields as they arrive: values lose control characters and outer white space.\<close>

definition wire_header :: "nat \<Rightarrow> string \<times> string \<Rightarrow> string \<times> string" where
  "wire_header len kv = (case kv of (k, v) \<Rightarrow>
     (k, if k = ''content-length'' then show_nat len else trim (header_safe v)))"

definition wire_headers :: "headers \<Rightarrow> nat \<Rightarrow> headers" where
  "wire_headers hs len = map (wire_header len) hs
     @ (if list_ex (\<lambda>(k, _). k = ''content-length'') hs then []
        else [(''content-length'', show_nat len)])"

lemma trim_blank [simp]: "trim (CHR '' '' # s) = trim s"
  by (simp add: trim_def)

lemma lower_title_case: "to_ascii_lowercase (title_case b s) = to_ascii_lowercase s"
  by (induction s arbitrary: b) (simp_all add: to_ascii_lowercase_def)

lemma vchar_upper: "vchar c \<Longrightarrow> vchar (ascii_upper c)"
  by (auto simp: vchar_def byte_of_upper)

lemma vtext_title_case: "vtext s \<Longrightarrow> vtext (title_case b s)"
  by (induction s arbitrary: b) (simp_all add: vchar_upper)

lemma ascii_upper_colon: "CHR '':'' = ascii_upper c \<longleftrightarrow> c = CHR '':''"
proof -
  have 58: "byte_of (CHR '':'') = 58" by (simp add: byte_of_def)
  have "CHR '':'' = ascii_upper c \<longleftrightarrow> byte_of (ascii_upper c) = 58"
    using byte_of_inj [of "ascii_upper c" "CHR '':''"] 58 by auto
  also have "\<dots> \<longleftrightarrow> byte_of c = 58" by (auto simp: byte_of_upper)
  also have "\<dots> \<longleftrightarrow> c = CHR '':''" using byte_of_inj [of c "CHR '':''"] 58 by simp
  finally show ?thesis .
qed

lemma colon_title_case: "CHR '':'' \<in> set (title_case b s) \<longleftrightarrow> CHR '':'' \<in> set s"
proof (induction s arbitrary: b)
  case (Cons a s)
  then show ?case using ascii_upper_colon [of a] by (cases b) auto
qed simp

lemma pretty_wf:
  assumes "wf_header_name k"
  shows "vtext (pretty k)" and "pretty k \<noteq> []" and "CHR '':'' \<notin> set (pretty k)"
    and "canonical (pretty k) = k"
proof -
  have k: "vtext k" "k \<noteq> []" "canonical k = k" "CHR '':'' \<notin> set k"
    using assms by (auto simp: wf_header_name_def)
  show v: "vtext (pretty k)"
    using k by (simp add: pretty_def Let_def vtext_title_case) (simp add: vchar_def byte_of_def)
  show "pretty k \<noteq> []"
    using k by (cases k) (auto simp: pretty_def Let_def)
  show "CHR '':'' \<notin> set (pretty k)"
    using k by (simp add: pretty_def Let_def colon_title_case)
  have "to_ascii_lowercase (pretty k) = to_ascii_lowercase k"
  proof -
    have "to_ascii_lowercase ''Call-ID'' = ''call-id''" "to_ascii_lowercase ''CSeq'' = ''cseq''"
      "to_ascii_lowercase ''WWW-Authenticate'' = ''www-authenticate''"
      "to_ascii_lowercase ''MIME-Version'' = ''mime-version''"
      "to_ascii_lowercase ''call-id'' = ''call-id''" "to_ascii_lowercase ''cseq'' = ''cseq''"
      "to_ascii_lowercase ''www-authenticate'' = ''www-authenticate''"
      "to_ascii_lowercase ''mime-version'' = ''mime-version''"
      by code_simp+
    then show ?thesis using k by (simp add: pretty_def Let_def lower_title_case)
  qed
  then have "canonical (pretty k) = canonical k"
    using v k by (simp add: canonical_def trim_vtext)
  with k show "canonical (pretty k) = k" by simp
qed

lemma parse_header_line_wire:
  assumes "wf_header_name k"
  shows "parse_header_line (header_line n (k, v)) = Some (wire_header n (k, v))"
proof (cases "k = ''content-length''")
  case True
  have "split_once (CHR '':'') (''Content-Length'' @ CHR '':'' # CHR '' '' # show_nat n) =
      Some (''Content-Length'', CHR '' '' # show_nat n)"
    by (rule split_once_append) simp
  with True show ?thesis
    by (simp add: header_line_def parse_header_line_def wire_header_def trim_vtext)
next
  case False
  with pretty_wf [OF assms] show ?thesis
    by (simp add: header_line_def parse_header_line_def wire_header_def split_once_append)
qed

lemma clean_lineI:
  assumes "l = c # t" and "vchar c" and "ptext t"
  shows "clean_line l" and "is_ascii l"
proof -
  have "c' \<noteq> cr \<and> c' \<noteq> lf" if "32 \<le> byte_of c'" for c'
    using that by (auto simp: cr_def lf_def byte_of_def)
  moreover have "\<forall>c' \<in> set l. 32 \<le> byte_of c' \<and> byte_of c' \<le> 126"
    using assms by (auto simp: vchar_def ptext_def list_all_iff)
  moreover have "c \<noteq> CHR '' ''" "c \<noteq> CHR 0x09"
    using assms(2) by (auto simp: vchar_def byte_of_def)
  ultimately show "clean_line l" "is_ascii l"
    using assms(1) by (auto simp: clean_line_def starts_with_def is_ascii_def list_all_iff)
qed

lemma header_line_clean:
  assumes "wf_header_name k" and "is_ascii v"
  shows "clean_line (header_line n (k, v))" and "is_ascii (header_line n (k, v))"
proof -
  have "\<exists>c t. header_line n (k, v) = c # t \<and> vchar c \<and> ptext t"
  proof (cases "k = ''content-length''")
    case True
    have "vchar (CHR ''C'')" "ptext (''ontent-Length: '' @ show_nat n)"
      using vtext_ptext [OF vtext_show_nat, of n] by (simp_all add: vchar_def byte_of_def)
    with True show ?thesis by (simp add: header_line_def)
  next
    case False
    obtain c t where ct: "pretty k = c # t" using pretty_wf(2) [OF assms(1)] by (cases "pretty k") auto
    then have "vchar c" "ptext t" using pretty_wf(1) [OF assms(1)] by (simp_all add: vtext_ptext)
    moreover have "ptext ('': '' @ header_safe v)"
      using header_safe_ascii [OF assms(2)] by (simp add: byte_of_def)
    ultimately show ?thesis using ct False by (simp add: header_line_def)
  qed
  then show "clean_line (header_line n (k, v))" "is_ascii (header_line n (k, v))"
    using clean_lineI by blast+
qed

lemma map_filter_append:
  "List.map_filter f (xs @ ys) = List.map_filter f xs @ List.map_filter f ys"
  by (simp add: List.map_filter_def)

lemma map_filter_header_lines:
  assumes "list_all (\<lambda>(k, v). wf_header_name k) hs"
  shows "List.map_filter parse_header_line (map (header_line n) hs) = map (wire_header n) hs"
  using assms by (induction hs) (auto simp: map_filter_simps parse_header_line_wire)

lemma wf_content_length: "wf_header_name ''content-length''"
  by code_simp

lemma is_ascii_Nil [simp]: "is_ascii []"
  by (simp add: is_ascii_def)

lemma parse_content_length_line:
  "parse_header_line (''Content-Length: '' @ show_nat n) = Some (''content-length'', show_nat n)"
  using parse_header_line_wire [OF wf_content_length, of n "[]"]
  by (simp add: header_line_def wire_header_def)

lemma content_length_line_clean:
  "clean_line (''Content-Length: '' @ show_nat n)" "is_ascii (''Content-Length: '' @ show_nat n)"
  using header_line_clean [OF wf_content_length is_ascii_Nil, of n]
  by (simp_all only: header_line_def prod.case simp_thms if_True)

text \<open>The first \<open>Content-Length\<close> on the wire is the length of the body.\<close>

lemma hget_wire_content_length: "hget (wire_headers hs n) ''content-length'' = Some (show_nat n)"
proof -
  have "find (\<lambda>(k, _). k = ''content-length'')
      (map (wire_header n) hs @ (if list_ex (\<lambda>(k, _). k = ''content-length'') hs then []
        else [(''content-length'', show_nat n)])) = Some (''content-length'', show_nat n)"
    by (induction hs) (auto simp: wire_header_def)
  then show ?thesis by (simp add: hget_def wire_headers_def)
qed

lemma trim_body_wire:
  assumes "length body < 2 ^ 64"
  shows "trim_body (wire_headers hs (length body)) (body @ pad) = body"
  using assms by (simp add: trim_body_def hget_wire_content_length trim_vtext parse_usize_show)

lemma serialize_parse:
  assumes start: "start = c # t" "vchar c" "ptext t"
    and hs: "list_all (\<lambda>(k, v). wf_header_name k \<and> is_ascii v) hs"
    and len: "length body < 2 ^ 64"
  shows "message_parse (serialize start hs body @ pad) =
    (if starts_with ''SIP/'' start then
        map_option (\<lambda>(c, r). ResponseMsg \<lparr>rs_code = c, rs_reason = r,
            rs_headers = wire_headers hs (length body), rs_body = body\<rparr>) (parse_status_line start)
      else
        map_option (\<lambda>(m, u). RequestMsg \<lparr>rq_method = m, rq_uri = u,
            rq_headers = wire_headers hs (length body), rq_body = body\<rparr>) (parse_request_line start))"
proof -
  let ?n = "length body"
  let ?extra = "if list_ex (\<lambda>(k, _). k = ''content-length'') hs then []
        else [''Content-Length: '' @ show_nat ?n]"
  let ?lines = "map (header_line ?n) hs @ ?extra"
  have safe: "header_safe start = start"
    using start by (intro header_safe_ptext) (simp add: vchar_def)
  have st: "clean_line start" "is_ascii start" using clean_lineI start by blast+
  have ls: "list_all clean_line (start # ?lines)" "list_all is_ascii (start # ?lines)"
    using hs st content_length_line_clean [of ?n]
    by (auto simp: list_all_iff simp del: append_Cons intro: header_line_clean)
  have mf: "List.map_filter parse_header_line ?lines = wire_headers hs ?n"
  proof -
    have names: "list_all (\<lambda>(k, v). wf_header_name k) hs" using hs by (auto simp: list_all_iff)
    show ?thesis
      using parse_content_length_line [of ?n]
      by (simp add: wire_headers_def map_filter_append map_filter_header_lines [OF names]
          map_filter_simps)
  qed
  have "serialize start hs body @ pad =
      concat (map (\<lambda>l. l @ crlf) (start # ?lines)) @ crlf @ (body @ pad)"
    by (simp add: serialize_def head_lines_def safe)
  then have "message_parse (serialize start hs body @ pad) = parse_lines start ?lines (body @ pad)"
    using message_parse_lines [OF ls, of "body @ pad"] by (simp only:)
  also have "\<dots> = (if starts_with ''SIP/'' start then
        map_option (\<lambda>(c, r). ResponseMsg \<lparr>rs_code = c, rs_reason = r,
            rs_headers = wire_headers hs ?n, rs_body = body\<rparr>) (parse_status_line start)
      else
        map_option (\<lambda>(m, u). RequestMsg \<lparr>rq_method = m, rq_uri = u,
            rq_headers = wire_headers hs ?n, rq_body = body\<rparr>) (parse_request_line start))"
    unfolding parse_lines_def mf Let_def trim_body_wire [OF len] ..
  finally show ?thesis .
qed

section \<open>Properties\<close>

lemma method_str_vtext [simp]: "vtext (method_str m)"
  by (cases m) (simp_all add: vchar_def byte_of_def)

lemma method_str_nonempty [simp]: "method_str m \<noteq> []"
  by (cases m) simp_all

lemma method_str_not_sip: "\<not> starts_with ''SIP/'' (method_str m @ s)"
  by (cases m) (simp_all add: starts_with_def)

lemma method_str_upper: "to_ascii_uppercase (method_str m) = method_str m"
proof -
  have "list_all (\<lambda>c. byte_of c < 97) (method_str m)"
    by (cases m) (simp_all add: byte_of_def)
  then show ?thesis
    unfolding to_ascii_uppercase_def
    by (intro map_idI) (fastforce simp: ascii_upper_def list_all_iff)
qed

lemma method_str_inj: "method_str m = method_str n \<longleftrightarrow> m = n"
  by (cases m; cases n) simp_all

lemma method_parse_str: "method_parse (method_str m) = Some m"
  by (simp add: method_parse_def method_str_upper method_str_inj)
    (cases m; simp add: all_methods_def)

definition wf_request :: "request \<Rightarrow> bool" where
  "wf_request r \<longleftrightarrow> wf_uri (rq_uri r) \<and> length (rq_body r) < 2 ^ 64 \<and>
     list_all (\<lambda>(k, v). wf_header_name k \<and> is_ascii v) (rq_headers r)"

definition wf_response :: "response \<Rightarrow> bool" where
  "wf_response r \<longleftrightarrow> ptext (rs_reason r) \<and> length (rs_body r) < 2 ^ 64 \<and>
     list_all (\<lambda>(k, v). wf_header_name k \<and> is_ascii v) (rs_headers r)"

lemma uri_show_nonempty [simp]: "uri_show u \<noteq> []"
  by (simp add: uri_show_def)

lemma request_encode_parse_aux:
  assumes "wf_request r"
  shows "message_parse (request_encode r @ pad) =
    Some (RequestMsg (r\<lparr>rq_headers := wire_headers (rq_headers r) (length (rq_body r))\<rparr>))"
proof -
  let ?start = "method_str (rq_method r) @ '' '' @ uri_show (rq_uri r) @ '' SIP/2.0''"
  have u: "wf_uri (rq_uri r)" using assms by (simp add: wf_request_def)
  obtain c t where ct: "method_str (rq_method r) = c # t"
    by (cases "method_str (rq_method r)") auto
  then have "vchar c" "vtext t" using method_str_vtext [of "rq_method r"] by simp_all
  then have st: "?start = c # (t @ '' '' @ uri_show (rq_uri r) @ '' SIP/2.0'')"
    "vchar c" "ptext (t @ '' '' @ uri_show (rq_uri r) @ '' SIP/2.0'')"
    using ct vtext_ptext uri_show_chars(1) [OF u] by (simp_all add: byte_of_def vtext_ptext)
  have "split_whitespace ?start = [method_str (rq_method r), uri_show (rq_uri r), ''SIP/2.0'']"
    using uri_show_chars(1) [OF u]
    by (simp add: split_whitespace_vtext_Cons split_whitespace_vtext vchar_def byte_of_def)
  then have "parse_request_line ?start = Some (rq_method r, rq_uri r)"
    using uri_parse_show_aux [OF u] by (simp add: parse_request_line_def method_parse_str)
  moreover have "\<not> starts_with ''SIP/'' ?start" by (rule method_str_not_sip)
  ultimately show ?thesis
    using serialize_parse [OF st, of "rq_headers r" "rq_body r" pad] assms
    by (simp add: request_encode_def wf_request_def)
qed

lemma response_encode_parse_aux:
  assumes "wf_response r"
  shows "message_parse (response_encode r @ pad) =
    Some (ResponseMsg (r\<lparr>rs_headers := wire_headers (rs_headers r) (length (rs_body r))\<rparr>))"
proof -
  let ?code = "show_nat (unat (rs_code r))"
  let ?start = "''SIP/2.0 '' @ ?code @ '' '' @ rs_reason r"
  have "ptext (''IP/2.0 '' @ ?code @ '' '' @ rs_reason r)"
    using assms by (simp add: wf_response_def byte_of_def vtext_ptext)
  then have st: "?start = CHR ''S'' # (''IP/2.0 '' @ ?code @ '' '' @ rs_reason r)"
    "vchar (CHR ''S'')" "ptext (''IP/2.0 '' @ ?code @ '' '' @ rs_reason r)"
    by (simp_all add: vchar_def byte_of_def)
  have "CHR '' '' \<notin> set ?code" by (rule show_nat_notin) (simp add: byte_of_def)
  then have "cut (CHR '' '') (?code @ CHR '' '' # rs_reason r) = (?code, Some (rs_reason r))"
    by (rule cut_append)
  moreover have "cut (CHR '' '') (''SIP/2.0'' @ CHR '' '' # (?code @ CHR '' '' # rs_reason r)) =
      (''SIP/2.0'', Some (?code @ CHR '' '' # rs_reason r))"
    by (rule cut_append) simp
  ultimately have "parse_status_line ?start = Some (rs_code r, rs_reason r)"
    by (simp add: parse_status_line_def parse_u16_show)
  moreover have "starts_with ''SIP/'' ?start" by (simp add: starts_with_def)
  ultimately show ?thesis
    using serialize_parse [OF st, of "rs_headers r" "rs_body r" pad] assms
    by (simp add: response_encode_def wf_response_def)
qed

text \<open>Property C34: a request the gateway sends is parsed by this stack's own parser as the same
  method, Request-URI and body, with the header fields in the same order under the same names,
  whatever padding follows the body in the datagram; a value only loses control characters and
  outer white space, and a \<open>Content-Length\<close> that states the body's length is present.\<close>

theorem request_round_trip:
  assumes "wf_request r"
  shows "message_parse (request_encode r @ pad) =
    Some (RequestMsg (r\<lparr>rq_headers := wire_headers (rq_headers r) (length (rq_body r))\<rparr>))"
  using assms by (rule request_encode_parse_aux)

definition example_request :: request where
  "example_request = \<lparr>rq_method = Message, rq_uri = example_uri,
     rq_headers = [(''via'', ''SIP/2.0/UDP 10.0.0.1:5060;branch=z9hG4bK1''),
       (''from'', ''<sip:a@h>'' @ [CHR 0x0D, CHR 0x0A] @ ''Contact: <sip:evil@h>'')],
     rq_body = ''hello''\<rparr>"

theorem request_round_trip_witness:
  "message_parse (request_encode example_request @ ''junk'') =
    Some (RequestMsg (example_request\<lparr>rq_headers :=
      [(''via'', ''SIP/2.0/UDP 10.0.0.1:5060;branch=z9hG4bK1''),
       (''from'', ''<sip:a@h>Contact: <sip:evil@h>''), (''content-length'', ''5'')]\<rparr>))"
proof -
  have names: "wf_header_name ''via''" "wf_header_name ''from''" by code_simp+
  have "wf_request example_request"
    using names example_uri_wf by (simp add: wf_request_def example_request_def is_ascii_def byte_of_def)
  from request_round_trip [OF this, of "''junk''"]
  have "message_parse (request_encode example_request @ ''junk'') =
    Some (RequestMsg (example_request\<lparr>rq_headers :=
      wire_headers (rq_headers example_request) (length (rq_body example_request))\<rparr>))" .
  moreover have "wire_headers (rq_headers example_request) (length (rq_body example_request)) =
      [(''via'', ''SIP/2.0/UDP 10.0.0.1:5060;branch=z9hG4bK1''),
       (''from'', ''<sip:a@h>Contact: <sip:evil@h>''), (''content-length'', ''5'')]"
  proof -
    have "trim (header_safe ''SIP/2.0/UDP 10.0.0.1:5060;branch=z9hG4bK1'') =
        ''SIP/2.0/UDP 10.0.0.1:5060;branch=z9hG4bK1''" by code_simp
    moreover have "trim (header_safe (''<sip:a@h>'' @ [CHR 0x0D, CHR 0x0A] @ ''Contact: <sip:evil@h>'')) =
        ''<sip:a@h>Contact: <sip:evil@h>''" by code_simp
    moreover have "show_nat 5 = ''5''" by (simp add: show_nat_def show_radix.simps digit_char_def char_of_def bit_Suc_0_iff)
    ultimately show ?thesis by (simp add: wire_headers_def wire_header_def example_request_def numeral_eq_Suc)
  qed
  ultimately show ?thesis by simp
qed

text \<open>The same for a response: status code, reason phrase and body are read back, with
  the header fields in order.\<close>

lemma response_round_trip:
  assumes "wf_response r"
  shows "message_parse (response_encode r @ pad) =
    Some (ResponseMsg (r\<lparr>rs_headers := wire_headers (rs_headers r) (length (rs_body r))\<rparr>))"
  using assms by (rule response_encode_parse_aux)

theorem response_round_trip_witness:
  "message_parse (response_encode
      \<lparr>rs_code = 202, rs_reason = ''Accepted'', rs_headers = [(''cseq'', ''7 MESSAGE'')], rs_body = []\<rparr>) =
    Some (ResponseMsg \<lparr>rs_code = 202, rs_reason = ''Accepted'',
      rs_headers = [(''cseq'', ''7 MESSAGE''), (''content-length'', ''0'')], rs_body = []\<rparr>)"
proof -
  let ?r = "\<lparr>rs_code = 202, rs_reason = ''Accepted'', rs_headers = [(''cseq'', ''7 MESSAGE'')], rs_body = []\<rparr>"
  have name: "wf_header_name ''cseq''" by code_simp
  have r: "wf_response ?r" using name by (simp add: wf_response_def byte_of_def is_ascii_def)
  have "trim (header_safe ''7 MESSAGE'') = ''7 MESSAGE''" by code_simp
  moreover have "show_nat 0 = ''0''" by (simp add: show_nat_def show_radix.simps digit_char_def char_of_def bit_Suc_0_iff)
  ultimately show ?thesis
    using response_round_trip [OF r, of "[]"] by (simp add: wire_headers_def wire_header_def)
qed

text \<open>Property C12: no header value can end its own line. Whatever text a number, a subject or a
  display name carries, the head of a serialised message consists of one line per header field
  (plus the start line and the \<open>Content-Length\<close>), none of which contains a control
  character.\<close>

theorem no_header_injection:
  assumes "\<forall>(k, v) \<in> set hs. \<not> list_ex ctl_byte k"
  shows "serialize start hs body =
      concat (map (\<lambda>l. l @ crlf) (head_lines start hs (length body))) @ crlf @ body \<and>
    length (head_lines start hs (length body)) =
      1 + length hs + (if list_ex (\<lambda>(k, _). k = ''content-length'') hs then 0 else 1) \<and>
    (\<forall>l \<in> set (head_lines start hs (length body)). \<not> list_ex ctl_byte l)"
proof (intro conjI ballI)
  fix l assume "l \<in> set (head_lines start hs (length body))"
  then consider "l = header_safe start" | k v where "(k, v) \<in> set hs" "l = header_line (length body) (k, v)"
    | "l = header_line (length body) (''content-length'', [])"
    by (auto simp: head_lines_def header_line_def split: if_splits)
  then show "\<not> list_ex ctl_byte l"
  proof cases
    case 1
    then show ?thesis by (auto simp: list_ex_iff dest: header_safe_no_ctl)
  next
    case 2
    with assms have "\<not> list_ex ctl_byte k" by blast
    with 2 show ?thesis by (simp add: header_line_ctl)
  next
    case 3
    have "\<not> list_ex ctl_byte ''content-length''" by code_simp
    with 3 show ?thesis by (simp only: header_line_ctl not_False_eq_True)
  qed
qed (simp_all add: serialize_def head_lines_def)

theorem no_header_injection_witness:
  "list_all (\<lambda>l. \<not> list_ex ctl_byte l) (head_lines ''MESSAGE sip:gw SIP/2.0''
      [(''subject'', ''hi'' @ [CHR 0x0A] @ ''Contact: <sip:evil@h>'')] 0)"
proof -
  have "\<forall>(k, v) \<in> set [(''subject'', ''hi'' @ [CHR 0x0A] @ ''Contact: <sip:evil@h>'')].
      \<not> list_ex ctl_byte k" by code_simp
  from no_header_injection [OF this, of "''MESSAGE sip:gw SIP/2.0''" "[]"] show ?thesis
    by (simp add: list_all_iff)
qed

lemma reply_headers:
  "hget_all (rs_headers (reply r c reason)) n =
    (if canonical n \<in> {''via'', ''record-route''} then hget_all (rq_headers r) n
     else if canonical n \<in> {''from'', ''to'', ''call-id'', ''cseq''} then take 1 (hget_all (rq_headers r) n)
     else [])"
proof -
  have push: "hget_all (push_all h k vs) n = (if canonical n = canonical k then hget_all h n @ vs else hget_all h n)"
    for h k vs
    by (simp add: hget_all_push_all eq_commute [of "canonical k"])
  have setf: "hget_all (set_from src k h) n = (if canonical n = canonical k \<and> hget_all src n \<noteq> []
      then take 1 (hget_all src n) else hget_all h n)" for src k h
  proof (cases "canonical n = canonical k")
    case True
    then have "hget_all src k = hget_all src n" by (simp add: hget_all_def)
    with True show ?thesis using hs.get_None [of src k] by (simp add: hget_all_set_from)
  next
    case False
    then show ?thesis by (simp add: hget_all_set_from eq_commute [of "canonical k"])
  qed
  have same: "hget_all (rq_headers r) k = hget_all (rq_headers r) n" if "canonical n = canonical k" for k
    using that by (simp add: hget_all_def)
  have nil: "hget_all [] n = []" by (simp add: hget_all_def)
  show ?thesis
    using same [of "''via''"] same [of "''record-route''"]
    by (simp only: reply_def Let_def response.simps push setf nil canonical_literals) auto
qed

text \<open>A response mirrors its request: the Via and Record-Route values in order, the first
  From, To, Call-ID and CSeq value, and no other header field.\<close>

theorem reply_mirrors_request:
  "hget_all (rs_headers (reply r c reason)) n =
    (if canonical n \<in> {''via'', ''record-route''} then hget_all (rq_headers r) n
     else if canonical n \<in> {''from'', ''to'', ''call-id'', ''cseq''} then take 1 (hget_all (rq_headers r) n)
     else [])"
  by (rule reply_headers)

end
