(* ===== verification/SipAuth.thy ===== *)
theory SipAuth
  imports Prelude
begin

text \<open>
  The model of \<open>src/sip/auth.rs\<close>: HTTP digest authentication (parsing and writing of
  challenges and credentials, the digest itself, client answer and server check) and the nonces
  the gateway issues. MD5 is a parameter; the lemmas hold for every hash function.
\<close>

section \<open>Hashes and random texts\<close>

text \<open>
  The digest function of the \<open>md-5\<close> crate is the parameter \<open>md5\<close> of every definition
  that hashes; the bytes a random generator draws are an argument.
\<close>

type_synonym md5_fn = "string \<Rightarrow> u8 list"

definition hex_text :: "u8 list \<Rightarrow> string" where
  "hex_text bs = concat (map (\<lambda>b. show_hex_pad 2 (unat b)) bs)"

definition md5_hex :: "md5_fn \<Rightarrow> string \<Rightarrow> string" where
  "md5_hex md5 data = hex_text (md5 data)"

definition random_hex :: "u8 list \<Rightarrow> string" where
  "random_hex draws = hex_text draws"

section \<open>Challenges and credentials\<close>

record challenge =
  ch_realm :: string
  ch_nonce :: string
  ch_opaque :: "string option"
  ch_qop :: "string option"
  ch_algorithm :: "string option"

record credentials =
  cr_username :: string
  cr_realm :: string
  cr_nonce :: string
  cr_uri :: string
  cr_response :: string
  cr_algorithm :: "string option"
  cr_cnonce :: "string option"
  cr_nc :: "string option"
  cr_qop :: "string option"
  cr_opaque :: "string option"

definition is_supported :: "challenge \<Rightarrow> bool" where
  "is_supported ch = (case ch_algorithm ch of
     Some a \<Rightarrow> eq_ignore_ascii_case a ''MD5'' \<or> eq_ignore_ascii_case a ''MD5-sess''
   | None \<Rightarrow> True)"

definition ascii_ws :: "char \<Rightarrow> bool" where
  "ascii_ws c \<longleftrightarrow> byte_of c \<in> {0x20, 0x09, 0x0A, 0x0C, 0x0D}"

definition quote :: char where "quote = CHR 0x22"

text \<open>The value after the equals sign and the text that follows it.\<close>

definition param_value :: "string \<Rightarrow> string \<times> string" where
  "param_value s =
     (case s of
        c # t \<Rightarrow>
          if c = quote then
            (takeWhile (\<lambda>x. x \<noteq> quote) t, drop 1 (dropWhile (\<lambda>x. x \<noteq> quote) t))
          else (trim (takeWhile (\<lambda>x. x \<noteq> CHR '','') s), dropWhile (\<lambda>x. x \<noteq> CHR '','') s)
      | [] \<Rightarrow> ([], []))"

lemma param_value_length: "param_value s = (v, r) \<Longrightarrow> length r \<le> length s"
  using length_dropWhile_le [of "\<lambda>x. x \<noteq> quote" "tl s"] length_dropWhile_le [of "\<lambda>x. x \<noteq> CHR '',''" "tl s"]
  by (cases s) (auto simp: param_value_def split: if_splits)

lemma params_loop_shorter:
  assumes "trim (takeWhile p (dropWhile q s)) \<noteq> []"
  shows "length (dropWhile p (dropWhile q s)) < length s"
proof -
  let ?t = "dropWhile q s"
  have "takeWhile p ?t \<noteq> []" using assms by auto
  then have "0 < length (takeWhile p ?t)" by (rule length_greater_0_conv [THEN iffD2])
  moreover have "length (takeWhile p ?t) + length (dropWhile p ?t) = length ?t"
    unfolding length_append [symmetric] by (simp only: takeWhile_dropWhile_id)
  ultimately show ?thesis using length_dropWhile_le [of q s] by linarith
qed

text \<open>
  The loop of \<open>parse_params\<close>; the \<open>HashMap\<close> is a map, so a later value of the same
  name replaces an earlier one.
\<close>

function params_loop :: "(string \<rightharpoonup> string) \<Rightarrow> string \<Rightarrow> (string \<rightharpoonup> string)" where
  "params_loop out s =
     (let s1 = dropWhile (\<lambda>c. c = CHR '','' \<or> ascii_ws c) s;
          raw = takeWhile (\<lambda>c. c \<noteq> CHR ''='' \<and> c \<noteq> CHR '','') s1;
          s2 = dropWhile (\<lambda>c. c \<noteq> CHR ''='' \<and> c \<noteq> CHR '','') s1;
          key = to_ascii_lowercase (trim raw) in
      if key = [] then out
      else
        (case s2 of
           [] \<Rightarrow> out(key \<mapsto> [])
         | c # s3 \<Rightarrow>
             if c = CHR '','' then params_loop (out(key \<mapsto> [])) s2
             else (let (v, s4) = param_value (dropWhile ascii_ws s3)
                   in params_loop (out(key \<mapsto> v)) s4)))"
  by pat_completeness auto

termination
proof (relation "measure (length \<circ> snd)", goal_cases)
  case (2 out s s1 raw s2 key c s3)
  then have "trim raw \<noteq> []" by simp
  with 2 show ?case by (simp add: params_loop_shorter)
next
  case (3 out s s1 raw s2 key c s3 p v s4)
  then have "trim raw \<noteq> []" by simp
  with 3(1-3) have "length s2 < length s" by (simp only: params_loop_shorter not_False_eq_True)
  moreover have "length s3 < length s2" using 3(6) by simp
  moreover have "length s4 \<le> length (dropWhile ascii_ws s3)"
    using 3(8,9) by (intro param_value_length [of _ v]) simp
  moreover note length_dropWhile_le [of ascii_ws s3]
  ultimately show ?case by simp
qed simp

declare params_loop.simps [simp del]

definition parse_params :: "string \<Rightarrow> (string \<rightharpoonup> string)" where
  "parse_params s = params_loop Map.empty s"

definition digest_params :: "string \<Rightarrow> (string \<rightharpoonup> string) option" where
  "digest_params value =
     (case split_once_ws (trim value) of
        None \<Rightarrow> None
      | Some (scheme, rest) \<Rightarrow>
          if eq_ignore_ascii_case scheme ''Digest'' then Some (parse_params rest) else None)"

definition or_default :: "string option \<Rightarrow> string" where
  "or_default x = (case x of Some s \<Rightarrow> s | None \<Rightarrow> [])"

definition challenge_parse :: "string \<Rightarrow> challenge option" where
  "challenge_parse value = map_option (\<lambda>p.
     \<lparr>ch_realm = or_default (p ''realm''), ch_nonce = or_default (p ''nonce''),
      ch_opaque = p ''opaque'', ch_qop = p ''qop'', ch_algorithm = p ''algorithm''\<rparr>)
     (digest_params value)"

definition credentials_parse :: "string \<Rightarrow> credentials option" where
  "credentials_parse value = map_option (\<lambda>p.
     \<lparr>cr_username = or_default (p ''username''), cr_realm = or_default (p ''realm''),
      cr_nonce = or_default (p ''nonce''), cr_uri = or_default (p ''uri''),
      cr_response = or_default (p ''response''), cr_algorithm = p ''algorithm'',
      cr_cnonce = p ''cnonce'', cr_nc = p ''nc'', cr_qop = p ''qop'', cr_opaque = p ''opaque''\<rparr>)
     (digest_params value)"

definition quoted :: "string \<Rightarrow> string" where
  "quoted s = quote # s @ [quote]"

definition opt_field :: "string \<Rightarrow> string option \<Rightarrow> string" where
  "opt_field name v = (case v of Some x \<Rightarrow> '', '' @ name @ x | None \<Rightarrow> [])"

definition to_header :: "credentials \<Rightarrow> string" where
  "to_header c =
     ''Digest username='' @ quoted (cr_username c) @ '', realm='' @ quoted (cr_realm c)
     @ '', nonce='' @ quoted (cr_nonce c) @ '', uri='' @ quoted (cr_uri c)
     @ '', response='' @ quoted (cr_response c)
     @ opt_field ''algorithm='' (cr_algorithm c)
     @ (case cr_qop c of
          Some q \<Rightarrow> opt_field ''qop='' (Some q) @ opt_field ''nc='' (cr_nc c)
            @ opt_field ''cnonce='' (map_option quoted (cr_cnonce c))
        | None \<Rightarrow> [])
     @ opt_field ''opaque='' (map_option quoted (cr_opaque c))"

section \<open>The digest\<close>

definition digest_ha1 :: "md5_fn \<Rightarrow> string \<Rightarrow> string \<Rightarrow> string \<Rightarrow> string \<Rightarrow> string option \<Rightarrow>
    string option \<Rightarrow> string" where
  "digest_ha1 md5 user pw realm nonce cnonce algorithm =
     (let ha1 = md5_hex md5 (user @ '':'' @ realm @ '':'' @ pw) in
      if (case algorithm of Some a \<Rightarrow> eq_ignore_ascii_case a ''MD5-sess'' | None \<Rightarrow> False)
      then md5_hex md5 (ha1 @ '':'' @ nonce @ '':'' @ or_default cnonce)
      else ha1)"

definition is_auth_int :: "string option \<Rightarrow> bool" where
  "is_auth_int qop = (case qop of Some q \<Rightarrow> eq_ignore_ascii_case q ''auth-int'' | None \<Rightarrow> False)"

definition digest_ha2 :: "md5_fn \<Rightarrow> string \<Rightarrow> string \<Rightarrow> string option \<Rightarrow> string \<Rightarrow> string" where
  "digest_ha2 md5 mth uri qop body =
     (if is_auth_int qop then md5_hex md5 (mth @ '':'' @ uri @ '':'' @ md5_hex md5 body)
      else md5_hex md5 (mth @ '':'' @ uri))"

definition digest_response :: "md5_fn \<Rightarrow> string \<Rightarrow> string \<Rightarrow> string \<Rightarrow> string \<Rightarrow> string \<Rightarrow> string \<Rightarrow>
    string option \<Rightarrow> string option \<Rightarrow> string option \<Rightarrow> string option \<Rightarrow> string \<Rightarrow> string" where
  "digest_response md5 user pw realm nonce mth uri qop cnonce nc algorithm body =
     (let ha1 = digest_ha1 md5 user pw realm nonce cnonce algorithm;
          ha2 = digest_ha2 md5 mth uri qop body in
      case qop of
        Some (c # q) \<Rightarrow> md5_hex md5 (ha1 @ '':'' @ nonce @ '':''
            @ (case nc of Some n \<Rightarrow> n | None \<Rightarrow> ''00000001'') @ '':'' @ or_default cnonce
            @ '':'' @ (c # q) @ '':'' @ ha2)
      | _ \<Rightarrow> md5_hex md5 (ha1 @ '':'' @ nonce @ '':'' @ ha2))"

text \<open>Client side. \<open>draws\<close> are the eight bytes of \<open>random_hex(8)\<close>.\<close>

definition answer :: "md5_fn \<Rightarrow> u8 list \<Rightarrow> challenge \<Rightarrow> string \<Rightarrow> string \<Rightarrow> string \<Rightarrow> string \<Rightarrow>
    string \<Rightarrow> u32 \<Rightarrow> credentials" where
  "answer md5 draws ch user pw mth uri body nc_value =
     (let qop = Option.bind (ch_qop ch)
            (\<lambda>q. find (\<lambda>s. eq_ignore_ascii_case s ''auth'') (map trim (split_on (CHR '','') q)));
          cnonce = map_option (\<lambda>_. random_hex draws) qop;
          nc = map_option (\<lambda>_. show_hex_pad 8 (unat nc_value)) qop
      in \<lparr>cr_username = user, cr_realm = ch_realm ch, cr_nonce = ch_nonce ch, cr_uri = uri,
          cr_response = digest_response md5 user pw (ch_realm ch) (ch_nonce ch) mth uri qop cnonce
            nc (ch_algorithm ch) body,
          cr_algorithm = ch_algorithm ch, cr_cnonce = cnonce, cr_nc = nc, cr_qop = qop,
          cr_opaque = ch_opaque ch\<rparr>)"

text \<open>The comparison that does not stop at the first difference.\<close>

definition same_text :: "string \<Rightarrow> string \<Rightarrow> bool" where
  "same_text a b \<longleftrightarrow> length a = length b \<and>
     fold (\<lambda>(x, y) acc. or acc (xor x y)) (zip (text_bytes a) (text_bytes b)) (0 :: u8) = 0"

definition verify :: "md5_fn \<Rightarrow> credentials \<Rightarrow> string \<Rightarrow> string \<Rightarrow> string \<Rightarrow> bool" where
  "verify md5 c pw mth body =
     same_text (digest_response md5 (cr_username c) pw (cr_realm c) (cr_nonce c) mth (cr_uri c)
       (cr_qop c) (cr_cnonce c) (cr_nc c) (cr_algorithm c) body) (cr_response c)"

section \<open>Nonces\<close>

text \<open>
  \<open>now\<close> is the clock reading of the call, in seconds. \<open>i64\<close> subtraction wraps in
  a release build.
\<close>

record nonce_factory = nf_secret :: string

definition wrap_i64 :: "int \<Rightarrow> int" where
  "wrap_i64 x = (x + 2 ^ 63) mod 2 ^ 64 - 2 ^ 63"

definition nonce_factory_new :: "u8 list \<Rightarrow> nonce_factory" where
  "nonce_factory_new draws = \<lparr>nf_secret = random_hex draws\<rparr>"

definition nonce_issue :: "md5_fn \<Rightarrow> nonce_factory \<Rightarrow> int \<Rightarrow> string" where
  "nonce_issue md5 nf now =
     show_int now @ '':'' @ md5_hex md5 (show_int now @ '':'' @ nf_secret nf)"

definition nonce_is_valid :: "md5_fn \<Rightarrow> nonce_factory \<Rightarrow> int \<Rightarrow> string \<Rightarrow> int \<Rightarrow> bool" where
  "nonce_is_valid md5 nf now nonce max_age =
     (case split_once (CHR '':'') nonce of
        None \<Rightarrow> False
      | Some (ts, digest) \<Rightarrow>
          (case parse_i64 ts of
             None \<Rightarrow> False
           | Some t \<Rightarrow>
               if md5_hex md5 (show_int t @ '':'' @ nf_secret nf) \<noteq> digest then False
               else (let age = wrap_i64 (now - t) in 0 \<le> age \<and> age \<le> max_age)))"

section \<open>Comparison and hexadecimal texts\<close>

lemma or_eq_0_word: "or (a :: u8) b = 0 \<longleftrightarrow> a = 0 \<and> b = 0"
  by (simp add: or_eq_0_iff)

lemma xor_eq_0_word: "xor (a :: u8) b = 0 \<longleftrightarrow> a = b"
  by (metis bit.xor_cancel_right bit.xor_self xor.right_neutral xor.assoc)

lemma fold_or_xor:
  "length xs = length ys \<Longrightarrow>
    fold (\<lambda>(x, y) acc. or acc (xor x y)) (zip xs ys) a = (0 :: u8) \<longleftrightarrow> a = 0 \<and> xs = ys"
  by (induction xs ys arbitrary: a rule: list_induct2) (auto simp: or_eq_0_word xor_eq_0_word)

lemma text_bytes_inj: "text_bytes a = text_bytes b \<longleftrightarrow> a = b"
  by (metis bytes_text_text_bytes)

lemma same_text_eq [simp]: "same_text a b \<longleftrightarrow> a = b"
  using fold_or_xor [of "text_bytes a" "text_bytes b" 0]
  by (auto simp: same_text_def text_bytes_inj)

lemma hex_text_set: "c \<in> set (hex_text bs) \<Longrightarrow> 48 \<le> byte_of c \<and> byte_of c \<le> 57 \<or> 97 \<le> byte_of c \<and> byte_of c \<le> 102"
  using show_hex_digit [of c]
  by (auto simp: hex_text_def show_hex_pad_def) (simp_all add: byte_of_def)

lemma md5_hex_no_colon: "CHR '':'' \<notin> set (md5_hex md5 s)"
  by (auto simp: md5_hex_def dest!: hex_text_set) (simp_all add: byte_of_def)

section \<open>Reading a header that was written\<close>

definition wf_key :: "string \<Rightarrow> bool" where
  "wf_key k \<longleftrightarrow> vtext k \<and> k \<noteq> [] \<and> to_ascii_lowercase k = k \<and> CHR ''='' \<notin> set k \<and> CHR '','' \<notin> set k"

definition wf_token :: "string \<Rightarrow> bool" where
  "wf_token v \<longleftrightarrow> vtext v \<and> CHR '','' \<notin> set v \<and> quote \<notin> set v"

lemma vchar_not_ascii_ws: "vchar c \<Longrightarrow> \<not> ascii_ws c"
  by (auto simp: vchar_def ascii_ws_def)

lemma params_loop_Nil [simp]: "params_loop m [] = m"
  by (simp add: params_loop.simps)

lemma params_loop_skip: "c = CHR '','' \<or> ascii_ws c \<Longrightarrow> params_loop m (c # s) = params_loop m s"
  by (subst (1 2) params_loop.simps) simp

lemma params_loop_sep: "params_loop m (CHR '','' # CHR '' '' # s) = params_loop m s"
  by (simp add: params_loop_skip ascii_ws_def byte_of_def)

lemma params_loop_key:
  assumes "wf_key k"
  shows "params_loop m (k @ CHR ''='' # s) =
    (let (v, r) = param_value (dropWhile ascii_ws s) in params_loop (m(k \<mapsto> v)) r)"
proof -
  obtain c t where k: "k = c # t" "vchar c" "c \<noteq> CHR '',''" "c \<noteq> CHR ''=''"
    using assms by (cases k) (auto simp: wf_key_def)
  then have s1: "dropWhile (\<lambda>c. c = CHR '','' \<or> ascii_ws c) (k @ CHR ''='' # s) = k @ CHR ''='' # s"
    by (simp add: vchar_not_ascii_ws)
  have "\<forall>x \<in> set k. x \<noteq> CHR ''='' \<and> x \<noteq> CHR '',''" using assms by (auto simp: wf_key_def)
  then have tw: "takeWhile (\<lambda>c. c \<noteq> CHR ''='' \<and> c \<noteq> CHR '','') (k @ CHR ''='' # s) = k"
    and dw: "dropWhile (\<lambda>c. c \<noteq> CHR ''='' \<and> c \<noteq> CHR '','') (k @ CHR ''='' # s) = CHR ''='' # s"
    by (simp_all add: takeWhile_append2 dropWhile_append2)
  have low: "to_ascii_lowercase (trim k) = k" and "k \<noteq> []" using assms by (simp_all add: wf_key_def trim_vtext)
  then show ?thesis
    by (subst params_loop.simps) (simp only: s1 tw dw low Let_def if_False list.case, simp)
qed

lemma params_loop_quoted:
  assumes "wf_key k" and "quote \<notin> set v"
  shows "params_loop m (k @ CHR ''='' # quote # v @ quote # s) = params_loop (m(k \<mapsto> v)) s"
proof -
  have "\<not> ascii_ws quote" by (simp add: ascii_ws_def quote_def byte_of_def)
  moreover have "\<forall>x \<in> set v. x \<noteq> quote" using assms(2) by auto
  ultimately show ?thesis
    using assms(1)
    by (simp add: params_loop_key param_value_def takeWhile_append2 dropWhile_append2)
qed

lemma param_value_token:
  assumes "wf_token v" and "s = [] \<or> hd s = CHR '',''"
  shows "param_value (dropWhile ascii_ws (v @ s)) = (v, s)"
proof -
  have c: "\<not> ascii_ws (CHR '','')" by (simp add: ascii_ws_def byte_of_def)
  have q: "CHR '','' \<noteq> quote" by (simp add: quote_def)
  have v: "\<forall>x \<in> set v. x \<noteq> CHR '',''" "trim v = v"
    using assms(1) by (auto simp: wf_token_def trim_vtext)
  show ?thesis
  proof (cases v)
    case Nil
    then show ?thesis using assms(2) c q by (cases s) (simp_all add: param_value_def)
  next
    case (Cons a t)
    then have "\<not> ascii_ws a" "a \<noteq> quote" using assms(1) by (auto simp: wf_token_def vchar_not_ascii_ws)
    moreover have "takeWhile (\<lambda>x. x \<noteq> CHR '','') (v @ s) = v" "dropWhile (\<lambda>x. x \<noteq> CHR '','') (v @ s) = s"
      using v(1) assms(2) by (cases s; simp add: takeWhile_append2 dropWhile_append2)+
    ultimately show ?thesis using Cons v(2) by (simp add: param_value_def)
  qed
qed

lemma params_loop_token:
  assumes "wf_key k" and "wf_token v" and "s = [] \<or> hd s = CHR '',''"
  shows "params_loop m (k @ CHR ''='' # v @ s) = params_loop (m(k \<mapsto> v)) s"
  using assms by (simp add: params_loop_key param_value_token)

section \<open>Properties\<close>

text \<open>Header fields that can be written without escapes.\<close>

definition opt_all :: "('a \<Rightarrow> bool) \<Rightarrow> 'a option \<Rightarrow> bool" where
  "opt_all P x = (case x of Some y \<Rightarrow> P y | None \<Rightarrow> True)"

definition unquoted :: "string \<Rightarrow> bool" where
  "unquoted s \<longleftrightarrow> quote \<notin> set s"

definition wf_credentials :: "credentials \<Rightarrow> bool" where
  "wf_credentials c \<longleftrightarrow> unquoted (cr_username c) \<and> unquoted (cr_realm c) \<and> unquoted (cr_nonce c) \<and>
     unquoted (cr_uri c) \<and> unquoted (cr_response c) \<and> opt_all wf_token (cr_algorithm c) \<and>
     opt_all wf_token (cr_qop c) \<and> opt_all wf_token (cr_nc c) \<and> opt_all unquoted (cr_cnonce c) \<and>
     opt_all unquoted (cr_opaque c) \<and> (cr_qop c = None \<longrightarrow> cr_nc c = None \<and> cr_cnonce c = None)"

definition ends_vchar :: "string \<Rightarrow> bool" where
  "ends_vchar s \<longleftrightarrow> s \<noteq> [] \<and> vchar (last s)"

lemma ends_vchar_append: "ends_vchar (a @ b) \<longleftrightarrow> (if b = [] then ends_vchar a else ends_vchar b)"
  by (simp add: ends_vchar_def)

lemma ends_vchar_Cons: "ends_vchar (a # b) \<longleftrightarrow> (if b = [] then vchar a else ends_vchar b)"
  by (simp add: ends_vchar_def)

lemma ends_vchar_not_Nil: "ends_vchar s \<Longrightarrow> s \<noteq> []"
  by (simp add: ends_vchar_def)

lemma ends_vchar_quoted: "ends_vchar (quoted s)"
  by (simp add: ends_vchar_def quoted_def quote_def vchar_def byte_of_def)

lemma ends_vchar_token: "wf_token v \<Longrightarrow> v \<noteq> [] \<Longrightarrow> ends_vchar v"
  by (auto simp: ends_vchar_def wf_token_def list_all_iff)

lemma to_header_ends: "wf_credentials c \<Longrightarrow> ends_vchar (to_header c)"
proof -
  have eq: "ends_vchar ''algorithm=''" "ends_vchar ''qop=''" "ends_vchar ''nc=''"
    by (simp_all add: ends_vchar_def vchar_def byte_of_def)
  have tok: "ends_vchar (opt_field k (Some v))" if "wf_token v" "ends_vchar k" for k v
    using that by (cases "v = []") (auto simp: opt_field_def ends_vchar_append ends_vchar_Cons ends_vchar_token dest: ends_vchar_not_Nil)
  have quo: "ends_vchar (opt_field k (Some (quoted v)))" for k v
    by (simp add: opt_field_def ends_vchar_append ends_vchar_Cons ends_vchar_quoted)
      (simp add: quoted_def)
  have none: "opt_field k None = []" "opt_field k (Some v) \<noteq> []" "quoted v \<noteq> []" for k v
    by (simp_all add: opt_field_def quoted_def)
  assume "wf_credentials c"
  then show ?thesis
    by (cases "cr_algorithm c"; cases "cr_qop c"; cases "cr_nc c"; cases "cr_cnonce c"; cases "cr_opaque c")
      (simp_all add: wf_credentials_def opt_all_def to_header_def ends_vchar_append none tok quo eq
        ends_vchar_quoted del: append_Cons append_Nil)
qed

lemma wf_keys [simp]:
  "wf_key ''username''" "wf_key ''realm''" "wf_key ''nonce''" "wf_key ''uri''" "wf_key ''response''"
  "wf_key ''algorithm''" "wf_key ''qop''" "wf_key ''nc''" "wf_key ''cnonce''" "wf_key ''opaque''"
  by code_simp+

lemma to_header_trim: "wf_credentials c \<Longrightarrow> trim (to_header c) = to_header c"
proof (rule trim_id, rule disjI2, rule conjI)
  assume "wf_credentials c"
  then show "vchar (last (to_header c))" using to_header_ends by (simp add: ends_vchar_def)
  show "vchar (hd (to_header c))" by (simp add: to_header_def vchar_def byte_of_def)
qed

lemma digest_params_to_header:
  assumes "wf_credentials c"
  shows "digest_params (to_header c) =
    Some (params_loop Map.empty (drop 7 (to_header c)))"
proof -
  have "to_header c = ''Digest'' @ CHR '' '' # drop 7 (to_header c)"
    by (simp add: to_header_def)
  moreover have "vtext ''Digest''" by (simp add: vchar_def byte_of_def)
  ultimately have "split_once_ws (to_header c) = Some (''Digest'', drop 7 (to_header c))"
    by (metis split_once_ws_vtext)
  then show ?thesis
    using assms by (simp add: digest_params_def to_header_trim parse_params_def)
qed

lemma credentials_fields:
  assumes "wf_credentials c"
  shows "params_loop Map.empty (drop 7 (to_header c)) =
    (let m = [''username'' \<mapsto> cr_username c, ''realm'' \<mapsto> cr_realm c, ''nonce'' \<mapsto> cr_nonce c,
          ''uri'' \<mapsto> cr_uri c, ''response'' \<mapsto> cr_response c];
         upd = (\<lambda>m k v. case v of Some t \<Rightarrow> m(k \<mapsto> t) | None \<Rightarrow> m)
     in upd (upd (upd (upd (upd m ''algorithm'' (cr_algorithm c)) ''qop'' (cr_qop c)) ''nc'' (cr_nc c))
        ''cnonce'' (cr_cnonce c)) ''opaque'' (cr_opaque c))"
proof -
  note first = params_loop_quoted [OF wf_keys(1), simplified] params_loop_quoted [OF wf_keys(2), simplified]
    params_loop_quoted [OF wf_keys(3), simplified] params_loop_quoted [OF wf_keys(4), simplified]
    params_loop_quoted [OF wf_keys(5), simplified]
  note later = params_loop_token [OF wf_keys(6), simplified] params_loop_token [OF wf_keys(7), simplified]
    params_loop_token [OF wf_keys(8), simplified] params_loop_token [OF wf_keys(6), of _ "[]", simplified]
    params_loop_token [OF wf_keys(7), of _ "[]", simplified] params_loop_token [OF wf_keys(8), of _ "[]", simplified]
    params_loop_quoted [OF wf_keys(9), simplified] params_loop_quoted [OF wf_keys(10), simplified]
  show ?thesis
    using assms
    by (cases "cr_qop c"; cases "cr_algorithm c"; cases "cr_nc c"; cases "cr_cnonce c"; cases "cr_opaque c")
      (simp_all add: wf_credentials_def opt_all_def unquoted_def to_header_def quoted_def opt_field_def
        params_loop_sep first later Let_def)
qed

lemma opt_upd_apply:
  "(case v of Some t \<Rightarrow> m(k \<mapsto> t) | None \<Rightarrow> m) x = (if x = k \<and> v \<noteq> None then v else m x)"
  by (cases v) simp_all

lemma opt_or_None: "(if v \<noteq> None then v else None) = v"
  by simp

lemma credentials_parse_to_header:
  assumes "wf_credentials c"
  shows "credentials_parse (to_header c) = Some c"
  by (simp add: credentials_parse_def digest_params_to_header [OF assms] credentials_fields [OF assms]
      Let_def or_default_def opt_upd_apply opt_or_None)

text \<open>The credentials the gateway writes into an \<open>Authorization\<close> header are read
  back unchanged, field by field, by the parser a server (this program's own server side included)
  applies to them.\<close>

lemma credentials_round_trip:
  assumes "wf_credentials c"
  shows "credentials_parse (to_header c) = Some c"
  using assms by (rule credentials_parse_to_header)

definition example_credentials :: credentials where
  "example_credentials = \<lparr>cr_username = ''gateway'', cr_realm = ''gw.local'', cr_nonce = ''17:ab'',
     cr_uri = ''sip:+8210@gw.local'', cr_response = ''00ff'', cr_algorithm = Some ''MD5'',
     cr_cnonce = Some ''0a4f113b'', cr_nc = Some ''00000001'', cr_qop = Some ''auth'', cr_opaque = None\<rparr>"

theorem credentials_round_trip_witness:
  "credentials_parse (to_header example_credentials) = Some example_credentials"
proof -
  have "wf_credentials example_credentials" by code_simp
  from credentials_round_trip [OF this] show ?thesis .
qed

section \<open>What a response is bound to\<close>

text \<open>The texts that are hashed to compute a response.\<close>

definition digest_middle :: "credentials \<Rightarrow> string" where
  "digest_middle c = (case cr_qop c of
      Some (q # qs) \<Rightarrow> (case cr_nc c of Some n \<Rightarrow> n | None \<Rightarrow> ''00000001'') @ '':''
        @ or_default (cr_cnonce c) @ '':'' @ (q # qs) @ '':''
    | _ \<Rightarrow> [])"

definition digest_inputs :: "md5_fn \<Rightarrow> credentials \<Rightarrow> string \<Rightarrow> string \<Rightarrow> string \<Rightarrow> string list" where
  "digest_inputs md5 c pw mth body =
     (let a1 = cr_username c @ '':'' @ cr_realm c @ '':'' @ pw;
          a1s = md5_hex md5 a1 @ '':'' @ cr_nonce c @ '':'' @ or_default (cr_cnonce c);
          ha1 = digest_ha1 md5 (cr_username c) pw (cr_realm c) (cr_nonce c) (cr_cnonce c) (cr_algorithm c);
          a2 = (if is_auth_int (cr_qop c) then mth @ '':'' @ cr_uri c @ '':'' @ md5_hex md5 body
                else mth @ '':'' @ cr_uri c);
          ha2 = digest_ha2 md5 mth (cr_uri c) (cr_qop c) body
      in [a1, a1s, body, a2, ha1 @ '':'' @ cr_nonce c @ '':'' @ digest_middle c @ ha2])"

definition collision :: "md5_fn \<Rightarrow> string \<times> string \<Rightarrow> bool" where
  "collision md5 p \<longleftrightarrow> fst p \<noteq> snd p \<and> md5_hex md5 (fst p) = md5_hex md5 (snd p)"

lemma colon_split:
  assumes "CHR '':'' \<notin> set a" and "CHR '':'' \<notin> set a'" and "a @ CHR '':'' # s = a' @ CHR '':'' # s'"
  shows "a = a' \<and> s = s'"
proof -
  have "split_once (CHR '':'') (a @ CHR '':'' # s) = split_once (CHR '':'') (a' @ CHR '':'' # s')"
    by (rule arg_cong [OF assms(3)])
  then show ?thesis by (simp add: split_once_append [OF assms(1)] split_once_append [OF assms(2)])
qed

lemma digest_ha1_no_colon: "CHR '':'' \<notin> set (digest_ha1 md5 u pw r n cn alg)"
  by (simp add: digest_ha1_def Let_def md5_hex_no_colon)

lemma verify_last_input:
  "verify md5 c pw mth body \<longleftrightarrow> md5_hex md5 (last (digest_inputs md5 c pw mth body)) = cr_response c"
  by (simp add: verify_def digest_response_def digest_inputs_def digest_middle_def Let_def
      split: option.splits list.splits)

lemma digest_inputs_nth:
  fixes h c pw mth body
  defines "i \<equiv> digest_inputs h c pw mth body"
  shows "i ! 0 = cr_username c @ '':'' @ cr_realm c @ '':'' @ pw"
    and "i ! 1 = md5_hex h (i ! 0) @ '':'' @ cr_nonce c @ '':'' @ or_default (cr_cnonce c)"
    and "i ! 2 = body"
    and "i ! 3 = (if is_auth_int (cr_qop c) then mth @ '':'' @ cr_uri c @ '':'' @ md5_hex h body
      else mth @ '':'' @ cr_uri c)"
    and "i ! 4 = digest_ha1 h (cr_username c) pw (cr_realm c) (cr_nonce c) (cr_cnonce c) (cr_algorithm c)
      @ '':'' @ cr_nonce c @ '':'' @ digest_middle c @ digest_ha2 h mth (cr_uri c) (cr_qop c) body"
    and "last i = i ! 4" and "length i = 5"
    and "digest_ha1 h (cr_username c) pw (cr_realm c) (cr_nonce c) (cr_cnonce c) (cr_algorithm c) =
      md5_hex h (if (case cr_algorithm c of Some a \<Rightarrow> eq_ignore_ascii_case a ''MD5-sess'' | None \<Rightarrow> False)
        then i ! 1 else i ! 0)"
    and "digest_ha2 h mth (cr_uri c) (cr_qop c) body = md5_hex h (i ! 3)"
  by (simp_all add: i_def digest_inputs_def Let_def digest_ha1_def digest_ha2_def)

lemma auth_int_inputs:
  assumes "m @ '':'' @ u @ '':'' @ md5_hex h b = m' @ '':'' @ u @ '':'' @ md5_hex h b'"
  shows "md5_hex h b = md5_hex h b' \<and> m = m'"
proof -
  have "rev (md5_hex h b) @ CHR '':'' # rev (m @ '':'' @ u) = rev (md5_hex h b') @ CHR '':'' # rev (m' @ '':'' @ u)"
    using arg_cong [OF assms, of rev] by simp
  from colon_split [OF _ _ this] md5_hex_no_colon show ?thesis by auto
qed

lemma verify_bound_aux:
  assumes "verify md5 c pw mth body" and "verify md5 c pw' mth' body'"
  shows "(pw = pw' \<and> mth = mth' \<and> (is_auth_int (cr_qop c) \<longrightarrow> body = body')) \<or>
    list_ex (collision md5) (zip (digest_inputs md5 c pw mth body) (digest_inputs md5 c pw' mth' body'))"
proof (rule disjCI)
  let ?i = "digest_inputs md5 c pw mth body" and ?j = "digest_inputs md5 c pw' mth' body'"
  assume "\<not> list_ex (collision md5) (zip ?i ?j)"
  then have eq: "md5_hex md5 (?i ! k) = md5_hex md5 (?j ! k) \<Longrightarrow> ?i ! k = ?j ! k" if "k < 5" for k
  proof -
    have "length ?i = 5" "length ?j = 5" by (simp_all add: digest_inputs_def Let_def)
    with that have "(?i ! k, ?j ! k) \<in> set (zip ?i ?j)" by (auto simp: set_zip intro!: exI [of _ k])
    with \<open>\<not> list_ex (collision md5) (zip ?i ?j)\<close> have "\<not> collision md5 (?i ! k, ?j ! k)"
      by (auto simp: list_ex_iff)
    then show "md5_hex md5 (?i ! k) = md5_hex md5 (?j ! k) \<Longrightarrow> ?i ! k = ?j ! k"
      by (simp add: collision_def)
  qed
  note I = digest_inputs_nth [where h = md5 and c = c and pw = pw and mth = mth and body = body] 
    and J = digest_inputs_nth [where h = md5 and c = c and pw = pw' and mth = mth' and body = body']
  let ?ha1 = "\<lambda>pw. digest_ha1 md5 (cr_username c) pw (cr_realm c) (cr_nonce c) (cr_cnonce c) (cr_algorithm c)"
  let ?ha2 = "\<lambda>mth body. digest_ha2 md5 mth (cr_uri c) (cr_qop c) body"
  have "?i ! 4 = ?j ! 4"
    using assms by (intro eq) (simp_all add: verify_last_input I(6) J(6))
  then have "?ha1 pw @ CHR '':'' # (cr_nonce c @ '':'' @ digest_middle c @ ?ha2 mth body) =
      ?ha1 pw' @ CHR '':'' # (cr_nonce c @ '':'' @ digest_middle c @ ?ha2 mth' body')"
    by (simp only: I(5) J(5) append_Cons append_Nil)
  from colon_split [OF digest_ha1_no_colon digest_ha1_no_colon this]
  have h: "?ha1 pw = ?ha1 pw'" "?ha2 mth body = ?ha2 mth' body'" by simp_all
  have "?i ! 0 = ?j ! 0"
  proof (cases "(case cr_algorithm c of Some a \<Rightarrow> eq_ignore_ascii_case a ''MD5-sess'' | None \<Rightarrow> False)")
    case True
    with h(1) have "?i ! 1 = ?j ! 1" by (intro eq) (simp_all only: I(8) J(8) if_True)
    then have "md5_hex md5 (?i ! 0) = md5_hex md5 (?j ! 0)" by (simp only: I(2) J(2) append_same_eq)
    then show ?thesis by (rule eq [rotated]) simp
  next
    case False
    with h(1) show ?thesis by (intro eq) (simp_all only: I(8) J(8) if_False)
  qed
  then have "pw = pw'" by (simp only: I(1) J(1) same_append_eq)
  moreover have a2: "?i ! 3 = ?j ! 3"
    using h(2) by (intro eq) (simp_all only: I(9) J(9))
  have b: "md5_hex md5 body = md5_hex md5 body' \<and> mth = mth'" if "is_auth_int (cr_qop c)"
    using a2 that by (intro auth_int_inputs) (simp add: I(4) J(4))
  then have "mth = mth'" using a2 by (cases "is_auth_int (cr_qop c)") (simp_all add: I(4) J(4))
  moreover have "body = body'" if "is_auth_int (cr_qop c)"
  proof -
    have "?i ! 2 = ?j ! 2" using conjunct1 [OF b [OF that]] by (intro eq) (simp_all only: I(3) J(3))
    then show ?thesis by (simp only: I(3) J(3))
  qed
  ultimately show "pw = pw' \<and> mth = mth' \<and> (is_auth_int (cr_qop c) \<longrightarrow> body = body')" by blast
qed

text \<open>Property C14: a response is bound to its request. If one credentials value verifies for two
  passwords, methods and bodies, then the passwords and methods are equal (and the bodies, under
  \<open>auth-int\<close>), or two of the texts that were hashed for the two checks are an explicit
  collision of the hash function. So a captured header authorises no other method.\<close>

theorem verify_bound:
  assumes "verify md5 c pw mth body" and "verify md5 c pw' mth' body'"
  shows "(pw = pw' \<and> mth = mth' \<and> (is_auth_int (cr_qop c) \<longrightarrow> body = body')) \<or>
    list_ex (collision md5) (zip (digest_inputs md5 c pw mth body) (digest_inputs md5 c pw' mth' body'))"
  using assms by (rule verify_bound_aux)

text \<open>A hash function that returns its last byte, and credentials it verifies.\<close>

definition last_byte :: md5_fn where
  "last_byte s = (case rev (text_bytes s) of [] \<Rightarrow> [] | b # _ \<Rightarrow> [b])"

theorem verify_bound_witness:
  "list_ex (collision last_byte)
    (zip (digest_inputs last_byte (example_credentials\<lparr>cr_response := ''63''\<rparr>) ''pw'' ''INVITE'' [])
      (digest_inputs last_byte (example_credentials\<lparr>cr_response := ''63''\<rparr>) ''pw'' ''BYE'' []))"
proof -
  let ?c = "example_credentials\<lparr>cr_response := ''63''\<rparr>"
  have "verify last_byte ?c ''pw'' ''INVITE'' []" "verify last_byte ?c ''pw'' ''BYE'' []" by code_simp+
  from verify_bound [OF this] show ?thesis by simp
qed

section \<open>Nonces the gateway issued\<close>

lemma show_int_no_colon: "CHR '':'' \<notin> set (show_int i)"
  using show_nat_notin [of "CHR '':''"] by (simp add: show_int_def byte_of_def)

lemma wrap_i64_id: "- (2 ^ 63) \<le> x \<Longrightarrow> x < 2 ^ 63 \<Longrightarrow> wrap_i64 x = x"
  by (simp add: wrap_i64_def)

lemma nonce_window_aux:
  assumes "0 \<le> issued" "issued < 2 ^ 62" "0 \<le> now" "now < 2 ^ 62"
  shows "nonce_is_valid md5 nf now (nonce_issue md5 nf issued) max_age \<longleftrightarrow>
    issued \<le> now \<and> now \<le> issued + max_age"
proof -
  have "wrap_i64 (now - issued) = now - issued" using assms by (intro wrap_i64_id) simp_all
  then show ?thesis
    using assms
    by (auto simp: nonce_is_valid_def nonce_issue_def split_once_append show_int_no_colon
        parse_i64_show_int)
qed

text \<open>A nonce is accepted exactly while its age is between zero and the window: not
  before it was issued, not later than \<open>max_age\<close> seconds after.\<close>

theorem nonce_window:
  assumes "0 \<le> issued" "issued < 2 ^ 62" "0 \<le> now" "now < 2 ^ 62"
  shows "nonce_is_valid md5 nf now (nonce_issue md5 nf issued) max_age \<longleftrightarrow>
    issued \<le> now \<and> now \<le> issued + max_age"
  using assms by (rule nonce_window_aux)

theorem nonce_window_witness:
  "nonce_is_valid last_byte \<lparr>nf_secret = ''5ec''\<rparr> 1700000300 (nonce_issue last_byte \<lparr>nf_secret = ''5ec''\<rparr> 1700000000) 300 \<and>
   \<not> nonce_is_valid last_byte \<lparr>nf_secret = ''5ec''\<rparr> 1700000301 (nonce_issue last_byte \<lparr>nf_secret = ''5ec''\<rparr> 1700000000) 300"
  using nonce_window [of 1700000000 1700000300 last_byte "\<lparr>nf_secret = ''5ec''\<rparr>" 300]
    nonce_window [of 1700000000 1700000301 last_byte "\<lparr>nf_secret = ''5ec''\<rparr>" 300] by simp

end
