(* ===== verification/KeyValue.thy ===== *)
theory KeyValue
  imports Prelude
begin

text \<open>
  \<open>std::collections::HashMap\<close> as the sources use it: an association list that holds each key
  once. The contract every user of a map relies on is the locale \<open>key_value\<close>; nothing depends
  on the order of the entries. Instants of the monotonic clock are numbers of nanoseconds.
\<close>

type_synonym instant = nat

definition secs :: "nat \<Rightarrow> nat" where
  "secs n = n * 1000000000"

definition millis :: "nat \<Rightarrow> nat" where
  "millis n = n * 1000000"

lemma secs_mono [simp]: "secs a \<le> secs b \<longleftrightarrow> a \<le> b" "secs a < secs b \<longleftrightarrow> a < b"
  by (simp_all add: secs_def)

type_synonym ('k, 'v) kv = "('k \<times> 'v) list"

definition kv_empty :: "('k, 'v) kv" where
  "kv_empty = []"

definition kv_get :: "('k, 'v) kv \<Rightarrow> 'k \<Rightarrow> 'v option" where
  "kv_get m k = map_of m k"

definition kv_del :: "'k \<Rightarrow> ('k, 'v) kv \<Rightarrow> ('k, 'v) kv" where
  "kv_del k m = filter (\<lambda>(k', _). k' \<noteq> k) m"

definition kv_put :: "'k \<Rightarrow> 'v \<Rightarrow> ('k, 'v) kv \<Rightarrow> ('k, 'v) kv" where
  "kv_put k v m = (k, v) # kv_del k m"

definition kv_retain :: "('k \<Rightarrow> 'v \<Rightarrow> bool) \<Rightarrow> ('k, 'v) kv \<Rightarrow> ('k, 'v) kv" where
  "kv_retain P m = filter (\<lambda>(k, _). case map_of m k of Some v \<Rightarrow> P k v | None \<Rightarrow> False) m"

definition kv_size :: "('k, 'v) kv \<Rightarrow> nat" where
  "kv_size m = length m"

definition kv_ok :: "('k, 'v) kv \<Rightarrow> bool" where
  "kv_ok m \<longleftrightarrow> distinct (map fst m)"

locale key_value =
  fixes get :: "'m \<Rightarrow> 'k \<Rightarrow> 'v option"
    and empty :: 'm
    and put :: "'k \<Rightarrow> 'v \<Rightarrow> 'm \<Rightarrow> 'm"
    and del :: "'k \<Rightarrow> 'm \<Rightarrow> 'm"
    and retain :: "('k \<Rightarrow> 'v \<Rightarrow> bool) \<Rightarrow> 'm \<Rightarrow> 'm"
  assumes get_empty: "get empty k = None"
    and get_put: "get (put k v m) k' = (if k' = k then Some v else get m k')"
    and get_del: "get (del k m) k' = (if k' = k then None else get m k')"
    and get_retain: "get (retain P m) k =
      (case get m k of Some v \<Rightarrow> if P k v then Some v else None | None \<Rightarrow> None)"
begin

lemma get_put_same: "get (put k v m) k = Some v"
  by (simp add: get_put)

lemma get_retain_Some: "get (retain P m) k = Some v \<longleftrightarrow> get m k = Some v \<and> P k v"
  by (auto simp: get_retain split: option.splits)

lemma get_retain_None: "get (retain P m) k = None \<longleftrightarrow> (\<forall>v. get m k = Some v \<longrightarrow> \<not> P k v)"
  by (auto simp: get_retain split: option.splits)

end

lemma map_of_filter_keys:
  "map_of (filter (\<lambda>(k, _). Q k) m) k = (if Q k then map_of m k else None)"
  by (induction m) auto

interpretation kv: key_value kv_get kv_empty kv_put kv_del kv_retain
proof (unfold_locales, goal_cases)
  case (4 P m k)
  show ?case
    by (simp add: kv_get_def kv_retain_def map_of_filter_keys split: option.splits)
qed (simp_all add: kv_get_def kv_empty_def kv_put_def kv_del_def map_of_filter_keys)

lemma kv_ok_simps [simp]: "kv_ok kv_empty" "kv_ok m \<Longrightarrow> kv_ok (kv_put k v m)"
  "kv_ok m \<Longrightarrow> kv_ok (kv_del k m)" "kv_ok m \<Longrightarrow> kv_ok (kv_retain P m)"
  by (auto simp: kv_ok_def kv_empty_def kv_put_def kv_del_def kv_retain_def distinct_map_filter)

end
