(* ===== verification/SipTxn.thy ===== *)
theory SipTxn
  imports SipMessage SipAuth IpText KeyValue
begin

text \<open>
  The parts of \<open>src/sip/core.rs\<close> that decide on their own tables: server transactions
  (\<open>claim_txn\<close>, the cache updates of \<open>respond\<close>, \<open>gc\<close>), the nonce counts, the
  retransmission timer, the identities of transactions and dialogs, contact lists and address
  rules. The theory \<open>SipCore\<close> composes them into the request handlers.
\<close>

section \<open>Server transactions\<close>

datatype server_txn = InProgress instant "string option" | Completed string instant

fun txn_started :: "server_txn \<Rightarrow> instant" where
  "txn_started (InProgress since _) = since"
| "txn_started (Completed _ t) = t"

definition txn_lifetime :: nat where
  "txn_lifetime = secs 32"

type_synonym txn_cache = "(string, server_txn) kv"

datatype claim = Fresh | InFlight "string option" | Answered string

definition claim_txn :: "txn_cache \<Rightarrow> string \<Rightarrow> instant \<Rightarrow> claim \<times> txn_cache" where
  "claim_txn cache key now =
     (let fresh = (Fresh, kv_put key (InProgress now None) cache) in
      case kv_get cache key of
        None \<Rightarrow> fresh
      | Some txn \<Rightarrow>
          if now - txn_started txn < txn_lifetime then
            ((case txn of Completed bytes _ \<Rightarrow> Answered bytes | InProgress _ prov \<Rightarrow> InFlight prov), cache)
          else fresh)"

text \<open>The cache update of \<open>respond\<close>.\<close>

definition txn_respond :: "txn_cache \<Rightarrow> string option \<Rightarrow> u16 \<Rightarrow> string \<Rightarrow> instant \<Rightarrow> txn_cache" where
  "txn_respond cache key code bytes now =
     (case key of
        None \<Rightarrow> cache
      | Some k \<Rightarrow>
          if 200 \<le> code then kv_put k (Completed bytes now) cache
          else (case kv_get cache k of
                  Some (InProgress since _) \<Rightarrow> kv_put k (InProgress since (Some bytes)) cache
                | _ \<Rightarrow> cache))"

definition txn_gc :: "txn_cache \<Rightarrow> instant \<Rightarrow> txn_cache" where
  "txn_gc cache now =
     (if 64 < kv_size cache then kv_retain (\<lambda>_ txn. now - txn_started txn < txn_lifetime) cache
      else cache)"

section \<open>Identities\<close>

definition bar :: char where "bar = CHR ''|''"

definition dialog_key :: "request \<Rightarrow> string option" where
  "dialog_key req =
     (case h_call_id (rq_headers req) of None \<Rightarrow> None
      | Some call_id \<Rightarrow> map_option (\<lambda>(cseq, _). call_id @ bar # show_nat (unat cseq))
          (h_cseq (rq_headers req)))"

definition txn_key :: "request \<Rightarrow> string option" where
  "txn_key req =
     (case Option.bind (h_top_via (rq_headers req)) via_branch of None \<Rightarrow> None
      | Some branch \<Rightarrow> map_option
          (\<lambda>(cseq, _). branch @ bar # show_nat (unat cseq) @ bar # method_str (rq_method req))
          (h_cseq (rq_headers req)))"

section \<open>Nonce counts\<close>

type_synonym nonce_table = "(string, u32 \<times> instant) kv"

definition nonce_count :: "credentials \<Rightarrow> u32" where
  "nonce_count c = (case Option.bind (cr_nc c) (\<lambda>v. parse_hex (2 ^ 32) (trim v)) of
     Some n \<Rightarrow> of_nat n | None \<Rightarrow> 0)"

definition claim_nonce :: "nonce_table \<Rightarrow> credentials \<Rightarrow> instant \<Rightarrow> bool \<times> nonce_table" where
  "claim_nonce seen c now =
     (let nc = nonce_count c in
      case kv_get seen (cr_nonce c) of
        Some (highest, t) \<Rightarrow>
          if highest < nc then (True, kv_put (cr_nonce c) (nc, t) seen) else (False, seen)
      | None \<Rightarrow> (True, kv_put (cr_nonce c) (nc, now) seen))"

definition nonce_gc :: "nonce_table \<Rightarrow> instant \<Rightarrow> nonce_table" where
  "nonce_gc seen now =
     (if 64 < kv_size seen then kv_retain (\<lambda>_ (_, t). now - t < secs 600) seen else seen)"

section \<open>Retransmission timer\<close>

text \<open>
  The loops that repeat a 2xx until its ACK and a request until its response: the times of the
  sends, in milliseconds after the first copy. \<open>stopped\<close> and \<open>fails\<close> say whether, at
  a time, the flag is set and the socket refuses. The fuel is the number of rounds; twelve are
  enough.
\<close>

fun retransmit :: "nat \<Rightarrow> (nat \<Rightarrow> bool) \<Rightarrow> (nat \<Rightarrow> bool) \<Rightarrow> nat \<Rightarrow> nat \<Rightarrow> nat list option" where
  "retransmit 0 stopped fails delay elapsed = None"
| "retransmit (Suc fuel) stopped fails delay elapsed =
     (if elapsed < 32000 then
        (let t = elapsed + delay in
         if stopped t then Some []
         else if fails t then Some []
         else map_option (\<lambda>ts. t # ts) (retransmit fuel stopped fails (min (delay * 2) 4000) t))
      else Some [])"

section \<open>Contact lists and address rules\<close>

definition cons_piece :: "char \<Rightarrow> string list \<Rightarrow> string list" where
  "cons_piece c ps = (case ps of p # r \<Rightarrow> (c # p) # r | [] \<Rightarrow> [[c]])"

fun contact_pieces :: "bool \<Rightarrow> bool \<Rightarrow> string \<Rightarrow> string list" where
  "contact_pieces angle quot [] = [[]]"
| "contact_pieces angle quot (c # s) =
     (if c = CHR 0x22 \<and> \<not> angle then cons_piece c (contact_pieces angle (\<not> quot) s)
      else if c = CHR ''<'' \<and> \<not> quot then cons_piece c (contact_pieces True quot s)
      else if c = CHR ''>'' \<and> \<not> quot then cons_piece c (contact_pieces False quot s)
      else if c = CHR '','' \<and> \<not> angle \<and> \<not> quot then [] # contact_pieces angle quot s
      else cons_piece c (contact_pieces angle quot s))"

definition split_contacts :: "string \<Rightarrow> string list" where
  "split_contacts field = filter (\<lambda>s. s \<noteq> []) (map trim (contact_pieces False False field))"

definition prefix_mask :: "nat \<Rightarrow> nat \<Rightarrow> 'a::len word" where
  "prefix_mask w plen = (if plen = 0 then 0 else push_bit (w - plen) (- 1))"

definition ip_matches :: "string \<Rightarrow> ip_addr \<Rightarrow> bool" where
  "ip_matches rule0 ip =
     (let rule = trim rule0 in
      case split_once (CHR ''/'') rule of
        Some (net0, prefix0) \<Rightarrow>
          (case parse_ip_addr (trim net0) of None \<Rightarrow> False
           | Some net \<Rightarrow>
               (case parse_u32 (trim prefix0) of None \<Rightarrow> False
                | Some plen \<Rightarrow>
                    (case (net, ip) of
                       (V4 n, V4 a) \<Rightarrow> plen \<le> 32 \<and>
                         and n (prefix_mask 32 (unat plen)) = and a (prefix_mask 32 (unat plen))
                     | (V6 n, V6 a) \<Rightarrow> plen \<le> 128 \<and>
                         and n (prefix_mask 128 (unat plen)) = and a (prefix_mask 128 (unat plen))
                     | _ \<Rightarrow> False)))
      | None \<Rightarrow> parse_ip_addr rule = Some ip)"

section \<open>Transactions are claimed once\<close>

text \<open>
  The operations the handlers run on the cache, in any order; the clock never runs backwards. The
  log keeps the key and the time of every claim that was granted.
\<close>

record txn_run =
  tr_cache :: txn_cache
  tr_clock :: instant
  tr_log :: "(string \<times> instant) list"

inductive txn_step :: "txn_run \<Rightarrow> txn_run \<Rightarrow> bool" where
  step_claim: "tr_clock s \<le> now \<Longrightarrow> claim_txn (tr_cache s) key now = (c, cache') \<Longrightarrow>
    txn_step s \<lparr>tr_cache = cache', tr_clock = now,
      tr_log = (if c = Fresh then [(key, now)] else []) @ tr_log s\<rparr>"
| step_respond: "tr_clock s \<le> now \<Longrightarrow>
    txn_step s (s\<lparr>tr_cache := txn_respond (tr_cache s) key code bytes now, tr_clock := now\<rparr>)"
| step_gc: "now \<le> tr_clock s \<Longrightarrow> txn_step s (s\<lparr>tr_cache := txn_gc (tr_cache s) now\<rparr>)"

inductive txn_reachable :: "txn_run \<Rightarrow> bool" where
  reach_start: "txn_reachable \<lparr>tr_cache = kv_empty, tr_clock = t0, tr_log = []\<rparr>"
| reach_step: "txn_reachable s \<Longrightarrow> txn_step s s' \<Longrightarrow> txn_reachable s'"

text \<open>A granted claim is remembered for as long as it blocks another one, and the log is spaced out.\<close>

definition remembered :: "txn_run \<Rightarrow> bool" where
  "remembered s \<longleftrightarrow> (\<forall>(k, t) \<in> set (tr_log s). t \<le> tr_clock s \<and>
     (tr_clock s < t + txn_lifetime \<longrightarrow>
        (\<exists>txn. kv_get (tr_cache s) k = Some txn \<and> t \<le> txn_started txn \<and> txn_started txn \<le> tr_clock s)))"

definition spaced :: "(string \<times> instant) list \<Rightarrow> bool" where
  "spaced log \<longleftrightarrow> sorted_wrt (\<lambda>(k, t) (k', t'). k = k' \<longrightarrow> t' + txn_lifetime \<le> t) log"

lemma claim_txn_cases:
  assumes "claim_txn cache key now = (c, cache')"
  obtains (fresh) "c = Fresh" "cache' = kv_put key (InProgress now None) cache"
      "\<And>txn. kv_get cache key = Some txn \<Longrightarrow> txn_lifetime \<le> now - txn_started txn"
    | (known) txn where "c \<noteq> Fresh" "cache' = cache" "kv_get cache key = Some txn"
      "now - txn_started txn < txn_lifetime"
  using assms
  by (auto simp: claim_txn_def Let_def split: option.splits if_splits server_txn.splits)

lemma txn_respond_get:
  "kv_get (txn_respond cache key code bytes now) k = (case kv_get cache k of
      None \<Rightarrow> if key = Some k \<and> 200 \<le> code then Some (Completed bytes now) else None
    | Some txn \<Rightarrow> if key \<noteq> Some k then Some txn
        else if 200 \<le> code then Some (Completed bytes now)
        else (case txn of InProgress since _ \<Rightarrow> Some (InProgress since (Some bytes)) | _ \<Rightarrow> Some txn))"
  by (auto simp: txn_respond_def kv.get_put split: option.splits server_txn.splits)

lemma txn_gc_get:
  "kv_get (txn_gc cache now) k = Some txn \<Longrightarrow> kv_get cache k = Some txn"
  "kv_get cache k = Some txn \<Longrightarrow> now - txn_started txn < txn_lifetime \<Longrightarrow> kv_get (txn_gc cache now) k = Some txn"
  by (auto simp: txn_gc_def kv.get_retain_Some split: if_splits)

lemma txn_lifetime_pos [simp]: "0 < txn_lifetime"
  by (simp add: txn_lifetime_def secs_def)

lemma txn_step_invariant:
  assumes "txn_step s s'" and "remembered s" and "spaced (tr_log s)"
  shows "remembered s' \<and> spaced (tr_log s')"
  using assms
proof cases
  case (step_claim now key c cache')
  from step_claim(3) show ?thesis
  proof (cases rule: claim_txn_cases)
    case fresh
    have "t + txn_lifetime \<le> now" if "(key, t) \<in> set (tr_log s)" for t
    proof (rule ccontr)
      assume "\<not> t + txn_lifetime \<le> now"
      with that assms(2) step_claim(2) obtain txn where "kv_get (tr_cache s) key = Some txn"
        "t \<le> txn_started txn" by (fastforce simp: remembered_def)
      moreover from this(1) have "txn_lifetime \<le> now - txn_started txn" by (rule fresh(3))
      ultimately show False using \<open>\<not> t + txn_lifetime \<le> now\<close> txn_lifetime_pos by arith
    qed
    then have "spaced (tr_log s')"
      using assms(3) step_claim(1) fresh(1) by (auto simp: spaced_def)
    moreover have "remembered s'"
      using assms(2) step_claim(1,2) fresh by (fastforce simp: remembered_def kv.get_put)
    ultimately show ?thesis by blast
  next
    case (known txn)
    then show ?thesis using assms(2,3) step_claim(1,2) by (fastforce simp: remembered_def)
  qed
next
  case (step_respond now key code bytes)
  then show ?thesis
    using assms(2,3) by (fastforce simp: remembered_def txn_respond_get split: option.splits server_txn.splits)
next
  case (step_gc now)
  have "kv_get (txn_gc (tr_cache s) now) k = Some txn"
    if "kv_get (tr_cache s) k = Some txn" "t \<le> txn_started txn" "tr_clock s < t + txn_lifetime" for k t txn
  proof (rule txn_gc_get(2) [OF that(1)])
    show "now - txn_started txn < txn_lifetime" using that(2,3) step_gc(2) txn_lifetime_pos by arith
  qed
  then show ?thesis using assms(2,3) step_gc(1) by (fastforce simp: remembered_def)
qed

lemma txn_reachable_invariant: "txn_reachable s \<Longrightarrow> remembered s \<and> spaced (tr_log s)"
proof (induction rule: txn_reachable.induct)
  case (reach_step s s')
  then show ?case using txn_step_invariant by blast
qed (simp add: remembered_def spaced_def)

text \<open>A request is executed at most once. Whatever the handlers do with the cache and in
  whatever order (claims, provisional and final responses, clean-up), two grants of one transaction
  key are at least 32 seconds apart.\<close>

theorem claimed_at_most_once:
  assumes "txn_reachable s" and "tr_log s = later @ (k, t) # mid @ (k, t0) # early"
  shows "t0 + secs 32 \<le> t"
  using txn_reachable_invariant [OF assms(1)] assms(2)
  by (simp add: spaced_def sorted_wrt_append txn_lifetime_def)

text \<open>A key that is used again forty seconds later.\<close>

definition example_txn_run :: txn_run where
  "example_txn_run = \<lparr>tr_cache = kv_put ''k'' (InProgress (secs 40) None) (kv_put ''k'' (InProgress 0 None) kv_empty),
     tr_clock = secs 40, tr_log = [(''k'', secs 40), (''k'', 0)]\<rparr>"

lemma example_txn_run_reachable: "txn_reachable example_txn_run"
proof -
  let ?s0 = "\<lparr>tr_cache = kv_empty, tr_clock = 0, tr_log = []\<rparr>"
  let ?c1 = "kv_put ''k'' (InProgress 0 None) kv_empty"
  let ?s1 = "\<lparr>tr_cache = ?c1, tr_clock = 0, tr_log = [(''k'', 0)]\<rparr>"
  have "txn_step ?s0 ?s1"
    using txn_step.step_claim [of ?s0 0 "''k''" Fresh ?c1] by (simp add: claim_txn_def kv.get_empty)
  moreover have "txn_step ?s1 example_txn_run"
    using txn_step.step_claim [of ?s1 "secs 40" "''k''" Fresh "kv_put ''k'' (InProgress (secs 40) None) ?c1"]
    by (simp add: example_txn_run_def claim_txn_def kv.get_put txn_lifetime_def)
  ultimately show ?thesis by (meson txn_reachable.intros)
qed

theorem claimed_at_most_once_witness:
  "tr_log example_txn_run = [(''k'', secs 40), (''k'', 0)] \<and> (0 :: nat) + secs 32 \<le> secs 40"
proof
  show log: "tr_log example_txn_run = [(''k'', secs 40), (''k'', 0)]" by (simp add: example_txn_run_def)
  show "(0 :: nat) + secs 32 \<le> secs 40"
    by (rule claimed_at_most_once [OF example_txn_run_reachable, where later = "[]" and mid = "[]"
          and early = "[]" and k = "''k''"]) (simp add: log)
qed

text \<open>A retransmission of an answered request gets the answer again, byte for byte, for
  the rest of the transaction's lifetime, whatever was claimed, answered or cleaned up for other
  requests in between; one of a request still being handled gets the latest provisional, if any.\<close>

theorem answer_is_replayed:
  assumes "200 \<le> code" and "now' < now + secs 32" and "now'' \<le> now'" and "other \<noteq> key"
  shows "fst (claim_txn (txn_gc (txn_respond (snd (claim_txn
      (txn_respond cache (Some key) code bytes now) other now'')) (Some other) code' bytes' now'') now'') key now')
    = Answered bytes"
proof -
  let ?c1 = "txn_respond cache (Some key) code bytes now"
  let ?c2 = "snd (claim_txn ?c1 other now'')"
  let ?c3 = "txn_respond ?c2 (Some other) code' bytes' now''"
  have "kv_get ?c1 key = Some (Completed bytes now)"
    using assms(1) by (simp add: txn_respond_get split: option.splits)
  moreover have "kv_get ?c2 key = kv_get ?c1 key"
    using assms(4) by (auto simp: claim_txn_def Let_def kv.get_put split: option.splits)
  ultimately have "kv_get ?c3 key = Some (Completed bytes now)"
    using assms(4) by (simp add: txn_respond_get)
  moreover have "now'' - now < txn_lifetime" "now' - now < txn_lifetime"
    using assms(2,3) txn_lifetime_pos by (simp_all add: txn_lifetime_def)
  ultimately have "kv_get (txn_gc ?c3 now'') key = Some (Completed bytes now)"
    by (intro txn_gc_get(2)) simp_all
  with \<open>now' - now < txn_lifetime\<close> show ?thesis by (simp add: claim_txn_def)
qed

theorem answer_is_replayed_witness:
  "fst (claim_txn (txn_gc (txn_respond (snd (claim_txn
      (txn_respond kv_empty (Some ''a'') 202 ''SIP/2.0 202'' 0) ''b'' (secs 2))) (Some ''b'') 180 ''x'' (secs 2)) (secs 2))
      ''a'' (secs 3)) = Answered ''SIP/2.0 202''"
  by (rule answer_is_replayed) (simp_all add: secs_def)

section \<open>Identities\<close>

lemma bar_split:
  assumes "bar \<notin> set b" and "bar \<notin> set b'" and "a @ bar # b = a' @ bar # b'"
  shows "a = a' \<and> b = b'"
proof -
  have "rsplit_once bar (a @ bar # b) = rsplit_once bar (a' @ bar # b')"
    by (rule arg_cong [OF assms(3)])
  then show ?thesis by (simp add: rsplit_once_append [OF assms(1)] rsplit_once_append [OF assms(2)])
qed

lemma bar_notin: "bar \<notin> set (show_nat n)" "bar \<notin> set (method_str m)"
  by (rule show_nat_notin, simp add: bar_def byte_of_def) (cases m; simp add: bar_def)

text \<open>The key of a server transaction identifies the Via branch, the CSeq number and the
  method, even for branches that contain the separator; so a CANCEL never shares the INVITE's entry,
  and a new request never gets the answer of another one.\<close>

theorem txn_key_identifies:
  assumes "txn_key r = Some k" and "txn_key r' = Some k"
  shows "Option.bind (h_top_via (rq_headers r)) via_branch = Option.bind (h_top_via (rq_headers r')) via_branch \<and>
    map_option fst (h_cseq (rq_headers r)) = map_option fst (h_cseq (rq_headers r')) \<and>
    rq_method r = rq_method r'"
proof -
  obtain b n x b' n' x' where
    r: "Option.bind (h_top_via (rq_headers r)) via_branch = Some b" "h_cseq (rq_headers r) = Some (n, x)"
      "k = b @ bar # show_nat (unat n) @ bar # method_str (rq_method r)" and
    r': "Option.bind (h_top_via (rq_headers r')) via_branch = Some b'" "h_cseq (rq_headers r') = Some (n', x')"
      "k = b' @ bar # show_nat (unat n') @ bar # method_str (rq_method r')"
    using assms by (auto simp: txn_key_def split: option.splits)
  have "(b @ bar # show_nat (unat n)) @ bar # method_str (rq_method r) =
      (b' @ bar # show_nat (unat n')) @ bar # method_str (rq_method r')"
    using r(3) r'(3) by simp
  from bar_split [OF bar_notin(2) bar_notin(2) this]
  have m: "rq_method r = rq_method r'" and "b @ bar # show_nat (unat n) = b' @ bar # show_nat (unat n')"
    by (simp_all add: method_str_inj)
  from bar_split [OF bar_notin(1) bar_notin(1) this(2)] have "b = b'" "n = n'"
    by (simp_all add: show_nat_inj word_unat_eq_iff)
  with r r' m show ?thesis by simp
qed

definition example_invite :: request where
  "example_invite = (request_new Invite (uri_new (Some ''x'') ''gw'' None))\<lparr>rq_headers :=
     [(''via'', ''SIP/2.0/UDP h;branch=z9|1''), (''cseq'', ''7 INVITE''), (''call-id'', ''c'')]\<rparr>"

theorem txn_key_identifies_witness:
  "txn_key example_invite \<noteq> txn_key (example_invite\<lparr>rq_method := Cancel\<rparr>)"
proof
  assume eq: "txn_key example_invite = txn_key (example_invite\<lparr>rq_method := Cancel\<rparr>)"
  have "txn_key example_invite \<noteq> None"
  proof -
    have "(case hget (rq_headers example_invite) ''via'' of None \<Rightarrow> False
        | Some v \<Rightarrow> (case via_parse v of None \<Rightarrow> False | Some x \<Rightarrow> via_branch x \<noteq> None))" by code_simp
    moreover have "split_whitespace ''7 INVITE'' = [''7'', ''INVITE'']" "method_parse ''INVITE'' = Some Invite"
      by code_simp+
    moreover have "parse_u32 ''7'' = Some 7"
      by (simp add: parse_u32_def parse_uint_def parse_radix_def strip_prefix_Cons digit_val_def byte_of_def)
    moreover have "hget (rq_headers example_invite) ''cseq'' = Some ''7 INVITE''" by code_simp
    ultimately show ?thesis
      by (auto simp: txn_key_def h_top_via_def h_cseq_def split: option.splits)
  qed
  then obtain k where "txn_key example_invite = Some k" by blast
  with txn_key_identifies [OF this, of "example_invite\<lparr>rq_method := Cancel\<rparr>"] eq show False
    by (simp add: example_invite_def request_new_def)
qed

text \<open>The ACK of a 2xx is found by Call-ID and sequence number.\<close>

lemma dialog_key_identifies:
  "dialog_key r = Some k \<Longrightarrow> dialog_key r' = Some k \<Longrightarrow>
    h_call_id (rq_headers r) = h_call_id (rq_headers r') \<and>
    map_option fst (h_cseq (rq_headers r)) = map_option fst (h_cseq (rq_headers r'))"
  by (auto simp: dialog_key_def show_nat_inj word_unat_eq_iff split: option.splits
      dest: bar_split [OF bar_notin(1) bar_notin(1)])

section \<open>Retransmissions\<close>

text \<open>The first copy of a 2xx to an INVITE (or of a request) is followed by copies after
  0.5, 1.5, 3.5, 7.5 and then every 4 seconds, each only if the flag is not set and no send has
  failed by then; the last one is sent after 35.5 seconds, not 32, so at most eleven, and the task
  always ends.\<close>

lemma retransmit_schedule:
  "retransmit 12 stopped fails 500 0 = Some (takeWhile (\<lambda>t. \<not> stopped t \<and> \<not> fails t)
     [500, 1500, 3500, 7500, 11500, 15500, 19500, 23500, 27500, 31500, 35500])"
proof -
  have twelve: "12 = Suc (Suc (Suc (Suc (Suc (Suc (Suc (Suc (Suc (Suc (Suc (Suc 0)))))))))))" by simp
  show ?thesis unfolding twelve by (simp add: Let_def)
qed

section \<open>Nonce counts\<close>

text \<open>
  Uses of nonces and clean-ups of the table in any order. A nonce is only presented to
  \<open>claim_nonce\<close> within its validity of 300 seconds after \<open>issued\<close>; the wall clock and
  the monotonic clock are taken to run alike. The log keeps the granted uses.
\<close>

record nonce_run =
  nr_seen :: nonce_table
  nr_clock :: instant
  nr_log :: "(string \<times> u32) list"

inductive nonce_step :: "(string \<Rightarrow> instant) \<Rightarrow> nonce_run \<Rightarrow> nonce_run \<Rightarrow> bool" for issued where
  nonce_use: "nr_clock s \<le> now \<Longrightarrow> issued (cr_nonce c) \<le> now \<Longrightarrow> now \<le> issued (cr_nonce c) + secs 300 \<Longrightarrow>
    claim_nonce (nr_seen s) c now = (ok, seen') \<Longrightarrow>
    nonce_step issued s \<lparr>nr_seen = seen', nr_clock = now,
      nr_log = (if ok then [(cr_nonce c, nonce_count c)] else []) @ nr_log s\<rparr>"
| nonce_clean: "now \<le> nr_clock s \<Longrightarrow> nonce_step issued s (s\<lparr>nr_seen := nonce_gc (nr_seen s) now\<rparr>)"

inductive nonce_reachable :: "(string \<Rightarrow> instant) \<Rightarrow> nonce_run \<Rightarrow> bool" for issued where
  nonce_start: "nonce_reachable issued \<lparr>nr_seen = kv_empty, nr_clock = t0, nr_log = []\<rparr>"
| nonce_next: "nonce_reachable issued s \<Longrightarrow> nonce_step issued s s' \<Longrightarrow> nonce_reachable issued s'"

definition counted :: "(string \<Rightarrow> instant) \<Rightarrow> nonce_run \<Rightarrow> bool" where
  "counted issued s \<longleftrightarrow> (\<forall>n h t. kv_get (nr_seen s) n = Some (h, t) \<longrightarrow> issued n \<le> t) \<and>
     (\<forall>(n, c) \<in> set (nr_log s). issued n + secs 300 < nr_clock s \<or>
       (\<exists>h t. kv_get (nr_seen s) n = Some (h, t) \<and> c \<le> h))"

definition increasing :: "(string \<times> u32) list \<Rightarrow> bool" where
  "increasing log \<longleftrightarrow> sorted_wrt (\<lambda>(n, c) (n', c'). n = n' \<longrightarrow> c' < c) log"

lemma claim_nonce_cases:
  assumes "claim_nonce seen c now = (ok, seen')"
  obtains (first) "ok" "kv_get seen (cr_nonce c) = None" "seen' = kv_put (cr_nonce c) (nonce_count c, now) seen"
    | (higher) h t where "ok" "kv_get seen (cr_nonce c) = Some (h, t)" "h < nonce_count c"
        "seen' = kv_put (cr_nonce c) (nonce_count c, t) seen"
    | (again) h t where "\<not> ok" "kv_get seen (cr_nonce c) = Some (h, t)" "nonce_count c \<le> h" "seen' = seen"
  using assms by (auto simp: claim_nonce_def Let_def not_less split: option.splits if_splits)

lemma nonce_step_invariant:
  assumes "nonce_step issued s s'" and "counted issued s" and "increasing (nr_log s)"
  shows "counted issued s' \<and> increasing (nr_log s')"
  using assms
proof cases
  case (nonce_use now c ok seen')
  have old: "\<exists>h t. kv_get (nr_seen s) (cr_nonce c) = Some (h, t) \<and> m \<le> h"
    if "(cr_nonce c, m) \<in> set (nr_log s)" for m
    using that assms(2) nonce_use(2,4) by (fastforce simp: counted_def)
  from nonce_use(5) show ?thesis
  proof (cases rule: claim_nonce_cases)
    case first
    then have new: "(cr_nonce c, m) \<notin> set (nr_log s)" for m using old by fastforce
    have "counted issued s'"
      using assms(2) nonce_use(1,2,3) first by (fastforce simp: counted_def kv.get_put)
    moreover have "increasing (nr_log s')"
      using assms(3) nonce_use(1) first(1) new by (auto simp: increasing_def)
    ultimately show ?thesis ..
  next
    case (higher h t)
    then have less: "m < nonce_count c" if "(cr_nonce c, m) \<in> set (nr_log s)" for m
      using old [OF that] by auto
    have "counted issued s'"
      unfolding counted_def
    proof (intro conjI allI impI ballI)
      fix n h' t' assume "kv_get (nr_seen s') n = Some (h', t')"
      then show "issued n \<le> t'"
        using assms(2) nonce_use(1) higher by (auto simp: counted_def kv.get_put split: if_splits)
    next
      fix p assume p: "p \<in> set (nr_log s')"
      obtain n m where nm: "p = (n, m)" by force
      show "case p of (n, c) \<Rightarrow> issued n + secs 300 < nr_clock s' \<or>
          (\<exists>h t. kv_get (nr_seen s') n = Some (h, t) \<and> c \<le> h)"
      proof (cases "n = cr_nonce c")
        case True
        then have "m \<le> nonce_count c" using p nm less nonce_use(1) higher(1) by (auto simp: order_less_imp_le)
        then show ?thesis using True nm nonce_use(1) higher(4) by (simp add: kv.get_put)
      next
        case False
        then have "(n, m) \<in> set (nr_log s)" using p nm nonce_use(1) by (auto split: if_splits)
        then show ?thesis
          using assms(2) nm False nonce_use(1,2) higher(4) by (fastforce simp: counted_def kv.get_put)
      qed
    qed
    moreover have "increasing (nr_log s')"
      using assms(3) nonce_use(1) higher(1) less by (auto simp: increasing_def)
    ultimately show ?thesis ..
  next
    case (again h t)
    then show ?thesis using assms(2,3) nonce_use(1,2) by (fastforce simp: counted_def)
  qed
next
  case (nonce_clean now)
  have far: "secs 300 < secs 600" by simp
  have "issued n + secs 300 < nr_clock s \<or> (\<exists>h t. kv_get (nonce_gc (nr_seen s) now) n = Some (h, t) \<and> m \<le> h)"
    if log: "(n, m) \<in> set (nr_log s)" for n m
  proof (cases "issued n + secs 300 < nr_clock s")
    case False
    then obtain h t where ht: "kv_get (nr_seen s) n = Some (h, t)" "m \<le> h" "issued n \<le> t"
      using log assms(2) by (fastforce simp: counted_def)
    have "now - t < secs 600" using False ht(3) nonce_clean(2) far by arith
    with ht show ?thesis by (auto simp: nonce_gc_def kv.get_retain)
  qed simp
  moreover have "issued n \<le> t" if "kv_get (nonce_gc (nr_seen s) now) n = Some (h, t)" for n h t
    using that assms(2) by (auto simp: counted_def nonce_gc_def kv.get_retain split: if_splits option.splits)
  ultimately show ?thesis using assms(3) nonce_clean(1) by (auto simp: counted_def)
qed

lemma nonce_reachable_invariant: "nonce_reachable issued s \<Longrightarrow> counted issued s \<and> increasing (nr_log s)"
proof (induction rule: nonce_reachable.induct)
  case (nonce_next s s')
  then show ?case using nonce_step_invariant by blast
qed (simp add: counted_def increasing_def kv.get_empty)

text \<open>Property C32: a nonce count is accepted at most once per nonce, and only in increasing order: of
  two granted uses of a nonce, at any times and with any clean-ups of the table in between, the later
  one has the higher count. So an \<open>Authorization\<close> header that was captured is not accepted
  again while its nonce is valid, and the table may forget a nonce only after that.\<close>

theorem nonce_count_increases:
  assumes "nonce_reachable issued s" and "nr_log s = later @ (n, c) # mid @ (n, c0) # early"
  shows "c0 < c"
  using nonce_reachable_invariant [OF assms(1)] assms(2)
  by (simp add: increasing_def sorted_wrt_append)

definition example_uses :: nonce_run where
  "example_uses = \<lparr>nr_seen = [(''n'', (2, 0))], nr_clock = secs 9, nr_log = [(''n'', 2), (''n'', 1)]\<rparr>"

lemma example_uses_reachable: "nonce_reachable (\<lambda>_. 0) example_uses"
proof -
  let ?c = "\<lambda>nc. example_credentials\<lparr>cr_nonce := ''n'', cr_nc := Some nc\<rparr>"
  have count: "nonce_count (?c ''00000001'') = 1" "nonce_count (?c ''00000002'') = 2"
    by (simp_all add: nonce_count_def parse_hex_def parse_radix_def strip_prefix_Cons hex_val_def
        byte_of_def trim_vtext vchar_def)
  let ?s0 = "\<lparr>nr_seen = kv_empty, nr_clock = 0, nr_log = []\<rparr>"
  let ?s1 = "\<lparr>nr_seen = [(''n'', (1 :: u32, 0))], nr_clock = 0, nr_log = [(''n'', 1)]\<rparr>"
  have "nonce_step (\<lambda>_. 0) ?s0 ?s1"
    using nonce_use [of ?s0 0 "\<lambda>_. 0" "?c ''00000001''" True "[(''n'', (1, 0))]"] count
    by (simp add: claim_nonce_def Let_def kv_get_def kv_put_def kv_del_def kv_empty_def)
  moreover have "nonce_step (\<lambda>_. 0) ?s1 example_uses"
    using nonce_use [of ?s1 "secs 9" "\<lambda>_. 0" "?c ''00000002''" True "[(''n'', (2, 0))]"] count
    by (simp add: claim_nonce_def Let_def kv_get_def kv_put_def kv_del_def example_uses_def)
  ultimately show ?thesis by (meson nonce_reachable.intros)
qed

theorem nonce_count_increases_witness:
  "nr_log example_uses = [(''n'', 2), (''n'', 1)] \<and> (1 :: u32) < 2"
proof
  show log: "nr_log example_uses = [(''n'', 2), (''n'', 1)]" by (simp add: example_uses_def)
  show "(1 :: u32) < 2"
    by (rule nonce_count_increases [OF example_uses_reachable, where later = "[]" and mid = "[]"
          and early = "[]" and n = "''n''"]) (simp add: log)
qed

text \<open>
  Without \<open>qop\<close> the count is not part of the digest, so the comment's "the nonce itself
  becomes single-use" does not hold: adding a count to a captured header is a fresh use.
\<close>

lemma nonce_without_qop_reusable:
  assumes "cr_qop c = None" and "cr_nc c = None" and "kv_get seen (cr_nonce c) = None"
    and "verify md5 c pw mth body"
  shows "fst (claim_nonce (snd (claim_nonce seen c now)) (c\<lparr>cr_nc := Some ''1''\<rparr>) now') \<and>
    verify md5 (c\<lparr>cr_nc := Some ''1''\<rparr>) pw mth body"
proof -
  have "nonce_count c = 0" "nonce_count (c\<lparr>cr_nc := Some ''1''\<rparr>) = 1"
    using assms(2) by (simp_all add: nonce_count_def parse_hex_def parse_radix_def strip_prefix_Cons hex_val_def
        byte_of_def trim_vtext vchar_def)
  with assms show ?thesis
    by (simp add: claim_nonce_def Let_def kv.get_put verify_def digest_response_def)
qed

section \<open>Contact lists\<close>

text \<open>The state of the scan after a text, if no comma of it separates.\<close>

fun entry_state :: "bool \<Rightarrow> bool \<Rightarrow> string \<Rightarrow> (bool \<times> bool) option" where
  "entry_state angle quot [] = Some (angle, quot)"
| "entry_state angle quot (c # s) =
     (if c = CHR 0x22 \<and> \<not> angle then entry_state angle (\<not> quot) s
      else if c = CHR ''<'' \<and> \<not> quot then entry_state True quot s
      else if c = CHR ''>'' \<and> \<not> quot then entry_state False quot s
      else if c = CHR '','' \<and> \<not> angle \<and> \<not> quot then None
      else entry_state angle quot s)"

definition wf_entry :: "string \<Rightarrow> bool" where
  "wf_entry e \<longleftrightarrow> e \<noteq> [] \<and> trim e = e \<and> entry_state False False e = Some (False, False)"

lemma cons_piece_Cons [simp]: "cons_piece c (p # r) = (c # p) # r"
  by (simp add: cons_piece_def)

lemma contact_pieces_nonempty: "contact_pieces a q s \<noteq> []"
  by (cases s) (auto simp: cons_piece_def split: list.splits)

lemma contact_pieces_entry:
  "entry_state a q e = Some (a', q') \<Longrightarrow> contact_pieces a q (e @ s) =
    (case contact_pieces a' q' s of p # r \<Rightarrow> (e @ p) # r | [] \<Rightarrow> [e])"
proof (induction a q e rule: entry_state.induct)
  case (1 a q)
  then show ?case by (cases "contact_pieces a' q' s") (auto simp: contact_pieces_nonempty)
next
  case (2 a q c e)
  then show ?case
    by (auto simp: cons_piece_def split: if_splits list.splits)
qed

lemma contact_pieces_join:
  "list_all wf_entry es \<Longrightarrow> es \<noteq> [] \<Longrightarrow>
    map trim (contact_pieces False False (join '', '' es)) = es"
proof (induction es rule: induct_list012)
  case (2 e)
  then show ?case using contact_pieces_entry [of False False e False False "[]"] by (simp add: wf_entry_def)
next
  case (3 e f es)
  have e: "entry_state False False e = Some (False, False)" "trim e = e" using 3(3) by (auto simp: wf_entry_def)
  have b: "contact_pieces False False (CHR '' '' # s) = cons_piece (CHR '' '') (contact_pieces False False s)" for s
    by simp
  obtain p r where pr: "contact_pieces False False (join '', '' (f # es)) = p # r"
    using contact_pieces_nonempty by (cases "contact_pieces False False (join '', '' (f # es))") auto
  have "contact_pieces False False (join '', '' (e # f # es)) = e # (CHR '' '' # p) # r"
    using contact_pieces_entry [OF e(1), of "'', '' @ join '', '' (f # es)"] pr b by simp
  then show ?case using 3 e(2) pr by simp
qed simp

text \<open>A Contact field that lists several bindings is split at the commas between them and
  nowhere else: entries with commas inside angle brackets or a quoted display name come back whole,
  in order.\<close>

theorem split_contacts_entries:
  assumes "list_all wf_entry es"
  shows "split_contacts (join '', '' es) = es"
proof (cases "es = []")
  case True
  then show ?thesis by (simp add: split_contacts_def)
next
  case False
  have "filter (\<lambda>s. s \<noteq> []) es = es" using assms by (auto simp: filter_id_conv list_all_iff wf_entry_def)
  with False show ?thesis using contact_pieces_join [OF assms] by (simp add: split_contacts_def)
qed

theorem split_contacts_entries_witness:
  "split_contacts (join '', '' [[CHR 0x22] @ ''Smith, John'' @ [CHR 0x22] @ '' <sip:j@h;x=1,2>'', ''<sip:b@h>;expires=0'']) =
    [[CHR 0x22] @ ''Smith, John'' @ [CHR 0x22] @ '' <sip:j@h;x=1,2>'', ''<sip:b@h>;expires=0'']"
proof -
  have "list_all wf_entry [[CHR 0x22] @ ''Smith, John'' @ [CHR 0x22] @ '' <sip:j@h;x=1,2>'', ''<sip:b@h>;expires=0'']"
    by code_simp
  from split_contacts_entries [OF this] show ?thesis .
qed

section \<open>Address rules\<close>

lemma prefix_mask_eq:
  assumes "p \<le> LENGTH('a)"
  shows "and (n :: 'a::len word) (prefix_mask LENGTH('a) p) = and a (prefix_mask LENGTH('a) p) \<longleftrightarrow>
    drop_bit (LENGTH('a) - p) n = drop_bit (LENGTH('a) - p) a"
proof -
  let ?k = "LENGTH('a) - p"
  have m: "bit (prefix_mask LENGTH('a) p :: 'a word) i \<longleftrightarrow> ?k \<le> i \<and> i < LENGTH('a)" for i
    using assms by (auto simp: prefix_mask_def bit_simps not_le)
  show ?thesis
  proof
    assume "and n (prefix_mask LENGTH('a) p) = and a (prefix_mask LENGTH('a) p)"
    then have "bit n i = bit a i" if "?k \<le> i" for i
      using that m by (metis bit_and_iff bit_imp_le_length not_le)
    then show "drop_bit ?k n = drop_bit ?k a" by (simp add: bit_eq_iff bit_drop_bit_eq)
  next
    assume "drop_bit ?k n = drop_bit ?k a"
    then have "bit (drop_bit ?k n) (i - ?k) = bit (drop_bit ?k a) (i - ?k)" for i by simp
    then have "bit n i = bit a i" if "?k \<le> i" for i
      using that by (metis bit_drop_bit_eq comp_def le_add_diff_inverse)
    then show "and n (prefix_mask LENGTH('a) p) = and a (prefix_mask LENGTH('a) p)"
      by (auto simp: bit_eq_iff bit_and_iff m)
  qed
qed

text \<open>An \<open>allow\<close> rule \<open>a.b.c.d/p\<close> admits exactly the IPv4 addresses that
  agree with it in the first \<open>p\<close> bits (every IPv4 address for \<open>/0\<close>), no IPv6 address, and
  with a prefix longer than 32 nothing; a rule without a prefix admits that address only.\<close>

lemma cidr_rule:
  fixes p :: u32
  shows "(ip_matches (show_ipv4 n @ ''/'' @ show_nat (unat p)) ip \<longleftrightarrow>
     (case ip of V4 a \<Rightarrow> p \<le> 32 \<and> drop_bit (32 - unat p) n = drop_bit (32 - unat p) a | V6 _ \<Rightarrow> False)) \<and>
     (ip_matches (show_ipv4 n) ip \<longleftrightarrow> ip = V4 n)"
proof (intro conjI)
  have slash: "CHR ''/'' \<notin> set (show_ipv4 n)" by (auto simp: byte_of_def dest: show_ipv4_chars)
  have "vtext (show_ipv4 n @ ''/'' @ show_nat (unat p))" by (simp add: vchar_def byte_of_def)
  then have t: "trim (show_ipv4 n @ CHR ''/'' # show_nat (unat p)) = show_ipv4 n @ CHR ''/'' # show_nat (unat p)"
    using trim_vtext by fastforce
  have ip4: "parse_ip_addr (show_ipv4 n) = Some (V4 n)" using parse_ip_addr_show_ipv4 [of n] by (simp add: show_ip_def)
  have "p \<le> 32 \<Longrightarrow> unat p \<le> 32" by (simp add: word_le_nat_alt)
  then have "p \<le> 32 \<Longrightarrow> and n (prefix_mask 32 (unat p)) = and a (prefix_mask 32 (unat p)) \<longleftrightarrow>
      drop_bit (32 - unat p) n = drop_bit (32 - unat p) a" for a
    using prefix_mask_eq [of "unat p" n a] by simp
  then show "ip_matches (show_ipv4 n @ ''/'' @ show_nat (unat p)) ip \<longleftrightarrow>
     (case ip of V4 a \<Rightarrow> p \<le> 32 \<and> drop_bit (32 - unat p) n = drop_bit (32 - unat p) a | V6 _ \<Rightarrow> False)"
    by (auto simp: ip_matches_def t split_once_append [OF slash] trim_vtext ip4 parse_u32_show split: ip_addr.splits)
  have "split_once (CHR ''/'') (show_ipv4 n) = None" by (rule split_once_None [OF slash])
  then show "ip_matches (show_ipv4 n) ip \<longleftrightarrow> ip = V4 n"
    by (auto simp: ip_matches_def trim_vtext ip4)
qed

end
