(* ===== verification/Registrar.thy ===== *)
theory Registrar
  imports SipUri KeyValue
begin

text \<open>
  The model of \<open>src/sip/registrar.rs\<close>: the bindings of addresses of record to contacts.
  The readings of the monotonic clock are arguments, in the order the code takes them. The
  contract the REGISTER handler relies on is the locale \<open>binding_store\<close>.
\<close>

record binding =
  b_contact :: name_addr
  b_source :: socket_addr
  b_expires_at :: instant
  b_registered_at :: instant

type_synonym registrar = "(string, binding list) kv"

definition registrar_new :: registrar where
  "registrar_new = kv_empty"

definition contact_key :: "name_addr \<Rightarrow> string" where
  "contact_key c = uri_show (uri_bare (na_uri c))"

definition reg_list :: "registrar \<Rightarrow> string \<Rightarrow> binding list" where
  "reg_list r aor = (case kv_get r aor of Some l \<Rightarrow> l | None \<Rightarrow> [])"

definition reg_update :: "registrar \<Rightarrow> string \<Rightarrow> name_addr \<Rightarrow> socket_addr \<Rightarrow> u32 \<Rightarrow> instant \<Rightarrow> instant \<Rightarrow>
    registrar" where
  "reg_update r aor contact source expires now1 now2 =
     (let kept = filter (\<lambda>b. contact_key (b_contact b) \<noteq> contact_key contact) (reg_list r aor);
          l = (if 0 < expires then kept @ [\<lparr>b_contact = contact, b_source = source,
                 b_expires_at = now1 + secs (unat expires), b_registered_at = now2\<rparr>] else kept)
      in if l = [] then kv_del aor r else kv_put aor l r)"

definition reg_remove_all :: "registrar \<Rightarrow> string \<Rightarrow> registrar" where
  "reg_remove_all r aor = kv_del aor r"

definition reg_expire :: "registrar \<Rightarrow> instant \<Rightarrow> registrar" where
  "reg_expire r now =
     kv_retain (\<lambda>_ l. l \<noteq> []) (map (\<lambda>(k, l). (k, filter (\<lambda>b. now < b_expires_at b) l)) r)"

definition reg_contacts :: "registrar \<Rightarrow> string \<Rightarrow> instant \<Rightarrow> registrar \<times> binding list" where
  "reg_contacts r aor now = (let r' = reg_expire r now in (r', reg_list r' aor))"

text \<open>
  \<open>max_by_key\<close> keeps the last of several maximal elements. The map yields its lists in
  an order of its own, the argument \<open>order\<close>.
\<close>

fun newest_of :: "binding option \<Rightarrow> binding list \<Rightarrow> binding option" where
  "newest_of best [] = best"
| "newest_of best (b # bs) =
     newest_of (case best of
         None \<Rightarrow> Some b
       | Some a \<Rightarrow> if b_registered_at a \<le> b_registered_at b then Some b else Some a) bs"

definition reg_newest :: "registrar \<Rightarrow> string list \<Rightarrow> instant \<Rightarrow> registrar \<times> binding option" where
  "reg_newest r order now =
     (let r' = reg_expire r now in (r', newest_of None (concat (map (reg_list r') order))))"

section \<open>The contract\<close>

locale binding_store =
  fixes lookup :: "'r \<Rightarrow> string \<Rightarrow> binding list"
    and update :: "'r \<Rightarrow> string \<Rightarrow> name_addr \<Rightarrow> socket_addr \<Rightarrow> u32 \<Rightarrow> instant \<Rightarrow> instant \<Rightarrow> 'r"
    and expire :: "'r \<Rightarrow> instant \<Rightarrow> 'r"
  assumes lookup_update: "lookup (update r aor c src e t1 t2) k =
      (if k = aor then filter (\<lambda>b. contact_key (b_contact b) \<noteq> contact_key c) (lookup r k) @
         (if e = 0 then [] else [\<lparr>b_contact = c, b_source = src,
            b_expires_at = t1 + secs (unat e), b_registered_at = t2\<rparr>])
       else lookup r k)"
    and lookup_expire: "lookup (expire r now) k = filter (\<lambda>b. now < b_expires_at b) (lookup r k)"
begin

definition one_per_contact :: "'r \<Rightarrow> bool" where
  "one_per_contact r \<longleftrightarrow> (\<forall>aor. distinct (map (contact_key \<circ> b_contact) (lookup r aor)))"

definition short_lived :: "nat \<Rightarrow> 'r \<Rightarrow> bool" where
  "short_lived m r \<longleftrightarrow> (\<forall>aor. \<forall>b \<in> set (lookup r aor). b_expires_at b \<le> b_registered_at b + secs m)"

lemma one_per_contact_update:
  "one_per_contact r \<Longrightarrow> one_per_contact (update r aor c src e t1 t2)"
  by (auto simp: one_per_contact_def lookup_update distinct_map_filter)

lemma one_per_contact_expire: "one_per_contact r \<Longrightarrow> one_per_contact (expire r now)"
  by (auto simp: one_per_contact_def lookup_expire distinct_map_filter)

lemma short_lived_update:
  "short_lived m r \<Longrightarrow> unat e \<le> m \<Longrightarrow> t1 \<le> t2 \<Longrightarrow> short_lived m (update r aor c src e t1 t2)"
  by (auto simp: short_lived_def lookup_update secs_def intro: le_trans add_mono)

lemma short_lived_expire: "short_lived m r \<Longrightarrow> short_lived m (expire r now)"
  by (auto simp: short_lived_def lookup_expire)

text \<open>After an update, the contact is bound exactly once, until the granted time has passed.\<close>

lemma bound_after_update:
  "[b \<leftarrow> lookup (expire (update r aor c src e t1 t2) now) aor. contact_key (b_contact b) = contact_key c] =
    (if now < t1 + secs (unat e) \<and> e \<noteq> 0
     then [\<lparr>b_contact = c, b_source = src, b_expires_at = t1 + secs (unat e), b_registered_at = t2\<rparr>]
     else [])"
  by (auto simp: lookup_expire lookup_update filter_empty_conv)

lemma others_after_update:
  "contact_key d \<noteq> contact_key c \<or> k \<noteq> aor \<Longrightarrow>
    [b \<leftarrow> lookup (update r aor c src e t1 t2) k. contact_key (b_contact b) = contact_key d] =
    [b \<leftarrow> lookup r k. contact_key (b_contact b) = contact_key d]"
  by (auto simp: lookup_update intro: filter_cong)

end

lemma reg_list_update:
  "reg_list (reg_update r aor c src e t1 t2) k =
      (if k = aor then filter (\<lambda>b. contact_key (b_contact b) \<noteq> contact_key c) (reg_list r k) @
         (if e = 0 then [] else [\<lparr>b_contact = c, b_source = src,
            b_expires_at = t1 + secs (unat e), b_registered_at = t2\<rparr>])
       else reg_list r k)"
  by (auto simp: reg_update_def Let_def reg_list_def kv.get_put kv.get_del word_gt_0 split: option.splits)

lemma kv_get_map: "kv_get (map (\<lambda>(k, l). (k, f l)) r) k = map_option f (kv_get r k)"
  unfolding kv_get_def by (induction r) auto

lemma reg_list_expire:
  "reg_list (reg_expire r now) k = filter (\<lambda>b. now < b_expires_at b) (reg_list r k)"
  by (auto simp: reg_list_def reg_expire_def kv.get_retain kv_get_map split: option.splits)

interpretation reg: binding_store reg_list reg_update reg_expire
  by unfold_locales (rule reg_list_update, rule reg_list_expire)

section \<open>Properties\<close>

text \<open>After a binding is added, refreshed or removed, asking for the contacts of its
  address of record at any later time yields that contact exactly once, with the source address and
  the expiry of this update, until the expiry passes, and not at all for an expiry of zero; and the
  bindings of other contacts and of other addresses of record are those of before.\<close>

theorem register_update_read_back:
  assumes "other \<noteq> aor"
  shows "[b \<leftarrow> snd (reg_contacts (reg_update r aor c src e t1 t2) aor now). contact_key (b_contact b) = contact_key c] =
      (if now < t1 + secs (unat e) \<and> e \<noteq> 0
       then [\<lparr>b_contact = c, b_source = src, b_expires_at = t1 + secs (unat e), b_registered_at = t2\<rparr>]
       else []) \<and>
   [b \<leftarrow> snd (reg_contacts (reg_update r aor c src e t1 t2) aor now). contact_key (b_contact b) \<noteq> contact_key c] =
      [b \<leftarrow> snd (reg_contacts r aor now). contact_key (b_contact b) \<noteq> contact_key c] \<and>
   snd (reg_contacts (reg_update r aor c src e t1 t2) other now) = snd (reg_contacts r other now)"
  using assms reg.bound_after_update [where r = r and aor = aor and c = c and src = src and e = e]
  by (auto simp: reg_contacts_def reg_list_expire reg_list_update intro!: filter_cong [OF refl])

theorem register_update_read_back_witness:
  "snd (reg_contacts (reg_update registrar_new ''sip:a@h'' (name_addr_new (uri_new (Some ''a'') ''10.0.0.9'' None))
      \<lparr>sa_ip = V4 1, sa_port = 5060\<rparr> 60 5 6) ''sip:b@h'' 7) = []"
proof -
  have "''sip:b@h'' \<noteq> ''sip:a@h''" by simp
  note * = register_update_read_back [OF this, where r = registrar_new]
  show ?thesis unfolding * [THEN conjunct2, THEN conjunct2]
    by (simp add: reg_contacts_def Let_def reg_list_expire)
      (simp add: reg_list_def registrar_new_def kv.get_empty)
qed

text \<open>The freshest of a list.\<close>

lemma newest_of_None: "newest_of best bs = None \<longleftrightarrow> best = None \<and> bs = []"
  by (induction best bs rule: newest_of.induct) (auto split: option.splits if_splits)

lemma newest_of_Some:
  "newest_of best bs = Some b \<Longrightarrow> (best = Some b \<or> b \<in> set bs) \<and>
     (\<forall>a \<in> set bs \<union> set_option best. b_registered_at a \<le> b_registered_at b)"
  by (induction best bs rule: newest_of.induct) (force split: option.splits if_splits)+

text \<open>The target for calls and messages is a binding that has not expired and that no
  unexpired binding of any address of record was refreshed later than, whatever order the map
  yields its entries in; and there is none only if every binding has expired.\<close>

theorem newest_is_freshest:
  assumes "set order = set (map fst r)" and "kv_ok r"
  shows "case snd (reg_newest r order now) of
      None \<Rightarrow> \<forall>aor. \<forall>b \<in> set (reg_list r aor). b_expires_at b \<le> now
    | Some b \<Rightarrow> now < b_expires_at b \<and> (\<exists>aor. b \<in> set (reg_list r aor)) \<and>
        (\<forall>aor. \<forall>a \<in> set (reg_list r aor). now < b_expires_at a \<longrightarrow> b_registered_at a \<le> b_registered_at b)"
proof -
  let ?live = "concat (map (reg_list (reg_expire r now)) order)"
  have live: "b \<in> set ?live \<longleftrightarrow> (\<exists>aor. b \<in> set (reg_list r aor)) \<and> now < b_expires_at b" for b
  proof -
    have "aor \<in> set order" if "b \<in> set (reg_list r aor)" for aor
      using that assms(1) map_of_SomeD [of r aor]
      by (cases "map_of r aor") (force simp: reg_list_def kv_get_def)+
    then show ?thesis by (auto simp: reg_list_expire)
  qed
  show ?thesis
  proof (cases "newest_of None ?live")
    case None
    then have "?live = []" by (simp only: newest_of_None)
    then have "b \<notin> set ?live" for b by simp
    then show ?thesis using None live by (auto simp: reg_newest_def Let_def not_less)
  next
    case (Some b)
    from newest_of_Some [OF this] have "b \<in> set ?live"
      "\<And>a. a \<in> set ?live \<Longrightarrow> b_registered_at a \<le> b_registered_at b" by auto
    then show ?thesis unfolding live using Some by (auto simp: reg_newest_def Let_def)
  qed
qed

definition example_registrar :: registrar where
  "example_registrar =
     [(''sip:a@h'', [\<lparr>b_contact = name_addr_new (uri_new None ''x'' None), b_source = \<lparr>sa_ip = V4 1, sa_port = 1\<rparr>,
        b_expires_at = 50, b_registered_at = 10\<rparr>]),
      (''sip:b@h'', [\<lparr>b_contact = name_addr_new (uri_new None ''y'' None), b_source = \<lparr>sa_ip = V4 2, sa_port = 2\<rparr>,
        b_expires_at = 90, b_registered_at = 7\<rparr>])]"

theorem newest_is_freshest_witness:
  "case snd (reg_newest example_registrar [''sip:b@h'', ''sip:a@h''] 60) of
      None \<Rightarrow> False | Some b \<Rightarrow> 60 < b_expires_at b"
proof -
  have "set [''sip:b@h'', ''sip:a@h''] = set (map fst example_registrar)" "kv_ok example_registrar"
    by (auto simp: example_registrar_def kv_ok_def)
  note * = newest_is_freshest [OF this, of 60]
  have "\<exists>b \<in> set (reg_list example_registrar ''sip:b@h''). 60 < b_expires_at b"
    by (simp add: reg_list_def example_registrar_def kv_get_def)
  with * show ?thesis by (force split: option.splits)
qed

end
