(* ===== verification/SipCore.thy ===== *)
theory SipCore
  imports SipTxn Registrar
begin

text \<open>
  The model of the SIP element of \<open>src/sip/core.rs\<close> (and of the address choice of
  \<open>src/sip/transport.rs\<close>): the state it keeps, the request handlers, responses, and the
  dispatch of responses to client transactions. A handler is a function of the state; what it
  sends is appended to \<open>co_sent\<close>, what it hands to the gateway to \<open>co_events\<close>, the
  retransmission tasks it starts to \<open>co_timers\<close>. The readings of the clocks, the random
  bytes and the answers of the operating system one call sees are the record \<open>sip_env\<close>;
  a handler reads the clock several times in quick succession, which is one instant here. A
  socket error ends a handler after its last change of state, so it leaves the state as it is.
\<close>

record sip_cfg =
  cfg_domain :: "string option"
  cfg_user_agent :: string
  cfg_auth :: "(string \<times> string) option"
  cfg_allow :: "string list"
  cfg_options_reflect_modem :: bool
  cfg_retry_after_secs :: u32

record sip_env =
  en_now :: instant
  en_wall :: int
  en_tag :: "u8 list"
  en_branch :: "u8 list"
  en_cnonce :: "u8 list"
  en_md5 :: md5_fn
  en_route :: "socket_addr \<Rightarrow> ip_addr option"

text \<open>A client transaction: its method, the flag of its retransmission task, and the responses
  its channel holds.\<close>

record client_txn =
  ct_method :: sip_method
  ct_flag :: nat
  ct_received :: "response list"

record timer =
  tm_flag :: nat
  tm_bytes :: string
  tm_dest :: socket_addr
  tm_key :: "string option"

record sip_core =
  co_cfg :: sip_cfg
  co_bound :: socket_addr
  co_public_ip :: "ip_addr option"
  co_registrar :: registrar
  co_nonce :: nonce_factory
  co_client_txns :: "(string, client_txn) kv"
  co_server_cache :: txn_cache
  co_nonce_seen :: nonce_table
  co_pending_ack :: "(string, nat) kv"
  co_stopped :: "nat list"
  co_flags :: nat
  co_modem_ready :: bool
  co_cseq :: u32
  co_sent :: "(string \<times> socket_addr) list"
  co_events :: "(request \<times> socket_addr) list"
  co_timers :: "timer list"

definition next_cseq :: "sip_core \<Rightarrow> u32 \<times> sip_core" where
  "next_cseq co = (co_cseq co, co\<lparr>co_cseq := co_cseq co + 1\<rparr>)"

definition domain_name :: "sip_core \<Rightarrow> string" where
  "domain_name co = (case cfg_domain (co_cfg co) of Some d \<Rightarrow> d | None \<Rightarrow> show_ip (sa_ip (co_bound co)))"

definition send :: "string \<Rightarrow> socket_addr \<Rightarrow> sip_core \<Rightarrow> sip_core" where
  "send bytes dest co = co\<lparr>co_sent := co_sent co @ [(bytes, dest)]\<rparr>"

definition advertised_ip :: "sip_core \<Rightarrow> sip_env \<Rightarrow> socket_addr \<Rightarrow> ip_addr" where
  "advertised_ip co en dest =
     (case co_public_ip co of
        Some ip \<Rightarrow> ip
      | None \<Rightarrow>
          if \<not> is_unspecified (sa_ip (co_bound co)) then sa_ip (co_bound co)
          else (case en_route en dest of Some ip \<Rightarrow> ip | None \<Rightarrow> V4 0x7F000001))"

definition core_gc :: "sip_core \<Rightarrow> instant \<Rightarrow> sip_core" where
  "core_gc co now = co\<lparr>co_server_cache := txn_gc (co_server_cache co) now,
     co_nonce_seen := nonce_gc (co_nonce_seen co) now\<rparr>"

definition source_allowed :: "sip_core \<Rightarrow> ip_addr \<Rightarrow> bool" where
  "source_allowed co ip \<longleftrightarrow>
     cfg_allow (co_cfg co) = [] \<or> list_ex (\<lambda>rule. ip_matches rule ip) (cfg_allow (co_cfg co))"

section \<open>Responses\<close>

definition make_response :: "sip_core \<Rightarrow> sip_env \<Rightarrow> request \<Rightarrow> u16 \<Rightarrow> string option \<Rightarrow> response" where
  "make_response co en req code reason =
     (let resp = reply req code (case reason of Some r \<Rightarrow> r | None \<Rightarrow> reason_phrase code);
          h = hset (rs_headers resp) ''user-agent'' (cfg_user_agent (co_cfg co));
          h' = (if code \<noteq> 100 then
                  (case h_to h of
                     Some t \<Rightarrow> if na_tag t = None
                       then hset h ''to'' (name_addr_show (na_with_tag t (random_hex (en_tag en)))) else h
                   | None \<Rightarrow> h)
                else h)
      in resp\<lparr>rs_headers := h'\<rparr>)"

text \<open>The topmost Via gets the source of the request (RFC 3581).\<close>

definition annotate_via :: "headers \<Rightarrow> socket_addr \<Rightarrow> headers" where
  "annotate_via h src =
     (case hget h ''via'' of
        None \<Rightarrow> h
      | Some raw \<Rightarrow>
          (let (first, rest) = (case split_once (CHR '','') raw of
                  Some (f, r) \<Rightarrow> (f, Some r) | None \<Rightarrow> (raw, None)) in
           case via_parse first of
             None \<Rightarrow> h
           | Some via \<Rightarrow>
               (let v1 = via_set_param via ''received'' (Some (show_ip (sa_ip src)));
                    v2 = (if via_has_param v1 ''rport''
                          then via_set_param v1 ''rport'' (Some (show_nat (unat (sa_port src)))) else v1)
                in hreplace_first h ''via''
                     (case rest of Some r \<Rightarrow> via_show v2 @ '','' @ r | None \<Rightarrow> via_show v2))))"

definition own_contact :: "sip_core \<Rightarrow> sip_env \<Rightarrow> socket_addr \<Rightarrow> string option \<Rightarrow> uri" where
  "own_contact co en dest user =
     uri_set_param (uri_new user (show_ip (advertised_ip co en dest)) (Some (sa_port (co_bound co))))
       ''transport'' (Some ''udp'')"

definition add_contact :: "sip_core \<Rightarrow> sip_env \<Rightarrow> request \<Rightarrow> socket_addr \<Rightarrow> response \<Rightarrow> headers \<Rightarrow> headers" where
  "add_contact co en req src resp h =
     (if hget h ''contact'' = None \<and> rs_code resp < 300 \<and> rs_code resp \<noteq> 100
      then hset h ''contact'' (name_addr_show (name_addr_new (own_contact co en src (u_user (rq_uri req)))))
      else h)"

definition start_timer :: "string \<Rightarrow> socket_addr \<Rightarrow> string option \<Rightarrow> sip_core \<Rightarrow> sip_core" where
  "start_timer bytes dest key co =
     co\<lparr>co_timers := co_timers co @ [\<lparr>tm_flag = co_flags co, tm_bytes = bytes, tm_dest = dest, tm_key = key\<rparr>],
        co_flags := co_flags co + 1\<rparr>"

definition stop_flag :: "nat option \<Rightarrow> sip_core \<Rightarrow> sip_core" where
  "stop_flag f co = (case f of Some i \<Rightarrow> co\<lparr>co_stopped := i # co_stopped co\<rparr> | None \<Rightarrow> co)"

definition retransmit_until_acked :: "request \<Rightarrow> string \<Rightarrow> socket_addr \<Rightarrow> sip_core \<Rightarrow> sip_core" where
  "retransmit_until_acked req bytes dest co =
     (case dialog_key req of
        None \<Rightarrow> co
      | Some key \<Rightarrow>
          (let co1 = stop_flag (kv_get (co_pending_ack co) key)
                 (co\<lparr>co_pending_ack := kv_put key (co_flags co) (co_pending_ack co)\<rparr>)
           in start_timer bytes dest (Some key) co1))"

text \<open>The end of a retransmission task: it drops its entry, unless a newer answer replaced it.\<close>

definition timer_gives_up :: "timer \<Rightarrow> sip_core \<Rightarrow> sip_core" where
  "timer_gives_up tm co =
     (case tm_key tm of
        Some key \<Rightarrow> if kv_get (co_pending_ack co) key = Some (tm_flag tm)
          then co\<lparr>co_pending_ack := kv_del key (co_pending_ack co)\<rparr> else co
      | None \<Rightarrow> co)"

definition respond :: "sip_core \<Rightarrow> sip_env \<Rightarrow> request \<Rightarrow> socket_addr \<Rightarrow> response \<Rightarrow> sip_core" where
  "respond co en req src resp0 =
     (let h = add_contact co en req src resp0 (annotate_via (rs_headers resp0) src);
          resp = resp0\<lparr>rs_headers := h\<rparr>;
          bytes = response_encode resp;
          co1 = co\<lparr>co_server_cache :=
            txn_respond (co_server_cache co) (txn_key req) (rs_code resp) bytes (en_now en)\<rparr>;
          co2 = (if rq_method req = Invite \<and> 200 \<le> rs_code resp \<and> rs_code resp < 300
                 then retransmit_until_acked req bytes src co1 else co1)
      in send bytes src co2)"

section \<open>Authentication\<close>

definition uri_addressed :: "request \<Rightarrow> string \<Rightarrow> bool" where
  "uri_addressed req claimed =
     (case uri_parse claimed of
        None \<Rightarrow> False
      | Some u \<Rightarrow> uri_bare u = uri_bare (rq_uri req) \<or>
          (case h_to (rq_headers req) of Some t \<Rightarrow> uri_bare u = uri_bare (na_uri t) | None \<Rightarrow> False))"

definition credentials_ok :: "sip_core \<Rightarrow> sip_env \<Rightarrow> request \<Rightarrow> string \<times> string \<Rightarrow> credentials \<Rightarrow> bool" where
  "credentials_ok co en req account c \<longleftrightarrow>
     cr_username c = fst account \<and> cr_realm c = domain_name co \<and> uri_addressed req (cr_uri c) \<and>
     verify (en_md5 en) c (snd account) (method_str (rq_method req)) (rq_body req)"

definition challenge_header :: "sip_core \<Rightarrow> sip_env \<Rightarrow> bool \<Rightarrow> string" where
  "challenge_header co en stale =
     ''Digest realm='' @ quoted (domain_name co) @ '', nonce=''
     @ quoted (nonce_issue (en_md5 en) (co_nonce co) (en_wall en))
     @ '', algorithm=MD5, qop='' @ quoted ''auth'' @ (if stale then '', stale=true'' else [])"

definition exempt :: "request \<Rightarrow> bool" where
  "exempt req \<longleftrightarrow> rq_method req = Cancel \<or>
     (Option.bind (h_to (rq_headers req)) na_tag \<noteq> None \<and> rq_method req \<in> {Bye, Info})"

definition check_auth :: "sip_core \<Rightarrow> sip_env \<Rightarrow> request \<Rightarrow> socket_addr \<Rightarrow> bool \<times> sip_core" where
  "check_auth co en req src =
     (case cfg_auth (co_cfg co) of
        None \<Rightarrow> (True, co)
      | Some account \<Rightarrow>
          if exempt req then (True, co)
          else
            (let (ok, stale, seen) =
               (case Option.bind (hget (rq_headers req) ''authorization'') credentials_parse of
                  None \<Rightarrow> (False, False, co_nonce_seen co)
                | Some c \<Rightarrow>
                    (let good = credentials_ok co en req account c;
                         (fresh, seen') =
                           (if good \<and> nonce_is_valid (en_md5 en) (co_nonce co) (en_wall en) (cr_nonce c) 300
                            then claim_nonce (co_nonce_seen co) c (en_now en)
                            else (False, co_nonce_seen co))
                     in (good \<and> fresh, good \<and> \<not> fresh, seen')));
                 co1 = co\<lparr>co_nonce_seen := seen\<rparr>
             in if ok then (True, co1)
                else (False,
                  (let resp = make_response co1 en req 401 None in
                   respond co1 en req src (resp\<lparr>rs_headers :=
                     hset (rs_headers resp) ''www-authenticate'' (challenge_header co1 en stale)\<rparr>)))))"

section \<open>Handlers\<close>

definition allow_methods :: string where
  "allow_methods = ''INVITE, ACK, CANCEL, BYE, OPTIONS, INFO, MESSAGE, REGISTER''"

definition parse_expires :: "string option \<Rightarrow> u32 \<Rightarrow> u32" where
  "parse_expires v dflt = min
     (case Option.bind v (\<lambda>s. parse_u32 (trim s)) of Some n \<Rightarrow> n | None \<Rightarrow> dflt) 3600"

definition register_contact :: "string \<Rightarrow> socket_addr \<Rightarrow> u32 \<Rightarrow> instant \<Rightarrow> string \<Rightarrow> registrar \<Rightarrow> registrar" where
  "register_contact aor src dflt now raw r =
     (case name_addr_parse raw of
        None \<Rightarrow> r
      | Some c \<Rightarrow> reg_update r aor c src (parse_expires (na_param c ''expires'') dflt) now now)"

definition binding_contact :: "instant \<Rightarrow> binding \<Rightarrow> string" where
  "binding_contact now b = name_addr_show (na_set_param (b_contact b) ''expires''
     (Some (show_nat ((b_expires_at b - now) div secs 1))))"

definition register_bindings :: "request \<Rightarrow> socket_addr \<Rightarrow> string \<Rightarrow> u32 \<Rightarrow> instant \<Rightarrow> registrar \<Rightarrow> registrar" where
  "register_bindings req src aor dflt now r =
     (let contacts = hget_all (rq_headers req) ''contact'' in
      if list_ex (\<lambda>c. trim c = ''*'') contacts then reg_remove_all r aor
      else fold (register_contact aor src dflt now) (concat (map split_contacts contacts)) r)"

definition handle_register :: "sip_core \<Rightarrow> sip_env \<Rightarrow> request \<Rightarrow> socket_addr \<Rightarrow> sip_core" where
  "handle_register co0 en req src =
     (let (ok, co) = check_auth co0 en req src in
      if \<not> ok then co
      else (case h_to (rq_headers req) of
          None \<Rightarrow> respond co en req src (make_response co en req 400 None)
        | Some to \<Rightarrow>
            (let aor = uri_show (uri_bare (na_uri to));
                 dflt = parse_expires (hget (rq_headers req) ''expires'') 3600;
                 r1 = register_bindings req src aor dflt (en_now en) (co_registrar co);
                 (r2, bindings) = reg_contacts r1 aor (en_now en);
                 co1 = co\<lparr>co_registrar := r2\<rparr>;
                 resp = make_response co1 en req 200 None;
                 h = push_all (rs_headers resp) ''contact'' (map (binding_contact (en_now en)) bindings);
                 h' = hset h ''expires'' (show_nat (unat dflt))
             in respond co1 en req src (resp\<lparr>rs_headers := h'\<rparr>))))"

definition handle_options :: "sip_core \<Rightarrow> sip_env \<Rightarrow> request \<Rightarrow> socket_addr \<Rightarrow> sip_core" where
  "handle_options co en req src =
     (let down = (cfg_options_reflect_modem (co_cfg co) \<and> \<not> co_modem_ready co);
          resp = make_response co en req (if down then 503 else 200) None;
          h = (if down then hset (hset (rs_headers resp) ''retry-after''
                    (show_nat (unat (cfg_retry_after_secs (co_cfg co)))))
                  ''warning'' (''399 modem2sip '' @ quoted ''modem not available'')
               else rs_headers resp);
          h' = hset (hset h ''allow'' allow_methods) ''accept''
                 ''application/sdp, text/plain, application/json''
      in respond co en req src (resp\<lparr>rs_headers := h'\<rparr>))"

definition acknowledge_2xx :: "request \<Rightarrow> sip_core \<Rightarrow> sip_core" where
  "acknowledge_2xx req co =
     (case dialog_key req of
        None \<Rightarrow> co
      | Some key \<Rightarrow> stop_flag (kv_get (co_pending_ack co) key)
          (co\<lparr>co_pending_ack := kv_del key (co_pending_ack co)\<rparr>))"

definition deliver :: "request \<Rightarrow> socket_addr \<Rightarrow> sip_core \<Rightarrow> sip_core" where
  "deliver req src co = co\<lparr>co_events := co_events co @ [(req, src)]\<rparr>"

definition handle_claimed :: "sip_core \<Rightarrow> sip_env \<Rightarrow> request \<Rightarrow> socket_addr \<Rightarrow> sip_core" where
  "handle_claimed co en req src =
     (case rq_method req of
        Register \<Rightarrow> handle_register co en req src
      | Options \<Rightarrow> handle_options co en req src
      | m \<Rightarrow>
          if m \<in> {Invite, Ack, Bye, Cancel, Info, Message} then
            (if m = Ack then deliver req src co
             else (let (ok, co1) = check_auth co en req src in if ok then deliver req src co1 else co1))
          else
            (let resp = make_response co en req 405 None in
             respond co en req src (resp\<lparr>rs_headers := hset (rs_headers resp) ''allow'' allow_methods\<rparr>)))"

definition on_request :: "sip_core \<Rightarrow> sip_env \<Rightarrow> request \<Rightarrow> socket_addr \<Rightarrow> sip_core" where
  "on_request co en req src =
     (if \<not> source_allowed co (sa_ip src) then respond co en req src (make_response co en req 403 None)
      else if rq_method req = Ack then handle_claimed (acknowledge_2xx req co) en req src
      else (case txn_key req of
          None \<Rightarrow> handle_claimed co en req src
        | Some key \<Rightarrow>
            (let (c, cache) = claim_txn (co_server_cache co) key (en_now en);
                 co1 = co\<lparr>co_server_cache := cache\<rparr>
             in case c of
                  Answered bytes \<Rightarrow> send bytes src co1
                | InFlight (Some bytes) \<Rightarrow> send bytes src co1
                | InFlight None \<Rightarrow> co1
                | Fresh \<Rightarrow> handle_claimed co1 en req src)))"

section \<open>Client transactions\<close>

definition on_response :: "sip_core \<Rightarrow> response \<Rightarrow> sip_core" where
  "on_response co resp =
     (case Option.bind (h_top_via (rs_headers resp)) via_branch of
        None \<Rightarrow> co
      | Some branch \<Rightarrow>
          (case h_cseq (rs_headers resp) of
             None \<Rightarrow> co
           | Some (_, mth) \<Rightarrow>
               (case kv_get (co_client_txns co) branch of
                  None \<Rightarrow> co
                | Some entry \<Rightarrow>
                    if ct_method entry \<noteq> mth then co
                    else
                      (let co1 = (if 200 \<le> rs_code resp \<or> ct_method entry = Invite
                                  then stop_flag (Some (ct_flag entry)) co else co)
                       in co1\<lparr>co_client_txns := kv_put branch
                            (entry\<lparr>ct_received := ct_received entry @ [resp]\<rparr>) (co_client_txns co1)\<rparr>))))"

definition on_datagram :: "sip_core \<Rightarrow> sip_env \<Rightarrow> string \<Rightarrow> socket_addr \<Rightarrow> sip_core" where
  "on_datagram co en data src =
     (if list_all ascii_ws data then co
      else (case message_parse data of
          None \<Rightarrow> co
        | Some (ResponseMsg resp) \<Rightarrow> core_gc (on_response co resp) (en_now en)
        | Some (RequestMsg req) \<Rightarrow> core_gc (on_request co en req src) (en_now en)))"

text \<open>The branch a request goes out with, and the state after it; \<open>None\<close> without a branch.\<close>

definition send_request :: "sip_core \<Rightarrow> request \<Rightarrow> socket_addr \<Rightarrow> (string \<times> sip_core) option" where
  "send_request co req dest =
     (case Option.bind (h_top_via (rq_headers req)) via_branch of
        None \<Rightarrow> None
      | Some branch \<Rightarrow>
          (let bytes = request_encode req;
               co1 = co\<lparr>co_client_txns := kv_put branch
                 \<lparr>ct_method = rq_method req, ct_flag = co_flags co, ct_received = []\<rparr> (co_client_txns co)\<rparr>
           in Some (branch, start_timer bytes dest None (send bytes dest co1))))"

definition drop_client_txn :: "string \<Rightarrow> nat \<Rightarrow> sip_core \<Rightarrow> sip_core" where
  "drop_client_txn branch flag co =
     stop_flag (Some flag) (co\<lparr>co_client_txns := kv_del branch (co_client_txns co)\<rparr>)"

definition send_raw :: "sip_core \<Rightarrow> request \<Rightarrow> socket_addr \<Rightarrow> sip_core" where
  "send_raw co req dest = send (request_encode req) dest co"

text \<open>\<open>final_response\<close>: the first response that is not provisional, of those that arrive in time.\<close>

definition final_response :: "response list \<Rightarrow> response option" where
  "final_response arrived = find (\<lambda>r. \<not> is_provisional r) arrived"

definition build_request :: "sip_core \<Rightarrow> sip_env \<Rightarrow> sip_method \<Rightarrow> uri \<Rightarrow> name_addr \<Rightarrow> name_addr \<Rightarrow> string \<Rightarrow>
    u32 \<Rightarrow> socket_addr \<Rightarrow> bool \<Rightarrow> request" where
  "build_request co en mth request_uri from to call_id cseq dest with_contact =
     (let ip = advertised_ip co en dest;
          h1 = hpush [] ''via'' (''SIP/2.0/UDP '' @ host_for_wire (show_ip ip) @ '':''
                 @ show_nat (unat (sa_port (co_bound co))) @ '';rport;branch=''
                 @ ''z9hG4bK'' @ random_hex (en_branch en));
          h2 = hset h1 ''max-forwards'' ''70'';
          h3 = hset h2 ''from'' (name_addr_show from);
          h4 = hset h3 ''to'' (name_addr_show to);
          h5 = hset h4 ''call-id'' call_id;
          h6 = hset h5 ''cseq'' (show_nat (unat cseq) @ '' '' @ method_str mth);
          h7 = (if with_contact
                then hset h6 ''contact'' (name_addr_show (name_addr_new (own_contact co en dest (u_user (na_uri from)))))
                else h6);
          h8 = hset h7 ''user-agent'' (cfg_user_agent (co_cfg co))
      in (request_new mth request_uri)\<lparr>rq_headers := h8\<rparr>)"

definition refresh_via_branch :: "sip_env \<Rightarrow> headers \<Rightarrow> headers" where
  "refresh_via_branch en h =
     (case hget h ''via'' of
        None \<Rightarrow> h
      | Some raw \<Rightarrow>
          (case via_parse raw of
             None \<Rightarrow> h
           | Some via \<Rightarrow> hset h ''via''
               (via_show (via_set_param via ''branch'' (Some (''z9hG4bK'' @ random_hex (en_branch en)))))))"

text \<open>
  \<open>transact\<close> after its first final response: keep it, fail (no challenge that can be
  answered), or send the request again with credentials, a new branch and the next sequence
  number.
\<close>

datatype transact_step = Done response | NoUsableChallenge u16 | Again request sip_core

definition transact_first :: "sip_core \<Rightarrow> sip_env \<Rightarrow> request \<Rightarrow> (string \<times> string) option \<Rightarrow> response \<Rightarrow>
    transact_step" where
  "transact_first co en req creds resp =
     (if rs_code resp \<noteq> 401 \<and> rs_code resp \<noteq> 407 then Done resp
      else (case creds of
          None \<Rightarrow> Done resp
        | Some (user, pass) \<Rightarrow>
            (let (hdr, out_hdr) =
               (if rs_code resp = 401 then (''www-authenticate'', ''authorization'')
                else (''proxy-authenticate'', ''proxy-authorization'')) in
             case find is_supported (List.map_filter challenge_parse (hget_all (rs_headers resp) hdr)) of
               None \<Rightarrow> NoUsableChallenge (rs_code resp)
             | Some ch \<Rightarrow>
                 (let a = answer (en_md5 en) (en_cnonce en) ch user pass (method_str (rq_method req))
                        (uri_show (rq_uri req)) (rq_body req) 1;
                      (cseq, co1) = next_cseq co;
                      h1 = hset (rq_headers req) ''cseq''
                             (show_nat (unat cseq) @ '' '' @ method_str (rq_method req));
                      h2 = refresh_via_branch en h1;
                      h3 = hset h2 out_hdr (to_header a)
                  in Again (req\<lparr>rq_headers := h3\<rparr>) co1))))"

text \<open>\<open>resolve_target\<close> for a target that resolves to an address: the lookup is the argument.\<close>

datatype target_error = InvalidTarget string | NobodyRegistered | Unresolved string

definition resolve_uri :: "(string \<Rightarrow> u16 \<Rightarrow> socket_addr list) \<Rightarrow> uri \<Rightarrow> socket_addr option" where
  "resolve_uri lookup u =
     (let port = (case u_port u of Some p \<Rightarrow> p | None \<Rightarrow> 5060);
          host = trim_matches (\<lambda>c. c = CHR ''['' \<or> c = CHR '']'') (u_host u) in
      case parse_ip_addr host of
        Some ip \<Rightarrow> Some \<lparr>sa_ip = ip, sa_port = port\<rparr>
      | None \<Rightarrow> (case lookup host port of a # _ \<Rightarrow> Some a | [] \<Rightarrow> None))"

definition resolve_target :: "sip_core \<Rightarrow> (string \<Rightarrow> u16 \<Rightarrow> socket_addr list) \<Rightarrow> string list \<Rightarrow> instant \<Rightarrow>
    string option \<Rightarrow> sip_core \<times> (target_error + uri \<times> socket_addr)" where
  "resolve_target co lookup order now configured =
     (case configured of
        Some t \<Rightarrow> (co, (case uri_parse t of
            None \<Rightarrow> Inl (InvalidTarget t)
          | Some u \<Rightarrow> (case resolve_uri lookup u of
              None \<Rightarrow> Inl (Unresolved (u_host u)) | Some a \<Rightarrow> Inr (u, a))))
      | None \<Rightarrow>
          (let (r, b) = reg_newest (co_registrar co) order now
           in (co\<lparr>co_registrar := r\<rparr>,
               (case b of None \<Rightarrow> Inl NobodyRegistered | Some x \<Rightarrow> Inr (na_uri (b_contact x), b_source x)))))"

section \<open>What the operations leave alone\<close>

named_theorems core_frame \<open>fields an operation of the SIP element does not change\<close>

lemma stop_flag_frame [core_frame, simp]:
  "co_cfg (stop_flag f co) = co_cfg co" "co_registrar (stop_flag f co) = co_registrar co"
  "co_events (stop_flag f co) = co_events co" "co_nonce_seen (stop_flag f co) = co_nonce_seen co"
  "co_client_txns (stop_flag f co) = co_client_txns co" "co_nonce (stop_flag f co) = co_nonce co"
  "co_bound (stop_flag f co) = co_bound co" "co_server_cache (stop_flag f co) = co_server_cache co"
  "co_pending_ack (stop_flag f co) = co_pending_ack co" "co_flags (stop_flag f co) = co_flags co"
  "co_timers (stop_flag f co) = co_timers co" "co_sent (stop_flag f co) = co_sent co"
  "co_public_ip (stop_flag f co) = co_public_ip co" "co_cseq (stop_flag f co) = co_cseq co"
  by (auto simp: stop_flag_def split: option.splits)

lemma send_frame [core_frame, simp]:
  "co_cfg (send b d co) = co_cfg co" "co_registrar (send b d co) = co_registrar co"
  "co_events (send b d co) = co_events co" "co_nonce_seen (send b d co) = co_nonce_seen co"
  "co_client_txns (send b d co) = co_client_txns co" "co_nonce (send b d co) = co_nonce co"
  "co_bound (send b d co) = co_bound co" "co_server_cache (send b d co) = co_server_cache co"
  "co_pending_ack (send b d co) = co_pending_ack co" "co_flags (send b d co) = co_flags co"
  "co_stopped (send b d co) = co_stopped co" "co_timers (send b d co) = co_timers co"
  "co_public_ip (send b d co) = co_public_ip co" "co_cseq (send b d co) = co_cseq co"
  "co_sent (send b d co) = co_sent co @ [(b, d)]"
  by (simp_all add: send_def)

lemma start_timer_frame [core_frame, simp]:
  "co_cfg (start_timer b d k co) = co_cfg co" "co_registrar (start_timer b d k co) = co_registrar co"
  "co_events (start_timer b d k co) = co_events co" "co_nonce_seen (start_timer b d k co) = co_nonce_seen co"
  "co_client_txns (start_timer b d k co) = co_client_txns co" "co_nonce (start_timer b d k co) = co_nonce co"
  "co_bound (start_timer b d k co) = co_bound co" "co_server_cache (start_timer b d k co) = co_server_cache co"
  "co_pending_ack (start_timer b d k co) = co_pending_ack co" "co_stopped (start_timer b d k co) = co_stopped co"
  "co_public_ip (start_timer b d k co) = co_public_ip co" "co_sent (start_timer b d k co) = co_sent co"
  by (simp_all add: start_timer_def)

lemma retransmit_until_acked_frame [core_frame, simp]:
  "co_cfg (retransmit_until_acked r b d co) = co_cfg co"
  "co_registrar (retransmit_until_acked r b d co) = co_registrar co"
  "co_events (retransmit_until_acked r b d co) = co_events co"
  "co_nonce_seen (retransmit_until_acked r b d co) = co_nonce_seen co"
  "co_client_txns (retransmit_until_acked r b d co) = co_client_txns co"
  "co_nonce (retransmit_until_acked r b d co) = co_nonce co"
  "co_bound (retransmit_until_acked r b d co) = co_bound co"
  "co_server_cache (retransmit_until_acked r b d co) = co_server_cache co"
  "co_sent (retransmit_until_acked r b d co) = co_sent co"
  by (simp_all add: retransmit_until_acked_def Let_def split: option.splits)

lemma respond_frame [core_frame, simp]:
  "co_cfg (respond co en r s p) = co_cfg co" "co_registrar (respond co en r s p) = co_registrar co"
  "co_events (respond co en r s p) = co_events co" "co_nonce_seen (respond co en r s p) = co_nonce_seen co"
  "co_client_txns (respond co en r s p) = co_client_txns co" "co_nonce (respond co en r s p) = co_nonce co"
  "co_bound (respond co en r s p) = co_bound co"
  by (simp_all add: respond_def Let_def)

lemma respond_cache:
  "\<exists>bytes. co_server_cache (respond co en req src resp) =
      txn_respond (co_server_cache co) (txn_key req) (rs_code resp) bytes (en_now en) \<and>
    co_sent (respond co en req src resp) = co_sent co @ [(bytes, src)]"
  by (auto simp: respond_def Let_def)

lemma acknowledge_frame [core_frame, simp]:
  "co_cfg (acknowledge_2xx r co) = co_cfg co" "co_registrar (acknowledge_2xx r co) = co_registrar co"
  "co_events (acknowledge_2xx r co) = co_events co" "co_nonce_seen (acknowledge_2xx r co) = co_nonce_seen co"
  "co_server_cache (acknowledge_2xx r co) = co_server_cache co" "co_nonce (acknowledge_2xx r co) = co_nonce co"
  "co_bound (acknowledge_2xx r co) = co_bound co"
  by (auto simp: acknowledge_2xx_def split: option.splits)

text \<open>The decision of \<open>check_auth\<close>.\<close>

definition authorised :: "sip_core \<Rightarrow> sip_env \<Rightarrow> request \<Rightarrow> bool" where
  "authorised co en req \<longleftrightarrow> (case cfg_auth (co_cfg co) of
      None \<Rightarrow> True
    | Some account \<Rightarrow> exempt req \<or>
        (\<exists>c. Option.bind (hget (rq_headers req) ''authorization'') credentials_parse = Some c \<and>
           credentials_ok co en req account c \<and>
           nonce_is_valid (en_md5 en) (co_nonce co) (en_wall en) (cr_nonce c) 300 \<and>
           fst (claim_nonce (co_nonce_seen co) c (en_now en))))"

lemma check_auth_frame [core_frame, simp]:
  "co_cfg (snd (check_auth co en r s)) = co_cfg co"
  "co_registrar (snd (check_auth co en r s)) = co_registrar co"
  "co_events (snd (check_auth co en r s)) = co_events co"
  "co_client_txns (snd (check_auth co en r s)) = co_client_txns co"
  "co_nonce (snd (check_auth co en r s)) = co_nonce co"
  "co_bound (snd (check_auth co en r s)) = co_bound co"
  by (simp_all add: check_auth_def Let_def split_beta split: option.splits)

lemma check_auth_iff: "fst (check_auth co en req src) \<longleftrightarrow> authorised co en req"
  by (auto simp: check_auth_def authorised_def Let_def split_beta split: option.splits if_splits)

lemma check_auth_nonces:
  "co_nonce_seen (snd (check_auth co en req src)) \<noteq> co_nonce_seen co \<Longrightarrow> authorised co en req"
  by (auto simp: check_auth_def authorised_def Let_def split_beta claim_nonce_def
      split: option.splits if_splits)

lemma check_auth_passed_cache:
  "fst (check_auth co en req src) \<Longrightarrow>
    co_server_cache (snd (check_auth co en req src)) = co_server_cache co \<and>
    co_sent (snd (check_auth co en req src)) = co_sent co"
  by (auto simp: check_auth_def Let_def split_beta split: option.splits if_splits)

end
