(* ===== verification/Audio.thy ===== *)
theory Audio
  imports Prelude
begin

text \<open>
  The audio path of one call: the G.711 laws of \<open>src/audio/codec.rs\<close>, the ring buffers between the
  packets and the sound card (\<open>AudioRings\<close> of \<open>src/audio/alsa_io.rs\<close>), and the watcher that
  decides from the levels of those rings when a ringing call carries audio (\<open>src/gateway.rs\<close>).
  The \<open>i32\<close> intermediate values of the laws stay below \<open>2^31\<close> and are mathematical integers here;
  a lock around a ring is one step.
\<close>

unbundle bit_operations_syntax

type_synonym i16 = "16 word"

section \<open>G.711\<close>

text \<open>The search for the segment: the mask moves down with the exponent.\<close>

fun segment :: "nat \<Rightarrow> nat \<Rightarrow> int \<Rightarrow> int \<Rightarrow> nat" where
  "segment lowest e bits pcm =
     (if lowest < e \<and> pcm AND bits = 0 then segment lowest (e - 1) (bits div 2) pcm else e)"

declare segment.simps [simp del]

definition linear_to_ulaw :: "i16 \<Rightarrow> u8" where
  "linear_to_ulaw sample =
     (let pcm0 = sint sample;
          (sign, pcm1) = (if pcm0 < 0 then (0x80 :: u8, - pcm0) else (0, pcm0));
          pcm = (if 32635 < pcm1 then 32635 else pcm1) + 0x84;
          e = segment 0 7 0x4000 pcm;
          mantissa = of_int (drop_bit (e + 3) pcm AND 0x0F) :: u8
      in NOT (sign OR push_bit 4 (of_nat e) OR mantissa))"

definition ulaw_to_linear :: "u8 \<Rightarrow> i16" where
  "ulaw_to_linear ulaw =
     (let u = NOT ulaw; sign = u AND 0x80; e = unat (drop_bit 4 u AND 0x07); mantissa = u AND 0x0F;
          sample = push_bit e (push_bit 3 (uint mantissa) + 0x84) - 0x84 :: int
      in if sign \<noteq> 0 then of_int (- sample) else of_int sample)"

definition linear_to_alaw :: "i16 \<Rightarrow> u8" where
  "linear_to_alaw sample =
     (let pcm0 = sint sample;
          (sign, pcm1) = (if pcm0 < 0 then (0x00 :: u8, - pcm0 - 1) else (0x80, pcm0));
          pcm = (if 32635 < pcm1 then 32635 else pcm1);
          encoded = (if pcm < 256 then of_int (drop_bit 4 pcm)
            else (let e = segment 1 7 0x4000 pcm;
                      mantissa = of_int (drop_bit (e + 3) pcm AND 0x0F) :: u8
                  in push_bit 4 (of_nat e) OR mantissa))
      in (sign OR encoded) XOR 0x55)"

definition alaw_to_linear :: "u8 \<Rightarrow> i16" where
  "alaw_to_linear alaw =
     (let a = alaw XOR 0x55; sign = a AND 0x80; e = unat (drop_bit 4 a AND 0x07);
          mantissa = uint (a AND 0x0F);
          sample0 = (if e = 0 then push_bit 4 mantissa + 8
            else push_bit (e - 1) (push_bit 4 mantissa + 0x108)) :: int;
          sample = (if 32767 < sample0 then 32767 else sample0)
      in if sign \<noteq> 0 then of_int sample else - of_int sample)"

datatype law = Ulaw | Alaw

definition encode_audio :: "law \<Rightarrow> i16 list \<Rightarrow> u8 list" where
  "encode_audio l pcm = map (case l of Ulaw \<Rightarrow> linear_to_ulaw | Alaw \<Rightarrow> linear_to_alaw) pcm"

definition decode_audio :: "law \<Rightarrow> u8 list \<Rightarrow> i16 list" where
  "decode_audio l payload = map (case l of Ulaw \<Rightarrow> ulaw_to_linear | Alaw \<Rightarrow> alaw_to_linear) payload"

section \<open>The keys of a telephone\<close>

text \<open>The two frequencies of a key, which the generator plays, and the tables the detector reads a key from.\<close>

definition dtmf_frequencies :: "char \<Rightarrow> (nat \<times> nat) option" where
  "dtmf_frequencies digit =
     (let low = (if digit \<in> set ''123Aa'' then Some 697 else if digit \<in> set ''456Bb'' then Some 770
            else if digit \<in> set ''789Cc'' then Some 852 else if digit \<in> set ''*0#Dd'' then Some 941 else None);
          high = (if digit \<in> set ''147*'' then Some 1209 else if digit \<in> set ''2580'' then Some 1336
            else if digit \<in> set ''369#'' then Some 1477 else if digit \<in> set ''AaBbCcDd'' then Some 1633 else None)
      in case (low, high) of (Some l, Some h) \<Rightarrow> Some (l, h) | _ \<Rightarrow> None)"

definition DTMF_LOW :: "nat list" where "DTMF_LOW = [697, 770, 852, 941]"
definition DTMF_HIGH :: "nat list" where "DTMF_HIGH = [1209, 1336, 1477, 1633]"
definition DTMF_KEYS :: "string list" where "DTMF_KEYS = [''123A'', ''456B'', ''789C'', ''*0#D'']"

text \<open>What is played for a key is what the key is recognised by.\<close>

lemma dtmf_tables_agree:
  "list_all (\<lambda>(i, j). dtmf_frequencies (DTMF_KEYS ! i ! j) = Some (DTMF_LOW ! i, DTMF_HIGH ! j))
     (List.product [0, 1, 2, 3] [0, 1, 2, 3])"
  by code_simp

section \<open>Ring buffers\<close>

record rings =
  rg_to_network :: "i16 list"
  rg_to_modem :: "i16 list"
  rg_tone :: "i16 list"
  rg_target :: nat
  rg_high_water :: nat
  rg_underruns :: u32
  rg_overruns :: u32
  rg_energy :: u32
  rg_frames :: u32

definition rtp_rate :: nat where "rtp_rate = 8000"

definition max_tone_samples :: nat where "max_tone_samples = rtp_rate * 8"

definition samples_of_ms :: "nat \<Rightarrow> nat" where
  "samples_of_ms ms = rtp_rate * ms div 1000"

definition rings_new :: "nat \<Rightarrow> nat \<Rightarrow> rings" where
  "rings_new jitter_ms period_ms =
     (let target = max (samples_of_ms (max jitter_ms period_ms)) (samples_of_ms 20) in
      \<lparr>rg_to_network = [], rg_to_modem = [], rg_tone = [], rg_target = target, rg_high_water = target * 3,
       rg_underruns = 0, rg_overruns = 0, rg_energy = 0, rg_frames = 0\<rparr>)"

text \<open>The ring after \<open>trim\<close>, and how much the overrun counter moves.\<close>

definition ring_trim :: "rings \<Rightarrow> i16 list \<Rightarrow> i16 list \<times> u32" where
  "ring_trim r ring =
     (if rg_high_water r < length ring then (drop (length ring - rg_target r) ring, 1) else (ring, 0))"

definition push_from_card :: "i16 list \<Rightarrow> rings \<Rightarrow> rings" where
  "push_from_card samples r =
     (let (ring, over) = ring_trim r (rg_to_network r @ samples)
      in r\<lparr>rg_to_network := ring, rg_overruns := rg_overruns r + over\<rparr>)"

definition push_from_network :: "i16 list \<Rightarrow> rings \<Rightarrow> rings" where
  "push_from_network samples r =
     (let (ring, over) = ring_trim r (rg_to_modem r @ samples)
      in r\<lparr>rg_to_modem := ring, rg_overruns := rg_overruns r + over\<rparr>)"

definition pop_samples :: "nat \<Rightarrow> i16 list \<Rightarrow> i16 list \<times> i16 list" where
  "pop_samples n ring = (take n ring @ replicate (n - length ring) 0, drop n ring)"

text \<open>\<open>i16::unsigned_abs\<close>, and \<open>u32::saturating_add\<close>.\<close>

definition unsigned_abs :: "i16 \<Rightarrow> nat" where
  "unsigned_abs s = nat \<bar>sint s\<bar>"

definition saturating_add :: "'a::len word \<Rightarrow> nat \<Rightarrow> 'a word" where
  "saturating_add a n = (if unat a + n < 2 ^ LENGTH('a) then of_nat (unat a + n) else of_nat (2 ^ LENGTH('a) - 1))"

definition saturating_sub :: "'a::len word \<Rightarrow> 'a word \<Rightarrow> 'a word" where
  "saturating_sub a b = (if b \<le> a then a - b else 0)"

definition frame_energy :: "i16 list \<Rightarrow> u32" where
  "frame_energy frame = fold (\<lambda>s e. saturating_add e (unsigned_abs s)) frame 0"

definition take_for_network :: "nat \<Rightarrow> rings \<Rightarrow> i16 list \<times> rings" where
  "take_for_network n r =
     (let (out, ring) = pop_samples n (rg_to_network r)
      in (out, r\<lparr>rg_to_network := ring,
           rg_energy := rg_energy r + frame_energy out div of_nat (max n 1),
           rg_frames := rg_frames r + 1\<rparr>))"

definition uplink_raw :: "rings \<Rightarrow> u32 \<times> u32" where
  "uplink_raw r = (rg_energy r, rg_frames r)"

definition uplink_level :: "rings \<Rightarrow> u32 \<times> u32" where
  "uplink_level r = (let (energy, frames) = uplink_raw r in (energy div max frames 1, frames))"

definition reset_uplink_level :: "rings \<Rightarrow> rings" where
  "reset_uplink_level r = r\<lparr>rg_energy := 0, rg_frames := 0\<rparr>"

definition queue_tone :: "i16 list \<Rightarrow> rings \<Rightarrow> bool \<times> rings" where
  "queue_tone samples r =
     (if max_tone_samples < length (rg_tone r) + length samples then (False, r)
      else (True, r\<lparr>rg_tone := rg_tone r @ samples\<rparr>))"

definition tone_pending :: "rings \<Rightarrow> bool" where
  "tone_pending r \<longleftrightarrow> rg_tone r \<noteq> []"

definition take_for_card :: "nat \<Rightarrow> rings \<Rightarrow> i16 list \<times> rings" where
  "take_for_card n r =
     (if rg_tone r \<noteq> [] then
        (let (out, tone) = pop_samples n (rg_tone r)
         in (out, r\<lparr>rg_tone := tone, rg_to_modem := drop n (rg_to_modem r)\<rparr>))
      else
        (let (out, ring) = pop_samples n (rg_to_modem r)
         in (out, r\<lparr>rg_to_modem := ring,
              rg_underruns := (if length (rg_to_modem r) < n then rg_underruns r + 1 else rg_underruns r)\<rparr>)))"

section \<open>Early media\<close>

text \<open>
  \<open>watch_for_early_media\<close>: one step per tick over the running sums, with the last reading and the
  streak of windows above the threshold; the level that ends the watch, if one does.
\<close>

fun watch_for_early_media :: "u32 \<times> u32 \<Rightarrow> u8 \<Rightarrow> (u32 \<times> u32) list \<Rightarrow> u32 option" where
  "watch_for_early_media _ streak [] = None"
| "watch_for_early_media (last_energy, last_frames) streak ((energy, frames) # readings) =
     (let d_energy = saturating_sub energy last_energy; d_frames = saturating_sub frames last_frames in
      if d_frames = 0 then watch_for_early_media (energy, frames) streak readings
      else (let level = d_energy div d_frames in
        if 150 \<le> level then
          (if 2 \<le> streak + 1 then Some level
           else watch_for_early_media (energy, frames) (streak + 1) readings)
        else watch_for_early_media (energy, frames) 0 readings))"

section \<open>What the laws guarantee\<close>

lemma and_top_bit:
  assumes "0 \<le> pcm" and "pcm < 2 ^ Suc k"
  shows "pcm AND 2 ^ k = 0 \<longleftrightarrow> pcm < (2 ^ k :: int)"
proof -
  have "pcm div 2 ^ k = (if pcm < 2 ^ k then 0 else 1)"
    using assms int_div_pos_eq [of pcm "2 ^ k" 1 "pcm - 2 ^ k"] by (simp add: div_pos_pos_trivial)
  then have "odd (pcm div 2 ^ k) \<longleftrightarrow> \<not> pcm < 2 ^ k" by simp
  then show ?thesis by (simp add: and_exp_eq_0_iff_not_bit bit_iff_odd)
qed

lemma segment_spec:
  assumes "2 ^ (lo + 7) \<le> pcm" and "pcm < 2 ^ (e + 8)" and "lo \<le> e"
  shows "segment lo e (2 ^ (e + 7)) pcm \<in> {lo..e} \<and> 2 ^ (segment lo e (2 ^ (e + 7)) pcm + 7) \<le> pcm \<and>
    pcm < 2 ^ (segment lo e (2 ^ (e + 7)) pcm + 8)"
  using assms
proof (induction e)
  case 0
  then have "segment lo 0 (2 ^ (0 + 7)) pcm = 0" by (subst segment.simps) simp
  with 0 show ?case by simp
next
  case (Suc e)
  have "0 \<le> pcm" using Suc.prems(1) by (meson order_trans zero_le_numeral zero_le_power)
  then have top: "pcm AND 2 ^ (Suc e + 7) = 0 \<longleftrightarrow> pcm < 2 ^ (Suc e + 7)"
    using Suc.prems(2) by (intro and_top_bit) (simp_all)
  show ?case
  proof (cases "lo < Suc e \<and> pcm < 2 ^ (Suc e + 7)")
    case True
    have half: "(2 :: int) ^ (Suc e + 7) div 2 = 2 ^ (e + 7)"
      by (simp only: add_Suc power_Suc nonzero_mult_div_cancel_left [of 2] zero_neq_numeral not_False_eq_True)
    have "segment lo (Suc e) (2 ^ (Suc e + 7)) pcm = segment lo e (2 ^ (e + 7)) pcm"
      using segment.simps [of lo "Suc e" "2 ^ (Suc e + 7)" pcm] top True
      by (simp only: half diff_Suc_1 simp_thms if_True)
    then show ?thesis using Suc.IH Suc.prems(1) True by (auto simp: add.commute [of _ 8])
  next
    case False
    then have "\<not> (lo < Suc e \<and> pcm AND 2 ^ (Suc e + 7) = 0)" using top by blast
    then have "segment lo (Suc e) (2 ^ (Suc e + 7)) pcm = Suc e"
      using segment.simps [of lo "Suc e" "2 ^ (Suc e + 7)" pcm] by (simp only: if_False)
    moreover have "2 ^ (Suc e + 7) \<le> pcm" using False Suc.prems(1,3) by (cases "lo < Suc e") (auto simp: le_Suc_eq)
    ultimately show ?thesis using Suc.prems by simp
  qed
qed


text \<open>What a code keeps of a magnitude: the segment and the four bits below its leading one.\<close>

definition cell :: "nat \<Rightarrow> int \<Rightarrow> int" where
  "cell e pcm = (drop_bit (e + 3) pcm AND 0x0F)"

lemma cell_bounds:
  assumes "2 ^ (e + 7) \<le> pcm" and "pcm < 2 ^ (e + 8)"
  shows "0 \<le> cell e pcm \<and> cell e pcm < 16 \<and> (cell e pcm + 16) * 2 ^ (e + 3) \<le> pcm \<and>
    pcm < (cell e pcm + 17) * 2 ^ (e + 3)"
proof -
  let ?B = "2 ^ (e + 3) :: int" and ?q = "pcm div 2 ^ (e + 3)"
  have B: "0 < ?B" "16 * ?B \<le> pcm" "pcm < 32 * ?B" using assms by (simp_all add: power_add)
  have q: "?q * ?B \<le> pcm" "pcm < (?q + 1) * ?B"
    using B(1) div_mult_mod_eq [of pcm ?B] pos_mod_bound [OF B(1), of pcm] pos_mod_sign [OF B(1), of pcm]
    unfolding distrib_right by linarith+
  have "16 \<le> ?q" using zdiv_mono1 [OF B(2) B(1)] B(1) by simp
  moreover have "?q < 32"
  proof (rule ccontr)
    assume "\<not> ?q < 32"
    then have "32 * ?B \<le> ?q * ?B" using B(1) by (intro mult_right_mono) auto
    with q(1) B(3) show False by linarith
  qed
  moreover have "cell e pcm = ?q mod 16"
    using take_bit_eq_mask [of 4 ?q] by (simp add: cell_def drop_bit_eq_div take_bit_eq_mod mask_eq_exp_minus_1)
  moreover have "?q mod 16 = (?q - 16) mod 16" by simp
  ultimately have "cell e pcm = ?q - 16" by (simp only: mod_pos_pos_trivial)
  then show ?thesis using q \<open>16 \<le> ?q\<close> \<open>?q < 32\<close> by (simp add: add.commute)
qed

lemma code_fields: "list_all (\<lambda>s. list_all (\<lambda>e. list_all (\<lambda>m.
   (let u = s OR push_bit 4 (of_nat e) OR (of_nat m :: u8) in u AND 0x80 = s \<and> unat (drop_bit 4 u AND 0x07) = e
      \<and> uint (u AND 0x0F) = int m)) [0..<16]) [0..<8]) [0, 0x80 :: u8]"
  by code_simp

lemma code_fields_of:
  assumes "s \<in> {0, 0x80 :: u8}" and "e \<le> 7" and "0 \<le> m" and "m < 16"
  defines "u \<equiv> s OR push_bit 4 (of_nat e) OR (of_int m :: u8)"
  shows "u AND 0x80 = s" and "unat (drop_bit 4 u AND 0x07) = e" and "uint (u AND 0x0F) = m"
proof -
  have m: "nat m \<in> set [0..<16]" and e: "e \<in> set [0..<8]" and s: "s \<in> set [0, 0x80]" using assms by auto
  have w: "(of_nat (nat m) :: u8) = of_int m" using assms(3) by simp
  have "let u = s OR push_bit 4 (of_nat e) OR (of_nat (nat m) :: u8) in u AND 0x80 = s \<and>
      unat (drop_bit 4 u AND 0x07) = e \<and> uint (u AND 0x0F) = int (nat m)"
    using code_fields s e m unfolding list_all_iff by blast
  then show "u AND 0x80 = s" "unat (drop_bit 4 u AND 0x07) = e" "uint (u AND 0x0F) = m"
    using assms(3) unfolding Let_def u_def w by simp_all
qed

lemma sint_small: "- 32768 \<le> v \<Longrightarrow> v < 32768 \<Longrightarrow> sint (of_int v :: i16) = v"
  by (simp add: sint_sbintrunc' signed_take_bit_int_eq_self)


lemma magnitude_code:
  assumes "2 ^ (e + 7) \<le> pcm" and "pcm < 2 ^ (e + 8)"
  shows "\<bar>push_bit e (push_bit 3 (cell e pcm) + 0x84) - pcm\<bar> \<le> 4 * 2 ^ e" and "128 * 2 ^ e \<le> pcm"
proof -
  let ?D = "2 ^ e :: int"
  have val: "push_bit e (push_bit 3 (cell e pcm) + 0x84) = (cell e pcm + 16) * (8 * ?D) + 4 * ?D"
    by (simp add: push_bit_eq_mult algebra_simps)
  have D: "2 ^ (e + 3) = 8 * ?D" "128 * ?D \<le> pcm" using assms(1) by (simp_all add: power_add)
  have "(cell e pcm + 16) * (8 * ?D) \<le> pcm" "pcm < (cell e pcm + 17) * (8 * ?D)"
    using cell_bounds [OF assms] unfolding D(1) by blast+
  then have "\<bar>(cell e pcm + 16) * (8 * ?D) + 4 * ?D - pcm\<bar> \<le> 4 * ?D"
    by (simp add: abs_if distrib_right)
  then show "\<bar>push_bit e (push_bit 3 (cell e pcm) + 0x84) - pcm\<bar> \<le> 4 * 2 ^ e" unfolding val .
  show "128 * 2 ^ e \<le> pcm" by (rule D(2))
qed

text \<open>A sample that is sent as mu law and decoded again differs from the original by at
  most a thirty-second of its size (with the bias of 132 the law adds), over all 65536 samples, the
  clipped ones included.\<close>

lemma ulaw_error: "32 * \<bar>sint (ulaw_to_linear (linear_to_ulaw s)) - sint s\<bar> \<le> \<bar>sint s\<bar> + 132"
proof -
  define neg m where "neg = (sint s < 0)" and "m = (if 32635 < \<bar>sint s\<bar> then 32635 else \<bar>sint s\<bar>) + 0x84"
  define e where "e = segment 0 7 0x4000 m"
  have range: "- 32768 \<le> sint s" "sint s < 32768"
    using sint_ge [of s] sint_lt [of s] by simp_all
  have m: "132 \<le> m" "m \<le> 32767" by (simp_all add: m_def)
  then have "segment 0 7 (2 ^ (7 + 7)) m \<in> {0..7} \<and> 2 ^ (segment 0 7 (2 ^ (7 + 7)) m + 7) \<le> m \<and>
      m < 2 ^ (segment 0 7 (2 ^ (7 + 7)) m + 8)"
    by (intro segment_spec) simp_all
  then have e: "e \<le> 7" "2 ^ (e + 7) \<le> m" "m < 2 ^ (e + 8)" by (simp_all add: e_def)
  define v where "v = (push_bit e (push_bit 3 (cell e m) + 0x84) :: int)"
  have c: "0 \<le> cell e m" "cell e m < 16" using cell_bounds [OF e(2,3)] by simp_all
  have err: "\<bar>v - m\<bar> \<le> 4 * 2 ^ e" "128 * 2 ^ e \<le> m" using magnitude_code [OF e(2,3)] by (simp_all add: v_def)
  have "(2 :: int) ^ e \<le> 2 ^ 7" using e(1) by (intro power_increasing) simp_all
  then have D: "(2 :: int) ^ e \<le> 128" by simp
  have v: "124 \<le> v" using m err by (simp add: abs_if split: if_splits)
  let ?s = "if neg then 0x80 else 0 :: u8"
  have enc: "linear_to_ulaw s = NOT (?s OR push_bit 4 (of_nat e) OR of_int (cell e m))"
    by (auto simp: linear_to_ulaw_def Let_def e_def m_def cell_def neg_def)
  have fields: "(?s OR push_bit 4 (of_nat e) OR of_int (cell e m)) AND 0x80 = ?s"
    "unat (drop_bit 4 (?s OR push_bit 4 (of_nat e) OR of_int (cell e m)) AND 0x07) = e"
    "uint ((?s OR push_bit 4 (of_nat e) OR of_int (cell e m)) AND 0x0F) = cell e m"
    using code_fields_of [of ?s e "cell e m"] e(1) c by simp_all
  have dec: "ulaw_to_linear (linear_to_ulaw s) = of_int (if neg then - (v - 132) else v - 132)"
    unfolding enc ulaw_to_linear_def Let_def bit.double_compl fields by (simp add: v_def)
  have "(cell e m * 8 + 132) * 2 ^ e \<le> (252 :: int) * 2 ^ 7"
    using c e(1) by (intro mult_mono power_increasing) simp_all
  then have "v \<le> 32767 + 132" by (simp add: v_def push_bit_eq_mult)
  then have "sint (ulaw_to_linear (linear_to_ulaw s)) = (if neg then - (v - 132) else v - 132)"
    unfolding dec using v by (intro sint_small) auto
  moreover have "\<bar>v - 132 - \<bar>sint s\<bar>\<bar> * 32 \<le> \<bar>sint s\<bar> + 132"
    using err D range unfolding m_def by (simp add: abs_if split: if_splits)
  ultimately show ?thesis by (auto simp: neg_def abs_if split: if_splits)
qed

lemma ulaw_codes_low: "list_all (\<lambda>n. linear_to_ulaw (ulaw_to_linear (of_nat n)) = of_nat n) [0..<127]"
  by code_simp

lemma ulaw_codes_high: "list_all (\<lambda>n. linear_to_ulaw (ulaw_to_linear (of_nat n)) = of_nat n) [128..<256]"
  by code_simp

lemma alaw_codes_low: "list_all (\<lambda>n. linear_to_alaw (alaw_to_linear (of_nat n)) = of_nat n) [0..<128]"
  by code_simp

lemma alaw_codes_high: "list_all (\<lambda>n. linear_to_alaw (alaw_to_linear (of_nat n)) = of_nat n) [128..<256]"
  by code_simp

lemmas g711_codes = ulaw_codes_low ulaw_codes_high alaw_codes_low alaw_codes_high

lemma ulaw_negative_zero: "linear_to_ulaw (ulaw_to_linear 0x7F) = 0xFF"
  by code_simp

text \<open>Every G.711 code is read back from the sample it stands for, so decoding and
  encoding again loses nothing; the one exception is the negative zero of the mu law, which becomes
  the positive one.\<close>

lemma g711_codes_survive:
  "linear_to_ulaw (ulaw_to_linear u) = (if u = 0x7F then 0xFF else u) \<and>
   linear_to_alaw (alaw_to_linear a) = a"
proof -
  have range: "unat c < 256" for c :: u8 using unsigned_less [of c] by simp
  have "linear_to_ulaw (ulaw_to_linear u) = u" if "u \<noteq> 0x7F"
  proof -
    have "unat u \<noteq> 127"
    proof
      assume "unat u = 127"
      then have "of_nat (unat u) = (of_nat 127 :: u8)" by (simp only:)
      with that show False by simp
    qed
    then have "unat u \<in> set [0..<127] \<or> unat u \<in> set [128..<256]"
      using range [of u] unfolding set_upt by auto
    then have "linear_to_ulaw (ulaw_to_linear (of_nat (unat u))) = of_nat (unat u)"
      using g711_codes(1,2) unfolding list_all_iff by blast
    then show ?thesis by simp
  qed
  moreover have "unat a \<in> set [0..<128] \<or> unat a \<in> set [128..<256]"
    using range [of a] unfolding set_upt by auto
  then have "linear_to_alaw (alaw_to_linear (of_nat (unat a))) = of_nat (unat a)"
    using g711_codes(3,4) unfolding list_all_iff by blast
  ultimately show ?thesis using ulaw_negative_zero by simp
qed

section \<open>The backlog of the rings\<close>

text \<open>What the packet side, the card side and the gateway do to the rings of a call.\<close>

datatype ring_op = FromCard "i16 list" | FromNetwork "i16 list" | ToNetwork nat | ToCard nat
  | Tone "i16 list" | ResetLevel

fun ring_step :: "ring_op \<Rightarrow> rings \<Rightarrow> rings" where
  "ring_step (FromCard s) r = push_from_card s r"
| "ring_step (FromNetwork s) r = push_from_network s r"
| "ring_step (ToNetwork n) r = snd (take_for_network n r)"
| "ring_step (ToCard n) r = snd (take_for_card n r)"
| "ring_step (Tone s) r = snd (queue_tone s r)"
| "ring_step ResetLevel r = reset_uplink_level r"

definition rings_ok :: "nat \<Rightarrow> rings \<Rightarrow> bool" where
  "rings_ok target r \<longleftrightarrow> rg_target r = target \<and> rg_high_water r = target * 3 \<and>
     length (rg_to_network r) \<le> target * 3 \<and> length (rg_to_modem r) \<le> target * 3 \<and>
     length (rg_tone r) \<le> max_tone_samples"

lemma ring_trim_length:
  "rg_high_water r = rg_target r * 3 \<Longrightarrow> length (fst (ring_trim r ring)) \<le> rg_target r * 3"
  by (auto simp: ring_trim_def)

lemma rings_ok_new: "rings_ok (rg_target (rings_new j p)) (rings_new j p)"
  by (simp add: rings_ok_def rings_new_def Let_def)

lemma rings_ok_step: "rings_ok t r \<Longrightarrow> rings_ok t (ring_step op r)"
proof (cases op)
  case (FromCard s)
  moreover assume "rings_ok t r"
  ultimately show ?thesis
    using ring_trim_length [of r "rg_to_network r @ s"]
    by (auto simp: rings_ok_def push_from_card_def Let_def split_beta)
next
  case (FromNetwork s)
  moreover assume "rings_ok t r"
  ultimately show ?thesis
    using ring_trim_length [of r "rg_to_modem r @ s"]
    by (auto simp: rings_ok_def push_from_network_def Let_def split_beta)
qed (auto simp: rings_ok_def take_for_network_def take_for_card_def pop_samples_def queue_tone_def
    reset_uplink_level_def Let_def)

text \<open>Over any sequence of operations the two audio rings of a call hold at most three
  times their target and the tone queue at most eight seconds, so the delay a call has picked up is
  bounded however the two clocks drift; a trim leaves exactly the target, the newest samples.\<close>

lemma rings_bounded:
  "rings_ok (rg_target (rings_new j p)) (fold ring_step ops (rings_new j p)) \<and>
   ring_trim r ring = (if length ring \<le> rg_high_water r then (ring, 0)
     else (drop (length ring - rg_target r) ring, 1))"
proof
  have "rings_ok t r \<Longrightarrow> rings_ok t (fold ring_step ops r)" for t r
    by (induction ops arbitrary: r) (simp_all add: rings_ok_step)
  then show "rings_ok (rg_target (rings_new j p)) (fold ring_step ops (rings_new j p))"
    by (simp add: rings_ok_new)
qed (auto simp: ring_trim_def)

section \<open>The early media watch\<close>

text \<open>The level of the window between two readings; \<open>None\<close> if no frame was sent in it.\<close>

definition window_level :: "u32 \<times> u32 \<Rightarrow> u32 \<times> u32 \<Rightarrow> u32 option" where
  "window_level prev now = (let d_energy = saturating_sub (fst now) (fst prev);
     d_frames = saturating_sub (snd now) (snd prev) in
     if d_frames = 0 then None else Some (d_energy div d_frames))"

definition window_levels :: "u32 \<times> u32 \<Rightarrow> (u32 \<times> u32) list \<Rightarrow> u32 list" where
  "window_levels prev readings = List.map_filter (\<lambda>(a, b). window_level a b) (zip (prev # readings) readings)"

fun first_pair :: "bool \<Rightarrow> u32 list \<Rightarrow> u32 option" where
  "first_pair loud [] = None"
| "first_pair loud (l # ls) =
     (if 150 \<le> l then (if loud then Some l else first_pair True ls) else first_pair False ls)"

lemma window_levels_simps:
  "window_levels prev [] = []"
  "window_levels prev (r # rs) = (case window_level prev r of Some l \<Rightarrow> [l] | None \<Rightarrow> []) @ window_levels r rs"
  by (simp_all add: window_levels_def List.map_filter_simps split: option.splits)

lemma watch_first_pair:
  "streak \<in> {0, 1} \<Longrightarrow>
    watch_for_early_media prev streak readings = first_pair (streak = 1) (window_levels prev readings)"
proof (induction prev streak readings rule: watch_for_early_media.induct)
  case (2 le lf streak e f readings)
  have "\<not> (2 :: u8) \<le> 1" by (simp add: word_le_nat_alt)
  with 2 show ?case
    by (auto simp: window_levels_simps window_level_def Let_def)
qed (simp add: window_levels_simps)

text \<open>A ringing call is upgraded to early media at the second of the first two windows in
  a row that are as loud as the threshold, windows without a frame not counting; a single click
  never upgrades it.\<close>

theorem early_media_needs_two_windows:
  "watch_for_early_media start 0 readings = first_pair False (window_levels start readings)"
  by (simp add: watch_first_pair)

end
