(* ===== verification/Sdp.thy ===== *)
theory Sdp
  imports IpText
begin

text \<open>
  The model of \<open>src/sip/sdp.rs\<close>: session descriptions as the gateway offers, reads and answers
  them. The parser is a fold of one step per line over an explicit scanner state, the local
  variables of \<open>Sdp::parse\<close>.
\<close>

section \<open>Codecs and directions\<close>

datatype codec = Pcmu | Pcma

definition payload_type :: "codec \<Rightarrow> u8" where
  "payload_type c = (case c of Pcmu \<Rightarrow> 0 | Pcma \<Rightarrow> 8)"

definition rtpmap :: "codec \<Rightarrow> string" where
  "rtpmap c = (case c of Pcmu \<Rightarrow> ''PCMU/8000'' | Pcma \<Rightarrow> ''PCMA/8000'')"

definition from_payload_type :: "u8 \<Rightarrow> codec option" where
  "from_payload_type pt = (if pt = 0 then Some Pcmu else if pt = 8 then Some Pcma else None)"

datatype direction = SendRecv | SendOnly | RecvOnly | Inactive

definition direction_str :: "direction \<Rightarrow> string" where
  "direction_str d = (case d of SendRecv \<Rightarrow> ''sendrecv'' | SendOnly \<Rightarrow> ''sendonly''
     | RecvOnly \<Rightarrow> ''recvonly'' | Inactive \<Rightarrow> ''inactive'')"

definition reversed :: "direction \<Rightarrow> direction" where
  "reversed d = (case d of SendOnly \<Rightarrow> RecvOnly | RecvOnly \<Rightarrow> SendOnly | same \<Rightarrow> same)"

definition peer_sends :: "direction \<Rightarrow> bool" where
  "peer_sends d \<longleftrightarrow> d = SendRecv \<or> d = SendOnly"

section \<open>Descriptions\<close>

record sdp =
  sdp_origin_user :: string
  sdp_session_id :: u64
  sdp_session_version :: u64
  sdp_address :: ip_addr
  sdp_port :: u16
  sdp_payload_types :: "u8 list"
  sdp_telephone_event :: "u8 option"
  sdp_ptime :: "u32 option"
  sdp_sendrecv :: direction

text \<open>\<open>now\<close> is the clock's time stamp, as the cast to \<open>u64\<close> gives it.\<close>

definition sdp_offer :: "u64 \<Rightarrow> ip_addr \<Rightarrow> u16 \<Rightarrow> u8 option \<Rightarrow> u32 \<Rightarrow> sdp" where
  "sdp_offer now address port te ptime =
     \<lparr>sdp_origin_user = ''modem2sip'', sdp_session_id = now, sdp_session_version = now,
      sdp_address = address, sdp_port = port,
      sdp_payload_types = [payload_type Pcmu, payload_type Pcma],
      sdp_telephone_event = te, sdp_ptime = Some ptime, sdp_sendrecv = SendRecv\<rparr>"

record sdp_scan =
  sc_address :: "ip_addr option"
  sc_media_address :: "ip_addr option"
  sc_port :: u16
  sc_payload_types :: "u8 list"
  sc_telephone_event :: "u8 option"
  sc_ptime :: "u32 option"
  sc_direction :: direction
  sc_in_audio :: bool
  sc_seen_media :: bool

definition scan_start :: sdp_scan where
  "scan_start = \<lparr>sc_address = None, sc_media_address = None, sc_port = 0, sc_payload_types = [],
     sc_telephone_event = None, sc_ptime = None, sc_direction = SendRecv, sc_in_audio = False,
     sc_seen_media = False\<rparr>"

definition sdp_parse_ip :: "string \<Rightarrow> ip_addr option" where
  "sdp_parse_ip s = parse_ip_addr (hd (split_on (CHR ''/'') s))"

definition scan_connection :: "string \<Rightarrow> sdp_scan \<Rightarrow> sdp_scan" where
  "scan_connection v st =
     (let ip = (case split_whitespace v of _ # _ # x # _ \<Rightarrow> sdp_parse_ip x | _ \<Rightarrow> None) in
      if sc_seen_media st then
        (if sc_in_audio st then st\<lparr>sc_media_address := ip\<rparr> else st)
      else st\<lparr>sc_address := ip\<rparr>)"

definition scan_media :: "string \<Rightarrow> sdp_scan \<Rightarrow> sdp_scan" where
  "scan_media v st =
     (let (kind, rest) = (case split_whitespace v of k # r \<Rightarrow> (k, r) | [] \<Rightarrow> ([], []));
          audio = (kind = ''audio'' \<and> sc_payload_types st = []);
          st' = st\<lparr>sc_seen_media := True, sc_in_audio := audio\<rparr> in
      if audio then
        st'\<lparr>sc_port := (case rest of p # _ \<Rightarrow> (case parse_u16 p of Some n \<Rightarrow> n | None \<Rightarrow> 0) | [] \<Rightarrow> 0),
            sc_payload_types := sc_payload_types st' @ List.map_filter parse_u8 (drop 2 rest)\<rparr>
      else st')"

definition scan_attribute :: "string \<Rightarrow> sdp_scan \<Rightarrow> sdp_scan" where
  "scan_attribute v st =
     (let attr = trim v in
      case strip_prefix ''rtpmap:'' attr of
        Some rest \<Rightarrow>
          (case split_whitespace rest of
             pt # enc # _ \<Rightarrow>
               if starts_with ''telephone-event'' (to_ascii_lowercase enc)
               then st\<lparr>sc_telephone_event := parse_u8 pt\<rparr> else st
           | _ \<Rightarrow> st)
      | None \<Rightarrow>
          (case strip_prefix ''ptime:'' attr of
             Some rest \<Rightarrow> st\<lparr>sc_ptime := parse_u32 (trim rest)\<rparr>
           | None \<Rightarrow>
               if eq_ignore_ascii_case attr ''sendonly'' then st\<lparr>sc_direction := SendOnly\<rparr>
               else if eq_ignore_ascii_case attr ''recvonly'' then st\<lparr>sc_direction := RecvOnly\<rparr>
               else if eq_ignore_ascii_case attr ''inactive'' then st\<lparr>sc_direction := Inactive\<rparr>
               else if eq_ignore_ascii_case attr ''sendrecv'' then st\<lparr>sc_direction := SendRecv\<rparr>
               else st))"

definition scan_line :: "string \<Rightarrow> sdp_scan \<Rightarrow> sdp_scan" where
  "scan_line line0 st =
     (case split_once (CHR ''='') (trim_end_matches (\<lambda>c. c = CHR 0x0D) line0) of
        None \<Rightarrow> st
      | Some (key, v) \<Rightarrow>
          if key = ''c'' then scan_connection v st
          else if key = ''m'' then scan_media v st
          else if key = ''a'' \<and> (sc_in_audio st \<or> \<not> sc_seen_media st) then scan_attribute v st
          else st)"

definition scan_result :: "sdp_scan \<Rightarrow> sdp option" where
  "scan_result st =
     (if sc_payload_types st = [] then None
      else Some
        \<lparr>sdp_origin_user = ''-'', sdp_session_id = 0, sdp_session_version = 0,
         sdp_address = (case sc_media_address st of Some a \<Rightarrow> a
            | None \<Rightarrow> (case sc_address st of Some a \<Rightarrow> a | None \<Rightarrow> V4 0)),
         sdp_port = sc_port st, sdp_payload_types = sc_payload_types st,
         sdp_telephone_event = sc_telephone_event st, sdp_ptime = sc_ptime st,
         sdp_sendrecv = sc_direction st\<rparr>)"

definition sdp_parse :: "string \<Rightarrow> sdp option" where
  "sdp_parse t = scan_result (fold scan_line (str_lines t) scan_start)"

definition negotiate :: "sdp \<Rightarrow> codec option" where
  "negotiate s = (case List.map_filter from_payload_type (sdp_payload_types s) of
     [] \<Rightarrow> None | c # _ \<Rightarrow> Some c)"

definition has_media :: "sdp \<Rightarrow> bool" where
  "has_media s \<longleftrightarrow> sdp_port s \<noteq> 0 \<and> \<not> is_unspecified (sdp_address s)"

definition sdp_answer :: "sdp \<Rightarrow> u64 \<Rightarrow> ip_addr \<Rightarrow> u16 \<Rightarrow> codec \<Rightarrow> u8 option \<Rightarrow> u32 \<Rightarrow> sdp" where
  "sdp_answer offer now address port c dtmf_pt ptime =
     \<lparr>sdp_origin_user = ''modem2sip'', sdp_session_id = now, sdp_session_version = now,
      sdp_address = address, sdp_port = port, sdp_payload_types = [payload_type c],
      sdp_telephone_event = (case dtmf_pt of None \<Rightarrow> None | Some _ \<Rightarrow> sdp_telephone_event offer),
      sdp_ptime = Some ptime, sdp_sendrecv = reversed (sdp_sendrecv offer)\<rparr>"

section \<open>Writing\<close>

definition show_word :: "'a::len word \<Rightarrow> string" where
  "show_word w = show_nat (unat w)"

definition option_list :: "'a option \<Rightarrow> 'a list" where
  "option_list x = (case x of Some y \<Rightarrow> [y] | None \<Rightarrow> [])"

definition sdp_lines :: "sdp \<Rightarrow> string list" where
  "sdp_lines s =
     (let ipver = (if is_ipv6 (sdp_address s) then ''IP6'' else ''IP4'');
          addr = show_ip (sdp_address s) in
      [''v=0'',
       ''o='' @ sdp_origin_user s @ '' '' @ show_word (sdp_session_id s) @ '' ''
         @ show_word (sdp_session_version s) @ '' IN '' @ ipver @ '' '' @ addr,
       ''s=modem2sip'',
       ''c=IN '' @ ipver @ '' '' @ addr,
       ''t=0 0'',
       ''m=audio '' @ show_word (sdp_port s) @ '' RTP/AVP ''
         @ join '' '' (map show_word (sdp_payload_types s @ option_list (sdp_telephone_event s)))]
      @ List.map_filter (\<lambda>pt. map_option (\<lambda>c. ''a=rtpmap:'' @ show_word pt @ '' '' @ rtpmap c)
          (from_payload_type pt)) (sdp_payload_types s)
      @ concat (map (\<lambda>te. [''a=rtpmap:'' @ show_word te @ '' telephone-event/8000'',
            ''a=fmtp:'' @ show_word te @ '' 0-16'']) (option_list (sdp_telephone_event s)))
      @ map (\<lambda>p. ''a=ptime:'' @ show_word p) (option_list (sdp_ptime s))
      @ [''a='' @ direction_str (sdp_sendrecv s)])"

definition render :: "sdp \<Rightarrow> string" where
  "render s = concat (map (\<lambda>l. l @ [CHR 0x0D, CHR 0x0A]) (sdp_lines s))"

section \<open>Reading what was written\<close>

lemma vtext_show_word [simp, printable_intros]: "vtext (show_word w)"
  by (simp add: show_word_def)

lemma show_word_nonempty [simp]: "show_word w \<noteq> []"
  by (simp add: show_word_def)

lemma parse_show_word [text_simps]:
  "parse_u8 (show_word b) = Some b" "parse_u16 (show_word p) = Some p" "parse_u32 (show_word n) = Some n"
  by (simp_all add: show_word_def text_simps)

definition wf_sdp :: "sdp \<Rightarrow> bool" where
  "wf_sdp s \<longleftrightarrow> vtext (sdp_origin_user s) \<and> sdp_payload_types s \<noteq> [] \<and>
     vtext (show_ip (sdp_address s)) \<and> show_ip (sdp_address s) \<noteq> [] \<and>
     CHR ''/'' \<notin> set (show_ip (sdp_address s)) \<and>
     parse_ip_addr (show_ip (sdp_address s)) = Some (sdp_address s)"

lemma wf_sdp_V4: "vtext (sdp_origin_user s) \<Longrightarrow> sdp_payload_types s \<noteq> [] \<Longrightarrow>
    sdp_address s = V4 a \<Longrightarrow> wf_sdp s"
  by (auto simp: wf_sdp_def parse_ip_addr_show_ipv4) 
    (auto simp: show_ip_def byte_of_def dest!: show_ipv4_chars)

lemma ptext_show_word [simp]: "ptext (show_word w)"
  by (simp add: vtext_ptext)

lemma ptext_join: "ptext sep \<Longrightarrow> list_all ptext xs \<Longrightarrow> ptext (join sep xs)"
  by (induction xs rule: induct_list012) simp_all

lemma rtpmap_chars [simp]: "vtext (rtpmap c)" "rtpmap c \<noteq> []"
  by (cases c; simp add: rtpmap_def vchar_def byte_of_def)+

lemma direction_str_chars [simp]: "vtext (direction_str d)"
  by (cases d) (simp_all add: direction_str_def vchar_def byte_of_def)

lemma ptext_names [simp]: "ptext (rtpmap c)" "ptext (direction_str d)"
  by (simp_all add: vtext_ptext)

lemma str_lines_concat:
  "list_all ptext ls \<Longrightarrow> str_lines (concat (map (\<lambda>l. l @ [CHR 0x0D, CHR 0x0A]) ls)) = ls"
proof (induction ls)
  case (Cons l ls)
  have "byte_of (CHR 0x0A) = 10" by (simp add: byte_of_def)
  with Cons.prems have "CHR 0x0A \<notin> set l" by (intro ptext_notin [of l]) auto
  with Cons show ?case by (simp add: str_lines_crlf)
qed simp

lemma sdp_lines_ptext: "wf_sdp s \<Longrightarrow> list_all ptext (sdp_lines s)"
proof -
  assume "wf_sdp s"
  then have "ptext (sdp_origin_user s)" "ptext (show_ip (sdp_address s))"
    by (simp_all add: wf_sdp_def vtext_ptext)
  moreover have "list_all ptext (map show_word ws)" for ws :: "u8 list" by (simp add: list_all_iff)
  moreover have "byte_of (CHR '' '') = 32" by (simp add: byte_of_def)
  ultimately show ?thesis
    by (auto simp: sdp_lines_def Let_def List.map_filter_def option_list_def list_all_iff vtext_ptext ptext_join
      byte_of_def split: option.splits)
qed

lemma sdp_parse_render:
  "wf_sdp s \<Longrightarrow> sdp_parse (render s) = scan_result (fold scan_line (sdp_lines s) scan_start)"
  by (simp add: sdp_parse_def render_def str_lines_concat sdp_lines_ptext)

text \<open>One line of printable text.\<close>

lemma scan_line_key:
  assumes "ptext (k # CHR ''='' # v)" and "k \<noteq> CHR ''=''"
  shows "scan_line (k # CHR ''='' # v) st =
    (if k = CHR ''c'' then scan_connection v st
     else if k = CHR ''m'' then scan_media v st
     else if k = CHR ''a'' \<and> (sc_in_audio st \<or> \<not> sc_seen_media st) then scan_attribute v st
     else st)"
proof -
  let ?l = "k # CHR ''='' # v"
  have "byte_of (CHR 0x0D) = 13" by (simp add: byte_of_def)
  then have "CHR 0x0D \<notin> set ?l" using assms(1) by (intro ptext_notin) simp_all
  then have "dropWhile (\<lambda>c. c = CHR 0x0D) (rev ?l) = rev ?l"
    by (subst dropWhile_eq_self_iff) (metis hd_in_set set_rev)
  then have "trim_end_matches (\<lambda>c. c = CHR 0x0D) ?l = ?l" by (simp add: trim_end_matches_def)
  moreover have "split_once (CHR ''='') ?l = Some ([k], v)"
    using split_once_append [of "CHR ''=''" "[k]" v] assms(2) by simp
  ultimately show ?thesis by (simp only: scan_line_def option.case prod.case list.inject simp_thms)
qed

lemma split_whitespace_words:
  "list_all (\<lambda>w. vtext w \<and> w \<noteq> []) ws \<Longrightarrow> split_whitespace (join '' '' ws) = ws"
  by (induction ws rule: induct_list012)
    (simp_all add: split_whitespace_vtext split_whitespace_vtext_Cons)

lemma map_filter_parse_show: "List.map_filter parse_u8 (map show_word ws) = ws"
  by (induction ws) (simp_all add: map_filter_simps parse_show_word)

lemma scan_media_words:
  "scan_media (''audio '' @ show_word p @ '' RTP/AVP '' @ join '' '' (map show_word ws)) st =
    (if sc_payload_types st = []
     then st\<lparr>sc_seen_media := True, sc_in_audio := True, sc_port := p, sc_payload_types := ws\<rparr>
     else st\<lparr>sc_seen_media := True, sc_in_audio := False\<rparr>)"
proof -
  have "split_whitespace (join '' '' (map show_word ws)) = map show_word ws"
    by (intro split_whitespace_words) (simp add: list.pred_map comp_def list.pred_True)
  moreover have "vtext ''audio''" "vtext ''RTP/AVP''" by (simp_all add: vchar_def byte_of_def)
  ultimately have "split_whitespace (''audio'' @ CHR '' '' # show_word p @ CHR '' '' # ''RTP/AVP'' @ CHR '' '' #
      join '' '' (map show_word ws)) = ''audio'' # show_word p # ''RTP/AVP'' # map show_word ws"
    by (simp only: split_whitespace_vtext_Cons vtext_show_word show_word_nonempty list.distinct
        not_False_eq_True)
  then show ?thesis
    by (simp add: scan_media_def parse_show_word map_filter_parse_show)
qed

lemma scan_connection_words:
  assumes "wf_sdp s" and "v = ''IP4'' \<or> v = ''IP6''" and "\<not> sc_seen_media st"
  shows "scan_connection (''IN '' @ v @ '' '' @ show_ip (sdp_address s)) st =
    st\<lparr>sc_address := Some (sdp_address s)\<rparr>"
proof -
  let ?a = "show_ip (sdp_address s)"
  have a: "vtext ?a" "?a \<noteq> []" "CHR ''/'' \<notin> set ?a" "parse_ip_addr ?a = Some (sdp_address s)"
    using assms(1) by (simp_all add: wf_sdp_def)
  have "vtext ''IN''" "vtext v" "v \<noteq> []" using assms(2) by (auto simp: vchar_def byte_of_def)
  with a have "split_whitespace (''IN'' @ CHR '' '' # v @ CHR '' '' # ?a) = [''IN'', v, ?a]"
    by (simp only: split_whitespace_vtext_Cons split_whitespace_vtext list.distinct not_False_eq_True)
  moreover have "split_on (CHR ''/'') ?a = [?a]" using a(3) by (rule split_on_none)
  ultimately show ?thesis
    using assms(3) a(4) by (simp add: scan_connection_def sdp_parse_ip_def)
qed

text \<open>The attribute lines.\<close>

lemma trim_words:
  assumes "vtext a" "a \<noteq> []" "vtext b" "b \<noteq> []"
  shows "trim (a @ s @ b) = a @ s @ b"
proof (rule trim_id, rule disjI2, rule conjI)
  show "vchar (hd (a @ s @ b))" using assms by (cases a) simp_all
  show "vchar (last (a @ s @ b))" using assms by (simp add: list_all_iff)
qed

lemma scan_rtpmap:
  assumes "vtext enc" "enc \<noteq> []"
  shows "scan_attribute (''rtpmap:'' @ show_word pt @ '' '' @ enc) st =
    (if starts_with ''telephone-event'' (to_ascii_lowercase enc)
     then st\<lparr>sc_telephone_event := Some pt\<rparr> else st)"
proof -
  have "vtext ''rtpmap:''" by (simp add: vchar_def byte_of_def)
  then have "trim (''rtpmap:'' @ (show_word pt @ '' '') @ enc) = ''rtpmap:'' @ (show_word pt @ '' '') @ enc"
    using assms by (intro trim_words) simp_all
  then have t: "trim (''rtpmap:'' @ show_word pt @ '' '' @ enc) = ''rtpmap:'' @ show_word pt @ '' '' @ enc"
    by simp
  have "split_whitespace (show_word pt @ CHR '' '' # enc) = [show_word pt, enc]"
    using assms by (simp add: split_whitespace_vtext split_whitespace_vtext_Cons)
  then show ?thesis
    unfolding scan_attribute_def Let_def t strip_prefix_append option.case
    by (simp add: parse_show_word)
qed

lemma scan_codec_rtpmap: "scan_attribute (''rtpmap:'' @ show_word (pt :: u8) @ '' '' @ rtpmap c) st = st"
proof -
  have "\<not> starts_with ''telephone-event'' (to_ascii_lowercase (rtpmap c))" by (cases c; simp only:; code_simp)
  then show ?thesis using scan_rtpmap [OF rtpmap_chars, of pt c st] by (simp only: if_False)
qed

lemma scan_event_rtpmap:
  "scan_attribute (''rtpmap:'' @ show_word te @ '' telephone-event/8000'') st =
    st\<lparr>sc_telephone_event := Some te\<rparr>"
proof -
  have "vtext ''telephone-event/8000''"
    "starts_with ''telephone-event'' (to_ascii_lowercase ''telephone-event/8000'')" by code_simp+
  then show ?thesis using scan_rtpmap [of "''telephone-event/8000''" te st] by simp
qed

lemma scan_other_attribute:
  assumes "CHR '':'' \<in> set attr" "trim attr = attr" "strip_prefix ''rtpmap:'' attr = None"
    "strip_prefix ''ptime:'' attr = None"
  shows "scan_attribute attr st = st"
proof -
  have "\<not> eq_ignore_ascii_case attr w" if "w \<in> {''sendonly'', ''recvonly'', ''inactive'', ''sendrecv''}" for w
  proof
    assume "eq_ignore_ascii_case attr w"
    then have "ascii_lower (CHR '':'') \<in> set (to_ascii_lowercase w)"
      using assms(1) by (metis eq_ignore_ascii_case_def image_eqI list.set_map to_ascii_lowercase_def)
    moreover have "ascii_lower (CHR '':'') \<notin> set (to_ascii_lowercase w)"
      using that by (elim insertE emptyE; simp only:; code_simp)
    ultimately show False by blast
  qed
  then show ?thesis using assms by (simp add: scan_attribute_def)
qed

lemma scan_fmtp: "scan_attribute (''fmtp:'' @ show_word te @ '' 0-16'') st = st"
proof (rule scan_other_attribute)
  have "vtext ''fmtp:''" "vtext ''0-16''" by (simp_all add: vchar_def byte_of_def)
  then have "trim (''fmtp:'' @ (show_word te @ '' '') @ ''0-16'') = ''fmtp:'' @ (show_word te @ '' '') @ ''0-16''"
    by (intro trim_words) simp_all
  then show "trim (''fmtp:'' @ show_word te @ '' 0-16'') = ''fmtp:'' @ show_word te @ '' 0-16''" by simp
qed (simp_all add: strip_prefix_def)

lemma scan_ptime: "scan_attribute (''ptime:'' @ show_word p) st = st\<lparr>sc_ptime := Some p\<rparr>"
proof -
  have "vtext (''ptime:'' @ show_word p)" by (simp add: vchar_def byte_of_def)
  then have "trim (''ptime:'' @ show_word p) = ''ptime:'' @ show_word p" by (rule trim_vtext)
  moreover have "strip_prefix ''rtpmap:'' (''ptime:'' @ show_word p) = None"
    by (simp add: strip_prefix_def)
  ultimately show ?thesis
    unfolding scan_attribute_def Let_def by (simp only: strip_prefix_append option.case trim_vtext vtext_show_word parse_show_word)
qed

lemma scan_direction: "scan_attribute (direction_str d) st = st\<lparr>sc_direction := d\<rparr>"
proof -
  have "strip_prefix ''rtpmap:'' (direction_str d) = None" "strip_prefix ''ptime:'' (direction_str d) = None"
    by (cases d; simp add: direction_str_def strip_prefix_def)+
  moreover have "eq_ignore_ascii_case (direction_str d) ''sendonly'' \<longleftrightarrow> d = SendOnly"
    "eq_ignore_ascii_case (direction_str d) ''recvonly'' \<longleftrightarrow> d = RecvOnly"
    "eq_ignore_ascii_case (direction_str d) ''inactive'' \<longleftrightarrow> d = Inactive"
    "eq_ignore_ascii_case (direction_str d) ''sendrecv'' \<longleftrightarrow> d = SendRecv"
    by (cases d; simp only:; code_simp)+
  ultimately show ?thesis
    by (cases d) (simp_all add: scan_attribute_def trim_vtext Let_def)
qed

section \<open>The scan of a written description\<close>

text \<open>The scanner state after the session part and the media line.\<close>

definition scan_media_part :: "sdp \<Rightarrow> sdp_scan" where
  "scan_media_part s = scan_start\<lparr>sc_address := Some (sdp_address s), sc_port := sdp_port s,
     sc_payload_types := sdp_payload_types s @ option_list (sdp_telephone_event s),
     sc_in_audio := True, sc_seen_media := True\<rparr>"

lemma fold_map_filter_same:
  "(\<And>x y. f x = Some y \<Longrightarrow> g y st = st) \<Longrightarrow> fold g (List.map_filter f xs) st = st"
  by (induction xs) (auto simp: map_filter_simps split: option.splits)

lemma ptext_attribute:
  "ptext (CHR ''a'' # CHR ''='' # v) \<longleftrightarrow> ptext v"
  by (simp add: byte_of_def)

lemma scan_line_attribute:
  "ptext v \<Longrightarrow> sc_in_audio st \<Longrightarrow> scan_line (CHR ''a'' # CHR ''='' # v) st = scan_attribute v st"
  by (subst scan_line_key) (simp_all add: byte_of_def)

lemma scan_session_lines:
  assumes "wf_sdp s"
  shows "fold scan_line (take 6 (sdp_lines s)) scan_start = scan_media_part s"
proof -
  define ip where "ip = (if is_ipv6 (sdp_address s) then ''IP6'' else ''IP4'')"
  then have v: "ip = ''IP4'' \<or> ip = ''IP6''" by simp
  have p: "ptext (sdp_origin_user s)" "ptext (show_ip (sdp_address s))" "ptext ip"
    using assms v by (auto simp add: wf_sdp_def vtext_ptext byte_of_def)
  have w: "ptext (join '' '' (map show_word ws))" for ws :: "u8 list"
    by (intro ptext_join) (simp_all add: byte_of_def list.pred_map comp_def list.pred_True)
  have c: "scan_connection (''IN '' @ ip @ '' '' @ show_ip (sdp_address s)) st =
      st\<lparr>sc_address := Some (sdp_address s)\<rparr>" if "\<not> sc_seen_media st" for st
    using that v by (intro scan_connection_words [OF assms])
  have six: "take 6 (sdp_lines s) =
      [CHR ''v'' # CHR ''='' # ''0'',
       CHR ''o'' # CHR ''='' # sdp_origin_user s @ '' '' @ show_word (sdp_session_id s) @ '' ''
         @ show_word (sdp_session_version s) @ '' IN '' @ ip @ '' '' @ show_ip (sdp_address s),
       CHR ''s'' # CHR ''='' # ''modem2sip'',
       CHR ''c'' # CHR ''='' # ''IN '' @ ip @ '' '' @ show_ip (sdp_address s),
       CHR ''t'' # CHR ''='' # ''0 0'',
       CHR ''m'' # CHR ''='' # ''audio '' @ show_word (sdp_port s) @ '' RTP/AVP ''
         @ join '' '' (map show_word (sdp_payload_types s @ option_list (sdp_telephone_event s)))]"
    by (simp add: sdp_lines_def Let_def ip_def)
  have skip: "scan_line (k # CHR ''='' # v) st = st"
    if "ptext (k # CHR ''='' # v)" "k \<in> {CHR ''v'', CHR ''o'', CHR ''s'', CHR ''t''}" for k v st
    using that by (subst scan_line_key) auto
  have "fold scan_line (take 6 (sdp_lines s)) scan_start =
      scan_media (''audio '' @ show_word (sdp_port s) @ '' RTP/AVP ''
         @ join '' '' (map show_word (sdp_payload_types s @ option_list (sdp_telephone_event s))))
       (scan_connection (''IN '' @ ip @ '' '' @ show_ip (sdp_address s)) scan_start)"
    unfolding six fold.simps comp_def id_def
    using p w [of "sdp_payload_types s @ option_list (sdp_telephone_event s)"]
    by (subst (1 2 3 4 5 6) scan_line_key) (simp_all add: byte_of_def)
  also have "\<dots> = scan_media_part s"
  proof -
    have ns: "\<not> sc_seen_media scan_start" "sc_payload_types scan_start = []"
      by (simp_all add: scan_start_def)
    show ?thesis
      unfolding c [OF ns(1)] scan_media_words using ns(2) by (simp add: scan_media_part_def)
  qed
  finally show ?thesis .
qed

lemma scan_attribute_lines:
  assumes "wf_sdp s" and "sc_in_audio st"
  shows "fold scan_line (drop 6 (sdp_lines s)) st =
    st\<lparr>sc_telephone_event := (case sdp_telephone_event s of Some te \<Rightarrow> Some te | None \<Rightarrow> sc_telephone_event st),
       sc_ptime := (case sdp_ptime s of Some p \<Rightarrow> Some p | None \<Rightarrow> sc_ptime st),
       sc_direction := sdp_sendrecv s\<rparr>"
proof -
  have codecs: "fold scan_line (List.map_filter (\<lambda>pt. map_option (\<lambda>c. ''a=rtpmap:'' @ show_word pt @ '' '' @ rtpmap c)
          (from_payload_type pt)) pts) st = st" for pts
  proof (rule fold_map_filter_same)
    fix pt y
    assume "map_option (\<lambda>c. ''a=rtpmap:'' @ show_word pt @ '' '' @ rtpmap c) (from_payload_type pt) = Some y"
    then obtain c where "y = CHR ''a'' # CHR ''='' # (''rtpmap:'' @ show_word pt @ '' '' @ rtpmap c)" by auto
    moreover have "ptext (''rtpmap:'' @ show_word pt @ '' '' @ rtpmap c)" by (simp add: byte_of_def)
    ultimately show "scan_line y st = st" using assms(2) by (simp only: scan_line_attribute scan_codec_rtpmap)
  qed
  have te: "scan_line (CHR ''a'' # CHR ''='' # ''rtpmap:'' @ show_word te @ '' telephone-event/8000'') st =
      st\<lparr>sc_telephone_event := Some te\<rparr>" if "sc_in_audio st" for st te
    using that by (subst scan_line_attribute) (simp_all only: scan_event_rtpmap, simp_all add: byte_of_def)
  have fmtp: "scan_line (CHR ''a'' # CHR ''='' # ''fmtp:'' @ show_word te @ '' 0-16'') st = st"
    if "sc_in_audio st" for st te
    using that by (subst scan_line_attribute) (simp_all only: scan_fmtp, simp_all add: byte_of_def)
  have ptime: "scan_line (CHR ''a'' # CHR ''='' # ''ptime:'' @ show_word p) st = st\<lparr>sc_ptime := Some p\<rparr>"
    if "sc_in_audio st" for st p
    using that by (subst scan_line_attribute) (simp_all only: scan_ptime, simp_all add: byte_of_def)
  have dir: "scan_line (CHR ''a'' # CHR ''='' # direction_str d) st = st\<lparr>sc_direction := d\<rparr>"
    if "sc_in_audio st" for st d
    using that by (subst scan_line_attribute) (simp_all add: scan_direction)
  have tail: "drop 6 (sdp_lines s) = List.map_filter (\<lambda>pt. map_option (\<lambda>c. ''a=rtpmap:'' @ show_word pt @ '' '' @ rtpmap c)
          (from_payload_type pt)) (sdp_payload_types s)
      @ concat (map (\<lambda>te. [CHR ''a'' # CHR ''='' # ''rtpmap:'' @ show_word te @ '' telephone-event/8000'',
            CHR ''a'' # CHR ''='' # ''fmtp:'' @ show_word te @ '' 0-16'']) (option_list (sdp_telephone_event s)))
      @ map (\<lambda>p. CHR ''a'' # CHR ''='' # ''ptime:'' @ show_word p) (option_list (sdp_ptime s))
      @ [CHR ''a'' # CHR ''='' # direction_str (sdp_sendrecv s)]"
    by (simp add: sdp_lines_def Let_def)
  note steps = te [simplified] fmtp [simplified] ptime [simplified] dir
  show ?thesis
    unfolding tail fold_append comp_def codecs
    by (cases "sdp_telephone_event s"; cases "sdp_ptime s") (simp_all add: option_list_def steps assms(2))
qed

section \<open>Properties\<close>

lemma sdp_round_trip_aux:
  assumes "wf_sdp s"
  shows "sdp_parse (render s) = Some (s\<lparr>sdp_origin_user := ''-'', sdp_session_id := 0,
    sdp_session_version := 0,
    sdp_payload_types := sdp_payload_types s @ option_list (sdp_telephone_event s)\<rparr>)"
proof -
  have "fold scan_line (sdp_lines s) scan_start =
      fold scan_line (drop 6 (sdp_lines s)) (fold scan_line (take 6 (sdp_lines s)) scan_start)"
    by (simp only: fold_append [symmetric, unfolded comp_def] append_take_drop_id flip: fold_append [THEN fun_cong, unfolded comp_def])
  also have "\<dots> = (scan_media_part s)\<lparr>sc_telephone_event := sdp_telephone_event s,
      sc_ptime := sdp_ptime s, sc_direction := sdp_sendrecv s\<rparr>"
    unfolding scan_session_lines [OF assms]
    by (subst scan_attribute_lines [OF assms])
      (auto simp: scan_media_part_def scan_start_def split: option.splits)
  finally show ?thesis
    using assms
    by (simp add: sdp_parse_render scan_result_def scan_media_part_def scan_start_def wf_sdp_def)
qed

text \<open>A description the gateway writes is read back: address, port, payload types
  (followed by the telephone-event type, which the media line lists too), the telephone-event type
  itself, packet time and direction. The origin fields are not kept by the parser.\<close>

lemma sdp_round_trip:
  assumes "wf_sdp s"
  shows "sdp_parse (render s) = Some (s\<lparr>sdp_origin_user := ''-'', sdp_session_id := 0,
    sdp_session_version := 0,
    sdp_payload_types := sdp_payload_types s @ option_list (sdp_telephone_event s)\<rparr>)"
  using assms by (rule sdp_round_trip_aux)

lemma sdp_round_trip_witness:
  "sdp_parse (render (sdp_offer 1700000000 (V4 0x0A000001) 40000 (Some 101) 20)) =
    Some \<lparr>sdp_origin_user = ''-'', sdp_session_id = 0, sdp_session_version = 0,
      sdp_address = V4 0x0A000001, sdp_port = 40000, sdp_payload_types = [0, 8, 101],
      sdp_telephone_event = Some 101, sdp_ptime = Some 20, sdp_sendrecv = SendRecv\<rparr>"
proof -
  have "wf_sdp (sdp_offer 1700000000 (V4 0x0A000001) 40000 (Some 101) 20)"
    by (rule wf_sdp_V4) (simp_all add: sdp_offer_def vchar_def byte_of_def)
  from sdp_round_trip [OF this] show ?thesis
    by (simp add: sdp_offer_def payload_type_def option_list_def)
qed

text \<open>The peer reads from an answer exactly what was negotiated: the codec it offered and
  the gateway chose, its own telephone-event number (and none if it offered none or the gateway has
  DTMF off), and the opposite direction to its own; and every payload type on the answer's media
  line was named in the offer, in its media line or by its telephone-event attribute.\<close>

lemma answer_read_by_peer:
  assumes "negotiate offer = Some c"
  shows "\<exists>a. sdp_parse (render (sdp_answer offer now (V4 ip) port c dtmf ptime)) = Some a \<and>
    negotiate a = Some c \<and> sdp_address a = V4 ip \<and> sdp_port a = port \<and>
    sdp_telephone_event a = (if dtmf = None then None else sdp_telephone_event offer) \<and>
    sdp_sendrecv a = reversed (sdp_sendrecv offer) \<and>
    set (sdp_payload_types a) \<subseteq>
      set (sdp_payload_types offer) \<union> set (option_list (sdp_telephone_event offer))"
proof -
  let ?s = "sdp_answer offer now (V4 ip) port c dtmf ptime"
  have wf: "wf_sdp ?s" by (rule wf_sdp_V4) (simp_all add: sdp_answer_def vchar_def byte_of_def)
  have "payload_type c \<in> set (sdp_payload_types offer)"
  proof -
    have "c \<in> set (List.map_filter from_payload_type (sdp_payload_types offer))"
      using assms by (auto simp: negotiate_def split: list.splits)
    then obtain pt where "pt \<in> set (sdp_payload_types offer)" "from_payload_type pt = Some c"
      by (auto simp: List.map_filter_def)
    moreover have "payload_type c = pt"
      using calculation(2) by (auto simp: from_payload_type_def payload_type_def split: if_splits)
    ultimately show ?thesis by simp
  qed
  moreover have "from_payload_type (payload_type c) = Some c"
    by (cases c) (simp_all add: from_payload_type_def payload_type_def)
  ultimately show ?thesis
    unfolding sdp_round_trip_aux [OF wf]
    by (auto simp: sdp_answer_def negotiate_def map_filter_simps option_list_def split: option.splits)
qed

theorem answer_read_by_peer_witness:
  "\<exists>a. sdp_parse (render (sdp_answer (sdp_offer 1 (V4 0x0A000005) 40000 (Some 96) 20) 2
      (V4 0x0A000001) 16000 Pcmu (Some 101) 20)) = Some a \<and> sdp_telephone_event a = Some 96"
proof -
  have "negotiate (sdp_offer 1 (V4 0x0A000005) 40000 (Some 96) 20) = Some Pcmu"
    by (simp add: negotiate_def sdp_offer_def payload_type_def from_payload_type_def map_filter_simps)
  from answer_read_by_peer [OF this, of 2 "0x0A000001" 16000 "Some 101" 20] show ?thesis
    by (auto simp: sdp_offer_def)
qed

end
