(* ===== verification/Media.thy ===== *)
theory Media
  imports Audio Sdp KeyValue
begin

text \<open>
  The model of \<open>src/media.rs\<close>: the media session of one call. The two tasks of a session are one
  step function each, \<open>rtp_send\<close> for a tick of the sender and \<open>rtp_receive\<close> for a datagram; the
  locals of their loops are fields of the session, and what they put on the wire and report is
  appended to it. A slice or an index that is out of range would panic in Rust: the reader yields
  \<open>Panic\<close> there, and it is shown that it never does. The tone generator and the tone detector of
  \<open>src/audio/codec.rs\<close> compute in \<open>f32\<close> and are arguments.
\<close>

unbundle bit_operations_syntax

section \<open>Ports\<close>

datatype bind_outcome = Bound | AddrInUse | BindRefused

datatype bind_error = NoPortPair | CannotBind | AllInUse

fun bind_walk :: "(u16 \<Rightarrow> bind_outcome) \<Rightarrow> u16 \<Rightarrow> u16 \<Rightarrow> nat \<Rightarrow> u16 \<Rightarrow> bind_error + u16" where
  "bind_walk bind lo hi 0 port = Inl AllInUse"
| "bind_walk bind lo hi (Suc slots) port =
     (case bind port of
        Bound \<Rightarrow> Inr port
      | BindRefused \<Rightarrow> Inl CannotBind
      | AddrInUse \<Rightarrow> bind_walk bind lo hi slots (if hi \<le> port then lo else port + 2))"

text \<open>\<open>start\<close> is the random slot \<open>gen_range(0..slots)\<close> picks, here reduced to the range.\<close>

definition bind_port :: "(u16 \<Rightarrow> bind_outcome) \<Rightarrow> nat \<Rightarrow> u16 \<Rightarrow> u16 \<Rightarrow> bind_error + u16" where
  "bind_port bind start min_port max_port =
     (let lo = (if min_port = 0xFFFF then 0xFFFF else min_port + 1) AND NOT 1 in
      if max_port = 0 \<or> max_port - 1 < lo then Inl NoPortPair
      else (let hi = (max_port - 1) AND NOT 1;
                slots = unat ((hi - lo) div 2) + 1
            in bind_walk bind lo hi slots (lo + 2 * of_nat (start mod slots))))"

section \<open>The session\<close>

record media_config =
  mc_codec :: codec
  mc_dtmf_pt :: "u8 option"
  mc_ptime_ms :: u32
  mc_jitter_ms :: u32
  mc_symmetric :: bool
  mc_detect_inband :: bool

record session =
  ss_cfg :: media_config
  ss_remote :: socket_addr
  ss_signalled :: socket_addr
  ss_latched :: bool
  ss_started :: instant
  ss_last_rtp_ms :: u32
  ss_rings :: rings
  ss_last_dtmf_ts :: "u32 option"
  ss_digits :: string
  ss_seq :: u16
  ss_timestamp :: u32
  ss_ssrc :: u32
  ss_marker :: bool
  ss_candidate :: "char option"
  ss_streak :: u8
  ss_reported :: "char option"
  ss_gap :: u8
  ss_guard :: u8
  ss_inband :: string
  ss_packets :: "(u8 list \<times> socket_addr) list"

definition law_of :: "codec \<Rightarrow> law" where
  "law_of c = (case c of Pcmu \<Rightarrow> Ulaw | Pcma \<Rightarrow> Alaw)"

text \<open>\<open>MediaSession::start\<close> at the instant \<open>now\<close>; the random start of the stream is an argument.\<close>

definition session_start :: "media_config \<Rightarrow> socket_addr \<Rightarrow> rings \<Rightarrow> instant \<Rightarrow> u16 \<Rightarrow> u32 \<Rightarrow> u32 \<Rightarrow> session" where
  "session_start cfg remote rings0 now seq ts ssrc =
     (let prefill = rtp_rate * unat (mc_jitter_ms cfg) div 1000 in
      \<lparr>ss_cfg = cfg, ss_remote = remote, ss_signalled = remote, ss_latched = False, ss_started = now,
       ss_last_rtp_ms = 0,
       ss_rings = (if 0 < prefill then push_from_network (replicate prefill 0) rings0 else rings0),
       ss_last_dtmf_ts = None, ss_digits = [], ss_seq = seq, ss_timestamp = ts, ss_ssrc = ssrc,
       ss_marker = True, ss_candidate = None, ss_streak = 0, ss_reported = None, ss_gap = 0,
       ss_guard = 0, ss_inband = [], ss_packets = []\<rparr>)"

definition elapsed_ms :: "session \<Rightarrow> instant \<Rightarrow> u32" where
  "elapsed_ms ss now = of_nat (min ((now - ss_started ss) div millis 1) (2 ^ 32 - 1))"

definition stamp :: "instant \<Rightarrow> session \<Rightarrow> session" where
  "stamp now ss = ss\<lparr>ss_last_rtp_ms := elapsed_ms ss now\<rparr>"

definition silence :: "session \<Rightarrow> instant \<Rightarrow> nat" where
  "silence ss now = millis (unat (saturating_sub (elapsed_ms ss now) (ss_last_rtp_ms ss)))"

definition set_remote :: "socket_addr \<Rightarrow> session \<Rightarrow> session" where
  "set_remote addr ss = ss\<lparr>
     ss_latched := (ss_latched ss \<and> sa_ip (ss_signalled ss) = sa_ip addr),
     ss_signalled := addr, ss_remote := addr\<rparr>"

fun queue_digits :: "(char \<Rightarrow> i16 list option) \<Rightarrow> i16 list \<Rightarrow> string \<Rightarrow> rings \<times> nat \<Rightarrow> rings \<times> nat" where
  "queue_digits tone_of gap [] acc = acc"
| "queue_digits tone_of gap (d # ds) (r, queued) =
     (case tone_of d of
        None \<Rightarrow> queue_digits tone_of gap ds (r, queued)
      | Some tone \<Rightarrow>
          (let (fits, r1) = queue_tone tone r in
           if \<not> fits then (r, queued)
           else queue_digits tone_of gap ds (snd (queue_tone gap r1), queued + 1)))"

definition send_dtmf_inband :: "(char \<Rightarrow> u32 \<Rightarrow> i16 list option) \<Rightarrow> string \<Rightarrow> u32 \<Rightarrow> u32 \<Rightarrow> session \<Rightarrow> nat \<times> session" where
  "send_dtmf_inband samples digits tone_ms gap_ms ss =
     (let gap = replicate (rtp_rate * unat gap_ms div 1000) 0;
          (r, queued) = queue_digits (\<lambda>d. samples d tone_ms) gap
            (filter (\<lambda>c. \<not> ws1 c) digits) (ss_rings ss, 0)
      in (queued, ss\<lparr>ss_rings := r\<rparr>))"

section \<open>The sender\<close>

definition be16 :: "u16 \<Rightarrow> u8 list" where
  "be16 w = [ucast (drop_bit 8 w), ucast w]"

definition be32 :: "u32 \<Rightarrow> u8 list" where
  "be32 w = [ucast (drop_bit 24 w), ucast (drop_bit 16 w), ucast (drop_bit 8 w), ucast w]"

definition from_be32 :: "u8 \<Rightarrow> u8 \<Rightarrow> u8 \<Rightarrow> u8 \<Rightarrow> u32" where
  "from_be32 a b c d = push_bit 24 (ucast a) OR push_bit 16 (ucast b) OR push_bit 8 (ucast c) OR ucast d"

definition rtp_packet :: "session \<Rightarrow> u8 list \<Rightarrow> u8 list" where
  "rtp_packet ss payload =
     (let pt = payload_type (mc_codec (ss_cfg ss)) in
      [0x80, if ss_marker ss then 0x80 OR pt else pt] @ be16 (ss_seq ss) @ be32 (ss_timestamp ss)
        @ be32 (ss_ssrc ss) @ payload)"

text \<open>One look of the detector at a frame: a digit is reported after three frames with it, once, and
  again only after two frames without any.\<close>

definition hear_digit :: "char option \<Rightarrow> session \<Rightarrow> session" where
  "hear_digit hit ss =
     (case hit of
        Some d \<Rightarrow>
          (let streak = (if ss_candidate ss = Some d then saturating_add (ss_streak ss) 1 else 1);
               report = 3 \<le> streak \<and> ss_reported ss \<noteq> Some d
           in ss\<lparr>ss_gap := 0, ss_candidate := Some d, ss_streak := streak,
                 ss_reported := (if report then Some d else ss_reported ss),
                 ss_inband := ss_inband ss @ (if report then [d] else [])\<rparr>)
      | None \<Rightarrow>
          (let gap = saturating_add (ss_gap ss) 1 in
           if 2 \<le> gap
           then ss\<lparr>ss_gap := gap, ss_candidate := None, ss_streak := 0, ss_reported := None\<rparr>
           else ss\<lparr>ss_gap := gap\<rparr>))"

definition rtp_send :: "(i16 list \<Rightarrow> char option) \<Rightarrow> session \<Rightarrow> session" where
  "rtp_send detect ss =
     (let n = rtp_rate * unat (mc_ptime_ms (ss_cfg ss)) div 1000;
          (pcm, r) = take_for_network n (ss_rings ss);
          g = (if tone_pending r then 25 else saturating_sub (ss_guard ss) 1);
          ss1 = ss\<lparr>ss_rings := r, ss_guard := g\<rparr>;
          ss2 = (if mc_detect_inband (ss_cfg ss) \<and> g = 0 then hear_digit (detect pcm) ss1 else ss1);
          packet = rtp_packet ss2 (encode_audio (law_of (mc_codec (ss_cfg ss))) pcm);
          dest = ss_remote ss2
      in ss2\<lparr>ss_marker := False, ss_seq := ss_seq ss2 + 1, ss_timestamp := ss_timestamp ss2 + of_nat n,
           ss_packets := ss_packets ss2
             @ (if sa_port dest \<noteq> 0 \<and> \<not> is_unspecified (sa_ip dest) then [(packet, dest)] else [])\<rparr>)"

section \<open>The receiver\<close>

datatype 'a outcome = Panic | Skip | Val 'a

definition and_then :: "'a outcome \<Rightarrow> ('a \<Rightarrow> 'b outcome) \<Rightarrow> 'b outcome" where
  "and_then m f = (case m of Panic \<Rightarrow> Panic | Skip \<Rightarrow> Skip | Val x \<Rightarrow> f x)"

definition index :: "u8 list \<Rightarrow> nat \<Rightarrow> u8 outcome" where
  "index buf i = (if i < length buf then Val (buf ! i) else Panic)"

definition slice :: "u8 list \<Rightarrow> nat \<Rightarrow> nat \<Rightarrow> u8 list outcome" where
  "slice buf a b = (if a \<le> b \<and> b \<le> length buf then Val (take (b - a) (drop a buf)) else Panic)"

text \<open>Where the payload of an RTP packet starts and ends, in a buffer of which the first \<open>len\<close>
  bytes are the packet.\<close>

definition rtp_offset :: "u8 list \<Rightarrow> nat \<Rightarrow> u8 \<Rightarrow> nat outcome" where
  "rtp_offset buf len h0 =
     (let base = 12 + 4 * unat (h0 AND 0x0F) in
      if h0 AND 0x10 = 0 then Val base
      else if len < base + 4 then Skip
      else and_then (index buf (base + 2)) (\<lambda>a. and_then (index buf (base + 3)) (\<lambda>b.
        Val (base + 4 + 4 * (unat a * 256 + unat b)))))"

definition rtp_end :: "u8 list \<Rightarrow> nat \<Rightarrow> u8 \<Rightarrow> nat \<Rightarrow> nat outcome" where
  "rtp_end buf len h0 offset =
     (if h0 AND 0x20 = 0 then Val len
      else and_then (index buf (len - 1)) (\<lambda>p.
        if p = 0 \<or> len - offset < unat p then Skip else Val (len - unat p)))"

definition rtp_payload :: "u8 list \<Rightarrow> nat \<Rightarrow> u8 \<Rightarrow> u8 list outcome" where
  "rtp_payload buf len h0 =
     and_then (rtp_offset buf len h0) (\<lambda>offset.
       if len \<le> offset then Skip
       else and_then (rtp_end buf len h0 offset) (\<lambda>fin. slice buf offset fin))"

definition dtmf_char :: "u8 \<Rightarrow> char option" where
  "dtmf_char event =
     (if event \<le> 9 then Some (char_of (48 + unat event))
      else if event = 10 then Some (CHR ''*'')
      else if event = 11 then Some (CHR ''#'')
      else if event \<le> 15 then Some (char_of (65 + (unat event - 12)))
      else None)"

definition latch :: "socket_addr \<Rightarrow> session \<Rightarrow> session" where
  "latch src ss =
     (if mc_symmetric (ss_cfg ss) \<and> \<not> ss_latched ss
      then ss\<lparr>ss_remote := (if src \<noteq> ss_signalled ss then src else ss_remote ss), ss_latched := True\<rparr>
      else ss)"

definition rtp_media :: "u8 \<Rightarrow> u32 \<Rightarrow> u8 list \<Rightarrow> session \<Rightarrow> session" where
  "rtp_media pt ts payload ss =
     (if Some pt = mc_dtmf_pt (ss_cfg ss) then
        (case payload of
           event # _ # _ # _ # _ \<Rightarrow>
             if ss_last_dtmf_ts ss \<noteq> Some ts
             then ss\<lparr>ss_last_dtmf_ts := Some ts,
                     ss_digits := ss_digits ss @ option_list (dtmf_char event)\<rparr>
             else ss
         | _ \<Rightarrow> ss)
      else if pt \<noteq> payload_type (mc_codec (ss_cfg ss)) then ss
      else ss\<lparr>ss_rings := push_from_network
        (decode_audio (law_of (mc_codec (ss_cfg ss))) payload) (ss_rings ss)\<rparr>)"

text \<open>One datagram: \<open>buf\<close> is the receive buffer, \<open>len\<close> how much of it was filled. \<open>Skip\<close> is a
  \<open>continue\<close> that leaves the session as it was.\<close>

definition rtp_expected :: "session \<Rightarrow> socket_addr \<Rightarrow> bool" where
  "rtp_expected ss src \<longleftrightarrow> is_unspecified (sa_ip (ss_signalled ss)) \<or> sa_ip src = sa_ip (ss_signalled ss)"

definition rtp_receive :: "session \<Rightarrow> instant \<Rightarrow> u8 list \<Rightarrow> nat \<Rightarrow> socket_addr \<Rightarrow> session outcome" where
  "rtp_receive ss now buf len src =
     (if \<not> rtp_expected ss src \<or> len < 12 then Skip
      else and_then (slice buf 0 12) (\<lambda>header.
        if drop_bit 6 (header ! 0) \<noteq> 2 then Skip
        else (let ss1 = latch src (stamp now ss);
                  pt = header ! 1 AND 0x7F;
                  ts = from_be32 (header ! 4) (header ! 5) (header ! 6) (header ! 7)
              in (case rtp_payload buf len (header ! 0) of
                    Panic \<Rightarrow> Panic | Skip \<Rightarrow> Val ss1 | Val payload \<Rightarrow> Val (rtp_media pt ts payload ss1)))))"

section \<open>Ports\<close>

text \<open>An even port whose odd partner is in the range too.\<close>

definition rtp_port :: "u16 \<Rightarrow> u16 \<Rightarrow> u16 \<Rightarrow> bool" where
  "rtp_port min_port max_port p \<longleftrightarrow> even (unat p) \<and> min_port \<le> p \<and> p < max_port"

lemma unat_u16: "unat (w :: u16) < 65536"
proof -
  have "unat w < 2 ^ LENGTH(16)" by (rule unsigned_less)
  then show ?thesis by simp
qed

lemma mod_le_pred: "0 < n \<Longrightarrow> j mod n \<le> n - (1 :: nat)"
  using mod_less_divisor [of n j] by linarith

lemma unat_port: "unat lo + 2 * j < 65536 \<Longrightarrow> unat (lo + 2 * of_nat j :: u16) = unat lo + 2 * j"
  by (simp add: unat_word_ariths unat_of_nat)

lemma unat_even_part: "unat (w AND NOT 1 :: u16) = 2 * (unat w div 2)"
proof -
  have "w AND NOT 1 = 2 * (w div 2)"
    using unset_bit_0 [of w] by (simp add: unset_bit_eq_and_not)
  then have "unat (w AND NOT 1) = (2 * (unat w div 2)) mod 2 ^ 16"
    by (simp add: unat_word_ariths unat_div mod_mult_right_eq)
  also have "\<dots> = 2 * (unat w div 2)"
    using unat_u16 [of w] by (intro mod_less) simp
  finally show ?thesis .
qed

lemma bind_walk_result:
  fixes lo hi :: u16
  assumes "0 < n" and "lo + 2 * (of_nat (n - 1)) = hi" and "unat lo + 2 * (n - 1) < 65536" and "i < n"
  defines "P \<equiv> \<lambda>j. (lo + 2 * of_nat (j mod n) :: u16)"
  shows "case bind_walk bind lo hi k (P i) of
      Inr p \<Rightarrow> \<exists>j<k. p = P (i + j) \<and> bind p = Bound
    | Inl CannotBind \<Rightarrow> \<exists>j<k. bind (P (i + j)) = BindRefused
    | Inl AllInUse \<Rightarrow> \<forall>j<k. bind (P (i + j)) = AddrInUse
    | Inl NoPortPair \<Rightarrow> False"
  using assms(4)
proof (induction k arbitrary: i)
  case 0
  then show ?case by simp
next
  case (Suc k)
  have unat_P: "unat (lo + 2 * of_nat j :: u16) = unat lo + 2 * j" if "j < n" for j
    using assms(3) that by (intro unat_port) simp
  define i' where "i' = (if i = n - 1 then 0 else i + 1)"
  have i': "i' < n" "i' mod n = (i + 1) mod n" using Suc.prems assms(1) by (auto simp: i'_def)
  have next_port: "(if hi \<le> P i then lo else P i + 2) = P i'"
  proof (cases "i = n - 1")
    case True
    then show ?thesis using assms(1,2) by (simp add: P_def i'_def)
  next
    case False
    then have "unat (P i) < unat hi" using unat_P [of i] unat_P [of "n - 1"] Suc.prems assms(1,2) by (simp add: P_def)
    then show ?thesis using False Suc.prems by (simp add: P_def i'_def word_le_nat_alt algebra_simps)
  qed
  have shift: "P (i' + j) = P (i + Suc j)" for j
    unfolding P_def using i'(2) by (metis add_Suc_right add_Suc plus_1_eq_Suc add.commute mod_add_left_eq)
  show ?case
  proof (cases "bind (P i)")
    case Bound
    then show ?thesis by (auto intro!: exI [of _ "0 :: nat"])
  next
    case AddrInUse
    then have "bind_walk bind lo hi (Suc k) (P i) = bind_walk bind lo hi k (P i')"
      by (simp only: bind_walk.simps bind_outcome.case next_port)
    with Suc.IH [OF i'(1)] AddrInUse show ?thesis
      by (simp add: shift Ex_less_Suc2 All_less_Suc2 split: sum.splits bind_error.splits)
  next
    case BindRefused
    then show ?thesis by (auto intro!: exI [of _ "0 :: nat"])
  qed
qed

lemma residues:
  fixes n :: nat
  assumes "0 < n" shows "(\<exists>i<n. Q i) \<longleftrightarrow> (\<exists>j<n. Q ((s + j) mod n))"
proof
  assume "\<exists>i<n. Q i"
  then obtain i where i: "i < n" "Q i" by blast
  have "s mod n + (i + (n - s mod n)) = i + n" using mod_less_divisor [OF assms, of s] by linarith
  then have "(s mod n + (i + (n - s mod n)) mod n) mod n = i" using i(1) by (simp only: mod_add_right_eq) simp
  then have "(s + (i + (n - s mod n)) mod n) mod n = i" by (metis mod_add_left_eq)
  moreover have "(i + (n - s mod n)) mod n < n" using assms by (rule mod_less_divisor)
  ultimately show "\<exists>j<n. Q ((s + j) mod n)" using i(2) by metis
next
  assume "\<exists>j<n. Q ((s + j) mod n)"
  then show "\<exists>i<n. Q i" using mod_less_divisor [OF assms] by blast
qed

text \<open>The first and the last candidate, and their number.\<close>

lemma port_range:
  assumes "min_port < max_port"
  defines "lo \<equiv> (min_port + 1) AND NOT 1 :: u16" and "hi \<equiv> (max_port - 1) AND NOT 1 :: u16"
  defines "n \<equiv> unat ((hi - lo) div 2) + 1"
  shows "max_port - 1 < lo \<Longrightarrow> \<not> rtp_port min_port max_port p"
    and "\<not> max_port - 1 < lo \<Longrightarrow> unat hi = unat lo + 2 * (n - 1)"
    and "\<not> max_port - 1 < lo \<Longrightarrow> rtp_port min_port max_port p \<longleftrightarrow> (\<exists>i<n. unat p = unat lo + 2 * i)"
proof -
  have mx: "unat (max_port - 1) = unat max_port - 1" "max_port \<noteq> 0"
    using assms by (auto simp: word_less_nat_alt unat_sub_if')
  have mn: "unat (min_port + 1) = unat min_port + 1"
    using assms unat_u16 [of max_port] by (auto simp: word_less_nat_alt unat_word_ariths)
  have lo: "unat lo = 2 * ((unat min_port + 1) div 2)" and hi: "unat hi = 2 * ((unat max_port - 1) div 2)"
    unfolding lo_def hi_def unat_even_part mn mx by simp_all
  have port: "rtp_port min_port max_port p \<longleftrightarrow> even (unat p) \<and> unat min_port \<le> unat p \<and> unat p < unat max_port"
    by (simp add: rtp_port_def word_le_nat_alt word_less_nat_alt)
  show "\<not> rtp_port min_port max_port p" if "max_port - 1 < lo"
  proof
    assume "rtp_port min_port max_port p"
    moreover have "unat max_port - 1 < unat lo" using that mx(1) by (simp add: word_less_nat_alt)
    ultimately show False unfolding port using lo by presburger
  qed
  assume "\<not> max_port - 1 < lo"
  then have le: "unat lo \<le> unat max_port - 1" using mx(1) by (simp add: word_less_nat_alt not_less)
  have le': "unat lo \<le> unat hi" using div_le_mono [OF le, of 2] unfolding lo hi by simp
  then have "unat (hi - lo) = unat hi - unat lo" by (intro unat_sub) (simp only: word_le_nat_alt)
  then have "n - 1 = (unat hi - unat lo) div 2" by (simp only: n_def add_diff_cancel_right' unat_div) simp
  moreover have "even (unat hi)" "even (unat lo)" using lo hi by simp_all
  ultimately show n: "unat hi = unat lo + 2 * (n - 1)" using le' by simp
  show "rtp_port min_port max_port p \<longleftrightarrow> (\<exists>i<n. unat p = unat lo + 2 * i)"
  proof
    assume "rtp_port min_port max_port p"
    then have "unat lo \<le> unat p" "unat p \<le> unat hi" "even (unat p - unat lo)" unfolding port using lo hi by presburger+
    then show "\<exists>i<n. unat p = unat lo + 2 * i"
      using n by (intro exI [of _ "(unat p - unat lo) div 2"]) (auto simp: n_def)
  next
    assume "\<exists>i<n. unat p = unat lo + 2 * i"
    then have "unat lo \<le> unat p" "unat p \<le> unat hi" "even (unat p)" using n lo by auto
    then show "rtp_port min_port max_port p" unfolding port using lo hi mx assms(1) by (auto simp: word_less_nat_alt)
  qed
qed

text \<open>Property C39: with a range as the configuration allows it, the RTP socket gets a free even port
  of the range whose odd partner lies in the range too; a range without one is refused, and the
  search gives up only when every such port is in use or the address can not be bound.\<close>

theorem bind_port_result:
  assumes "min_port < max_port"
  shows "case bind_port bind start min_port max_port of
      Inr p \<Rightarrow> rtp_port min_port max_port p \<and> bind p = Bound
    | Inl NoPortPair \<Rightarrow> \<not> (\<exists>p. rtp_port min_port max_port p)
    | Inl CannotBind \<Rightarrow> (\<exists>p. rtp_port min_port max_port p \<and> bind p = BindRefused)
    | Inl AllInUse \<Rightarrow> (\<forall>p. rtp_port min_port max_port p \<longrightarrow> bind p = AddrInUse)"
proof -
  define lo hi :: u16 where "lo = (min_port + 1) AND NOT 1" and "hi = (max_port - 1) AND NOT 1"
  define n where "n = unat ((hi - lo) div 2) + 1"
  note range = port_range [OF assms, folded lo_def hi_def, folded n_def]
  have "max_port \<noteq> 0" "min_port \<noteq> 0xFFFF"
    using assms unat_u16 [of max_port] by (auto simp: word_less_nat_alt)
  then have step: "bind_port bind start min_port max_port =
      (if max_port - 1 < lo then Inl NoPortPair else bind_walk bind lo hi n (lo + 2 * of_nat (start mod n)))"
    by (simp add: bind_port_def lo_def hi_def n_def Let_def)
  show ?thesis
  proof (cases "max_port - 1 < lo")
    case True
    then show ?thesis using range(1) step by simp
  next
    case False
    define P where "P j = (lo + 2 * of_nat (j mod n) :: u16)" for j
    have "0 < n" by (simp add: n_def)
    have bound: "unat lo + 2 * (n - 1) < 65536" using unat_u16 [of hi] range(2) [OF False] by simp
    have last_port: "lo + 2 * of_nat (n - 1) = hi"
      using range(2) [OF False] bound unat_port [of lo "n - 1"] by (simp only: word_unat_eq_iff)
    have unat_P: "unat (P j) = unat lo + 2 * (j mod n)" for j
      using bound mod_le_pred [OF \<open>0 < n\<close>, of j] unfolding P_def by (intro unat_port) linarith
    have ports: "rtp_port min_port max_port p \<longleftrightarrow> (\<exists>j<n. p = P (start mod n + j))" for p
      using range(3) [OF False] residues [OF \<open>0 < n\<close>, of "\<lambda>i. unat p = unat lo + 2 * i" "start mod n"]
      by (simp add: word_unat_eq_iff unat_P)
    have "bind_port bind start min_port max_port = bind_walk bind lo hi n (P (start mod n))"
      using False by (simp add: step P_def)
    moreover have "case bind_walk bind lo hi n (P (start mod n)) of
        Inr p \<Rightarrow> \<exists>j<n. p = P (start mod n + j) \<and> bind p = Bound
      | Inl CannotBind \<Rightarrow> \<exists>j<n. bind (P (start mod n + j)) = BindRefused
      | Inl AllInUse \<Rightarrow> \<forall>j<n. bind (P (start mod n + j)) = AddrInUse
      | Inl NoPortPair \<Rightarrow> False"
      unfolding P_def using \<open>0 < n\<close> last_port bound by (intro bind_walk_result) simp_all
    ultimately show ?thesis using ports by (auto split: sum.splits bind_error.splits)
  qed
qed

theorem bind_port_result_witness:
  "\<exists>p. bind_port (\<lambda>p. if p = 16386 then Bound else AddrInUse) 0 16384 16388 = Inr p \<and>
    rtp_port 16384 16388 p"
proof -
  have "bind_port (\<lambda>p. if p = 16386 then Bound else AddrInUse) 0 16384 16388 = Inr 16386" by code_simp
  with bind_port_result [of "16384" "16388" "\<lambda>p. if p = 16386 then Bound else AddrInUse" 0]
  show ?thesis by simp
qed

text \<open>A range the configuration accepts need not hold a pair: no call can then be carried.\<close>

lemma accepted_range_without_a_pair: "bind_port bind start 1025 1026 = Inl NoPortPair"
  by (simp add: bind_port_def)

section \<open>Receiving\<close>

lemma index_val: "i < length buf \<Longrightarrow> index buf i = Val (buf ! i)"
  by (simp add: index_def)

lemma rtp_offset_not_panic: "len \<le> length buf \<Longrightarrow> rtp_offset buf len h \<noteq> Panic"
  by (auto simp: rtp_offset_def Let_def and_then_def index_def)

lemma rtp_payload_not_panic:
  assumes "len \<le> length buf" and "12 \<le> len" shows "rtp_payload buf len h \<noteq> Panic"
proof (cases "rtp_offset buf len h")
  case (Val offset)
  have "len - 1 < length buf" using assms by linarith
  then show ?thesis
    using assms Val by (auto simp: rtp_payload_def and_then_def rtp_end_def index_val slice_def)
qed (use rtp_offset_not_panic [OF assms(1), of h] in \<open>simp_all add: rtp_payload_def and_then_def\<close>)

text \<open>Property C13: no datagram, however malformed, makes the RTP receiver index or slice out of
  range: the header, the CSRC list, the extension and the padding are all checked against the length
  first.\<close>

theorem rtp_never_panics:
  assumes "len \<le> length buf"
  shows "rtp_receive ss now buf len src \<noteq> Panic"
  using assms rtp_payload_not_panic [of len buf "buf ! 0"]
  by (cases "len < 12") (auto simp: rtp_receive_def and_then_def slice_def Let_def nth_append split: outcome.splits)

theorem rtp_never_panics_witness:
  "rtp_receive (session_start \<lparr>mc_codec = Pcma, mc_dtmf_pt = Some 101, mc_ptime_ms = 20, mc_jitter_ms = 0,
      mc_symmetric = True, mc_detect_inband = False\<rparr> \<lparr>sa_ip = V4 9, sa_port = 4000\<rparr> (rings_new 60 20) 0 1 2 3)
    5 (0xBF # 8 # replicate 2046 0xFF) 15 \<lparr>sa_ip = V4 9, sa_port = 4000\<rparr> \<noteq> Panic"
  by (rule rtp_never_panics) simp

section \<open>One end to the other\<close>

lemma length_rtp_packet: "length (rtp_packet ss payload) = 12 + length payload"
  by (simp add: rtp_packet_def be16_def be32_def Let_def)

lemma payload_type_small: "payload_type c AND 0x7F = payload_type c" "(0x80 OR payload_type c) AND 0x7F = payload_type c"
  by (cases c; simp add: payload_type_def)+

text \<open>What the sender of one session puts into a packet is what the receiver of a session
  with the same codec plays, whatever the sequence number, time stamp, source and marker, and
  whatever the rest of the receive buffer holds, unless the peer's telephone event type is the
  codec's own number.\<close>

lemma rtp_round_trip:
  assumes "payload \<noteq> []" and "mc_codec (ss_cfg b) = mc_codec (ss_cfg a)" and "rtp_expected b src"
    and "mc_dtmf_pt (ss_cfg b) \<noteq> Some (payload_type (mc_codec (ss_cfg a)))"
  shows "rtp_receive b now (rtp_packet a payload @ junk) (12 + length payload) src =
    Val (let b' = latch src (stamp now b) in b'\<lparr>ss_rings := push_from_network
      (decode_audio (law_of (mc_codec (ss_cfg a))) payload) (ss_rings b)\<rparr>)"
proof -
  let ?p = "rtp_packet a payload @ junk"
  have len: "12 + length payload \<le> length ?p" by (simp add: length_rtp_packet)
  have h: "take 12 ?p ! 0 = 0x80" "take 12 ?p ! 1 AND 0x7F = payload_type (mc_codec (ss_cfg a))"
    by (simp_all add: rtp_packet_def be16_def be32_def Let_def payload_type_small)
  have "rtp_offset ?p (12 + length payload) 0x80 = Val 12" by (simp add: rtp_offset_def Let_def)
  moreover have "slice ?p 12 (12 + length payload) = Val payload"
    using len by (simp add: slice_def) (simp add: rtp_packet_def be16_def be32_def Let_def)
  ultimately have "rtp_payload ?p (12 + length payload) 0x80 = Val payload"
    using assms(1) by (simp add: rtp_payload_def and_then_def rtp_end_def)
  then have payload: "rtp_payload ?p (12 + length payload) (take 12 ?p ! 0) = Val payload" by (simp only: h)
  have header: "slice ?p 0 12 = Val (take 12 ?p)" using len by (simp add: slice_def)
  have version: "drop_bit 6 (take 12 ?p ! 0) = 2" unfolding h by simp
  define b' where "b' = latch src (stamp now b)"
  have b': "ss_cfg b' = ss_cfg b" "ss_rings b' = ss_rings b" by (simp_all add: b'_def latch_def stamp_def)
  obtain ts where "rtp_receive b now ?p (12 + length payload) src =
      Val (rtp_media (take 12 ?p ! 1 AND 0x7F) ts payload b')"
    using assms(3) payload version by (simp add: rtp_receive_def header and_then_def Let_def b'_def)
  also have "\<dots> = Val (b'\<lparr>ss_rings := push_from_network
      (decode_audio (law_of (mc_codec (ss_cfg a))) payload) (ss_rings b)\<rparr>)"
    using assms(2,4) unfolding h(2) rtp_media_def b' by (simp add: eq_commute)
  finally show ?thesis by (simp add: b'_def)
qed

definition example_session :: session where
  "example_session = session_start \<lparr>mc_codec = Pcma, mc_dtmf_pt = Some 101, mc_ptime_ms = 20, mc_jitter_ms = 0,
      mc_symmetric = True, mc_detect_inband = False\<rparr> \<lparr>sa_ip = V4 9, sa_port = 4000\<rparr> (rings_new 60 20) 0 1 2 3"

lemma rtp_round_trip_witness:
  "rtp_receive example_session 5 (rtp_packet example_session [0xD5, 0x55] @ [7]) 14 \<lparr>sa_ip = V4 9, sa_port = 6000\<rparr> =
     Val (let b = latch \<lparr>sa_ip = V4 9, sa_port = 6000\<rparr> (stamp 5 example_session) in
       b\<lparr>ss_rings := push_from_network (decode_audio Alaw [0xD5, 0x55]) (ss_rings example_session)\<rparr>)"
proof -
  have "mc_codec (ss_cfg example_session) = Pcma" "mc_dtmf_pt (ss_cfg example_session) = Some 101"
    "rtp_expected example_session \<lparr>sa_ip = V4 9, sa_port = 6000\<rparr>"
    by (simp_all add: example_session_def session_start_def rtp_expected_def Let_def)
  then show ?thesis
    using rtp_round_trip [of "[0xD5, 0x55]" example_session example_session "\<lparr>sa_ip = V4 9, sa_port = 6000\<rparr>" 5 "[7]"]
    by (simp add: payload_type_def law_of_def)
qed

section \<open>Where the audio goes\<close>

text \<open>What can happen to a session: a datagram, a tick of the sender, a new address from the
  signalling.\<close>

datatype session_op = Datagram instant "u8 list" nat socket_addr | Tick "i16 list \<Rightarrow> char option"
  | Move socket_addr

fun session_step :: "session_op \<Rightarrow> session \<Rightarrow> session" where
  "session_step (Datagram now buf len src) ss =
     (case rtp_receive ss now buf len src of Val ss' \<Rightarrow> ss' | _ \<Rightarrow> ss)"
| "session_step (Tick detect) ss = rtp_send detect ss"
| "session_step (Move addr) ss = set_remote addr ss"

fun signalled_ips :: "session_op list \<Rightarrow> ip_addr list" where
  "signalled_ips [] = []"
| "signalled_ips (Move addr # ops) = sa_ip addr # signalled_ips ops"
| "signalled_ips (_ # ops) = signalled_ips ops"

definition bound_to_peer :: "ip_addr list \<Rightarrow> session \<Rightarrow> bool" where
  "bound_to_peer ips ss \<longleftrightarrow> sa_ip (ss_remote ss) = sa_ip (ss_signalled ss) \<and> sa_ip (ss_signalled ss) \<in> set ips \<and>
     (\<forall>(_, dest) \<in> set (ss_packets ss). sa_ip dest \<in> set ips)"

lemma rtp_media_frame [simp]: "ss_remote (rtp_media pt ts p ss) = ss_remote ss"
  "ss_signalled (rtp_media pt ts p ss) = ss_signalled ss" "ss_packets (rtp_media pt ts p ss) = ss_packets ss"
  "ss_latched (rtp_media pt ts p ss) = ss_latched ss"
  by (auto simp: rtp_media_def split: list.splits)

lemma latch_frame [simp]: "ss_packets (latch src ss) = ss_packets ss" "ss_signalled (latch src ss) = ss_signalled ss"
  "sa_ip src = sa_ip (ss_remote ss) \<Longrightarrow> sa_ip (ss_remote (latch src ss)) = sa_ip (ss_remote ss)"
  "ss_packets (stamp now ss) = ss_packets ss" "ss_signalled (stamp now ss) = ss_signalled ss"
  "ss_remote (stamp now ss) = ss_remote ss"
  by (simp_all add: latch_def stamp_def)

lemma hear_digit_frame [simp]: "ss_remote (hear_digit h ss) = ss_remote ss"
  "ss_signalled (hear_digit h ss) = ss_signalled ss" "ss_packets (hear_digit h ss) = ss_packets ss"
  by (auto simp: hear_digit_def Let_def split: option.splits)

lemma rtp_receive_val:
  assumes "rtp_receive ss now buf len src = Val ss'"
  obtains pt ts p where "rtp_expected ss src"
    "ss' = latch src (stamp now ss) \<or> ss' = rtp_media pt ts p (latch src (stamp now ss))"
  using assms
  by (auto simp: rtp_receive_def and_then_def slice_def Let_def split: if_splits outcome.splits)

lemma bound_to_peer_step:
  assumes "bound_to_peer ips ss" and "list_all (\<lambda>ip. \<not> is_unspecified ip) ips"
    and "set (signalled_ips [op]) \<subseteq> set ips"
  shows "bound_to_peer ips (session_step op ss)"
proof (cases op)
  case (Datagram now buf len src)
  show ?thesis
  proof (cases "rtp_receive ss now buf len src")
    case (Val ss')
    then obtain pt ts p where ex: "rtp_expected ss src"
      "ss' = latch src (stamp now ss) \<or> ss' = rtp_media pt ts p (latch src (stamp now ss))"
      by (rule rtp_receive_val)
    from ex(1) assms have "sa_ip src = sa_ip (ss_signalled ss)"
      by (auto simp: rtp_expected_def bound_to_peer_def list_all_iff)
    with ex(2) assms(1) show ?thesis
      by (auto simp: Datagram Val bound_to_peer_def)
  qed (use assms(1) in \<open>simp_all add: Datagram\<close>)
next
  case (Tick detect)
  with assms(1) show ?thesis by (auto simp: bound_to_peer_def rtp_send_def Let_def split_beta)
next
  case (Move addr)
  with assms show ?thesis by (auto simp: bound_to_peer_def set_remote_def)
qed

text \<open>Property C33: whatever datagrams arrive, from whomever, the audio of a call is only ever sent to
  a host the signalling named: the peer of the first description or of a re-INVITE. Symmetric RTP can
  move the port, never the host (none of the named addresses being the wildcard, which the gateway
  refuses).\<close>

theorem audio_stays_with_the_peer:
  assumes "list_all (\<lambda>ip. \<not> is_unspecified ip) (sa_ip remote # signalled_ips ops)"
  shows "list_all (\<lambda>(_, dest). sa_ip dest \<in> set (sa_ip remote # signalled_ips ops))
    (ss_packets (fold session_step ops (session_start cfg remote r now s t ssrc)))"
proof -
  let ?ips = "sa_ip remote # signalled_ips ops"
  have split: "signalled_ips (op # rest) = signalled_ips [op] @ signalled_ips rest" for op rest
    by (cases op) simp_all
  have "bound_to_peer ?ips (fold session_step ops' ss)"
    if "bound_to_peer ?ips ss" "set (signalled_ips ops') \<subseteq> set ?ips" for ops' ss
    using that
  proof (induction ops' arbitrary: ss)
    case (Cons op rest)
    then show ?case using bound_to_peer_step [OF _ assms, of ss op] by (simp add: split [of op rest])
  qed simp
  moreover have "bound_to_peer ?ips (session_start cfg remote r now s t ssrc)"
    by (simp add: bound_to_peer_def session_start_def Let_def)
  ultimately have "bound_to_peer ?ips (fold session_step ops (session_start cfg remote r now s t ssrc))" by auto
  then show ?thesis by (auto simp: bound_to_peer_def list_all_iff)
qed

theorem audio_stays_with_the_peer_witness:
  "list_all (\<lambda>(_, dest). sa_ip dest \<in> {V4 9, V4 7})
    (ss_packets (fold session_step [Tick (\<lambda>_. None), Move \<lparr>sa_ip = V4 7, sa_port = 4000\<rparr>, Tick (\<lambda>_. None)]
      (session_start \<lparr>mc_codec = Pcma, mc_dtmf_pt = None, mc_ptime_ms = 1, mc_jitter_ms = 0,
         mc_symmetric = True, mc_detect_inband = False\<rparr> \<lparr>sa_ip = V4 9, sa_port = 4000\<rparr> (rings_new 60 20) 0 1 2 3)))"
proof -
  let ?ops = "[Tick (\<lambda>_. None), Move \<lparr>sa_ip = V4 7, sa_port = 4000\<rparr>, Tick (\<lambda>_. None)]"
  have "list_all (\<lambda>ip. \<not> is_unspecified ip) (sa_ip \<lparr>sa_ip = V4 9, sa_port = 4000\<rparr> # signalled_ips ?ops)"
    by (simp add: is_unspecified_def)
  from audio_stays_with_the_peer [OF this] show ?thesis
    by (simp only: signalled_ips.simps socket_addr.simps list.set)
qed

end
