(* ===== verification/Numbers.thy ===== *)
theory Numbers
  imports Sdp SipMessage
begin

text \<open>
  The texts the gateway takes from outside and passes on: telephone numbers
  (\<open>to_national\<close> of \<open>src/state.rs\<close>, \<open>sanitize_number\<close> of \<open>src/gateway.rs\<close>), the digits of an
  INFO body, the line an incoming request is addressed to, the identity of a received message, the
  address and the ALSA device of a call's media. None of these functions keeps state.
\<close>

section \<open>Telephone numbers\<close>

definition strip_plus :: "string \<Rightarrow> string" where
  "strip_plus s = (case strip_prefix ''+'' s of Some r \<Rightarrow> r | None \<Rightarrow> s)"

definition to_national :: "string \<Rightarrow> string option \<Rightarrow> string \<Rightarrow> string" where
  "to_national raw country_code national_prefix =
     (let number = trim raw in
      case map_option (\<lambda>c. strip_plus (trim c)) country_code of
        None \<Rightarrow> number
      | Some cc \<Rightarrow>
          if cc = [] then number
          else (case strip_prefix cc (strip_plus number) of
              Some rest \<Rightarrow> if rest \<noteq> [] then national_prefix @ rest else number
            | None \<Rightarrow> number))"

definition dial_char :: "char \<Rightarrow> bool" where
  "dial_char c \<longleftrightarrow> digit_val c \<noteq> None \<or> c = CHR ''*'' \<or> c = CHR ''#''"

text \<open>The loop over the characters of the trimmed text: a plus counts only in front.\<close>

definition sanitize_number :: "string \<Rightarrow> string" where
  "sanitize_number raw =
     (case trim raw of
        [] \<Rightarrow> []
      | c # s \<Rightarrow> (if c = CHR ''+'' \<or> dial_char c then [c] else []) @ filter dial_char s)"

definition addressed_to_us :: "uri \<Rightarrow> string option \<Rightarrow> uri" where
  "addressed_to_us target own =
     (case own of
        None \<Rightarrow> target
      | Some n \<Rightarrow> if trim n = [] then target else target\<lparr>u_user := Some (trim n)\<rparr>)"

text \<open>\<open>Shared::own_number\<close>: the configured number, or the one the SIM reports.\<close>

definition own_number :: "string option \<Rightarrow> string option \<Rightarrow> string option \<Rightarrow> string \<Rightarrow> string option" where
  "own_number configured sim country_code national_prefix =
     (let shown = (\<lambda>n. case n of Some x \<Rightarrow> if trim x = [] then None else Some x | None \<Rightarrow> None) in
      map_option (\<lambda>n. to_national n country_code national_prefix)
        (case shown configured of Some n \<Rightarrow> Some n | None \<Rightarrow> shown sim))"

section \<open>Digits of an INFO request\<close>

definition contains_text :: "string \<Rightarrow> string \<Rightarrow> bool" where
  "contains_text needle s \<longleftrightarrow> find_sub needle s \<noteq> None"

fun relay_signal :: "string list \<Rightarrow> string" where
  "relay_signal [] = []"
| "relay_signal (line # rest) =
     (case split_once (CHR ''='') line of
        Some (k, v) \<Rightarrow> if eq_ignore_ascii_case (trim k) ''signal'' then trim v else relay_signal rest
      | None \<Rightarrow> relay_signal rest)"

definition parse_dtmf_info :: "string \<Rightarrow> string \<Rightarrow> string option" where
  "parse_dtmf_info content_type body =
     (let ct = to_ascii_lowercase content_type in
      if contains_text ''dtmf-relay'' ct then Some (relay_signal (str_lines body))
      else if contains_text ''dtmf'' ct then Some (trim body)
      else None)"

text \<open>The body the gateway sends with a digit of its own (\<open>send_dtmf_info\<close>).\<close>

definition dtmf_relay_body :: "string \<Rightarrow> string" where
  "dtmf_relay_body digit = ''Signal='' @ digit @ crlf @ ''Duration=250'' @ crlf"

section \<open>Identity of a message\<close>

record sms_info =
  si_state :: u32
  si_pdu_type :: u32
  si_number :: string
  si_text :: string
  si_data :: "u8 list"
  si_timestamp :: "string option"

definition incoming_sms_id :: "(u8 list \<Rightarrow> string) \<Rightarrow> string \<Rightarrow> sms_info \<Rightarrow> string \<Rightarrow> string" where
  "incoming_sms_id md5_hex path info peer =
     (let digest = md5_hex (text_bytes (si_text info) @ si_data info);
          stamp = (case si_timestamp info of
             Some t \<Rightarrow> if trim t = [] then None else Some (trim t) | None \<Rightarrow> None)
      in (case stamp of Some ts \<Rightarrow> ts | None \<Rightarrow> path) @ ''|'' @ peer @ ''|'' @ digest)"

section \<open>Media address and audio device\<close>

definition parse_ip :: "string option \<Rightarrow> ip_addr option" where
  "parse_ip v = Option.bind v parse_ip_addr"

definition media_address :: "string option \<Rightarrow> string option \<Rightarrow> ip_addr \<Rightarrow> ip_addr" where
  "media_address public_ip bound sip_advertised =
     (case parse_ip public_ip of
        Some ip \<Rightarrow> ip
      | None \<Rightarrow> (case parse_ip bound of
          Some ip \<Rightarrow> if \<not> is_unspecified ip then ip else sip_advertised
        | None \<Rightarrow> sip_advertised))"

definition looks_like_alsa :: "string \<Rightarrow> bool" where
  "looks_like_alsa port \<longleftrightarrow> starts_with ''hw:'' port \<or> starts_with ''plughw:'' port \<or>
     starts_with ''default'' port \<or> starts_with ''/dev/snd/'' port"

definition leading_digits :: "string \<Rightarrow> string" where
  "leading_digits s = takeWhile (\<lambda>c. digit_val c \<noteq> None) s"

definition normalise_alsa :: "string \<Rightarrow> string" where
  "normalise_alsa port =
     (case Option.bind (strip_prefix ''/dev/snd/'' port) (strip_prefix ''pcmC'') of
        None \<Rightarrow> port
      | Some rest \<Rightarrow>
          (let num = leading_digits rest;
               after = drop (length num) rest;
               dev = leading_digits (case strip_prefix ''D'' after of Some d \<Rightarrow> d | None \<Rightarrow> [])
           in if num \<noteq> [] then ''plughw:'' @ num @ '','' @ (if dev = [] then ''0'' else dev) else port))"

record audio_cfg =
  au_device :: "string option"
  au_capture_device :: "string option"
  au_playback_device :: "string option"
  au_use_mm_audio_port :: bool

definition first_of :: "'a option \<Rightarrow> 'a option \<Rightarrow> 'a option" where
  "first_of a b = (case a of Some x \<Rightarrow> Some x | None \<Rightarrow> b)"

text \<open>\<open>call_port\<close> is the audio port ModemManager reports for the call, \<open>alsa\<close> the ALSA name of the
  modem's own sound card, if one was found.\<close>

definition resolve_audio_devices :: "audio_cfg \<Rightarrow> string option \<Rightarrow> string option \<Rightarrow> (string \<times> string) option" where
  "resolve_audio_devices cfg alsa call_port =
     (case (first_of (au_capture_device cfg) (au_device cfg), first_of (au_playback_device cfg) (au_device cfg)) of
        (Some c, Some p) \<Rightarrow> Some (c, p)
      | _ \<Rightarrow>
          (case (if au_use_mm_audio_port cfg then call_port else None) of
             Some port \<Rightarrow>
               if looks_like_alsa port then Some (normalise_alsa port, normalise_alsa port)
               else map_option (\<lambda>d. (d, d)) alsa
           | None \<Rightarrow> map_option (\<lambda>d. (d, d)) alsa))"

section \<open>What they guarantee\<close>

lemma dial_char_byte: "dial_char c \<Longrightarrow> byte_of c \<in> {35, 42} \<union> {48..57}"
  by (auto simp: dial_char_def digit_val_def byte_of_def split: if_splits)

lemma dial_char_vchar: "dial_char c \<Longrightarrow> vchar c"
  by (drule dial_char_byte) (auto simp: vchar_def)

lemma sanitize_number_chars_aux:
  "c \<in> set (sanitize_number raw) \<Longrightarrow> dial_char c \<or> c = CHR ''+''"
  by (auto simp: sanitize_number_def split: list.splits if_splits)

lemma vtext_sanitize_number [simp, printable_intros]: "vtext (sanitize_number raw)"
proof -
  have "vchar c" if "c \<in> set (sanitize_number raw)" for c
    using sanitize_number_chars_aux [OF that] dial_char_vchar [of c] by (auto simp: vchar_def byte_of_def)
  then show ?thesis by (simp add: list_all_iff)
qed

lemma sanitize_plain:
  assumes "list_all dial_char s" shows "sanitize_number s = s" and "sanitize_number (CHR ''+'' # s) = CHR ''+'' # s"
proof -
  have v: "vtext s" using assms dial_char_vchar by (auto simp: list_all_iff)
  have f: "filter dial_char s = s" using assms by (auto simp: list_all_iff)
  have "vtext (CHR ''+'' # s)" using v by (simp add: vchar_def byte_of_def)
  then have "trim (CHR ''+'' # s) = CHR ''+'' # s" by (rule trim_vtext)
  then show "sanitize_number (CHR ''+'' # s) = CHR ''+'' # s" by (simp add: sanitize_number_def f)
  show "sanitize_number s = s"
    using assms f trim_vtext [OF v] by (cases s) (auto simp: sanitize_number_def)
qed

lemma sanitize_number_form:
  obtains s where "list_all dial_char s" "sanitize_number raw = s \<or> sanitize_number raw = CHR ''+'' # s"
proof (cases "trim raw")
  case Nil
  then show ?thesis using that [of "[]"] by (simp add: sanitize_number_def)
next
  case (Cons c t)
  have "list_all dial_char (filter dial_char t)" by (simp add: list_all_iff)
  then show ?thesis
    using that [of "filter dial_char t"] that [of "c # filter dial_char t"] Cons
    by (cases "dial_char c") (auto simp: sanitize_number_def)
qed

text \<open>Whatever text a peer or a message puts in place of a number, what the gateway
  dials or writes into a header consists of digits, stars and hashes, with at most one plus, in
  front; and a number already of that form is left as it is, so cleaning it again changes nothing.\<close>

lemma sanitize_number_safe:
  "list_all dial_char (strip_plus (sanitize_number raw)) \<and>
   sanitize_number (sanitize_number raw) = sanitize_number raw"
proof -
  obtain s where s: "list_all dial_char s" "sanitize_number raw = s \<or> sanitize_number raw = CHR ''+'' # s"
    by (rule sanitize_number_form)
  have "strip_prefix ''+'' s = None"
  proof (cases s)
    case (Cons a t)
    then have "a \<noteq> CHR ''+''" using s(1) by (auto simp: dial_char_def digit_val_def byte_of_def)
    then show ?thesis using Cons by (simp add: strip_prefix_Cons)
  qed (simp add: strip_prefix_def)
  then have "strip_plus s = s" "strip_plus (CHR ''+'' # s) = s"
    by (simp_all add: strip_plus_def strip_prefix_Cons)
  then show ?thesis using s sanitize_plain [OF s(1)] by auto
qed

lemma strip_prefix_vtext: "vtext s \<Longrightarrow> strip_prefix p s = Some r \<Longrightarrow> vtext r"
  by (auto simp: strip_prefix_def list_all_iff split: if_splits dest: in_set_dropD)

lemma strip_plus_vtext: "vtext s \<Longrightarrow> vtext (strip_plus s)"
  by (auto simp: strip_plus_def split: option.splits dest: strip_prefix_vtext)

text \<open>Writing a number the national way a second time changes nothing, when the trunk
  prefix is not empty and does not begin with a plus or like the country code: a peer that was
  normalised on the way in keeps its number on the way out.\<close>

theorem to_national_idempotent:
  assumes "vtext raw" and "vtext trunk" and "trunk \<noteq> []" and "hd trunk \<noteq> CHR ''+''"
    and "strip_plus (trim cc) = c # cc'" and "hd trunk \<noteq> c"
  shows "to_national (to_national raw (Some cc) trunk) (Some cc) trunk = to_national raw (Some cc) trunk"
proof (cases "strip_prefix (c # cc') (strip_plus raw)")
  case None
  then have "to_national raw (Some cc) trunk = raw"
    using assms by (simp add: to_national_def trim_vtext)
  then show ?thesis by simp
next
  case (Some rest)
  show ?thesis
  proof (cases "rest = []")
    case True
    then have "to_national raw (Some cc) trunk = raw"
      using assms Some by (simp add: to_national_def trim_vtext)
    then show ?thesis by simp
  next
    case False
    have "vtext rest" using Some strip_plus_vtext [OF assms(1)] by (auto dest: strip_prefix_vtext)
    then have v: "vtext (trunk @ rest)" using assms(2) by simp
    obtain d trunk' where tr: "trunk = d # trunk'" using assms(3) by (cases trunk) auto
    with assms have "strip_plus (trunk @ rest) = trunk @ rest" "strip_prefix (c # cc') (trunk @ rest) = None"
      by (auto simp: strip_plus_def strip_prefix_def)
    moreover have "to_national raw (Some cc) trunk = trunk @ rest"
      using False assms Some by (simp add: to_national_def trim_vtext)
    ultimately show ?thesis
      using assms v by (simp add: to_national_def trim_vtext del: list_all_append)
  qed
qed

theorem to_national_idempotent_witness:
  "to_national ''01012345678'' (Some ''+82'') ''0'' = ''01012345678'' \<and>
   to_national ''821012345678'' (Some ''+82'') ''0'' = ''01012345678''"
proof -
  have first: "to_national ''821012345678'' (Some ''+82'') ''0'' = ''01012345678''" by code_simp
  have "to_national (to_national ''821012345678'' (Some ''+82'') ''0'') (Some ''+82'') ''0'' =
      to_national ''821012345678'' (Some ''+82'') ''0''"
    by (rule to_national_idempotent [where c = "CHR ''8''" and cc' = "''2''"]) code_simp+
  with first show ?thesis by simp
qed

text \<open>A text that only begins with the country code is taken for an international number however
  short it is: a short code such as 821 is rewritten.\<close>

lemma short_code_rewritten: "to_national ''821'' (Some ''82'') ''0'' = ''01''"
  by code_simp

text \<open>The identity of a stored message does not depend on the number ModemManager gives its object.\<close>

lemma sms_id_stable:
  "si_timestamp info = Some t \<Longrightarrow> trim t \<noteq> [] \<Longrightarrow>
    incoming_sms_id h path info peer = incoming_sms_id h path' info peer"
  by (simp add: incoming_sms_id_def)

text \<open>A digit the gateway relays to its peer as INFO is read back from that request by
  the gateway's own reader, so the two directions of the DTMF relay use one format.\<close>

lemma dtmf_relay_round_trip:
  assumes "vtext digit"
  shows "parse_dtmf_info ''application/dtmf-relay'' (dtmf_relay_body digit) = Some digit"
proof -
  have "contains_text ''dtmf-relay'' (to_ascii_lowercase ''application/dtmf-relay'')" by code_simp
  moreover have "CHR 0x0A \<notin> set digit" using assms by (auto simp: list_all_iff vchar_def byte_of_def)
  then have "str_lines (dtmf_relay_body digit) = [''Signal='' @ digit, ''Duration=250'']"
    using str_lines_crlf [of "''Signal='' @ digit" "''Duration=250'' @ crlf"] str_lines_crlf [of "''Duration=250''" "[]"]
    by (simp add: dtmf_relay_body_def crlf_def cr_def lf_def)
  moreover have "relay_signal [''Signal='' @ digit, ''Duration=250''] = digit"
  proof -
    have "split_once (CHR ''='') (''Signal='' @ digit) = Some (''Signal'', digit)"
      using split_once_append [of "CHR ''=''" "''Signal''" digit] by simp
    moreover have "eq_ignore_ascii_case (trim ''Signal'') ''signal''" by code_simp
    ultimately show ?thesis using assms by (simp add: trim_vtext)
  qed
  ultimately show ?thesis by (simp add: parse_dtmf_info_def Let_def)
qed

theorem dtmf_relay_round_trip_witness:
  "parse_dtmf_info ''application/dtmf-relay'' (dtmf_relay_body ''5'') = Some ''5''"
  by (rule dtmf_relay_round_trip) code_simp

end
