(* ===== verification/Config.thy ===== *)
theory Config
  imports Complex_Main Media Numbers
begin

text \<open>
  The configuration of \<open>src/config.rs\<close>: its sections, their defaults, the check every loaded file
  has to pass, and what that check buys the code that relies on it. A path is its text; a gain is
  an \<open>f32\<close>, the rational number it denotes, or \<open>None\<close> if it is not finite. Reading TOML is the
  business of a library.
\<close>

record general =
  gn_log :: string
  gn_name :: string

record modem_match =
  mm_imei :: "string option"
  mm_device :: "string option"
  mm_device_id :: "string option"
  mm_primary_port :: "string option"
  mm_sim_id :: "string option"
  mm_imsi :: "string option"
  mm_index :: "u32 option"
  mm_enable :: bool
  mm_own_number :: "string option"
  mm_country_code :: "string option"
  mm_national_prefix :: string
  mm_ready_command :: "string option"

datatype vendor_setup = VendorAuto | VendorAlways | VendorNever

record audio_section = audio_cfg +
  ac_auto :: bool
  ac_card_hint :: "string option"
  ac_rate :: u32
  ac_period_ms :: u32
  ac_periods :: u32
  ac_tx_gain :: "rat option"
  ac_rx_gain :: "rat option"
  ac_vendor :: vendor_setup

record upstream =
  up_registrar :: string
  up_username :: string
  up_password :: string
  up_expires :: u32
  up_from_user :: "string option"
  up_contact_user :: "string option"

record sip_section =
  sp_bind :: string
  sp_public_ip :: "string option"
  sp_domain :: "string option"
  sp_user_agent :: string
  sp_auth :: "(string \<times> string) option"
  sp_call_target :: "string option"
  sp_sms_target :: "string option"
  sp_allow :: "string list"
  sp_register :: "upstream option"
  sp_early_media :: bool
  sp_ring_timeout_secs :: u64
  sp_from_user :: "string option"
  sp_options_reflect_modem :: bool
  sp_retry_after_secs :: u32

datatype dtmf_method = DtmfAuto | DtmfModem | DtmfInband | DtmfNone

record rtp_section =
  rt_bind :: "string option"
  rt_public_ip :: "string option"
  rt_port_min :: u16
  rt_port_max :: u16
  rt_jitter_ms :: u32
  rt_dtmf_payload_type :: u8
  rt_symmetric :: bool
  rt_dtmf_method :: dtmf_method
  rt_dtmf_tone_ms :: u32
  rt_dtmf_gap_ms :: u32
  rt_detect_inband_dtmf :: bool
  rt_timeout_secs :: u64

record storage =
  so_dir :: string
  so_db :: string

record sms_section =
  sm_delete_from_modem :: bool
  sm_notify_sip :: bool
  sm_delivery_report :: bool

record mms_section =
  ms_enabled :: bool
  ms_mmsc :: "string option"
  ms_proxy :: "string option"
  ms_interface :: "string option"
  ms_local_ip :: "ip_addr option"
  ms_dns :: "ip_addr list"
  ms_auto_retrieve :: bool
  ms_max_size :: nat
  ms_user_agent :: string
  ms_ua_profile :: "string option"
  ms_setup_command :: "string option"
  ms_timeout_secs :: u64

record http_section =
  ht_enabled :: bool
  ht_bind :: string
  ht_base_url :: "string option"
  ht_token :: "string option"

record config =
  cf_general :: general
  cf_modem :: modem_match
  cf_audio :: audio_section
  cf_sip :: sip_section
  cf_rtp :: rtp_section
  cf_storage :: storage
  cf_sms :: sms_section
  cf_mms :: mms_section
  cf_http :: http_section

section \<open>Defaults\<close>

definition user_agent_text :: string where "user_agent_text = ''modem2sip/0.1.0''"

definition default_general :: general where
  "default_general = \<lparr>gn_log = ''info'', gn_name = ''modem2sip''\<rparr>"

definition default_modem :: modem_match where
  "default_modem = \<lparr>mm_imei = None, mm_device = None, mm_device_id = None, mm_primary_port = None,
     mm_sim_id = None, mm_imsi = None, mm_index = None, mm_enable = True, mm_own_number = None,
     mm_country_code = None, mm_national_prefix = ''0'', mm_ready_command = None\<rparr>"

definition default_audio :: audio_section where
  "default_audio = \<lparr>au_device = None, au_capture_device = None, au_playback_device = None,
     au_use_mm_audio_port = True, ac_auto = True, ac_card_hint = None, ac_rate = 8000, ac_period_ms = 20, ac_periods = 4,
     ac_tx_gain = Some 1, ac_rx_gain = Some 1, ac_vendor = VendorAuto\<rparr>"

definition default_sip :: sip_section where
  "default_sip = \<lparr>sp_bind = ''0.0.0.0:5060'', sp_public_ip = None, sp_domain = None,
     sp_user_agent = user_agent_text, sp_auth = None, sp_call_target = None, sp_sms_target = None,
     sp_allow = [], sp_register = None, sp_early_media = True, sp_ring_timeout_secs = 60,
     sp_from_user = None, sp_options_reflect_modem = True, sp_retry_after_secs = 30\<rparr>"

definition default_rtp :: rtp_section where
  "default_rtp = \<lparr>rt_bind = None, rt_public_ip = None, rt_port_min = 16384, rt_port_max = 16584,
     rt_jitter_ms = 60, rt_dtmf_payload_type = 101, rt_symmetric = True, rt_dtmf_method = DtmfAuto,
     rt_dtmf_tone_ms = 180, rt_dtmf_gap_ms = 80, rt_detect_inband_dtmf = True, rt_timeout_secs = 60\<rparr>"

definition default_storage :: storage where
  "default_storage = \<lparr>so_dir = ''./data'', so_db = ''modem2sip.db''\<rparr>"

definition default_sms :: sms_section where
  "default_sms = \<lparr>sm_delete_from_modem = True, sm_notify_sip = True, sm_delivery_report = False\<rparr>"

definition default_mms :: mms_section where
  "default_mms = \<lparr>ms_enabled = False, ms_mmsc = None, ms_proxy = None, ms_interface = None,
     ms_local_ip = None, ms_dns = [], ms_auto_retrieve = True, ms_max_size = 2097152,
     ms_user_agent = user_agent_text, ms_ua_profile = None, ms_setup_command = None, ms_timeout_secs = 60\<rparr>"

definition default_http :: http_section where
  "default_http = \<lparr>ht_enabled = True, ht_bind = ''127.0.0.1:8088'', ht_base_url = None, ht_token = None\<rparr>"

definition default_config :: config where
  "default_config = \<lparr>cf_general = default_general, cf_modem = default_modem, cf_audio = default_audio,
     cf_sip = default_sip, cf_rtp = default_rtp, cf_storage = default_storage, cf_sms = default_sms, cf_mms = default_mms, cf_http = default_http\<rparr>"

section \<open>Socket addresses\<close>

text \<open>\<open>SocketAddr::from_str\<close>: an IPv4 address and a port, or a bracketed IPv6 address, with or
  without a scope, and a port.\<close>

definition read_port :: "string \<Rightarrow> u16 option" where
  "read_port s =
     (case strip_prefix '':'' s of
        None \<Rightarrow> None
      | Some t \<Rightarrow> (case read_number digit_val 10 (length t) True 65536 t of
          Some (n, r) \<Rightarrow> if r = [] then Some (of_nat n) else None | None \<Rightarrow> None))"

definition skip_scope :: "string \<Rightarrow> string" where
  "skip_scope s =
     (case Option.bind (strip_prefix ''%'' s) (\<lambda>t. read_number digit_val 10 (length t) True (2 ^ 32) t) of
        Some (_, r) \<Rightarrow> r | None \<Rightarrow> s)"

definition parse_socket_addr :: "string \<Rightarrow> socket_addr option" where
  "parse_socket_addr s =
     (case read_ipv4 s of
        Some (a, r) \<Rightarrow> map_option (\<lambda>p. \<lparr>sa_ip = V4 a, sa_port = p\<rparr>) (read_port r)
      | None \<Rightarrow>
          (case Option.bind (strip_prefix ''['' s) read_ipv6 of
             None \<Rightarrow> None
           | Some (a, r) \<Rightarrow> map_option (\<lambda>p. \<lparr>sa_ip = V6 a, sa_port = p\<rparr>)
               (Option.bind (strip_prefix '']'' (skip_scope r)) read_port)))"

section \<open>Validation\<close>

datatype config_error = SipBind | HttpBind | EmptyToken | RtpBind | RtpPublicIp | PortOrder | PortLow
  | DtmfPayloadType | RingTimeout | PeriodMs | SampleRate | Periods | TxGain | RxGain | NoMmsc
  | MmsMaxSize | NoRegistrar

definition valid_ip :: "string option \<Rightarrow> bool" where
  "valid_ip v \<longleftrightarrow> (case v of Some s \<Rightarrow> parse_ip_addr s \<noteq> None | None \<Rightarrow> True)"

definition valid_gain :: "rat option \<Rightarrow> bool" where
  "valid_gain g \<longleftrightarrow> (case g of Some x \<Rightarrow> 0 \<le> x \<and> x \<le> 16 | None \<Rightarrow> False)"

text \<open>The checks in the order of the code; the first that fails is the error.\<close>

definition config_checks :: "config \<Rightarrow> (bool \<times> config_error) list" where
  "config_checks c =
     (let sip = cf_sip c; rtp = cf_rtp c; au = cf_audio c; mms = cf_mms c; http = cf_http c in
      [(parse_socket_addr (sp_bind sip) \<noteq> None, SipBind),
       (ht_enabled http \<longrightarrow> parse_socket_addr (ht_bind http) \<noteq> None, HttpBind),
       (ht_enabled http \<longrightarrow> ht_token http \<noteq> Some [], EmptyToken),
       (valid_ip (rt_bind rtp), RtpBind),
       (valid_ip (rt_public_ip rtp), RtpPublicIp),
       (rt_port_min rtp < rt_port_max rtp, PortOrder),
       (1024 \<le> rt_port_min rtp, PortLow),
       (96 \<le> rt_dtmf_payload_type rtp \<and> rt_dtmf_payload_type rtp \<le> 127, DtmfPayloadType),
       (0 < sp_ring_timeout_secs sip, RingTimeout),
       (1 \<le> ac_period_ms au \<and> ac_period_ms au \<le> 200, PeriodMs),
       (8000 \<le> ac_rate au \<and> ac_rate au \<le> 192000, SampleRate),
       (2 \<le> ac_periods au \<and> ac_periods au \<le> 32, Periods),
       (valid_gain (ac_tx_gain au), TxGain),
       (valid_gain (ac_rx_gain au), RxGain),
       (ms_enabled mms \<longrightarrow> ms_mmsc mms \<noteq> None, NoMmsc),
       (ms_enabled mms \<longrightarrow> 0 < ms_max_size mms, MmsMaxSize),
       (case sp_register sip of Some up \<Rightarrow> up_registrar up \<noteq> [] | None \<Rightarrow> True, NoRegistrar)])"

definition config_validate :: "config \<Rightarrow> config_error option" where
  "config_validate c = map_option snd (find (\<lambda>(ok, _). \<not> ok) (config_checks c))"

text \<open>\<open>period_frames\<close> of \<open>src/audio/alsa_io.rs\<close>, before its cast to a C long.\<close>

definition period_frames :: "u32 \<Rightarrow> u32 \<Rightarrow> nat" where
  "period_frames rate ms = unat rate * unat ms div 1000"

lemma config_validate_None: "config_validate c = None \<longleftrightarrow> list_all fst (config_checks c)"
  by (auto simp: config_validate_def find_None_iff list_all_iff)

lemma read_port_defaults: "read_port '':5060'' = Some 5060" "read_port '':8088'' = Some 8088"
  by (simp_all add: read_port_def read_number_def digit_val_def byte_of_def strip_prefix_Cons)

lemma default_addresses:
  "parse_socket_addr ''0.0.0.0:5060'' = Some \<lparr>sa_ip = V4 0, sa_port = 5060\<rparr>"
  "parse_socket_addr ''127.0.0.1:8088'' = Some \<lparr>sa_ip = V4 0x7F000001, sa_port = 8088\<rparr>"
proof -
  have "read_ipv4 ''0.0.0.0:5060'' = Some (0, '':5060'')" "read_ipv4 ''127.0.0.1:8088'' = Some (0x7F000001, '':8088'')"
    by (simp_all add: read_ipv4_def read_octet_def read_dot_octet_def read_number_def digit_val_def
        byte_of_def strip_prefix_Cons)
  then show "parse_socket_addr ''0.0.0.0:5060'' = Some \<lparr>sa_ip = V4 0, sa_port = 5060\<rparr>"
    "parse_socket_addr ''127.0.0.1:8088'' = Some \<lparr>sa_ip = V4 0x7F000001, sa_port = 8088\<rparr>"
    by (simp_all add: parse_socket_addr_def read_port_defaults)
qed

lemma default_config_valid: "config_validate default_config = None"
  unfolding config_validate_None config_checks_def Let_def default_config_def default_sip_def
    default_rtp_def default_audio_def default_mms_def default_http_def
  by (simp add: default_addresses valid_ip_def valid_gain_def)

text \<open>What a configuration that passed the check guarantees to the code behind it: the
  frame counts handed to ALSA are positive and the buffer size fits a 32-bit C long, a tick of the
  RTP sender is never zero, its packet fits the receive buffer of a peer running this program, the
  RTP port is never 65535 (whose successor would wrap), the telephone event is a dynamic type, and
  the media addresses parse.\<close>

lemma validated_config_bounds:
  assumes "config_validate c = None"
  defines "au \<equiv> cf_audio c" and "rtp \<equiv> cf_rtp c"
  shows "0 < period_frames (ac_rate au) (ac_period_ms au) \<and>
    period_frames (ac_rate au) (ac_period_ms au) * unat (max (ac_periods au) 2) < 2 ^ 31 \<and>
    0 < ac_period_ms au \<and> 12 + samples_of_ms (unat (ac_period_ms au)) \<le> 2048 \<and>
    rt_port_min rtp < 0xFFFF \<and> from_payload_type (rt_dtmf_payload_type rtp) = None \<and>
    (rt_bind rtp \<noteq> None \<longleftrightarrow> parse_ip (rt_bind rtp) \<noteq> None) \<and>
    (rt_public_ip rtp \<noteq> None \<longleftrightarrow> parse_ip (rt_public_ip rtp) \<noteq> None)"
proof -
  have ok: "1 \<le> ac_period_ms au" "ac_period_ms au \<le> 200" "8000 \<le> ac_rate au" "ac_rate au \<le> 192000"
    "2 \<le> ac_periods au" "ac_periods au \<le> 32" "rt_port_min rtp < rt_port_max rtp"
    "96 \<le> rt_dtmf_payload_type rtp" "valid_ip (rt_bind rtp)" "valid_ip (rt_public_ip rtp)"
    using assms(1) by (simp_all add: config_validate_None config_checks_def Let_def au_def rtp_def)
  define p q n where "p = unat (ac_period_ms au)" and "q = unat (ac_rate au)" and "n = unat (ac_periods au)"
  have b: "1 \<le> p" "p \<le> 200" "8000 \<le> q" "q \<le> 192000" "2 \<le> n" "n \<le> 32"
    using ok(1-6) by (simp_all add: p_def q_def n_def word_le_nat_alt)
  have "8000 * 1 \<le> q * p" "q * p \<le> 192000 * 200" using b by (intro mult_mono; simp)+
  then have f: "8 \<le> q * p div 1000" "q * p div 1000 \<le> 38400" by linarith+
  then have "q * p div 1000 * n \<le> 38400 * 32" using b by (intro mult_mono) simp_all
  moreover have "max (ac_periods au) 2 = ac_periods au" using ok(5) by (simp add: max_def)
  moreover have "samples_of_ms p \<le> 1600" using b(2) by (simp add: samples_of_ms_def rtp_rate_def)
  moreover have "0 < ac_period_ms au" using b(1) by (simp add: p_def word_less_nat_alt)
  moreover have "rt_port_min rtp < 0xFFFF"
    using ok(7) unat_u16 [of "rt_port_max rtp"] by (simp add: word_less_nat_alt)
  moreover have "from_payload_type (rt_dtmf_payload_type rtp) = None"
    using ok(8) by (auto simp: from_payload_type_def word_le_nat_alt)
  ultimately show ?thesis
    using f ok(9,10) unfolding period_frames_def p_def [symmetric] q_def [symmetric] n_def [symmetric]
    by (auto simp: n_def valid_ip_def parse_ip_def split: option.splits)
qed

theorem validated_config_bounds_witness:
  "period_frames (ac_rate default_audio) (ac_period_ms default_audio) * 4 < 2 ^ 31 \<and>
   rt_port_min default_rtp < 0xFFFF"
  using validated_config_bounds [OF default_config_valid]
  by (simp add: default_config_def default_audio_def max_def word_le_nat_alt)

end
