(* ===== verification/Database.thy ===== *)
theory Database
  imports Numbers
begin

text \<open>
  The model of \<open>src/db.rs\<close>: the three SQLite tables as lists of rows in the order of their
  automatic identifiers, and one function per operation of \<open>Db\<close>. The SQL of each operation is
  written out over the rows. Whether the database answers at all is decided by the caller of an
  operation; the reading of the clock is an argument. Files of attachments are not modelled, their
  names are.
\<close>

datatype msg_direction = Incoming | Outgoing

record new_message =
  nm_kind :: string
  nm_direction :: msg_direction
  nm_peer :: string
  nm_own_number :: "string option"
  nm_subject :: "string option"
  nm_text :: "string option"
  nm_timestamp :: "string option"
  nm_status :: string
  nm_external_id :: "string option"
  nm_raw :: "u8 list option"

text \<open>A row of \<open>messages\<close> holds the columns of the message it was inserted from, and what later
  operations change.\<close>

record message_row = new_message +
  mr_id :: nat
  mr_received_at :: string
  mr_error :: "string option"

record attachment =
  at_message :: nat
  at_index :: int
  at_content_type :: string
  at_name :: "string option"
  at_content_id :: "string option"
  at_size :: nat
  at_path :: string

record call_row =
  cl_row_id :: nat
  cl_row_direction :: msg_direction
  cl_row_peer :: string
  cl_row_started :: string
  cl_row_answered :: "string option"
  cl_row_ended :: "(string \<times> string) option"

record database =
  db_messages :: "message_row list"
  db_next_message :: nat
  db_attachments :: "attachment list"
  db_calls :: "call_row list"
  db_next_call :: nat

definition empty_database :: database where
  "empty_database = \<lparr>db_messages = [], db_next_message = 1, db_attachments = [], db_calls = [], db_next_call = 1\<rparr>"

section \<open>Messages\<close>

definition same_external :: "string \<Rightarrow> msg_direction \<Rightarrow> string \<Rightarrow> message_row \<Rightarrow> bool" where
  "same_external kind dir ext m \<longleftrightarrow> nm_kind m = kind \<and> nm_direction m = dir \<and> nm_external_id m = Some ext"

definition find_by_external_id :: "database \<Rightarrow> string \<Rightarrow> msg_direction \<Rightarrow> string \<Rightarrow> (nat \<times> string) option" where
  "find_by_external_id db kind dir ext =
     map_option (\<lambda>m. (mr_id m, nm_status m)) (find (same_external kind dir ext) (db_messages db))"

definition if_null :: "string option \<Rightarrow> string" where
  "if_null v = (case v of Some s \<Rightarrow> s | None \<Rightarrow> [])"

definition same_content :: "new_message \<Rightarrow> string \<Rightarrow> message_row \<Rightarrow> bool" where
  "same_content msg ts m \<longleftrightarrow> nm_kind m = nm_kind msg \<and> nm_direction m = nm_direction msg \<and>
     nm_peer m = nm_peer msg \<and> nm_timestamp m = Some ts \<and> if_null (nm_text m) = if_null (nm_text msg)"

definition known_message :: "database \<Rightarrow> new_message \<Rightarrow> bool" where
  "known_message db msg \<longleftrightarrow>
     (case nm_external_id msg of
        Some ext \<Rightarrow> list_ex (same_external (nm_kind msg) (nm_direction msg) ext) (db_messages db)
      | None \<Rightarrow> False) \<or>
     (nm_direction msg = Incoming \<and>
        (case nm_timestamp msg of
           Some ts \<Rightarrow> ts \<noteq> [] \<and> list_ex (same_content msg ts) (db_messages db)
         | None \<Rightarrow> False))"

definition insert_message :: "string \<Rightarrow> new_message \<Rightarrow> database \<Rightarrow> nat option \<times> database" where
  "insert_message now msg db =
     (if known_message db msg then (None, db)
      else (Some (db_next_message db),
        db\<lparr>db_messages := db_messages db @ [new_message.extend msg
             (message_row.fields (db_next_message db) now None)],
           db_next_message := db_next_message db + 1\<rparr>))"

definition update_row :: "nat \<Rightarrow> (message_row \<Rightarrow> message_row) \<Rightarrow> database \<Rightarrow> database" where
  "update_row mid f db = db\<lparr>db_messages := map (\<lambda>m. if mr_id m = mid then f m else m) (db_messages db)\<rparr>"

definition update_received_mms :: "nat \<Rightarrow> string option \<Rightarrow> string option \<Rightarrow> string option \<Rightarrow> database \<Rightarrow> database" where
  "update_received_mms mid subject body timestamp =
     update_row mid (\<lambda>m. m\<lparr>nm_subject := first_of subject (nm_subject m), nm_text := first_of body (nm_text m),
       nm_timestamp := first_of timestamp (nm_timestamp m)\<rparr>)"

definition set_status :: "nat \<Rightarrow> string \<Rightarrow> string option \<Rightarrow> database \<Rightarrow> database" where
  "set_status mid status err = update_row mid (\<lambda>m. m\<lparr>nm_status := status, mr_error := err\<rparr>)"

definition row_of :: "database \<Rightarrow> nat \<Rightarrow> message_row option" where
  "row_of db mid = find (\<lambda>m. mr_id m = mid) (db_messages db)"

definition message_raw :: "database \<Rightarrow> nat \<Rightarrow> u8 list option" where
  "message_raw db mid = Option.bind (row_of db mid) nm_raw"

section \<open>Attachments\<close>

definition load_attachments :: "database \<Rightarrow> nat \<Rightarrow> attachment list" where
  "load_attachments db mid = sort_key at_index (filter (\<lambda>a. at_message a = mid) (db_attachments db))"

definition get_message :: "database \<Rightarrow> nat \<Rightarrow> (message_row \<times> attachment list) option" where
  "get_message db mid = map_option (\<lambda>m. (m, load_attachments db mid)) (row_of db mid)"

text \<open>\<open>ORDER BY id DESC LIMIT\<close>: a negative limit is no limit in SQLite.\<close>

definition list_messages :: "database \<Rightarrow> int \<Rightarrow> nat option \<Rightarrow> (message_row \<times> attachment list) list" where
  "list_messages db limit before =
     (let rows = rev (sort_key mr_id (filter (\<lambda>m. case before of Some b \<Rightarrow> mr_id m < b | None \<Rightarrow> True) (db_messages db)));
          page = (if limit < 0 then rows else take (nat limit) rows)
      in map (\<lambda>m. (m, load_attachments db (mr_id m))) page)"

definition ext_for :: "string \<Rightarrow> string" where
  "ext_for content_type =
     (let t = trim (hd (split_on (CHR '';'') content_type)) in
      case map_of [(''text/plain'', ''.txt''), (''text/html'', ''.html''), (''image/jpeg'', ''.jpg''),
          (''image/png'', ''.png''), (''image/gif'', ''.gif''), (''audio/amr'', ''.amr''),
          (''video/3gpp'', ''.3gp''), (''application/smil'', ''.smil'')] t of
        Some e \<Rightarrow> e | None \<Rightarrow> ''.bin'')"

text \<open>The characters of a text, each as its encoding.\<close>

function utf8_chars :: "string \<Rightarrow> string list" where
  "utf8_chars s =
     (if s = [] then [] else (let n = snd (utf8_step s) in take n s # utf8_chars (drop n s)))"
  by pat_completeness auto
termination
proof (relation "measure length")
  fix s :: string and n
  assume "s \<noteq> []" "n = snd (utf8_step s)"
  then show "(drop n s, s) \<in> measure length" using utf8_step_pos [of s] by simp
qed simp

declare utf8_chars.simps [simp del]

text \<open>\<open>char::is_alphanumeric\<close>: the table of the characters outside ASCII is an argument.\<close>

definition alphanumeric :: "(string \<Rightarrow> bool) \<Rightarrow> string \<Rightarrow> bool" where
  "alphanumeric unicode u =
     (case u of
        [c] \<Rightarrow> (48 \<le> byte_of c \<and> byte_of c \<le> 57) \<or> (65 \<le> byte_of c \<and> byte_of c \<le> 90) \<or>
               (97 \<le> byte_of c \<and> byte_of c \<le> 122)
      | _ \<Rightarrow> unicode u)"

definition clean_name :: "(string \<Rightarrow> bool) \<Rightarrow> string \<Rightarrow> string" where
  "clean_name unicode n = concat (map (\<lambda>u. if alphanumeric unicode u \<or> u \<in> {''.'', ''_'', ''-''} then u else ''_'')
     (utf8_chars n))"

definition attachment_base :: "(string \<Rightarrow> bool) \<Rightarrow> string option \<Rightarrow> string \<Rightarrow> string" where
  "attachment_base unicode name fallback =
     (case map_option (clean_name unicode) name of
        Some clean \<Rightarrow> if clean \<noteq> [] \<and> clean \<noteq> ''.'' \<and> clean \<noteq> ''..'' then clean else fallback
      | None \<Rightarrow> fallback)"

definition sanitize_name :: "(string \<Rightarrow> bool) \<Rightarrow> string option \<Rightarrow> int \<Rightarrow> string \<Rightarrow> string" where
  "sanitize_name unicode name i content_type =
     show_int i @ ''_'' @ attachment_base unicode name (''part'' @ show_int i @ ext_for content_type)"

definition add_attachment :: "attachment \<Rightarrow> database \<Rightarrow> database" where
  "add_attachment a db =
     (let same = (\<lambda>b. at_message b = at_message a \<and> at_index b = at_index a) in
      db\<lparr>db_attachments :=
        (if list_ex same (db_attachments db) then map (\<lambda>b. if same b then a else b) (db_attachments db)
         else db_attachments db @ [a])\<rparr>)"

definition prune_attachments :: "nat \<Rightarrow> int \<Rightarrow> database \<Rightarrow> string list \<times> database" where
  "prune_attachments mid keep db =
     (let stale = (\<lambda>a. at_message a = mid \<and> keep < at_index a) in
      (map at_path (filter stale (db_attachments db)),
       db\<lparr>db_attachments := filter (\<lambda>a. \<not> stale a) (db_attachments db)\<rparr>))"

definition attachment_path :: "database \<Rightarrow> nat \<Rightarrow> int \<Rightarrow> (string \<times> string) option" where
  "attachment_path db mid i = map_option (\<lambda>a. (at_path a, at_content_type a))
     (find (\<lambda>a. at_message a = mid \<and> at_index a = i) (db_attachments db))"

section \<open>Call detail records\<close>

definition start_call :: "string \<Rightarrow> msg_direction \<Rightarrow> string \<Rightarrow> database \<Rightarrow> nat \<times> database" where
  "start_call now dir peer db =
     (db_next_call db,
      db\<lparr>db_calls := db_calls db @ [\<lparr>cl_row_id = db_next_call db, cl_row_direction = dir, cl_row_peer = peer,
           cl_row_started = now, cl_row_answered = None, cl_row_ended = None\<rparr>],
         db_next_call := db_next_call db + 1\<rparr>)"

definition update_call :: "nat \<Rightarrow> (call_row \<Rightarrow> call_row) \<Rightarrow> database \<Rightarrow> database" where
  "update_call mid f db = db\<lparr>db_calls := map (\<lambda>c. if cl_row_id c = mid then f c else c) (db_calls db)\<rparr>"

definition call_answered :: "string \<Rightarrow> nat \<Rightarrow> database \<Rightarrow> database" where
  "call_answered now mid = update_call mid (\<lambda>c. c\<lparr>cl_row_answered := Some now\<rparr>)"

definition call_ended :: "string \<Rightarrow> nat \<Rightarrow> string \<Rightarrow> database \<Rightarrow> database" where
  "call_ended now mid disposition = update_call mid (\<lambda>c. c\<lparr>cl_row_ended := Some (now, disposition)\<rparr>)"

section \<open>What the tables guarantee\<close>

datatype db_op = InsertMessage string new_message | UpdateMms nat "string option" "string option" "string option"
  | SetStatus nat string "string option" | AddAttachment attachment | Prune nat int
  | StartCall string msg_direction string | CallAnswered string nat | CallEnded string nat string

fun db_step :: "db_op \<Rightarrow> database \<Rightarrow> database" where
  "db_step (InsertMessage now msg) db = snd (insert_message now msg db)"
| "db_step (UpdateMms i s b t) db = update_received_mms i s b t db"
| "db_step (SetStatus i s e) db = set_status i s e db"
| "db_step (AddAttachment a) db = add_attachment a db"
| "db_step (Prune i keep) db = snd (prune_attachments i keep db)"
| "db_step (StartCall now dir peer) db = snd (start_call now dir peer db)"
| "db_step (CallAnswered now i) db = call_answered now i db"
| "db_step (CallEnded now i d) db = call_ended now i d db"

text \<open>The keys the schema declares unique.\<close>

definition external_key :: "message_row \<Rightarrow> string \<times> msg_direction \<times> string option" where
  "external_key m = (nm_kind m, nm_direction m, nm_external_id m)"

definition unique_keys :: "database \<Rightarrow> bool" where
  "unique_keys db \<longleftrightarrow>
     distinct (map mr_id (db_messages db)) \<and> (\<forall>m \<in> set (db_messages db). mr_id m < db_next_message db) \<and>
     distinct (map external_key (filter (\<lambda>m. nm_external_id m \<noteq> None) (db_messages db))) \<and>
     distinct (map (\<lambda>a. (at_message a, at_index a)) (db_attachments db)) \<and>
     distinct (map cl_row_id (db_calls db)) \<and> (\<forall>c \<in> set (db_calls db). cl_row_id c < db_next_call db)"

lemma map_update_key:
  assumes "\<And>x. key (f x) = key x" shows "map key (map (\<lambda>x. if P x then f x else x) xs) = map key xs"
  using assms by (induction xs) auto

lemma filter_map_same:
  assumes "\<And>x. P (f x) = P x" shows "filter P (map f xs) = map f (filter P xs)"
  using assms by (induction xs) auto

lemma unique_keys_update_row:
  assumes "unique_keys db" and "\<And>m. mr_id (f m) = mr_id m" and "\<And>m. external_key (f m) = external_key m"
  shows "unique_keys (update_row i f db)"
proof -
  let ?g = "\<lambda>m. if mr_id m = i then f m else m"
  have ext: "nm_external_id (f m) = nm_external_id m" for m using assms(3) [of m] by (simp add: external_key_def)
  have "filter (\<lambda>m. nm_external_id m \<noteq> None) (map ?g (db_messages db)) =
      map ?g (filter (\<lambda>m. nm_external_id m \<noteq> None) (db_messages db))"
    by (rule filter_map_same) (simp add: ext)
  then show ?thesis
    using assms(1) map_update_key [of mr_id f "\<lambda>m. mr_id m = i"] map_update_key [of external_key f "\<lambda>m. mr_id m = i"]
      assms(2,3) by (auto simp: unique_keys_def update_row_def simp del: map_map)
qed

lemma unique_keys_insert:
  assumes "unique_keys db" shows "unique_keys (snd (insert_message now msg db))"
proof (cases "known_message db msg")
  case False
  let ?m = "new_message.extend msg (message_row.fields (db_next_message db) now None)"
  have fields: "mr_id ?m = db_next_message db" "external_key ?m = (nm_kind msg, nm_direction msg, nm_external_id msg)"
    "nm_external_id ?m = nm_external_id msg"
    by (simp_all add: new_message.defs message_row.defs external_key_def)
  have "\<forall>m \<in> set (db_messages db). external_key m \<noteq> (nm_kind msg, nm_direction msg, nm_external_id msg)"
    if "nm_external_id msg \<noteq> None"
    using False that by (auto simp: known_message_def external_key_def same_external_def list_ex_iff split: option.splits)
  with assms False show ?thesis
    by (auto simp: insert_message_def unique_keys_def fields)
qed (use assms in \<open>simp add: insert_message_def\<close>)

lemma unique_keys_add_attachment:
  assumes "unique_keys db" shows "unique_keys (add_attachment a db)"
proof -
  let ?key = "\<lambda>b. (at_message b, at_index b)"
  let ?same = "\<lambda>b. at_message b = at_message a \<and> at_index b = at_index a"
  have "map ?key (map (\<lambda>b. if ?same b then a else b) xs) = map ?key xs" for xs by (induction xs) auto
  then show ?thesis
    using assms by (auto simp: unique_keys_def add_attachment_def Let_def list_ex_iff simp del: map_map)
qed

lemma unique_keys_update_call:
  assumes "unique_keys db" and "\<And>c. cl_row_id (f c) = cl_row_id c" shows "unique_keys (update_call i f db)"
  using assms map_update_key [of cl_row_id f "\<lambda>c. cl_row_id c = i"]
  by (auto simp: unique_keys_def update_call_def simp del: map_map)

lemma distinct_map_filter_keys: "distinct (map f xs) \<Longrightarrow> distinct (map f (filter P xs))"
  by (simp add: distinct_map_filter)

text \<open>Property C36: over any sequence of operations the keys the schema declares unique stay unique: the
  row identifiers, the external identity of a message per kind and direction (so the insertion never
  runs into the unique index it relies on), the position of an attachment in its message.\<close>

theorem database_keys_unique: "unique_keys (fold db_step ops empty_database)"
proof -
  have "unique_keys (db_step op db)" if "unique_keys db" for op db
  proof (cases op)
    case (InsertMessage now msg)
    with that show ?thesis by (simp add: unique_keys_insert)
  next
    case (UpdateMms i s b t)
    with that show ?thesis
      by (simp add: update_received_mms_def) (rule unique_keys_update_row, simp_all add: external_key_def)
  next
    case (SetStatus i s e)
    with that show ?thesis
      by (simp add: set_status_def) (rule unique_keys_update_row, simp_all add: external_key_def)
  next
    case (AddAttachment a)
    with that show ?thesis by (simp add: unique_keys_add_attachment)
  next
    case (Prune i keep)
    with that show ?thesis by (simp add: unique_keys_def prune_attachments_def Let_def distinct_map_filter_keys)
  next
    case (StartCall now dir peer)
    with that show ?thesis by (auto simp: unique_keys_def start_call_def)
  next
    case (CallAnswered now i)
    with that show ?thesis by (simp add: call_answered_def unique_keys_update_call)
  next
    case (CallEnded now i d)
    with that show ?thesis by (simp add: call_ended_def unique_keys_update_call)
  qed
  then have "unique_keys db \<Longrightarrow> unique_keys (fold db_step ops db)" for db
    by (induction ops arbitrary: db) simp_all
  then show ?thesis by (simp add: unique_keys_def empty_database_def)
qed

text \<open>A received message that was offered to the table once is known to it, whatever is inserted,
  and whatever statuses are set, afterwards.\<close>

definition keeps_content :: "db_op \<Rightarrow> bool" where
  "keeps_content op \<longleftrightarrow> (case op of UpdateMms _ _ _ _ \<Rightarrow> False | _ \<Rightarrow> True)"

definition same_announcement :: "new_message \<Rightarrow> new_message \<Rightarrow> bool" where
  "same_announcement a b \<longleftrightarrow> nm_direction a = Incoming \<and> nm_direction b = Incoming \<and> nm_kind a = nm_kind b \<and>
     nm_peer a = nm_peer b \<and> nm_timestamp a = nm_timestamp b \<and>
     if_null (nm_text a) = if_null (nm_text b) \<and> (case nm_timestamp a of Some ts \<Rightarrow> ts \<noteq> [] | None \<Rightarrow> False)"

definition stored_content :: "database \<Rightarrow> new_message \<Rightarrow> bool" where
  "stored_content db msg \<longleftrightarrow>
     (case nm_timestamp msg of Some ts \<Rightarrow> list_ex (same_content msg ts) (db_messages db) | None \<Rightarrow> False)"

lemma list_ex_update: "(\<And>x. P (f x) = P x) \<Longrightarrow> list_ex P (map (\<lambda>x. if Q x then f x else x) xs) = list_ex P xs"
  by (induction xs) auto

lemma stored_content_step:
  assumes "stored_content db msg" and "keeps_content op" shows "stored_content (db_step op db) msg"
proof (cases op)
  case (SetStatus i s e)
  have "list_ex (same_content msg ts) (map (\<lambda>m. if mr_id m = i then m\<lparr>nm_status := s, mr_error := e\<rparr> else m) ms) =
      list_ex (same_content msg ts) ms" for ts ms
    by (rule list_ex_update) (simp add: same_content_def)
  then show ?thesis
    using assms(1) SetStatus by (simp add: stored_content_def set_status_def update_row_def cong: option.case_cong)
qed (use assms in \<open>auto simp: stored_content_def keeps_content_def insert_message_def add_attachment_def
    prune_attachments_def start_call_def call_answered_def call_ended_def update_call_def Let_def split: option.splits\<close>)

text \<open>A received message is stored once: when the modem announces it again, under whatever
  object path and hence external identity, after any further messages, statuses, attachments and
  calls, the second insertion reports a duplicate and changes nothing.\<close>

lemma reannounced_message_stored_once:
  assumes "same_announcement msg again" and "list_all keeps_content ops"
    and "fst (insert_message now msg db) \<noteq> None"
  shows "insert_message later again (fold db_step ops (snd (insert_message now msg db))) =
    (None, fold db_step ops (snd (insert_message now msg db)))"
proof -
  from assms(1) obtain ts where ts: "nm_timestamp msg = Some ts" "nm_timestamp again = Some ts" "ts \<noteq> []"
    by (auto simp: same_announcement_def split: option.splits)
  have "stored_content (snd (insert_message now msg db)) again"
    using assms(1,3) ts
    by (auto simp: insert_message_def stored_content_def same_content_def same_announcement_def
        new_message.defs message_row.defs split: if_splits)
  then have "stored_content (fold db_step ops (snd (insert_message now msg db))) again"
    using assms(2) by (induction ops arbitrary: db rule: rev_induct) (simp_all add: stored_content_step)
  then have "known_message (fold db_step ops (snd (insert_message now msg db))) again"
    using assms(1) ts by (simp add: known_message_def stored_content_def same_announcement_def)
  then show ?thesis by (simp add: insert_message_def)
qed

definition example_sms :: "string \<Rightarrow> new_message" where
  "example_sms ext = \<lparr>nm_kind = ''sms'', nm_direction = Incoming, nm_peer = ''01012345678'', nm_own_number = None,
     nm_subject = None, nm_text = Some ''hello'', nm_timestamp = Some ''2026-07-31T15:24:46+09'',
     nm_status = ''received'', nm_external_id = Some ext, nm_raw = None\<rparr>"

theorem reannounced_message_stored_once_witness:
  "fst (insert_message ''t2'' (example_sms ''/SMS/11'')
    (set_status 1 ''read'' None (snd (insert_message ''t1'' (example_sms ''/SMS/4'') empty_database)))) = None"
proof -
  have "same_announcement (example_sms ''/SMS/4'') (example_sms ''/SMS/11'')"
    "fst (insert_message ''t1'' (example_sms ''/SMS/4'') empty_database) \<noteq> None"
    by (simp_all add: same_announcement_def example_sms_def insert_message_def known_message_def empty_database_def)
  then show ?thesis
    using reannounced_message_stored_once [of "example_sms ''/SMS/4''" "example_sms ''/SMS/11''"
        "[SetStatus 1 ''read'' None]" "''t1''" empty_database "''t2''"]
    by (simp add: keeps_content_def)
qed

section \<open>Names of attachment files\<close>

lemma utf8_step_width: "snd (utf8_step s) \<le> 4"
  by (simp add: utf8_step_def Let_def)

lemma byte_at_nth: "i < length s \<Longrightarrow> byte_at s i = byte_of (s ! i)"
  by (simp add: byte_at_def)

lemma utf8_step_multi:
  assumes "snd (utf8_step s) \<noteq> 1" and "i < snd (utf8_step s)" and "i < length s" shows "128 \<le> byte_of (s ! i)"
proof -
  have "i \<in> {0, 1, 2, 3}" using assms(2) utf8_step_width [of s] by auto
  moreover have "128 \<le> byte_at s 0" using assms(1) by (auto simp: utf8_step_def Let_def split: if_splits)
  moreover have "128 \<le> byte_at s 1" if "1 < snd (utf8_step s)"
    using that by (auto simp: utf8_step_def Let_def in_range_def split: if_splits)
  moreover have "128 \<le> byte_at s 2" if "2 < snd (utf8_step s)"
    using that by (auto simp: utf8_step_def Let_def in_range_def split: if_splits)
  moreover have "128 \<le> byte_at s 3" if "3 < snd (utf8_step s)"
    using that by (auto simp: utf8_step_def Let_def in_range_def split: if_splits)
  ultimately have "128 \<le> byte_at s i" using assms(2) by auto
  then show ?thesis using assms(3) by (simp add: byte_at_nth)
qed

lemma utf8_chars_Nil [simp]: "utf8_chars [] = []"
  by (subst utf8_chars.simps) simp

text \<open>A character of a text is one ASCII byte, or consists of bytes above ASCII.\<close>

lemma utf8_chars_shape:
  "u \<in> set (utf8_chars s) \<Longrightarrow> (\<exists>c. u = [c]) \<or> (u \<noteq> [] \<and> (\<forall>c \<in> set u. 128 \<le> byte_of c))"
proof (induction s rule: utf8_chars.induct)
  case (1 s)
  show ?case
  proof (cases "s = []")
    case False
    let ?n = "snd (utf8_step s)"
    from "1.prems" False consider "u = take ?n s" | "u \<in> set (utf8_chars (drop ?n s))"
      by (auto simp: utf8_chars.simps [of s] Let_def)
    then show ?thesis
    proof cases
      case 1
      show ?thesis
      proof (cases "?n = 1")
        case True
        with 1 False show ?thesis by (cases s) simp_all
      next
        case n: False
        have "128 \<le> byte_of c" if "c \<in> set u" for c
          using that 1 utf8_step_multi [OF n] by (auto simp: in_set_conv_nth)
        moreover have "u \<noteq> []" using 1 False utf8_step_pos [of s] by simp
        ultimately show ?thesis by blast
      qed
    next
      case 2
      with "1.IH" False show ?thesis by blast
    qed
  qed (use "1.prems" in simp)
qed

lemma ext_for_plain: "CHR ''/'' \<notin> set (ext_for t)"
  by (auto simp: ext_for_def Let_def split: option.splits if_splits)

lemma clean_char_plain:
  assumes "u \<in> set (utf8_chars s)"
  shows "CHR ''/'' \<notin> set (if alphanumeric unicode u \<or> u \<in> {''.'', ''_'', ''-''} then u else ''_'')"
proof (cases "\<exists>c. u = [c]")
  case True
  then show ?thesis by (auto simp: alphanumeric_def byte_of_def)
next
  case False
  then have "\<forall>c \<in> set u. 128 \<le> byte_of c" using utf8_chars_shape [OF assms] by blast
  moreover have "byte_of (CHR ''/'') = 47" by (simp add: byte_of_def)
  ultimately show ?thesis by auto
qed

lemma clean_name_plain: "CHR ''/'' \<notin> set (clean_name unicode n)"
  unfolding clean_name_def set_concat set_map using clean_char_plain [of _ n unicode] by blast

lemma show_int_plain: "CHR ''/'' \<notin> set (show_int i)" "CHR ''_'' \<notin> set (show_int i)" "CHR ''.'' \<notin> set (show_int i)"
  "show_int i \<noteq> []"
  by (simp_all add: show_int_def show_nat_notin byte_of_def)

text \<open>The name of an attachment's file, made from a name in a message any stranger may
  have written, has no separator in it and is neither empty nor the directory itself nor its parent,
  so the file stays in the directory of its message; the part before its first underscore is the
  index, so two attachments of one message never get one file.\<close>

lemma attachment_name_safe:
  "CHR ''/'' \<notin> set (sanitize_name unicode name i t) \<and> sanitize_name unicode name i t \<notin> {[], ''.'', ''..''} \<and>
   takeWhile (\<lambda>c. c \<noteq> CHR ''_'') (sanitize_name unicode name i t) = show_int i"
proof -
  define base where "base = attachment_base unicode name (''part'' @ show_int i @ ext_for t)"
  have base: "sanitize_name unicode name i t = show_int i @ CHR ''_'' # base" by (simp add: sanitize_name_def base_def)
  have "CHR ''/'' \<notin> set base"
    using clean_name_plain ext_for_plain [of t] show_int_plain [of i]
    by (auto simp: base_def attachment_base_def split: option.splits)
  have "takeWhile (\<lambda>c. c \<noteq> CHR ''_'') (show_int i @ CHR ''_'' # base) = show_int i"
    using show_int_plain(2) by (rule takeWhile_noteq_append)
  moreover have "CHR ''_'' \<in> set (sanitize_name unicode name i t)" by (simp add: base)
  then have "sanitize_name unicode name i t \<notin> {[], ''.'', ''..''}" by auto
  ultimately show ?thesis using base show_int_plain [of i] \<open>CHR ''/'' \<notin> set base\<close> by simp
qed

end
