(* ===== verification/Gateway.thy ===== *)
theory Gateway
  imports SipCore Config Database
begin

text \<open>
  The model of \<open>src/gateway.rs\<close>: one modem, one SIP endpoint, one call at a time. The state is the
  record \<open>gateway\<close>; every handler of the event loop is a function of it. What a handler asks of the
  modem is appended to \<open>gw_ops\<close>, what it leaves to a task of its own to \<open>gw_spawned\<close>; a task that runs
  is a function of the state again (\<open>run_job\<close>). The answers of the outside world to one event
  (ModemManager, the operating system, random bytes, clocks, the name service) are the record
  \<open>gw_env\<close>. A function that returns \<open>Err\<close> returns \<open>False\<close> next to the state it has reached; sends on
  the SIP socket are taken to succeed. Log lines, and the AT command that wakes the modem's USB voice
  path, whose failure is only logged, have no counterpart.
\<close>

datatype role = FromSip | ToSip

text \<open>The tasks a call owns, aborted with it: the wait for the answers to an INVITE (with the branch of
  its transaction), the watch for early media, the two relays of digits.\<close>

datatype call_task = InviteTask string | EarlyMediaWatch | InbandRelay | Rfc2833Relay

record active_call =
  ca_role :: role
  ca_mm_path :: "string option"
  ca_peer_number :: string
  ca_call_id :: string
  ca_local :: name_addr
  ca_remote :: name_addr
  ca_remote_target :: uri
  ca_remote_addr :: socket_addr
  ca_local_cseq :: u32
  ca_invite :: request
  ca_invite_src :: "socket_addr option"
  ca_media :: "session option"
  ca_rtp_socket :: bool
  ca_local_rtp_port :: u16
  ca_codec :: codec
  ca_remote_sdp :: "sdp option"
  ca_media_dtmf_pt :: "u8 option"
  ca_answered :: bool
  ca_auth_retried :: bool
  ca_ringing_sent :: bool
  ca_early_media :: bool
  ca_dtmf_via_modem_failed :: bool
  ca_cdr_id :: "nat option"
  ca_tasks :: "call_task list"

text \<open>The modem as the gateway sees it: the number of its SIM and the ALSA name of its sound card.\<close>

record modem_handle =
  mh_path :: string
  mh_own_number :: "string option"
  mh_alsa :: "string option"

record call_info =
  ci_number :: string
  ci_direction :: int
  ci_state :: int
  ci_audio_port :: "string option"

text \<open>What the gateway asks of ModemManager.\<close>

datatype modem_op = Dial string | Hangup string | Accept string | SendDtmf string string | DeleteCall string

text \<open>What is left to a task of its own.\<close>

datatype job =
    SendAndWait request socket_addr
  | SmsRetryLater string nat
  | DeleteFromModem string
  | SubmitSms request socket_addr string string
  | SubmitMms request socket_addr string
  | NotifySip string string string
  | HandlePush string sms_info string

record gateway =
  gw_cfg :: config
  gw_core :: sip_core
  gw_db :: database
  gw_modem :: "modem_handle option"
  gw_call :: "active_call option"
  gw_ops :: "modem_op list"
  gw_spawned :: "job list"

record gw_env =
  ge_sip :: sip_env
  ge_bye_branch :: "u8 list"
  ge_tag :: "u8 list"
  ge_call_rand :: "u8 list"
  ge_sdp_now :: u64
  ge_iso :: string
  ge_db_ok :: bool
  ge_lookup :: "string \<Rightarrow> u16 \<Rightarrow> socket_addr list"
  ge_order :: "string list"
  ge_bind :: "ip_addr \<Rightarrow> u16 \<Rightarrow> bind_outcome"
  ge_slot :: nat
  ge_dial :: "string \<Rightarrow> string option"
  ge_call_info :: "string \<Rightarrow> call_info option"
  ge_accept :: "string \<Rightarrow> bool"
  ge_dtmf :: "string \<Rightarrow> string \<Rightarrow> bool"
  ge_sms_info :: "string \<Rightarrow> sms_info option"
  ge_audio_opens :: bool
  ge_audio_failed :: bool
  ge_stream :: "u16 \<times> u32 \<times> u32"
  ge_samples :: "char \<Rightarrow> u32 \<Rightarrow> i16 list option"

section \<open>Small steps\<close>

definition with_core :: "(sip_core \<Rightarrow> sip_core) \<Rightarrow> gateway \<Rightarrow> gateway" where
  "with_core f gw = gw\<lparr>gw_core := f (gw_core gw)\<rparr>"

definition with_call :: "(active_call \<Rightarrow> active_call) \<Rightarrow> gateway \<Rightarrow> gateway" where
  "with_call f gw = gw\<lparr>gw_call := map_option f (gw_call gw)\<rparr>"

definition modem_does :: "modem_op \<Rightarrow> gateway \<Rightarrow> gateway" where
  "modem_does op gw = gw\<lparr>gw_ops := gw_ops gw @ [op]\<rparr>"

definition spawn_job :: "job \<Rightarrow> gateway \<Rightarrow> gateway" where
  "spawn_job j gw = gw\<lparr>gw_spawned := gw_spawned gw @ [j]\<rparr>"

definition add_task :: "call_task \<Rightarrow> active_call \<Rightarrow> active_call" where
  "add_task t c = c\<lparr>ca_tasks := ca_tasks c @ [t]\<rparr>"

definition call_path :: "gateway \<Rightarrow> string option" where
  "call_path gw = Option.bind (gw_call gw) ca_mm_path"

text \<open>The hang-up of the mobile leg that several handlers share: if there is a modem and a call object.\<close>

definition hangup_leg :: "string option \<Rightarrow> gateway \<Rightarrow> gateway" where
  "hangup_leg path gw =
     (case (gw_modem gw, path) of (Some _, Some p) \<Rightarrow> modem_does (Hangup p) gw | _ \<Rightarrow> gw)"

definition invite_dest :: "active_call \<Rightarrow> socket_addr" where
  "invite_dest c = (case ca_invite_src c of Some s \<Rightarrow> s | None \<Rightarrow> ca_remote_addr c)"

definition db_run :: "gw_env \<Rightarrow> (database \<Rightarrow> database) \<Rightarrow> gateway \<Rightarrow> gateway" where
  "db_run ge f gw = (if ge_db_ok ge then gw\<lparr>gw_db := f (gw_db gw)\<rparr> else gw)"

definition db_start_call :: "gw_env \<Rightarrow> msg_direction \<Rightarrow> string \<Rightarrow> gateway \<Rightarrow> nat option \<times> gateway" where
  "db_start_call ge dir peer gw =
     (if ge_db_ok ge
      then (let (cid, db) = start_call (ge_iso ge) dir peer (gw_db gw) in (Some cid, gw\<lparr>gw_db := db\<rparr>))
      else (None, gw))"

definition cdr_answered :: "gw_env \<Rightarrow> nat option \<Rightarrow> gateway \<Rightarrow> gateway" where
  "cdr_answered ge cid gw = (case cid of Some i \<Rightarrow> db_run ge (call_answered (ge_iso ge) i) gw | None \<Rightarrow> gw)"

definition cdr_ended :: "gw_env \<Rightarrow> nat option \<Rightarrow> string \<Rightarrow> gateway \<Rightarrow> gateway" where
  "cdr_ended ge cid disposition gw =
     (case cid of Some i \<Rightarrow> db_run ge (call_ended (ge_iso ge) i disposition) gw | None \<Rightarrow> gw)"

definition gw_local_number :: "gateway \<Rightarrow> string \<Rightarrow> string" where
  "gw_local_number gw n =
     (let m = cf_modem (gw_cfg gw) in to_national n (mm_country_code m) (mm_national_prefix m))"

definition gw_own_number :: "gateway \<Rightarrow> string option" where
  "gw_own_number gw =
     (let m = cf_modem (gw_cfg gw) in
      own_number (mm_own_number m) (Option.bind (gw_modem gw) mh_own_number)
        (mm_country_code m) (mm_national_prefix m))"

definition body_str :: "request \<Rightarrow> string" where
  "body_str req = from_utf8_lossy (rq_body req)"

definition cseq_number :: "headers \<Rightarrow> u32 option" where
  "cseq_number h = map_option fst (h_cseq h)"

text \<open>\<open>Option\<close> orders \<open>None\<close> before every number.\<close>

fun cseq_le :: "u32 option \<Rightarrow> u32 option \<Rightarrow> bool" where
  "cseq_le None _ = True"
| "cseq_le (Some _) None = False"
| "cseq_le (Some a) (Some b) = (a \<le> b)"

section \<open>Dialogs\<close>

definition in_dialog_of :: "active_call \<Rightarrow> request \<Rightarrow> bool" where
  "in_dialog_of c req \<longleftrightarrow>
     (if h_call_id (rq_headers req) \<noteq> Some (ca_call_id c) then False
      else (let to_tag = Option.bind (h_to (rq_headers req)) na_tag;
                from_tag = Option.bind (h_from (rq_headers req)) na_tag in
        if na_tag (ca_local c) \<noteq> None \<and> to_tag \<noteq> na_tag (ca_local c) then False
        else (case na_tag (ca_remote c) of Some r \<Rightarrow> from_tag = Some r | None \<Rightarrow> True)))"

definition in_dialog :: "gateway \<Rightarrow> request \<Rightarrow> bool" where
  "in_dialog gw req \<longleftrightarrow> (case gw_call gw of Some c \<Rightarrow> in_dialog_of c req | None \<Rightarrow> False)"

definition call_id_matches :: "gateway \<Rightarrow> string \<Rightarrow> bool" where
  "call_id_matches gw cid \<longleftrightarrow> (case gw_call gw of Some c \<Rightarrow> ca_call_id c = cid | None \<Rightarrow> False)"

definition build_in_dialog_request :: "sip_env \<Rightarrow> sip_core \<Rightarrow> active_call \<Rightarrow> sip_method \<Rightarrow> request \<times> sip_core" where
  "build_in_dialog_request en co c mth =
     (let (cseq, co1) = next_cseq co
      in (build_request co1 en mth (ca_remote_target c) (ca_local c) (ca_remote c) (ca_call_id c) cseq
            (ca_remote_addr c) True, co1))"

definition build_ack :: "sip_env \<Rightarrow> sip_core \<Rightarrow> active_call \<Rightarrow> request" where
  "build_ack en co c =
     (let ack = build_request co en Ack (ca_remote_target c) (ca_local c) (ca_remote c) (ca_call_id c)
            (ca_local_cseq c) (ca_remote_addr c) True
      in ack\<lparr>rq_headers := hset (rq_headers ack) ''cseq'' (show_nat (unat (ca_local_cseq c)) @ '' ACK'')\<rparr>)"

text \<open>The ACK of a refused INVITE and the CANCEL of a pending one: the INVITE with another method.\<close>

definition derived_request :: "sip_method \<Rightarrow> active_call \<Rightarrow> request" where
  "derived_request mth c =
     (ca_invite c)\<lparr>rq_method := mth, rq_body := [],
        rq_headers := hset (hremove (rq_headers (ca_invite c)) ''content-type'') ''cseq''
          (show_nat (unat (ca_local_cseq c)) @ '' '' @ method_str mth)\<rparr>"

definition ack_failure :: "response \<Rightarrow> gateway \<Rightarrow> gateway" where
  "ack_failure resp gw =
     (case gw_call gw of
        None \<Rightarrow> gw
      | Some c \<Rightarrow>
          if ca_role c \<noteq> ToSip then gw
          else (let ack = derived_request Ack c;
                    ack' = (case hget (rs_headers resp) ''to'' of
                       Some t \<Rightarrow> ack\<lparr>rq_headers := hset (rq_headers ack) ''to'' t\<rparr> | None \<Rightarrow> ack)
                in with_core (\<lambda>co. send_raw co ack' (ca_remote_addr c)) gw))"

definition cancel_outgoing_invite :: "gateway \<Rightarrow> gateway" where
  "cancel_outgoing_invite gw =
     (case gw_call gw of
        None \<Rightarrow> gw
      | Some c \<Rightarrow>
          if ca_role c \<noteq> ToSip \<or> ca_answered c then gw
          else with_core (\<lambda>co. send_raw co (derived_request Cancel c) (ca_remote_addr c)) gw)"

section \<open>Replies\<close>

definition gw_respond :: "gw_env \<Rightarrow> request \<Rightarrow> socket_addr \<Rightarrow> response \<Rightarrow> gateway \<Rightarrow> gateway" where
  "gw_respond ge req src resp gw = with_core (\<lambda>co. respond co (ge_sip ge) req src resp) gw"

definition retry_after :: "gateway \<Rightarrow> string" where
  "retry_after gw = show_nat (unat (sp_retry_after_secs (cf_sip (gw_cfg gw))))"

definition gw_reply :: "gw_env \<Rightarrow> request \<Rightarrow> socket_addr \<Rightarrow> u16 \<Rightarrow> gateway \<Rightarrow> gateway" where
  "gw_reply ge req src code gw =
     (let resp = make_response (gw_core gw) (ge_sip ge) req code None;
          h = (if code = 503
               then hset (hset (rs_headers resp) ''retry-after'' (retry_after gw)) ''warning''
                      (''399 modem2sip '' @ quoted ''modem not available'')
               else rs_headers resp)
      in gw_respond ge req src (resp\<lparr>rs_headers := h\<rparr>) gw)"

text \<open>An answer to the INVITE of the call, with the call's own To header.\<close>

definition answer_invite :: "gw_env \<Rightarrow> u16 \<Rightarrow> active_call \<Rightarrow> gateway \<Rightarrow> gateway" where
  "answer_invite ge code c gw =
     (let resp = make_response (gw_core gw) (ge_sip ge) (ca_invite c) code None
      in gw_respond ge (ca_invite c) (invite_dest c)
           (resp\<lparr>rs_headers := hset (rs_headers resp) ''to'' (name_addr_show (ca_local c))\<rparr>) gw)"

definition send_provisional :: "gw_env \<Rightarrow> u16 \<Rightarrow> gateway \<Rightarrow> gateway" where
  "send_provisional ge code gw =
     (case gw_call gw of
        None \<Rightarrow> gw
      | Some c \<Rightarrow> answer_invite ge code c
          (if code = 180 then with_call (\<lambda>c. c\<lparr>ca_ringing_sent := True\<rparr>) gw else gw))"

section \<open>The end of a call\<close>

text \<open>\<open>finish_call\<close>: the media session stops with its tasks, the call is dropped, its record closed.\<close>

definition finish_call :: "gw_env \<Rightarrow> string \<Rightarrow> gateway \<Rightarrow> gateway" where
  "finish_call ge disposition gw =
     (case gw_call gw of
        None \<Rightarrow> gw
      | Some c \<Rightarrow> cdr_ended ge (ca_cdr_id c) disposition (gw\<lparr>gw_call := None\<rparr>))"

definition teardown_call :: "gw_env \<Rightarrow> string \<Rightarrow> u16 \<Rightarrow> gateway \<Rightarrow> gateway" where
  "teardown_call ge reason code gw =
     (case gw_call gw of
        None \<Rightarrow> gw
      | Some c \<Rightarrow>
          (let gw1 =
             (if ca_answered c then
                (let (bye, co) = build_in_dialog_request
                       ((ge_sip ge)\<lparr>en_branch := ge_bye_branch ge\<rparr>) (gw_core gw) c Bye
                 in spawn_job (SendAndWait bye (ca_remote_addr c)) (gw\<lparr>gw_core := co\<rparr>))
              else (case ca_role c of
                  FromSip \<Rightarrow>
                    (let code' = (if code < 400 then 480 else code);
                         resp = make_response (gw_core gw) (ge_sip ge) (ca_invite c) code' None;
                         h = hset (rs_headers resp) ''to'' (name_addr_show (ca_local c));
                         h' = (if code' = 503 then hset h ''retry-after'' (retry_after gw) else h)
                     in gw_respond ge (ca_invite c) (invite_dest c) (resp\<lparr>rs_headers := h'\<rparr>) gw)
                | ToSip \<Rightarrow> cancel_outgoing_invite gw))
           in finish_call ge reason (hangup_leg (ca_mm_path c) gw1)))"

section \<open>Media\<close>

definition rtp_bind_ip :: "gw_env \<Rightarrow> gateway \<Rightarrow> socket_addr \<Rightarrow> ip_addr" where
  "rtp_bind_ip ge gw peer =
     (case parse_ip (rt_bind (cf_rtp (gw_cfg gw))) of
        Some ip \<Rightarrow> ip
      | None \<Rightarrow>
          (let bound = sa_ip (co_bound (gw_core gw)) in
           if is_unspecified bound then advertised_ip (gw_core gw) (ge_sip ge) peer else bound))"

definition rtp_advertised_ip :: "gw_env \<Rightarrow> gateway \<Rightarrow> socket_addr \<Rightarrow> ip_addr" where
  "rtp_advertised_ip ge gw peer =
     (let rtp = cf_rtp (gw_cfg gw) in
      media_address (rt_public_ip rtp) (rt_bind rtp) (advertised_ip (gw_core gw) (ge_sip ge) peer))"

definition gw_bind_port :: "gw_env \<Rightarrow> gateway \<Rightarrow> socket_addr \<Rightarrow> bind_error + u16" where
  "gw_bind_port ge gw peer =
     (let rtp = cf_rtp (gw_cfg gw) in
      bind_port (ge_bind ge (rtp_bind_ip ge gw peer)) (ge_slot ge) (rt_port_min rtp) (rt_port_max rtp))"

definition new_session :: "gw_env \<Rightarrow> config \<Rightarrow> active_call \<Rightarrow> socket_addr \<Rightarrow> codec \<Rightarrow> session" where
  "new_session ge cfg c remote cd =
     (let rtp = cf_rtp cfg; period = ac_period_ms (cf_audio cfg); (seq, ts, ssrc) = ge_stream ge in
      session_start
        \<lparr>mc_codec = cd, mc_dtmf_pt = Option.bind (ca_remote_sdp c) sdp_telephone_event, mc_ptime_ms = period,
         mc_jitter_ms = rt_jitter_ms rtp, mc_symmetric = rt_symmetric rtp,
         mc_detect_inband = rt_detect_inband_dtmf rtp\<rparr>
        remote (rings_new (unat (rt_jitter_ms rtp)) (unat period)) (en_now (ge_sip ge)) seq ts ssrc)"

definition start_media :: "gw_env \<Rightarrow> socket_addr \<Rightarrow> codec \<Rightarrow> gateway \<Rightarrow> bool \<times> gateway" where
  "start_media ge remote cd gw =
     (case gw_modem gw of
        None \<Rightarrow> (False, gw)
      | Some modem \<Rightarrow>
          (let info = Option.bind (call_path gw) (ge_call_info ge) in
           case resolve_audio_devices (audio_cfg.truncate (cf_audio (gw_cfg gw))) (mh_alsa modem)
                  (Option.bind info ci_audio_port) of
             None \<Rightarrow> (False, gw)
           | Some _ \<Rightarrow>
               if \<not> ge_audio_opens ge then (False, gw)
               else (case gw_call gw of
                   None \<Rightarrow> (False, gw)
                 | Some c \<Rightarrow>
                     if \<not> ca_rtp_socket c then (False, gw)
                     else (True, with_call (\<lambda>c. add_task Rfc2833Relay (add_task InbandRelay
                       (c\<lparr>ca_rtp_socket := False,
                          ca_media_dtmf_pt := Option.bind (ca_remote_sdp c) sdp_telephone_event,
                          ca_media := Some (new_session ge (gw_cfg gw) c remote cd)\<rparr>))) gw))))"

definition sdp_endpoint :: "sdp \<Rightarrow> socket_addr" where
  "sdp_endpoint s = \<lparr>sa_ip = sdp_address s, sa_port = sdp_port s\<rparr>"

definition open_media_for_early_media :: "gw_env \<Rightarrow> gateway \<Rightarrow> bool \<times> gateway" where
  "open_media_for_early_media ge gw =
     (case gw_call gw of
        None \<Rightarrow> (True, gw)
      | Some c \<Rightarrow>
          if ca_media c \<noteq> None then (True, gw)
          else (case ca_remote_sdp c of
              None \<Rightarrow> (False, gw)
            | Some s \<Rightarrow> start_media ge (sdp_endpoint s) (ca_codec c) gw))"

definition allow_in_call :: string where
  "allow_in_call = ''INVITE, ACK, CANCEL, BYE, OPTIONS, INFO, MESSAGE''"

definition respond_with_media :: "gw_env \<Rightarrow> u16 \<Rightarrow> gateway \<Rightarrow> bool \<times> gateway" where
  "respond_with_media ge code gw =
     (case gw_call gw of
        None \<Rightarrow> (True, gw)
      | Some c0 \<Rightarrow>
          (case ca_remote_sdp c0 of
             None \<Rightarrow> (False, gw)
           | Some s \<Rightarrow>
               (let (ok, gw1) = (if ca_media c0 = None then start_media ge (sdp_endpoint s) (ca_codec c0) gw
                                 else (True, gw)) in
                if \<not> ok then (False, gw1)
                else (case gw_call gw1 of
                    None \<Rightarrow> (False, gw1)
                  | Some c \<Rightarrow>
                      (let answer = sdp_answer s (ge_sdp_now ge) (rtp_advertised_ip ge gw1 (ca_remote_addr c))
                             (ca_local_rtp_port c) (ca_codec c0)
                             (Some (rt_dtmf_payload_type (cf_rtp (gw_cfg gw1)))) (ac_period_ms (cf_audio (gw_cfg gw1)));
                           resp = make_response (gw_core gw1) (ge_sip ge) (ca_invite c) code None;
                           h = hset (hset (hset (rs_headers resp) ''content-type'' ''application/sdp'')
                                 ''to'' (name_addr_show (ca_local c))) ''allow'' allow_in_call
                       in (True, gw_respond ge (ca_invite c) (invite_dest c)
                             (resp\<lparr>rs_headers := h, rs_body := render answer\<rparr>) gw1))))))"

definition start_early_media :: "gw_env \<Rightarrow> gateway \<Rightarrow> bool \<times> gateway" where
  "start_early_media ge gw =
     (let (ok, gw1) = open_media_for_early_media ge gw in
      if \<not> ok then (False, gw1)
      else (True, with_call (\<lambda>c. (case ca_media c of
            None \<Rightarrow> c
          | Some m \<Rightarrow> add_task EarlyMediaWatch
              (c\<lparr>ca_media := Some (m\<lparr>ss_rings := reset_uplink_level (ss_rings m)\<rparr>)\<rparr>)))
          (send_provisional ge 180 gw1)))"

definition upgrade_to_early_media :: "gw_env \<Rightarrow> gateway \<Rightarrow> bool \<times> gateway" where
  "upgrade_to_early_media ge gw =
     (case gw_call gw of
        None \<Rightarrow> (True, gw)
      | Some c \<Rightarrow>
          if ca_early_media c \<or> ca_answered c then (True, gw)
          else (let (ok, gw1) = respond_with_media ge 183 gw in
                if ok then (True, with_call (\<lambda>c. c\<lparr>ca_early_media := True\<rparr>) gw1) else (False, gw1)))"

definition check_media :: "gw_env \<Rightarrow> gateway \<Rightarrow> gateway" where
  "check_media ge gw =
     (case Option.bind (gw_call gw) ca_media of
        None \<Rightarrow> gw
      | Some m \<Rightarrow>
          if ge_audio_failed ge then teardown_call ge ''the modem audio stream died'' 200 gw
          else
            (let peer_sending = (case Option.bind (gw_call gw) ca_remote_sdp of
                   Some s \<Rightarrow> peer_sends (sdp_sendrecv s) | None \<Rightarrow> True);
                 timeout = secs (unat (rt_timeout_secs (cf_rtp (gw_cfg gw)))) in
             if peer_sending \<and> timeout \<noteq> 0 \<and> timeout < silence m (en_now (ge_sip ge))
             then teardown_call ge ''the SIP peer stopped sending RTP'' 200 gw
             else gw))"

section \<open>Requests from the SIP side\<close>

definition incoming_call :: "gw_env \<Rightarrow> request \<Rightarrow> socket_addr \<Rightarrow> string \<Rightarrow> sdp \<Rightarrow> codec \<Rightarrow> name_addr \<Rightarrow> name_addr \<Rightarrow>
    string \<Rightarrow> u16 \<Rightarrow> string \<Rightarrow> nat option \<Rightarrow> u32 \<Rightarrow> active_call" where
  "incoming_call ge req src number offer cd to from call_id port path cdr cseq =
     \<lparr>ca_role = FromSip, ca_mm_path = Some path, ca_peer_number = number, ca_call_id = call_id,
      ca_local = na_with_tag to (random_hex (ge_tag ge)), ca_remote = from,
      ca_remote_target = (case h_contact (rq_headers req) of Some c \<Rightarrow> na_uri c | None \<Rightarrow> na_uri from),
      ca_remote_addr = src, ca_local_cseq = cseq, ca_invite = req, ca_invite_src = Some src,
      ca_media = None, ca_rtp_socket = True, ca_local_rtp_port = port, ca_codec = cd,
      ca_remote_sdp = Some offer, ca_media_dtmf_pt = None, ca_answered = False, ca_auth_retried = False,
      ca_ringing_sent = False, ca_early_media = False, ca_dtmf_via_modem_failed = False, ca_cdr_id = cdr,
      ca_tasks = []\<rparr>"

text \<open>An INVITE is placed: everything after the 100 Trying.\<close>

definition place_call :: "gw_env \<Rightarrow> request \<Rightarrow> socket_addr \<Rightarrow> string \<Rightarrow> sdp \<Rightarrow> codec \<Rightarrow> name_addr \<Rightarrow> name_addr \<Rightarrow>
    string \<Rightarrow> gateway \<Rightarrow> gateway" where
  "place_call ge req src number offer cd to from call_id gw =
     (case gw_bind_port ge gw src of
        Inl _ \<Rightarrow> gw_reply ge req src 500 gw
      | Inr port \<Rightarrow>
          (let gw1 = modem_does (Dial number) gw in
           case ge_dial ge number of
             None \<Rightarrow> gw_reply ge req src 503 gw1
           | Some path \<Rightarrow>
               (let (cdr, gw2) = db_start_call ge Outgoing number gw1;
                    (cseq, co) = next_cseq (gw_core gw2)
                in gw2\<lparr>gw_core := co, gw_call := Some
                     (incoming_call ge req src number offer cd to from call_id port path cdr cseq)\<rparr>)))"

definition on_new_invite :: "gw_env \<Rightarrow> request \<Rightarrow> socket_addr \<Rightarrow> gateway \<Rightarrow> gateway" where
  "on_new_invite ge req src gw =
     (if gw_modem gw = None then gw_reply ge req src 503 gw
      else
        (let number = sanitize_number (case u_user (rq_uri req) of Some u \<Rightarrow> u | None \<Rightarrow> []) in
         if number = [] then gw_reply ge req src 484 gw
         else (case sdp_parse (body_str req) of
             None \<Rightarrow> gw_reply ge req src 488 gw
           | Some offer \<Rightarrow>
               (case negotiate offer of
                  None \<Rightarrow> gw_reply ge req src 488 gw
                | Some cd \<Rightarrow>
                    if \<not> has_media offer then gw_reply ge req src 488 gw
                    else (case (h_to (rq_headers req), h_from (rq_headers req), h_call_id (rq_headers req)) of
                        (Some to, Some from, Some call_id) \<Rightarrow>
                          place_call ge req src number offer cd to from call_id (gw_reply ge req src 100 gw)
                      | _ \<Rightarrow> gw_reply ge req src 400 gw)))))"

text \<open>The answer to a re-INVITE describes the running stream; it names the telephone event type only
  where the running session listens for it.\<close>

definition reinvite_response :: "gw_env \<Rightarrow> request \<Rightarrow> socket_addr \<Rightarrow> active_call \<Rightarrow> sdp option \<Rightarrow> gateway \<Rightarrow> response" where
  "reinvite_response ge req src c offer gw =
     (let resp0 = make_response (gw_core gw) (ge_sip ge) req 200 None;
          resp1 = resp0\<lparr>rs_headers := hset (rs_headers resp0) ''to'' (name_addr_show (ca_local c))\<rparr>
      in case first_of offer (ca_remote_sdp c) of
          None \<Rightarrow> resp1
        | Some s \<Rightarrow>
            (let dtmf_pt = (if ca_media_dtmf_pt c \<noteq> None \<and> sdp_telephone_event s = ca_media_dtmf_pt c
                   then ca_media_dtmf_pt c else None);
                 answer = sdp_answer s (ge_sdp_now ge) (rtp_advertised_ip ge gw src) (ca_local_rtp_port c)
                   (ca_codec c) dtmf_pt (ac_period_ms (cf_audio (gw_cfg gw)))
             in resp1\<lparr>rs_headers := hset (rs_headers resp1) ''content-type'' ''application/sdp'',
                      rs_body := render answer\<rparr>))"

definition follow_offer :: "gw_env \<Rightarrow> sdp option \<Rightarrow> gateway \<Rightarrow> gateway" where
  "follow_offer ge offer gw =
     (case offer of
        None \<Rightarrow> gw
      | Some s \<Rightarrow> with_call (\<lambda>c. c\<lparr>ca_remote_sdp := Some s,
          ca_media := map_option (\<lambda>m. stamp (en_now (ge_sip ge)) (set_remote (sdp_endpoint s) m))
            (ca_media c)\<rparr>) gw)"

definition answer_reinvite :: "gw_env \<Rightarrow> request \<Rightarrow> socket_addr \<Rightarrow> active_call \<Rightarrow> sdp option \<Rightarrow> gateway \<Rightarrow> gateway" where
  "answer_reinvite ge req src c offer gw =
     gw_respond ge req src (reinvite_response ge req src c offer gw) (follow_offer ge offer gw)"

text \<open>A CSeq that is not above the one of the INVITE this call was opened with.\<close>

definition reinvite_pending :: "active_call \<Rightarrow> request \<Rightarrow> bool" where
  "reinvite_pending c req \<longleftrightarrow> \<not> ca_answered c \<or>
     (ca_role c = FromSip \<and> cseq_le (cseq_number (rq_headers req)) (cseq_number (rq_headers (ca_invite c))))"

definition on_sip_reinvite :: "gw_env \<Rightarrow> request \<Rightarrow> socket_addr \<Rightarrow> gateway \<Rightarrow> gateway" where
  "on_sip_reinvite ge req src gw =
     (case gw_call gw of
        None \<Rightarrow> gw
      | Some c \<Rightarrow>
          if reinvite_pending c req then gw_reply ge req src 491 gw
          else if \<not> in_dialog_of c req then gw_reply ge req src 481 gw
          else
            (let offer = (case sdp_parse (body_str req) of
                   Some s \<Rightarrow> if has_media s then Some s else None | None \<Rightarrow> None) in
             case offer of
               Some s \<Rightarrow> if payload_type (ca_codec c) \<notin> set (sdp_payload_types s)
                 then gw_reply ge req src 488 gw else answer_reinvite ge req src c offer gw
             | None \<Rightarrow> answer_reinvite ge req src c offer gw))"

definition on_sip_invite :: "gw_env \<Rightarrow> request \<Rightarrow> socket_addr \<Rightarrow> gateway \<Rightarrow> gateway" where
  "on_sip_invite ge req src gw =
     (case gw_call gw of
        None \<Rightarrow> on_new_invite ge req src gw
      | Some c \<Rightarrow>
          if h_call_id (rq_headers req) = Some (ca_call_id c) then
            (if \<not> ca_answered c then
               (if ca_early_media c then snd (respond_with_media ge 183 gw) else send_provisional ge 180 gw)
             else on_sip_reinvite ge req src gw)
          else gw_reply ge req src 486 gw)"

definition on_sip_bye :: "gw_env \<Rightarrow> request \<Rightarrow> socket_addr \<Rightarrow> gateway \<Rightarrow> gateway" where
  "on_sip_bye ge req src gw =
     (let ours = in_dialog gw req;
          resp = make_response (gw_core gw) (ge_sip ge) req (if ours then 200 else 481) None;
          gw1 = gw_respond ge req src resp gw
      in if ours then finish_call ge ''sip bye'' (hangup_leg (call_path gw1) gw1) else gw1)"

definition cancel_matches :: "active_call \<Rightarrow> request \<Rightarrow> bool" where
  "cancel_matches c req \<longleftrightarrow> ca_role c = FromSip \<and> \<not> ca_answered c \<and>
     h_call_id (rq_headers req) = Some (ca_call_id c) \<and>
     cseq_number (rq_headers req) = cseq_number (rq_headers (ca_invite c))"

definition on_sip_cancel :: "gw_env \<Rightarrow> request \<Rightarrow> socket_addr \<Rightarrow> gateway \<Rightarrow> gateway" where
  "on_sip_cancel ge req src gw =
     (let gw1 = gw_respond ge req src (make_response (gw_core gw) (ge_sip ge) req 200 None) gw in
      case gw_call gw1 of
        None \<Rightarrow> gw1
      | Some c \<Rightarrow>
          if cancel_matches c req
          then finish_call ge ''sip cancel'' (hangup_leg (ca_mm_path c) (answer_invite ge 487 c gw1))
          else gw1)"

section \<open>Digits\<close>

text \<open>The first route, \<open>Call.SendDtmf\<close>: \<open>Some b\<close> ends the delivery with \<open>b\<close>, \<open>None\<close> goes on to the
  tones.\<close>

definition dtmf_by_modem :: "gw_env \<Rightarrow> dtmf_method \<Rightarrow> string \<Rightarrow> gateway \<Rightarrow> bool option \<times> gateway" where
  "dtmf_by_modem ge mth digits gw =
     (case (call_path gw, gw_modem gw) of
        (Some path, Some _) \<Rightarrow>
          (let gw1 = modem_does (SendDtmf path digits) gw in
           if ge_dtmf ge path digits then (Some True, gw1)
           else if mth = DtmfModem then (Some False, gw1)
           else (None, with_call (\<lambda>c. c\<lparr>ca_dtmf_via_modem_failed := True\<rparr>) gw1))
      | _ \<Rightarrow> (if mth = DtmfModem then Some False else None, gw))"

definition dtmf_inband :: "gw_env \<Rightarrow> string \<Rightarrow> gateway \<Rightarrow> bool \<times> gateway" where
  "dtmf_inband ge digits gw =
     (case Option.bind (gw_call gw) ca_media of
        None \<Rightarrow> (False, gw)
      | Some m \<Rightarrow>
          (let rtp = cf_rtp (gw_cfg gw);
               (n, m1) = send_dtmf_inband (ge_samples ge) digits (rt_dtmf_tone_ms rtp) (rt_dtmf_gap_ms rtp) m
           in (0 < n, with_call (\<lambda>c. c\<lparr>ca_media := Some m1\<rparr>) gw)))"

definition deliver_dtmf :: "gw_env \<Rightarrow> string \<Rightarrow> gateway \<Rightarrow> bool \<times> gateway" where
  "deliver_dtmf ge digits gw =
     (let mth = rt_dtmf_method (cf_rtp (gw_cfg gw)) in
      if mth = DtmfNone \<or> digits = [] then (True, gw)
      else
        (let failed_here = (case gw_call gw of Some c \<Rightarrow> ca_dtmf_via_modem_failed c | None \<Rightarrow> False);
             try_modem = mth \<in> {DtmfModem, DtmfAuto} \<and> \<not> (mth = DtmfAuto \<and> failed_here);
             (done_with, gw1) = (if try_modem then dtmf_by_modem ge mth digits gw else (None, gw)) in
         case done_with of
           Some b \<Rightarrow> (b, gw1)
         | None \<Rightarrow> if mth \<in> {DtmfInband, DtmfAuto} then dtmf_inband ge digits gw1 else (False, gw1)))"

definition send_dtmf_info :: "gw_env \<Rightarrow> string \<Rightarrow> gateway \<Rightarrow> gateway" where
  "send_dtmf_info ge digit gw =
     (case gw_call gw of
        None \<Rightarrow> gw
      | Some c \<Rightarrow>
          (let (req, co) = build_in_dialog_request (ge_sip ge) (gw_core gw) c Info;
               req' = req\<lparr>rq_headers := hset (rq_headers req) ''content-type'' ''application/dtmf-relay'',
                          rq_body := dtmf_relay_body digit\<rparr>
           in spawn_job (SendAndWait req' (ca_remote_addr c)) (gw\<lparr>gw_core := co\<rparr>)))"

definition on_sip_info :: "gw_env \<Rightarrow> request \<Rightarrow> socket_addr \<Rightarrow> gateway \<Rightarrow> gateway" where
  "on_sip_info ge req src gw =
     (let digits = parse_dtmf_info (case h_content_type (rq_headers req) of Some t \<Rightarrow> t | None \<Rightarrow> []) (body_str req);
          path = (if in_dialog gw req then call_path gw else None);
          (code, gw1) = (case digits of
              None \<Rightarrow> (415, gw)
            | Some d \<Rightarrow>
                if d = [] then (200, gw)
                else if path \<noteq> None then (let (ok, g) = deliver_dtmf ge d gw in (if ok then 200 else 500, g))
                else (481, gw))
      in gw_respond ge req src (make_response (gw_core gw1) (ge_sip ge) req code None) gw1)"

section \<open>Messages from the SIP side\<close>

text \<open>The value of \<open>messagetype\<close> that counts: of the To header, else of the address in it.\<close>

definition message_type :: "request \<Rightarrow> string option" where
  "message_type req =
     (let to = h_to (rq_headers req) in
      first_of (Option.bind to (\<lambda>t. na_param t ''messagetype''))
        (uri_param (case to of Some t \<Rightarrow> na_uri t | None \<Rightarrow> rq_uri req) ''messagetype''))"

definition message_number :: "request \<Rightarrow> string" where
  "message_number req =
     sanitize_number (case u_user (case h_to (rq_headers req) of Some t \<Rightarrow> na_uri t | None \<Rightarrow> rq_uri req) of
       Some u \<Rightarrow> u | None \<Rightarrow> [])"

definition on_sip_message :: "gw_env \<Rightarrow> request \<Rightarrow> socket_addr \<Rightarrow> gateway \<Rightarrow> gateway" where
  "on_sip_message ge req src gw =
     (if \<not> (case message_type req of Some v \<Rightarrow> eq_ignore_ascii_case v ''sms'' | None \<Rightarrow> False)
      then gw_reply ge req src 415 gw
      else if gw_modem gw = None then gw_reply ge req src 503 gw
      else
        (let content_type = (case h_content_type (rq_headers req) of Some t \<Rightarrow> t | None \<Rightarrow> ''text/plain'');
             number = message_number req in
         if contains_text ''json'' content_type then spawn_job (SubmitMms req src number) gw
         else if \<not> starts_with ''text/plain'' content_type then gw_reply ge req src 415 gw
         else if number = [] then gw_reply ge req src 484 gw
         else spawn_job (SubmitSms req src number (body_str req)) gw))"

definition on_sip_request :: "gw_env \<Rightarrow> request \<Rightarrow> socket_addr \<Rightarrow> gateway \<Rightarrow> gateway" where
  "on_sip_request ge req src gw =
     (case rq_method req of
        Invite \<Rightarrow> on_sip_invite ge req src gw
      | Ack \<Rightarrow> gw
      | Bye \<Rightarrow> on_sip_bye ge req src gw
      | Cancel \<Rightarrow> on_sip_cancel ge req src gw
      | Info \<Rightarrow> on_sip_info ge req src gw
      | Message \<Rightarrow> on_sip_message ge req src gw
      | _ \<Rightarrow> gw_respond ge req src (make_response (gw_core gw) (ge_sip ge) req 405 None) gw)"

section \<open>Calls from the mobile side\<close>

definition start_sip_call :: "gw_env \<Rightarrow> string \<Rightarrow> call_info \<Rightarrow> gateway \<Rightarrow> bool \<times> gateway" where
  "start_sip_call ge path info gw =
     (let (co0, target) = resolve_target (gw_core gw) (ge_lookup ge) (ge_order ge) (en_now (ge_sip ge))
            (sp_call_target (cf_sip (gw_cfg gw)));
          gw0 = gw\<lparr>gw_core := co0\<rparr> in
      case target of
        Inl _ \<Rightarrow> (False, gw0)
      | Inr (target_uri, target_addr) \<Rightarrow>
          (case gw_bind_port ge gw0 target_addr of
             Inl _ \<Rightarrow> (False, gw0)
           | Inr port \<Rightarrow>
               (let offer = sdp_offer (ge_sdp_now ge) (rtp_advertised_ip ge gw0 target_addr) port
                      (Some (rt_dtmf_payload_type (cf_rtp (gw_cfg gw)))) (ac_period_ms (cf_audio (gw_cfg gw)));
                    caller = gw_local_number gw (sanitize_number (ci_number info));
                    from_user = (if caller = [] then ''anonymous'' else caller);
                    from = na_with_tag \<lparr>na_display = Some caller,
                        na_uri = uri_new (Some from_user) (domain_name co0) None, na_params = []\<rparr>
                      (random_hex (ge_tag ge));
                    own = gw_own_number gw;
                    to = name_addr_new (addressed_to_us (uri_bare target_uri) own);
                    call_id = random_hex (ge_call_rand ge) @ ''@modem2sip'';
                    (cseq, co1) = next_cseq co0;
                    invite0 = build_request co1 (ge_sip ge) Invite (addressed_to_us target_uri own) from to
                      call_id cseq target_addr True;
                    invite = invite0\<lparr>rq_headers := hset (hset (rq_headers invite0) ''content-type''
                        ''application/sdp'') ''allow'' allow_in_call, rq_body := render offer\<rparr>
                in case send_request co1 invite target_addr of
                     None \<Rightarrow> (False, gw0\<lparr>gw_core := co1\<rparr>)
                   | Some (branch, co2) \<Rightarrow>
                       (let (cdr, gw1) = db_start_call ge Incoming caller (gw0\<lparr>gw_core := co2\<rparr>) in
                        (True, gw1\<lparr>gw_call := Some
                          \<lparr>ca_role = ToSip, ca_mm_path = Some path, ca_peer_number = caller, ca_call_id = call_id,
                           ca_local = from, ca_remote = to, ca_remote_target = target_uri,
                           ca_remote_addr = target_addr, ca_local_cseq = cseq, ca_invite = invite,
                           ca_invite_src = None, ca_media = None, ca_rtp_socket = True,
                           ca_local_rtp_port = port, ca_codec = Pcmu, ca_remote_sdp = None,
                           ca_media_dtmf_pt = None, ca_answered = False, ca_auth_retried = False,
                           ca_ringing_sent = False, ca_early_media = False, ca_dtmf_via_modem_failed = False,
                           ca_cdr_id = cdr, ca_tasks = [InviteTask branch]\<rparr>\<rparr>)))))"

text \<open>The constants of ModemManager (\<open>src/mm/proxies.rs\<close>).\<close>

definition call_dialing :: int where "call_dialing = 1"
definition call_ringing_out :: int where "call_ringing_out = 2"
definition call_active :: int where "call_active = 4"
definition call_terminated :: int where "call_terminated = 7"
definition dir_incoming :: int where "dir_incoming = 1"

definition on_mm_call_added :: "gw_env \<Rightarrow> string \<Rightarrow> gateway \<Rightarrow> gateway" where
  "on_mm_call_added ge path gw =
     (if gw_modem gw = None then gw
      else if call_path gw = Some path then gw
      else (case ge_call_info ge path of
          None \<Rightarrow> gw
        | Some info \<Rightarrow>
            if ci_state info = call_terminated then modem_does (DeleteCall path) gw
            else if ci_direction info \<noteq> dir_incoming then modem_does (Hangup path) gw
            else if gw_call gw \<noteq> None then modem_does (Hangup path) gw
            else (let (ok, gw1) = start_sip_call ge path info gw in
                  if ok then gw1 else modem_does (Hangup path) gw1)))"

definition on_modem_answered :: "gw_env \<Rightarrow> gateway \<Rightarrow> gateway" where
  "on_modem_answered ge gw =
     (case gw_call gw of
        None \<Rightarrow> gw
      | Some c \<Rightarrow>
          (let (ok, gw1) = (case ca_role c of FromSip \<Rightarrow> respond_with_media ge 200 gw | ToSip \<Rightarrow> (True, gw)) in
           if \<not> ok then teardown_call ge ''answering the SIP caller failed'' 500 gw1
           else cdr_answered ge (ca_cdr_id c) (with_call (\<lambda>c. c\<lparr>ca_answered := True\<rparr>) gw1)))"

text \<open>The SIP code of a mobile call that ended.\<close>

definition end_code :: "u32 \<Rightarrow> bool \<Rightarrow> u16" where
  "end_code reason answered =
     (if reason = 5 then 486 else if reason \<in> {6, 7} then 500 else if answered then 200 else 480)"

definition on_alerting :: "gw_env \<Rightarrow> gateway \<Rightarrow> gateway" where
  "on_alerting ge gw =
     (if sp_early_media (cf_sip (gw_cfg gw)) then
        (let (ok, gw1) = start_early_media ge gw in if ok then gw1 else send_provisional ge 180 gw1)
      else send_provisional ge 180 gw)"

definition on_mm_call_state :: "gw_env \<Rightarrow> string \<Rightarrow> int \<Rightarrow> u32 \<Rightarrow> gateway \<Rightarrow> gateway" where
  "on_mm_call_state ge path new reason gw =
     (case gw_call gw of
        None \<Rightarrow> gw
      | Some c \<Rightarrow>
          if ca_mm_path c \<noteq> Some path then gw
          else if new = call_ringing_out \<or> new = call_dialing then
            (if ca_role c = FromSip \<and> \<not> ca_ringing_sent c then on_alerting ge gw else gw)
          else if new = call_active then (if \<not> ca_answered c then on_modem_answered ge gw else gw)
          else if new = call_terminated then
            teardown_call ge ''the mobile call ended'' (end_code reason (ca_answered c)) gw
          else gw)"

section \<open>What becomes of our own requests\<close>

definition challenge_headers :: "u16 \<Rightarrow> string \<times> string" where
  "challenge_headers code = (if code = 401 then (''www-authenticate'', ''authorization'')
     else (''proxy-authenticate'', ''proxy-authorization''))"

text \<open>\<open>retry_invite_with_auth\<close>; every failure in it leaves the caller with a refused call.\<close>

definition retry_invite_with_auth :: "gw_env \<Rightarrow> response \<Rightarrow> gateway \<Rightarrow> bool \<times> gateway" where
  "retry_invite_with_auth ge resp gw =
     (case gw_call gw of
        None \<Rightarrow> (False, gw)
      | Some c \<Rightarrow>
          if ca_role c \<noteq> ToSip \<or> ca_answered c \<or> ca_auth_retried c then (False, gw)
          else (case sp_register (cf_sip (gw_cfg gw)) of
              None \<Rightarrow> (False, gw)
            | Some up \<Rightarrow>
                (let (hdr, out_hdr) = challenge_headers (rs_code resp) in
                 case find is_supported (List.map_filter challenge_parse (hget_all (rs_headers resp) hdr)) of
                   None \<Rightarrow> (False, gw)
                 | Some ch \<Rightarrow>
                     (let (cseq, co1) = next_cseq (gw_core gw);
                          inv0 = ca_invite c;
                          en = ge_sip ge;
                          creds = answer (en_md5 en) (en_cnonce en) ch (up_username up) (up_password up)
                            ''INVITE'' (uri_show (rq_uri inv0)) (rq_body inv0) 1;
                          h1 = hset (rq_headers inv0) ''cseq'' (show_nat (unat cseq) @ '' INVITE'');
                          h2 = hset h1 out_hdr (to_header creds);
                          invite = inv0\<lparr>rq_headers := refresh_via_branch en h2\<rparr>
                      in case send_request co1 invite (ca_remote_addr c) of
                           None \<Rightarrow> (False, gw\<lparr>gw_core := co1\<rparr>)
                         | Some (branch, co2) \<Rightarrow>
                             (True, with_call (\<lambda>c. add_task (InviteTask branch)
                                 (c\<lparr>ca_auth_retried := True, ca_local_cseq := cseq, ca_invite := invite\<rparr>))
                               (gw\<lparr>gw_core := co2\<rparr>))))))"

definition on_sip_failed :: "gw_env \<Rightarrow> response \<Rightarrow> gateway \<Rightarrow> gateway" where
  "on_sip_failed ge resp gw =
     (let gw1 = ack_failure resp gw;
          (again, gw2) = (if rs_code resp = 401 \<or> rs_code resp = 407
             then retry_invite_with_auth ge resp gw1 else (False, gw1))
      in if again then gw2
         else finish_call ge ''sip rejected'' (hangup_leg (call_path gw2) gw2))"

text \<open>The 2xx to our INVITE: learn the dialog, acknowledge, and only then media and the modem.\<close>

definition learn_dialog :: "gw_env \<Rightarrow> response \<Rightarrow> active_call \<Rightarrow> active_call" where
  "learn_dialog ge resp c =
     (let c1 = (case h_to (rs_headers resp) of Some t \<Rightarrow> c\<lparr>ca_remote := t\<rparr> | None \<Rightarrow> c) in
      case h_contact (rs_headers resp) of
        None \<Rightarrow> c1
      | Some ct \<Rightarrow>
          (case resolve_uri (ge_lookup ge) (na_uri ct) of
             None \<Rightarrow> c1
           | Some a \<Rightarrow> c1\<lparr>ca_remote_target := na_uri ct, ca_remote_addr := a\<rparr>))"

definition connect_media :: "gw_env \<Rightarrow> sdp \<Rightarrow> gateway \<Rightarrow> gateway" where
  "connect_media ge s gw =
     (let cd = (case negotiate s of Some k \<Rightarrow> k | None \<Rightarrow> Pcmu);
          gw1 = with_call (\<lambda>c. c\<lparr>ca_codec := cd, ca_remote_sdp := Some s\<rparr>) gw;
          (ok, gw2) = start_media ge (sdp_endpoint s) cd gw1 in
      if \<not> ok then teardown_call ge ''media setup failed'' 500 gw2
      else (case (gw_modem gw2, call_path gw2) of
          (Some _, Some path) \<Rightarrow>
            (let gw3 = modem_does (Accept path) gw2 in
             if ge_accept ge path then cdr_answered ge (Option.bind (gw_call gw3) ca_cdr_id) gw3
             else teardown_call ge ''accept failed'' 500 gw3)
        | _ \<Rightarrow> cdr_answered ge (Option.bind (gw_call gw2) ca_cdr_id) gw2))"

definition on_sip_answered :: "gw_env \<Rightarrow> response \<Rightarrow> gateway \<Rightarrow> gateway" where
  "on_sip_answered ge resp gw =
     (case gw_call gw of
        None \<Rightarrow> gw
      | Some c0 \<Rightarrow>
          (let c = learn_dialog ge resp c0;
               gw1 = with_core (\<lambda>co. send_raw co (build_ack (ge_sip ge) co c) (ca_remote_addr c))
                 (gw\<lparr>gw_call := Some c\<rparr>);
               gw2 = with_call (\<lambda>c. c\<lparr>ca_answered := True\<rparr>) gw1 in
           case sdp_parse (from_utf8_lossy (rs_body resp)) of
             None \<Rightarrow> teardown_call ge ''no media in the answer'' 200 gw2
           | Some s \<Rightarrow>
               if has_media s then connect_media ge s gw2
               else teardown_call ge ''no media in the answer'' 200 gw2))"

text \<open>The wait for the answers to an INVITE: what the task reports, from the responses in the order
  they arrive before the ring timeout.\<close>

datatype internal =
    SipProgress string u16
  | SipAnswered string response
  | SipFailed string response
  | RingTimeout string
  | EarlyMediaAudio string u32
  | DtmfDigit string char
  | DtmfFromModem string char
  | SmsRetry string nat

fun invite_response_task :: "string \<Rightarrow> response list \<Rightarrow> internal list" where
  "invite_response_task call_id [] = [RingTimeout call_id]"
| "invite_response_task call_id (r # rs) =
     (if is_provisional r then
        (if 100 < rs_code r then [SipProgress call_id (rs_code r)] else []) @ invite_response_task call_id rs
      else if is_success r then [SipAnswered call_id r]
      else [SipFailed call_id r])"

definition on_ring_timeout :: "gw_env \<Rightarrow> gateway \<Rightarrow> gateway" where
  "on_ring_timeout ge gw =
     (let gw1 = cancel_outgoing_invite gw in
      finish_call ge ''ring timeout'' (hangup_leg (call_path gw1) gw1))"

section \<open>Messages from the mobile side\<close>

definition sms_assembly_attempts :: nat where "sms_assembly_attempts = 10"

definition sms_is_incoming :: "bool \<Rightarrow> sms_info \<Rightarrow> bool" where
  "sms_is_incoming received info \<longleftrightarrow> si_pdu_type info = 1 \<or> (received \<and> si_pdu_type info \<noteq> 2)"

definition handle_text_sms :: "gw_env \<Rightarrow> string \<Rightarrow> sms_info \<Rightarrow> modem_handle \<Rightarrow> gateway \<Rightarrow> gateway" where
  "handle_text_sms ge path info modem gw =
     (let peer = gw_local_number gw (sanitize_number (si_number info)); sms = cf_sms (gw_cfg gw) in
      if \<not> ge_db_ok ge then gw
      else
        (let hash = (\<lambda>bs. md5_hex (en_md5 (ge_sip ge)) (bytes_text bs));
             (stored, db) = insert_message (ge_iso ge)
               \<lparr>nm_kind = ''sms'', nm_direction = Incoming, nm_peer = peer, nm_own_number = mh_own_number modem,
                nm_subject = None, nm_text = Some (si_text info), nm_timestamp = si_timestamp info,
                nm_status = ''received'', nm_external_id = Some (incoming_sms_id hash path info peer),
                nm_raw = (if si_data info = [] then None else Some (si_data info))\<rparr> (gw_db gw);
             gw1 = gw\<lparr>gw_db := db\<rparr>;
             gw2 = (if stored \<noteq> None \<and> sm_notify_sip sms
                    then spawn_job (NotifySip peer ''text/plain'' (si_text info)) gw1 else gw1)
         in if sm_delete_from_modem sms then spawn_job (DeleteFromModem path) gw2 else gw2))"

definition handle_mms_push :: "string \<Rightarrow> sms_info \<Rightarrow> gateway \<Rightarrow> gateway" where
  "handle_mms_push path info gw =
     spawn_job (HandlePush path info (gw_local_number gw (sanitize_number (si_number info)))) gw"

text \<open>\<open>is_wap_push\<close> recognises a WAP push in the data of a message.\<close>

definition looks_like_wap_push :: "(u8 list \<Rightarrow> bool) \<Rightarrow> sms_info \<Rightarrow> bool" where
  "looks_like_wap_push is_wap_push info \<longleftrightarrow>
     si_text info = [] \<and> 3 < length (si_data info) \<and> is_wap_push (si_data info)"

definition on_sms_added :: "(u8 list \<Rightarrow> bool) \<Rightarrow> gw_env \<Rightarrow> string \<Rightarrow> bool \<Rightarrow> nat \<Rightarrow> gateway \<Rightarrow> gateway" where
  "on_sms_added is_wap_push ge path received attempt gw =
     (case gw_modem gw of
        None \<Rightarrow> gw
      | Some modem \<Rightarrow>
          (case ge_sms_info ge path of
             None \<Rightarrow> gw
           | Some info \<Rightarrow>
               if sms_is_incoming received info \<and> si_state info = 2 then
                 (if sms_assembly_attempts \<le> attempt then gw
                  else spawn_job (SmsRetryLater path (attempt + 1)) gw)
               else if \<not> sms_is_incoming received info \<or> si_state info \<notin> {3, 1} then
                 (if si_pdu_type info = 2 \<and> si_state info = 5 \<and> sm_delete_from_modem (cf_sms (gw_cfg gw)) \<and>
                     \<not> sm_delivery_report (cf_sms (gw_cfg gw))
                  then spawn_job (DeleteFromModem path) gw else gw)
               else if looks_like_wap_push is_wap_push info then handle_mms_push path info gw
               else handle_text_sms ge path info modem gw))"

section \<open>The event loop\<close>

definition on_internal :: "(u8 list \<Rightarrow> bool) \<Rightarrow> gw_env \<Rightarrow> internal \<Rightarrow> gateway \<Rightarrow> gateway" where
  "on_internal is_wap_push ge ev gw =
     (case ev of
        SipProgress _ _ \<Rightarrow> gw
      | SipAnswered cid resp \<Rightarrow> if call_id_matches gw cid then on_sip_answered ge resp gw else gw
      | SipFailed cid resp \<Rightarrow> if call_id_matches gw cid then on_sip_failed ge resp gw else gw
      | RingTimeout cid \<Rightarrow> if call_id_matches gw cid then on_ring_timeout ge gw else gw
      | EarlyMediaAudio cid level \<Rightarrow> if call_id_matches gw cid then snd (upgrade_to_early_media ge gw) else gw
      | DtmfDigit cid digit \<Rightarrow> if call_id_matches gw cid then snd (deliver_dtmf ge [digit] gw) else gw
      | DtmfFromModem cid digit \<Rightarrow> if call_id_matches gw cid then send_dtmf_info ge [digit] gw else gw
      | SmsRetry path attempt \<Rightarrow> on_sms_added is_wap_push ge path True attempt gw)"

datatype modem_event =
    ModemUp modem_handle
  | ModemDown
  | CallAdded string
  | CallDeleted string
  | CallState string int u32
  | DtmfReceived string string
  | SmsAdded string bool

definition set_modem :: "modem_handle option \<Rightarrow> gateway \<Rightarrow> gateway" where
  "set_modem handle gw = with_core (\<lambda>co. co\<lparr>co_modem_ready := handle \<noteq> None\<rparr>) (gw\<lparr>gw_modem := handle\<rparr>)"

definition on_modem_event :: "(u8 list \<Rightarrow> bool) \<Rightarrow> gw_env \<Rightarrow> modem_event \<Rightarrow> gateway \<Rightarrow> gateway" where
  "on_modem_event is_wap_push ge ev gw =
     (case ev of
        ModemUp handle \<Rightarrow> set_modem (Some handle) gw
      | ModemDown \<Rightarrow> teardown_call ge ''modem disappeared'' 503 (set_modem None gw)
      | CallAdded path \<Rightarrow> on_mm_call_added ge path gw
      | CallDeleted path \<Rightarrow>
          if call_path gw = Some path then teardown_call ge ''modem call object deleted'' 200 gw else gw
      | CallState path new reason \<Rightarrow> on_mm_call_state ge path new reason gw
      | DtmfReceived path digit \<Rightarrow> if call_path gw = Some path then send_dtmf_info ge digit gw else gw
      | SmsAdded path received \<Rightarrow> on_sms_added is_wap_push ge path received 0 gw)"

datatype gw_event = SipRequest request socket_addr | ModemEvent modem_event | InternalEvent internal
  | Watchdog | Shutdown

definition gw_step :: "(u8 list \<Rightarrow> bool) \<Rightarrow> gw_env \<Rightarrow> gw_event \<Rightarrow> gateway \<Rightarrow> gateway" where
  "gw_step is_wap_push ge ev gw =
     (case ev of
        SipRequest req src \<Rightarrow> on_sip_request ge req src gw
      | ModemEvent e \<Rightarrow> on_modem_event is_wap_push ge e gw
      | InternalEvent e \<Rightarrow> on_internal is_wap_push ge e gw
      | Watchdog \<Rightarrow> check_media ge gw
      | Shutdown \<Rightarrow> teardown_call ge ''modem2sip is shutting down'' 200 gw)"

section \<open>What the tasks do\<close>

text \<open>How the modem and the MMS part answered the task that sends a message.\<close>

datatype mms_outcome = BadBody | MmsSubmitted | MmsFailed

definition mms_code :: "mms_outcome \<Rightarrow> u16" where
  "mms_code outcome = (case outcome of BadBody \<Rightarrow> 400 | MmsSubmitted \<Rightarrow> 202 | MmsFailed \<Rightarrow> 500)"

definition outgoing_sms_id :: "string \<Rightarrow> string \<Rightarrow> string" where
  "outgoing_sms_id path now = path @ ''|'' @ now"

text \<open>The end of a submission: \<open>sent\<close> is the object path of the message, if the modem took it.\<close>

definition sms_submitted :: "gw_env \<Rightarrow> request \<Rightarrow> socket_addr \<Rightarrow> string \<Rightarrow> string \<Rightarrow> string option \<Rightarrow> gateway \<Rightarrow> gateway" where
  "sms_submitted ge req src number body sent gw =
     (case sent of
        None \<Rightarrow> gw_respond ge req src (make_response (gw_core gw) (ge_sip ge) req 500 None) gw
      | Some path \<Rightarrow>
          (let sms = cf_sms (gw_cfg gw);
               gw1 = db_run ge (\<lambda>db. snd (insert_message (ge_iso ge)
                 \<lparr>nm_kind = ''sms'', nm_direction = Outgoing, nm_peer = number, nm_own_number = None,
                  nm_subject = None, nm_text = Some body, nm_timestamp = None, nm_status = ''sent'',
                  nm_external_id = Some (outgoing_sms_id path (ge_iso ge)), nm_raw = None\<rparr> db)) gw;
               gw2 = (if sm_delete_from_modem sms \<and> \<not> sm_delivery_report sms
                      then spawn_job (DeleteFromModem path) gw1 else gw1)
           in gw_respond ge req src (make_response (gw_core gw2) (ge_sip ge) req 202 None) gw2))"

definition mms_submitted :: "gw_env \<Rightarrow> request \<Rightarrow> socket_addr \<Rightarrow> mms_outcome \<Rightarrow> gateway \<Rightarrow> gateway" where
  "mms_submitted ge req src outcome gw =
     gw_respond ge req src (make_response (gw_core gw) (ge_sip ge) req (mms_code outcome) None) gw"

text \<open>\<open>notify_sip_message\<close> up to its transaction: the request and where it goes.\<close>

definition notify_request :: "gw_env \<Rightarrow> string \<Rightarrow> string \<Rightarrow> string \<Rightarrow> gateway \<Rightarrow> gateway \<times> (request \<times> socket_addr) option" where
  "notify_request ge raw_peer content_type body gw =
     (let sip = cf_sip (gw_cfg gw);
          (co, target) = resolve_target (gw_core gw) (ge_lookup ge) (ge_order ge) (en_now (ge_sip ge))
            (first_of (sp_sms_target sip) (sp_call_target sip));
          gw1 = gw\<lparr>gw_core := co\<rparr> in
      case target of
        Inl _ \<Rightarrow> (gw1, None)
      | Inr (target_uri, addr) \<Rightarrow>
          (let peer = sanitize_number raw_peer;
               from_user = (if peer = [] then ''unknown'' else peer);
               from = na_with_tag \<lparr>na_display = Some from_user,
                   na_uri = uri_new (Some from_user) (domain_name co) None, na_params = []\<rparr> (random_hex (ge_tag ge));
               own = gw_own_number gw;
               to = na_set_param (name_addr_new (addressed_to_us (uri_bare target_uri) own)) ''messagetype'' (Some ''sms'');
               (cseq, co1) = next_cseq co;
               req = build_request co1 (ge_sip ge) Message (addressed_to_us target_uri own) from to
                 (random_hex (ge_call_rand ge) @ ''@modem2sip'') cseq addr False
           in (gw1\<lparr>gw_core := co1\<rparr>,
               Some (req\<lparr>rq_headers := hset (rq_headers req) ''content-type'' content_type, rq_body := body\<rparr>, addr))))"

text \<open>\<open>delete_from_modem\<close>: the attempts and the pauses before them, until one succeeds; the number of
  attempts made and whether the message is gone.\<close>

definition delete_pauses :: "nat list" where "delete_pauses = [0, 3, 10, 30, 120]"

fun delete_attempts :: "nat list \<Rightarrow> (nat \<Rightarrow> bool) \<Rightarrow> nat \<Rightarrow> nat \<Rightarrow> bool \<times> nat" where
  "delete_attempts [] ok at_time n = (False, n)"
| "delete_attempts (w # ws) ok at_time n =
     (if ok (at_time + w) then (True, n + 1) else delete_attempts ws ok (at_time + w) (n + 1))"

end
