(* ===== verification/SipServer.thy ===== *)
theory SipServer
  imports SipCore
begin

text \<open>
  What the SIP element guarantees: which requests reach the gateway, that each reaches it once, the
  registrar's invariant, the dispatch of responses, the 2xx and its ACK, and the Via and To fields
  of every response. The at-most-once theorem is a simulation: every run of the element is a run of
  the transaction table of \<open>SipTxn\<close>.
\<close>

section \<open>What a request can do\<close>

lemma handle_register_events [simp]:
  "co_events (handle_register co en req src) = co_events co"
  by (simp add: handle_register_def Let_def split_beta split: option.splits)

lemma handle_options_events [simp]:
  "co_events (handle_options co en req src) = co_events co"
  by (simp add: handle_options_def Let_def)

lemma deliver_events [simp]: "co_events (deliver req src co) = co_events co @ [(req, src)]"
  by (simp add: deliver_def)

lemma handle_claimed_events:
  "co_events (handle_claimed co en req src) =
    (if rq_method req \<in> {Invite, Ack, Bye, Cancel, Info, Message} \<and>
        (rq_method req = Ack \<or> authorised co en req)
     then co_events co @ [(req, src)] else co_events co)"
  using check_auth_iff [of co en req src]
  by (cases "rq_method req") (auto simp: handle_claimed_def Let_def split_beta)

text \<open>The server transaction lets a request through.\<close>

definition first_copy :: "sip_core \<Rightarrow> sip_env \<Rightarrow> request \<Rightarrow> bool" where
  "first_copy co en req \<longleftrightarrow> (case txn_key req of None \<Rightarrow> True
     | Some key \<Rightarrow> fst (claim_txn (co_server_cache co) key (en_now en)) = Fresh)"

lemma authorised_cong:
  assumes "co_cfg co' = co_cfg co" "co_bound co' = co_bound co" "co_nonce co' = co_nonce co"
    "co_nonce_seen co' = co_nonce_seen co"
  shows "authorised co' en req = authorised co en req"
proof -
  have "domain_name co' = domain_name co" unfolding domain_name_def assms ..
  then have "credentials_ok co' en req = credentials_ok co en req"
    unfolding credentials_ok_def by (intro ext) simp
  then show ?thesis unfolding authorised_def assms by (simp only:)
qed

lemma authorised_cache [simp]: "authorised (co\<lparr>co_server_cache := x\<rparr>) en req = authorised co en req"
  by (rule authorised_cong) simp_all

lemma authorised_ack: "authorised (acknowledge_2xx req co) en req = authorised co en req"
  by (rule authorised_cong) simp_all

lemma on_request_events_aux:
  "co_events (on_request co en req src) =
    (if source_allowed co (sa_ip src) \<and> rq_method req \<in> {Invite, Ack, Bye, Cancel, Info, Message} \<and>
        (rq_method req = Ack \<or> (first_copy co en req \<and> authorised co en req))
     then co_events co @ [(req, src)] else co_events co)"
  by (auto simp: on_request_def handle_claimed_events first_copy_def Let_def split_beta
      split: option.splits claim.splits)

text \<open>With an account configured, a nonce is only consumed by a request that is
  authorised with it. So a wrong password, user, realm or address leaves the table of nonce counts
  as it is, and does not burn the nonce the legitimate client is about to use.\<close>

lemma bad_credentials_consume_no_nonce:
  assumes "\<not> authorised co en req"
  shows "co_nonce_seen (on_request co en req src) = co_nonce_seen co"
proof -
  have reg: "co_nonce_seen (handle_register co' en req src) = co_nonce_seen (snd (check_auth co' en req src))" for co'
    by (simp add: handle_register_def Let_def split_beta split: option.splits)
  have claimed: "co_nonce_seen (handle_claimed co' en req src) = co_nonce_seen co'"
    if "\<not> authorised co' en req" for co'
    using that check_auth_nonces [of co' en req src] reg [of co']
    by (cases "rq_method req") (auto simp: handle_claimed_def handle_options_def deliver_def Let_def split_beta)
  show ?thesis
  proof (cases "rq_method req = Ack")
    case True
    with assms have "\<not> authorised (acknowledge_2xx req co) en req" by (simp add: authorised_ack)
    from claimed [OF this] show ?thesis using True by (simp add: on_request_def)
  next
    case False
    have cl: "co_nonce_seen (handle_claimed co en req src) = co_nonce_seen co"
      and cl': "co_nonce_seen (handle_claimed (co\<lparr>co_server_cache := x\<rparr>) en req src) = co_nonce_seen co" for x
      using claimed [of co] claimed [of "co\<lparr>co_server_cache := x\<rparr>"] assms by simp_all
    show ?thesis
      using False
      by (auto simp: on_request_def cl cl' Let_def split_beta split: option.splits claim.splits)
  qed
qed

text \<open>A copy of a request whose transaction is known has no effect but one: the cached
  response (the final one, or the latest provisional, or nothing) is sent to the source of the copy.\<close>

lemma retransmission_only_replays:
  assumes "source_allowed co (sa_ip src)" and "rq_method req \<noteq> Ack" and "\<not> first_copy co en req"
  shows "\<exists>replayed. on_request co en req src = co\<lparr>co_sent := co_sent co @ replayed\<rparr> \<and>
    (\<exists>key txn. txn_key req = Some key \<and> kv_get (co_server_cache co) key = Some txn \<and>
      replayed = (case txn of Completed bytes _ \<Rightarrow> [(bytes, src)]
        | InProgress _ (Some bytes) \<Rightarrow> [(bytes, src)] | InProgress _ None \<Rightarrow> []))"
proof -
  obtain key where key: "txn_key req = Some key"
      "fst (claim_txn (co_server_cache co) key (en_now en)) \<noteq> Fresh"
    using assms(3) by (auto simp: first_copy_def split: option.splits)
  obtain c cache where cl: "claim_txn (co_server_cache co) key (en_now en) = (c, cache)" by fastforce
  then show ?thesis
  proof (cases rule: claim_txn_cases)
    case fresh
    with key(2) cl show ?thesis by simp
  next
    case (known txn)
    have step: "on_request co en req src = (case c of Answered bytes \<Rightarrow> send bytes src (co\<lparr>co_server_cache := cache\<rparr>)
        | InFlight (Some bytes) \<Rightarrow> send bytes src (co\<lparr>co_server_cache := cache\<rparr>)
        | InFlight None \<Rightarrow> co\<lparr>co_server_cache := cache\<rparr>
        | Fresh \<Rightarrow> handle_claimed (co\<lparr>co_server_cache := cache\<rparr>) en req src)"
      using assms(1,2) key(1) cl by (simp add: on_request_def Let_def)
    have same: "co\<lparr>co_server_cache := cache\<rparr> = co" using known(2) by simp
    have c: "c = (case txn of Completed bytes _ \<Rightarrow> Answered bytes | InProgress _ prov \<Rightarrow> InFlight prov)"
      using cl known(3,4) by (simp add: claim_txn_def)
    define replayed where "replayed = (case txn of Completed bytes _ \<Rightarrow> [(bytes, src)]
        | InProgress _ (Some bytes) \<Rightarrow> [(bytes, src)] | InProgress _ None \<Rightarrow> [])"
    have "on_request co en req src = co\<lparr>co_sent := co_sent co @ replayed\<rparr>"
      unfolding step same c replayed_def
      by (simp add: send_def split: server_txn.splits option.splits)
    with key(1) known(3) show ?thesis unfolding replayed_def by blast
  qed
qed

section \<open>Example states\<close>

definition example_cfg :: sip_cfg where
  "example_cfg = \<lparr>cfg_domain = Some ''gw.local'', cfg_user_agent = ''modem2sip'',
     cfg_auth = Some (''gateway'', ''s3cret''), cfg_allow = [], cfg_options_reflect_modem = True,
     cfg_retry_after_secs = 30\<rparr>"

definition example_env :: sip_env where
  "example_env = \<lparr>en_now = secs 5, en_wall = 1700000000, en_tag = [1, 2], en_branch = [3, 4],
     en_cnonce = [5], en_md5 = last_byte, en_route = (\<lambda>_. None)\<rparr>"

definition example_src :: socket_addr where
  "example_src = \<lparr>sa_ip = V4 0x0A000009, sa_port = 5062\<rparr>"

definition example_core :: sip_core where
  "example_core = \<lparr>co_cfg = example_cfg, co_bound = \<lparr>sa_ip = V4 0x0A000001, sa_port = 5060\<rparr>,
     co_public_ip = None, co_registrar = registrar_new, co_nonce = \<lparr>nf_secret = ''5ec''\<rparr>,
     co_client_txns = kv_empty, co_server_cache = kv_put ''z9|1|7|INVITE'' (Completed ''SIP/2.0 486'' (secs 4)) kv_empty,
     co_nonce_seen = kv_empty, co_pending_ack = kv_empty, co_stopped = [], co_flags = 0,
     co_modem_ready = True, co_cseq = 1, co_sent = [], co_events = [], co_timers = []\<rparr>"

lemma example_invite_key: "txn_key example_invite = Some ''z9|1|7|INVITE''"
proof -
  have "(case hget (rq_headers example_invite) ''via'' of None \<Rightarrow> False
      | Some v \<Rightarrow> (case via_parse v of None \<Rightarrow> False | Some x \<Rightarrow> via_branch x = Some ''z9|1''))" by code_simp
  then have "Option.bind (h_top_via (rq_headers example_invite)) via_branch = Some ''z9|1''"
    by (auto simp: h_top_via_def split: option.splits)
  moreover have "split_whitespace ''7 INVITE'' = [''7'', ''INVITE'']" "method_parse ''INVITE'' = Some Invite"
    by code_simp+
  moreover have "parse_u32 ''7'' = Some 7"
    by (simp add: parse_u32_def parse_uint_def parse_radix_def strip_prefix_Cons digit_val_def byte_of_def)
  moreover have "hget (rq_headers example_invite) ''cseq'' = Some ''7 INVITE''" by code_simp
  moreover have "rq_method example_invite = Invite" by (simp add: example_invite_def request_new_def)
  moreover have "show_nat 7 = ''7''" by code_simp
  ultimately show ?thesis by (simp add: txn_key_def h_cseq_def bar_def)
qed

lemma example_invite_no_auth:
  "hget (rq_headers example_invite) ''authorization'' = None" "hget (rq_headers example_invite) ''to'' = None"
  "rq_method example_invite = Invite"
  by code_simp+

theorem bad_credentials_consume_no_nonce_witness:
  "co_nonce_seen (on_request example_core example_env example_invite example_src) = co_nonce_seen example_core"
proof (rule bad_credentials_consume_no_nonce)
  show "\<not> authorised example_core example_env example_invite"
    by (simp add: authorised_def exempt_def h_to_def example_invite_no_auth example_core_def example_cfg_def)
qed

theorem retransmission_only_replays_witness:
  "co_sent (on_request example_core example_env example_invite example_src) = [(''SIP/2.0 486'', example_src)]"
proof -
  have k: "kv_get (co_server_cache example_core) ''z9|1|7|INVITE'' = Some (Completed ''SIP/2.0 486'' (secs 4))"
    by (simp add: example_core_def kv.get_put)
  have "\<not> first_copy example_core example_env example_invite"
    by (simp add: first_copy_def example_invite_key claim_txn_def k example_env_def txn_lifetime_def)
      (simp add: secs_def)
  moreover have "source_allowed example_core (sa_ip example_src)"
    by (simp add: source_allowed_def example_core_def example_cfg_def)
  ultimately obtain replayed key txn where
    "on_request example_core example_env example_invite example_src =
      example_core\<lparr>co_sent := co_sent example_core @ replayed\<rparr>"
    "txn_key example_invite = Some key" "kv_get (co_server_cache example_core) key = Some txn"
    "replayed = (case txn of Completed bytes _ \<Rightarrow> [(bytes, example_src)]
        | InProgress _ (Some bytes) \<Rightarrow> [(bytes, example_src)] | InProgress _ None \<Rightarrow> [])"
    using retransmission_only_replays [of example_core example_src example_invite example_env]
    by (auto simp: example_invite_no_auth)
  then show ?thesis using k by (auto simp: example_invite_key example_core_def)
qed

section \<open>The registrar stays well formed\<close>

definition wf_registrar :: "registrar \<Rightarrow> bool" where
  "wf_registrar r \<longleftrightarrow> (\<forall>(aor, l) \<in> set r. distinct (map (contact_key \<circ> b_contact) l) \<and>
     (\<forall>b \<in> set l. b_expires_at b \<le> b_registered_at b + secs 3600)) \<and> kv_ok r"

lemma wf_registrar_iff:
  "kv_ok r \<Longrightarrow> wf_registrar r \<longleftrightarrow> reg.one_per_contact r \<and> reg.short_lived 3600 r"
  unfolding wf_registrar_def reg.one_per_contact_def reg.short_lived_def reg_list_def kv_get_def kv_ok_def
  by (fastforce split: option.splits dest: map_of_SomeD simp: Some_eq_map_of_iff)

lemma kv_ok_reg: "kv_ok r \<Longrightarrow> kv_ok (reg_update r aor c src e t1 t2)" "kv_ok r \<Longrightarrow> kv_ok (reg_remove_all r aor)"
  "kv_ok r \<Longrightarrow> kv_ok (reg_expire r now)"
proof -
  show "kv_ok r \<Longrightarrow> kv_ok (reg_update r aor c src e t1 t2)" by (simp add: reg_update_def Let_def)
  show "kv_ok r \<Longrightarrow> kv_ok (reg_remove_all r aor)" by (simp add: reg_remove_all_def)
  have "kv_ok (map (\<lambda>(k, l). (k, filter (\<lambda>b. now < b_expires_at b) l)) r)" if "kv_ok r"
    using that by (simp add: kv_ok_def comp_def case_prod_unfold)
  then show "kv_ok r \<Longrightarrow> kv_ok (reg_expire r now)"
    unfolding reg_expire_def by (intro kv_ok_simps)
qed

lemma wf_registrar_update:
  assumes "wf_registrar r" and "e \<le> 3600" shows "wf_registrar (reg_update r aor c src e t t)"
proof -
  have ok: "kv_ok r" using assms(1) by (simp add: wf_registrar_def)
  have "unat e \<le> 3600" using assms(2) by (simp add: word_le_nat_alt)
  then show ?thesis
    using assms(1) ok kv_ok_reg(1) [OF ok]
    by (simp add: wf_registrar_iff reg.one_per_contact_update reg.short_lived_update)
qed

lemma wf_registrar_remove: "wf_registrar r \<Longrightarrow> wf_registrar (reg_remove_all r aor)"
  by (auto simp: wf_registrar_def reg_remove_all_def kv_del_def kv_ok_def distinct_map_filter)

lemma wf_registrar_expire: "wf_registrar r \<Longrightarrow> wf_registrar (reg_expire r now)"
proof -
  assume wf: "wf_registrar r"
  then have ok: "kv_ok r" by (simp add: wf_registrar_def)
  with wf kv_ok_reg(3) [OF ok] show ?thesis
    by (simp add: wf_registrar_iff reg.one_per_contact_expire reg.short_lived_expire)
qed

lemma parse_expires_bound: "parse_expires v d \<le> 3600"
  by (simp add: parse_expires_def)

lemma wf_register_bindings:
  assumes "wf_registrar r"
  shows "wf_registrar (register_bindings req src aor dflt now r)"
proof -
  have "wf_registrar (fold (register_contact aor src dflt now) raws r)" for raws
    using assms
    by (induction raws arbitrary: r)
      (auto simp: register_contact_def wf_registrar_update parse_expires_bound split: option.splits)
  then show ?thesis
    using assms by (simp add: register_bindings_def Let_def wf_registrar_remove)
qed

lemma handle_register_registrar:
  "wf_registrar (co_registrar co) \<Longrightarrow> wf_registrar (co_registrar (handle_register co en req src))"
  by (simp add: handle_register_def Let_def split_beta reg_contacts_def wf_registrar_expire
      wf_register_bindings split: option.splits)

lemma handle_claimed_registrar:
  "wf_registrar (co_registrar co) \<Longrightarrow> wf_registrar (co_registrar (handle_claimed co en req src))"
  by (cases "rq_method req")
    (simp_all add: handle_claimed_def handle_register_registrar handle_options_def deliver_def Let_def split_beta)

lemma on_request_registrar:
  "wf_registrar (co_registrar co) \<Longrightarrow> wf_registrar (co_registrar (on_request co en req src))"
  by (auto simp: on_request_def handle_claimed_registrar Let_def split_beta split: option.splits claim.splits)

lemma on_response_registrar [simp]: "co_registrar (on_response co resp) = co_registrar co"
  by (auto simp: on_response_def Let_def split: option.splits)

text \<open>Property C35: whatever datagrams arrive, from whom and in what order, the registrar holds each
  contact of an address of record once, and no binding outlives its registration by more than an
  hour, whatever the client asks for.\<close>

theorem registrar_invariant:
  assumes "wf_registrar (co_registrar co)"
  shows "wf_registrar (co_registrar (fold (\<lambda>(en, data, src) s. on_datagram s en data src) arrivals co))"
  using assms
proof (induction arrivals arbitrary: co)
  case (Cons a arrivals)
  obtain en data src where a: "a = (en, data, src)" by (cases a) auto
  have "wf_registrar (co_registrar (on_datagram co en data src))"
    using Cons.prems by (auto simp: on_datagram_def core_gc_def on_request_registrar split: option.splits message.splits)
  from Cons.IH [OF this] show ?case by (simp add: a)
qed simp

theorem registrar_invariant_witness:
  "wf_registrar (co_registrar (fold (\<lambda>(en, data, src) s. on_datagram s en data src)
    [(example_env, request_encode example_invite, example_src)] example_core))"
proof -
  have "wf_registrar (co_registrar example_core)"
    by (simp add: example_core_def wf_registrar_def registrar_new_def) (simp add: kv_empty_def)
  then show ?thesis by (rule registrar_invariant)
qed

section \<open>The element implements the transaction table\<close>

lemma respond_cache_ex:
  "\<exists>code bytes. co_server_cache (respond co en req src resp) =
    txn_respond (co_server_cache co) (txn_key req) code bytes (en_now en)"
  using respond_cache by blast

text \<open>A handler answers its own request at most once.\<close>

definition answered_or_same :: "sip_env \<Rightarrow> request \<Rightarrow> sip_core \<Rightarrow> sip_core \<Rightarrow> bool" where
  "answered_or_same en req co co' \<longleftrightarrow> co_server_cache co' = co_server_cache co \<or>
     (\<exists>code bytes. co_server_cache co' =
        txn_respond (co_server_cache co) (txn_key req) code bytes (en_now en))"

lemma answered_respond:
  "co_server_cache co1 = co_server_cache co \<Longrightarrow> answered_or_same en req co (respond co1 en req src resp)"
  using respond_cache_ex [of co1 en req src resp] by (simp add: answered_or_same_def)

lemma answered_check_auth: "answered_or_same en req co (snd (check_auth co en req src))"
proof (cases "fst (check_auth co en req src)")
  case True
  then show ?thesis using check_auth_passed_cache by (simp add: answered_or_same_def)
next
  case False
  then show ?thesis
    by (auto simp: check_auth_def Let_def split_beta intro!: answered_respond split: option.splits if_splits)
qed

lemma answered_handle_register: "answered_or_same en req co (handle_register co en req src)"
proof (cases "fst (check_auth co en req src)")
  case True
  then have "co_server_cache (snd (check_auth co en req src)) = co_server_cache co"
    using check_auth_passed_cache by blast
  with True show ?thesis
    by (auto simp: handle_register_def Let_def split_beta intro!: answered_respond split: option.splits)
next
  case False
  then show ?thesis
    using answered_check_auth [of en req co src] by (simp add: handle_register_def split_beta)
qed

lemma answered_handle_claimed: "answered_or_same en req co (handle_claimed co en req src)"
proof -
  have d: "answered_or_same en req co co' \<Longrightarrow> answered_or_same en req co (deliver req src co')" for co'
    by (simp add: answered_or_same_def deliver_def)
  have r: "answered_or_same en req co co" by (simp add: answered_or_same_def)
  show ?thesis
    using answered_check_auth [of en req co src] answered_handle_register [of en req co src]
    by (cases "rq_method req")
      (auto simp: handle_claimed_def handle_options_def Let_def split_beta intro!: d r answered_respond)
qed

text \<open>
  Runs of the element: datagrams arrive and the gateway answers requests, at times that do not
  decrease. \<open>ce_given\<close> keeps the transaction key and the time of every request that was handed to the
  gateway, an ACK apart.
\<close>

record core_run =
  ce_core :: sip_core
  ce_clock :: instant
  ce_given :: "(string \<times> instant) list"

definition given :: "sip_core \<Rightarrow> sip_core \<Rightarrow> instant \<Rightarrow> string \<Rightarrow> (string \<times> instant) list" where
  "given co co' now data =
     (if co_events co' = co_events co then []
      else (case message_parse data of
          Some (RequestMsg req) \<Rightarrow> if rq_method req = Ack then []
            else (case txn_key req of Some k \<Rightarrow> [(k, now)] | None \<Rightarrow> [])
        | _ \<Rightarrow> []))"

inductive core_step :: "core_run \<Rightarrow> core_run \<Rightarrow> bool" where
  core_arrival: "ce_clock s \<le> en_now en \<Longrightarrow> co' = on_datagram (ce_core s) en data src \<Longrightarrow>
    core_step s \<lparr>ce_core = co', ce_clock = en_now en,
      ce_given = given (ce_core s) co' (en_now en) data @ ce_given s\<rparr>"
| core_answer: "ce_clock s \<le> en_now en \<Longrightarrow>
    core_step s (s\<lparr>ce_core := respond (ce_core s) en req src resp, ce_clock := en_now en\<rparr>)"

inductive core_reachable :: "core_run \<Rightarrow> bool" where
  core_start: "co_server_cache co = kv_empty \<Longrightarrow>
    core_reachable \<lparr>ce_core = co, ce_clock = t0, ce_given = []\<rparr>"
| core_next: "core_reachable s \<Longrightarrow> core_step s s' \<Longrightarrow> core_reachable s'"

text \<open>The simulation: the element's cache is a reachable state of the transaction table, whose log
  contains everything the gateway was given.\<close>

definition simulates :: "core_run \<Rightarrow> txn_run \<Rightarrow> bool" where
  "simulates s ts \<longleftrightarrow> txn_reachable ts \<and> tr_cache ts = co_server_cache (ce_core s) \<and>
     tr_clock ts = ce_clock s \<and> subseq (ce_given s) (tr_log ts)"

lemma txn_reachable_respond:
  assumes "txn_reachable ts" and "tr_clock ts \<le> en_now en"
    and "answered_or_same en req co co'" and "tr_cache ts = co_server_cache co"
  shows "\<exists>ts'. txn_reachable ts' \<and> tr_cache ts' = co_server_cache co' \<and> tr_clock ts' = en_now en \<and>
    tr_log ts' = tr_log ts"
proof -
  have tick: "txn_reachable (ts\<lparr>tr_clock := en_now en\<rparr>)"
  proof -
    have "txn_step ts (ts\<lparr>tr_cache := txn_respond (tr_cache ts) None 0 [] (en_now en), tr_clock := en_now en\<rparr>)"
      by (rule step_respond [OF assms(2)])
    then have "txn_step ts (ts\<lparr>tr_clock := en_now en\<rparr>)" by (simp add: txn_respond_def)
    with assms(1) show ?thesis by (rule reach_step)
  qed
  from assms(3) show ?thesis unfolding answered_or_same_def
  proof (elim disjE exE)
    assume "co_server_cache co' = co_server_cache co"
    with tick assms(4) show ?thesis by (intro exI [of _ "ts\<lparr>tr_clock := en_now en\<rparr>"]) simp
  next
    fix code bytes
    assume eq: "co_server_cache co' = txn_respond (co_server_cache co) (txn_key req) code bytes (en_now en)"
    let ?ts' = "ts\<lparr>tr_cache := txn_respond (tr_cache ts) (txn_key req) code bytes (en_now en), tr_clock := en_now en\<rparr>"
    have "txn_reachable ?ts'" by (rule reach_step [OF assms(1)]) (rule step_respond [OF assms(2)])
    with eq assms(4) show ?thesis by (intro exI [of _ ?ts']) simp
  qed
qed

lemma txn_reachable_gc:
  "txn_reachable ts \<Longrightarrow> now \<le> tr_clock ts \<Longrightarrow> txn_reachable (ts\<lparr>tr_cache := txn_gc (tr_cache ts) now\<rparr>)"
  by (erule reach_step) (rule step_gc)

lemma txn_reachable_claim:
  assumes "txn_reachable ts" and "tr_clock ts \<le> now"
  shows "txn_reachable \<lparr>tr_cache = snd (claim_txn (tr_cache ts) key now), tr_clock = now,
    tr_log = (if fst (claim_txn (tr_cache ts) key now) = Fresh then [(key, now)] else []) @ tr_log ts\<rparr>"
  by (rule reach_step [OF assms(1)]) (rule step_claim [OF assms(2)], simp)

lemma on_request_simulated:
  assumes ts: "txn_reachable ts" "tr_cache ts = co_server_cache co" "tr_clock ts \<le> en_now en"
  shows "\<exists>ts' new. txn_reachable ts' \<and> tr_cache ts' = co_server_cache (on_request co en req src) \<and>
    tr_clock ts' = en_now en \<and> tr_log ts' = new @ tr_log ts \<and>
    (\<forall>k. co_events (on_request co en req src) \<noteq> co_events co \<and> rq_method req \<noteq> Ack \<and> txn_key req = Some k
       \<longrightarrow> new = [(k, en_now en)])"
proof -
  have plain: ?thesis
    if "answered_or_same en req co (on_request co en req src)"
      "co_events (on_request co en req src) = co_events co \<or> rq_method req = Ack \<or> txn_key req = None"
  proof -
    from txn_reachable_respond [OF ts(1,3) that(1) ts(2)]
    show ?thesis using that(2) by (metis append_Nil option.distinct(1))
  qed
  consider "\<not> source_allowed co (sa_ip src)" | "source_allowed co (sa_ip src)" "rq_method req = Ack"
    | "source_allowed co (sa_ip src)" "rq_method req \<noteq> Ack" "txn_key req = None"
    | k where "source_allowed co (sa_ip src)" "rq_method req \<noteq> Ack" "txn_key req = Some k"
    by fastforce
  then show ?thesis
  proof cases
    case 1
    then show ?thesis by (intro plain) (simp_all add: on_request_def answered_respond)
  next
    case 2
    have "answered_or_same en req co (handle_claimed (acknowledge_2xx req co) en req src)"
      using answered_handle_claimed [of en req "acknowledge_2xx req co" src] by (simp add: answered_or_same_def)
    with 2 show ?thesis by (intro plain) (simp_all add: on_request_def)
  next
    case 3
    then show ?thesis by (intro plain) (simp_all add: on_request_def answered_handle_claimed)
  next
    case (4 k)
    let ?now = "en_now en"
    obtain c cache where cl: "claim_txn (co_server_cache co) k ?now = (c, cache)" by fastforce
    let ?co1 = "co\<lparr>co_server_cache := cache\<rparr>"
    let ?t1 = "\<lparr>tr_cache = cache, tr_clock = ?now, tr_log = (if c = Fresh then [(k, ?now)] else []) @ tr_log ts\<rparr>"
    have t1: "txn_reachable ?t1"
      using txn_reachable_claim [OF ts(1,3), of k] cl ts(2) by simp
    show ?thesis
    proof (cases "c = Fresh")
      case True
      then have eq: "on_request co en req src = handle_claimed ?co1 en req src"
        using 4 cl by (simp add: on_request_def Let_def)
      from txn_reachable_respond [OF t1 _ answered_handle_claimed [of en req ?co1 src]]
      obtain t2 where "txn_reachable t2" "tr_cache t2 = co_server_cache (handle_claimed ?co1 en req src)"
        "tr_clock t2 = ?now" "tr_log t2 = (k, ?now) # tr_log ts" using True by auto
      then show ?thesis unfolding eq using 4 by (intro exI [of _ t2] exI [of _ "[(k, ?now)]"]) auto
    next
      case False
      then have same: "co_server_cache (on_request co en req src) = cache"
        "co_events (on_request co en req src) = co_events co"
        using 4 cl by (auto simp: on_request_def Let_def split: claim.splits option.splits)
      show ?thesis using t1 same False by (intro exI [of _ ?t1] exI [of _ "[]"]) simp
    qed
  qed
qed

lemma core_step_simulated:
  assumes "core_step s s'" and "simulates s ts"
  shows "\<exists>ts'. simulates s' ts'"
  using assms(1)
proof cases
  case (core_arrival en co' data src)
  let ?co = "ce_core s"
  have ts: "txn_reachable ts" "tr_cache ts = co_server_cache ?co" "tr_clock ts \<le> en_now en"
      "subseq (ce_given s) (tr_log ts)"
    using assms(2) core_arrival(2) by (simp_all add: simulates_def)
  from txn_reachable_respond [OF ts(1,3) _ ts(2), of undefined ?co] obtain tick where
    tick: "txn_reachable tick" "tr_cache tick = co_server_cache ?co" "tr_clock tick = en_now en" "tr_log tick = tr_log ts"
    by (auto simp: answered_or_same_def)
  show ?thesis
  proof (cases "\<exists>req. \<not> list_all ascii_ws data \<and> message_parse data = Some (RequestMsg req)")
    case True
    then obtain req where req: "\<not> list_all ascii_ws data" "message_parse data = Some (RequestMsg req)" by blast
    then have co': "co' = core_gc (on_request ?co en req src) (en_now en)"
      using core_arrival(3) by (simp add: on_datagram_def)
    obtain t new where t: "txn_reachable t" "tr_cache t = co_server_cache (on_request ?co en req src)"
      "tr_clock t = en_now en" "tr_log t = new @ tr_log ts"
      "\<And>k. co_events (on_request ?co en req src) \<noteq> co_events ?co \<Longrightarrow> rq_method req \<noteq> Ack \<Longrightarrow>
         txn_key req = Some k \<Longrightarrow> new = [(k, en_now en)]"
      using on_request_simulated [OF ts(1,2,3), of req src] by blast
    have "subseq (given ?co co' (en_now en) data @ ce_given s) (new @ tr_log ts)"
      using ts(4) t(5) req(2)
      by (auto simp: given_def co' core_gc_def list_emb_append2 split: option.splits)
    moreover have "txn_reachable (t\<lparr>tr_cache := txn_gc (tr_cache t) (en_now en)\<rparr>)"
      using txn_reachable_gc [OF t(1)] t(3) by simp
    ultimately show ?thesis
      unfolding core_arrival(1) simulates_def
      by (intro exI [of _ "t\<lparr>tr_cache := txn_gc (tr_cache t) (en_now en)\<rparr>"])
        (simp add: t co' core_gc_def)
  next
    case False
    then have ev: "given ?co co' (en_now en) data = []"
      using core_arrival(3)
      by (auto simp: given_def on_datagram_def core_gc_def on_response_def Let_def
          split: option.splits message.splits)
    have "co_server_cache co' = co_server_cache ?co \<or> co_server_cache co' = txn_gc (co_server_cache ?co) (en_now en)"
      using False core_arrival(3)
      by (auto simp: on_datagram_def core_gc_def on_response_def Let_def split: option.splits message.splits)
    then obtain t where "txn_reachable t" "tr_cache t = co_server_cache co'" "tr_clock t = en_now en"
      "tr_log t = tr_log ts"
      using tick txn_reachable_gc [OF tick(1), of "en_now en"] by force
    then show ?thesis unfolding core_arrival(1) simulates_def using ev ts(4) by auto
  qed
next
  case (core_answer en req src resp)
  have "answered_or_same en req (ce_core s) (respond (ce_core s) en req src resp)"
    by (rule answered_respond) simp
  from txn_reachable_respond [OF _ _ this] show ?thesis
    using assms(2) core_answer unfolding simulates_def by (fastforce simp: core_answer(1))
qed

lemma core_reachable_simulated: "core_reachable s \<Longrightarrow> \<exists>ts. simulates s ts"
proof (induction rule: core_reachable.induct)
  case (core_start co t0)
  then show ?case
    using reach_start [of t0] by (fastforce simp: simulates_def)
next
  case (core_next s s')
  then show ?case using core_step_simulated by blast
qed

lemma sorted_wrt_subseq: "sorted_wrt P ys \<Longrightarrow> subseq xs ys \<Longrightarrow> sorted_wrt P xs"
proof (rotate_tac, induction rule: list_emb.induct)
  case (list_emb_Cons2 x y xs ys)
  then show ?case by (auto elim: list_emb_set)
qed auto

text \<open>Property C4: the gateway is given a request (other than an ACK) at most once. In every run of
  the element (datagrams of any content from anywhere, answers of the gateway at any later time,
  handlers that answer by themselves, clean-ups), two deliveries of the same transaction are at least
  32 seconds apart; so retransmissions of a MESSAGE send one SMS, those of an INVITE dial once.\<close>

theorem gateway_given_once:
  assumes "core_reachable s" and "ce_given s = later @ (k, t) # mid @ (k, t0) # early"
  shows "t0 + secs 32 \<le> t"
proof -
  obtain ts where "txn_reachable ts" and sub: "subseq (ce_given s) (tr_log ts)"
    using core_reachable_simulated [OF assms(1)] by (auto simp: simulates_def)
  then have "spaced (tr_log ts)" using txn_reachable_invariant by blast
  then have "spaced (ce_given s)" using sub unfolding spaced_def by (rule sorted_wrt_subseq)
  then show ?thesis using assms(2) by (simp add: spaced_def sorted_wrt_append txn_lifetime_def)
qed

text \<open>An INVITE that arrives twice, forty seconds apart, at an element without accounts.\<close>

definition open_core :: sip_core where
  "open_core = example_core\<lparr>co_cfg := example_cfg\<lparr>cfg_auth := None\<rparr>, co_server_cache := kv_empty\<rparr>"

definition arrived_invite :: request where
  "arrived_invite = example_invite\<lparr>rq_headers := rq_headers example_invite @ [(''content-length'', ''0'')]\<rparr>"

lemma arrived_invite_key: "txn_key arrived_invite = Some ''z9|1|7|INVITE''"
proof -
  have "hget (rq_headers arrived_invite) n = hget (rq_headers example_invite) n" if "n \<in> {''via'', ''cseq''}" for n
    using that by (elim insertE emptyE; simp only:; code_simp)
  then have "h_top_via (rq_headers arrived_invite) = h_top_via (rq_headers example_invite)"
    "h_cseq (rq_headers arrived_invite) = h_cseq (rq_headers example_invite)"
    by (simp_all add: h_top_via_def h_cseq_def)
  moreover have "rq_method arrived_invite = rq_method example_invite" by (simp add: arrived_invite_def)
  ultimately have "txn_key arrived_invite = txn_key example_invite" unfolding txn_key_def by (simp only:)
  then show ?thesis by (simp only: example_invite_key)
qed

lemma arrived_invite_parse: "message_parse (request_encode example_invite) = Some (RequestMsg arrived_invite)"
proof -
  have names: "wf_header_name ''via''" "wf_header_name ''cseq''" "wf_header_name ''call-id''" by code_simp+
  have "wf_uri (rq_uri example_invite)" by code_simp
  then have wf: "wf_request example_invite"
    using names by (simp add: wf_request_def example_invite_def request_new_def is_ascii_def byte_of_def)
  have "map (wire_header 0) (rq_headers example_invite) = rq_headers example_invite" by code_simp
  moreover have "show_nat 0 = ''0''" by code_simp
  ultimately have "wire_headers (rq_headers example_invite) 0 = rq_headers arrived_invite"
    by (simp add: wire_headers_def arrived_invite_def) (simp add: example_invite_def request_new_def)
  then show ?thesis
    using request_encode_parse_aux [OF wf, of "[]"]
    by (simp add: arrived_invite_def) (simp add: example_invite_def request_new_def)
qed

lemma open_core_arrival:
  assumes "co_cfg co = co_cfg open_core" and "kv_size (co_server_cache co) \<le> 1"
    and "\<And>txn. kv_get (co_server_cache co) ''z9|1|7|INVITE'' = Some txn \<Longrightarrow> txn_lifetime \<le> en_now en - txn_started txn"
  shows "co_events (on_datagram co en (request_encode example_invite) example_src) = co_events co @ [(arrived_invite, example_src)]"
    and "co_cfg (on_datagram co en (request_encode example_invite) example_src) = co_cfg open_core"
    and "co_server_cache (on_datagram co en (request_encode example_invite) example_src) =
      txn_gc (kv_put ''z9|1|7|INVITE'' (InProgress (en_now en) None) (co_server_cache co)) (en_now en)"
proof -
  have "claim_txn (co_server_cache co) ''z9|1|7|INVITE'' (en_now en) =
      (Fresh, kv_put ''z9|1|7|INVITE'' (InProgress (en_now en) None) (co_server_cache co))"
    using assms(3) by (auto simp: claim_txn_def Let_def not_less split: option.splits)
  moreover have "\<not> list_all ascii_ws (request_encode example_invite)"
    by (simp add: request_encode_def serialize_def head_lines_def header_safe_def example_invite_def
        request_new_def ascii_ws_def byte_of_def strip_controls.simps ctl_byte_def)
  moreover have "source_allowed co (sa_ip example_src)"
    using assms(1) by (simp add: source_allowed_def open_core_def example_cfg_def)
  moreover have "rq_method arrived_invite = Invite"
    by (simp add: arrived_invite_def example_invite_no_auth)
  moreover have "check_auth co' en arrived_invite example_src = (True, co')" if "co_cfg co' = co_cfg open_core" for co'
    using that by (simp add: check_auth_def open_core_def example_cfg_def)
  ultimately have eq: "on_datagram co en (request_encode example_invite) example_src =
      core_gc (deliver arrived_invite example_src (co\<lparr>co_server_cache :=
        kv_put ''z9|1|7|INVITE'' (InProgress (en_now en) None) (co_server_cache co)\<rparr>)) (en_now en)"
    using assms(1)
    by (simp add: on_datagram_def arrived_invite_parse on_request_def arrived_invite_key handle_claimed_def)
  show "co_events (on_datagram co en (request_encode example_invite) example_src) = co_events co @ [(arrived_invite, example_src)]"
    "co_cfg (on_datagram co en (request_encode example_invite) example_src) = co_cfg open_core"
    "co_server_cache (on_datagram co en (request_encode example_invite) example_src) =
      txn_gc (kv_put ''z9|1|7|INVITE'' (InProgress (en_now en) None) (co_server_cache co)) (en_now en)"
    unfolding eq using assms(1) by (simp_all add: core_gc_def deliver_def)
qed

definition first_arrival :: sip_core where
  "first_arrival = on_datagram open_core (example_env\<lparr>en_now := secs 5\<rparr>) (request_encode example_invite) example_src"

definition second_arrival :: sip_core where
  "second_arrival = on_datagram first_arrival (example_env\<lparr>en_now := secs 45\<rparr>) (request_encode example_invite) example_src"

lemma arrivals_reachable:
  "core_reachable \<lparr>ce_core = second_arrival, ce_clock = secs 45,
     ce_given = [(''z9|1|7|INVITE'', secs 45), (''z9|1|7|INVITE'', secs 5)]\<rparr>"
proof -
  let ?e1 = "example_env\<lparr>en_now := secs 5\<rparr>" and ?e2 = "example_env\<lparr>en_now := secs 45\<rparr>"
  let ?s0 = "\<lparr>ce_core = open_core, ce_clock = 0, ce_given = []\<rparr>"
  let ?s1 = "\<lparr>ce_core = first_arrival, ce_clock = secs 5, ce_given = [(''z9|1|7|INVITE'', secs 5)]\<rparr>"
  have none: "kv_get (co_server_cache open_core) k = None" for k
    by (simp add: open_core_def kv.get_empty)
  have small: "kv_size (co_server_cache open_core) \<le> 1" by (simp add: open_core_def kv_size_def kv_empty_def)
  have old: "txn_lifetime \<le> en_now ?e1 - txn_started txn"
    if "kv_get (co_server_cache open_core) ''z9|1|7|INVITE'' = Some txn" for txn
    using that by (simp add: none)
  note first = open_core_arrival [of open_core ?e1, OF refl small old, folded first_arrival_def]
  have c1: "co_server_cache first_arrival = [(''z9|1|7|INVITE'', InProgress (secs 5) None)]"
    by (simp add: first(3)) (simp add: open_core_def kv_empty_def txn_gc_def kv_size_def kv_put_def kv_del_def)
  have get1: "kv_get (co_server_cache first_arrival) ''z9|1|7|INVITE'' = Some (InProgress (secs 5) None)"
    by (simp add: c1 kv_get_def)
  have ev1: "co_events first_arrival \<noteq> co_events open_core" by (simp add: first(1))
  have "rq_method arrived_invite \<noteq> Ack" by (simp add: arrived_invite_def example_invite_no_auth)
  then have g: "given co co' now (request_encode example_invite) = [(''z9|1|7|INVITE'', now)]"
    if "co_events co' \<noteq> co_events co" for co co' now
    using that by (simp add: given_def arrived_invite_parse arrived_invite_key)
  have "core_step ?s0 ?s1"
    using core_arrival [of ?s0 ?e1 first_arrival "request_encode example_invite" example_src] g [OF ev1]
    by (simp add: first_arrival_def)
  moreover have "core_step ?s1 \<lparr>ce_core = second_arrival, ce_clock = secs 45,
      ce_given = [(''z9|1|7|INVITE'', secs 45), (''z9|1|7|INVITE'', secs 5)]\<rparr>"
  proof -
    have "co_events second_arrival = co_events first_arrival @ [(arrived_invite, example_src)]"
      unfolding second_arrival_def
    proof (rule open_core_arrival(1))
      show "co_cfg first_arrival = co_cfg open_core" by (rule first(2))
      show "kv_size (co_server_cache first_arrival) \<le> 1" by (simp add: c1 kv_size_def)
      show "txn_lifetime \<le> en_now ?e2 - txn_started txn"
        if "kv_get (co_server_cache first_arrival) ''z9|1|7|INVITE'' = Some txn" for txn
        using that by (auto simp: get1 txn_lifetime_def secs_def)
    qed
    then have "co_events second_arrival \<noteq> co_events first_arrival" by simp
    then show ?thesis
      using core_arrival [of ?s1 ?e2 second_arrival "request_encode example_invite" example_src] g
      by (simp add: second_arrival_def)
  qed
  moreover have "core_reachable ?s0" by (rule core_start) (simp add: open_core_def)
  ultimately show ?thesis by (meson core_next)
qed

theorem gateway_given_once_witness:
  "ce_given \<lparr>ce_core = second_arrival, ce_clock = secs 45,
      ce_given = [(''z9|1|7|INVITE'', secs 45), (''z9|1|7|INVITE'', secs 5)]\<rparr> \<noteq> [] \<and> secs 5 + secs 32 \<le> secs 45"
  using gateway_given_once [OF arrivals_reachable, where later = "[]" and mid = "[]" and early = "[]"
        and k = "''z9|1|7|INVITE''"] by simp

section \<open>Responses that arrive\<close>

text \<open>The transaction a response belongs to: the branch it mirrors names it, and the method of its
  CSeq is the method the transaction sent.\<close>

definition response_target :: "sip_core \<Rightarrow> response \<Rightarrow> (string \<times> client_txn) option" where
  "response_target co resp =
     (case Option.bind (h_top_via (rs_headers resp)) via_branch of
        None \<Rightarrow> None
      | Some branch \<Rightarrow> (case kv_get (co_client_txns co) branch of
          None \<Rightarrow> None
        | Some entry \<Rightarrow> if map_option snd (h_cseq (rs_headers resp)) = Some (ct_method entry)
            then Some (branch, entry) else None))"

text \<open>A response is delivered to exactly the transaction it answers, matched on branch and
  method, so the 200 to a CANCEL (which carries the INVITE's branch) never answers the INVITE; it stops
  that transaction's retransmissions if it is final or the transaction is an INVITE, and only then;
  a response that matches no transaction changes nothing.\<close>

theorem response_dispatch:
  "on_response co resp = (case response_target co resp of
      None \<Rightarrow> co
    | Some (branch, entry) \<Rightarrow>
        (if 200 \<le> rs_code resp \<or> ct_method entry = Invite
         then co\<lparr>co_stopped := ct_flag entry # co_stopped co\<rparr> else co)
        \<lparr>co_client_txns := kv_put branch (entry\<lparr>ct_received := ct_received entry @ [resp]\<rparr>) (co_client_txns co)\<rparr>)"
  by (auto simp: on_response_def response_target_def stop_flag_def Let_def split: option.splits)

section \<open>The 2xx and its ACK\<close>

definition flags_bounded :: "sip_core \<Rightarrow> bool" where
  "flags_bounded co \<longleftrightarrow> (\<forall>k i. kv_get (co_pending_ack co) k = Some i \<longrightarrow> i < co_flags co)"

text \<open>A 2xx to an INVITE starts one retransmission task, for exactly the bytes and the
  destination of the first copy, and stops the task of an earlier unacknowledged 2xx of the same
  call and sequence number; an ACK that carries the INVITE's Call-ID and sequence number, whatever its
  branch, sets the flag of that task and of no other.\<close>

lemma ack_stops_the_2xx:
  assumes "rq_method invite = Invite" and "200 \<le> rs_code resp" and "rs_code resp < 300"
    and "dialog_key invite = Some key" and "dialog_key ack = Some key"
  shows "\<exists>bytes. co_sent (respond co en invite src resp) = co_sent co @ [(bytes, src)] \<and>
    co_timers (respond co en invite src resp) = co_timers co @
      [\<lparr>tm_flag = co_flags co, tm_bytes = bytes, tm_dest = src, tm_key = Some key\<rparr>] \<and>
    co_stopped (acknowledge_2xx ack (respond co en invite src resp)) =
      co_flags co # co_stopped (respond co en invite src resp) \<and>
    co_stopped (respond co en invite src resp) =
      (case kv_get (co_pending_ack co) key of Some i \<Rightarrow> [i] | None \<Rightarrow> []) @ co_stopped co"
  using assms
  by (simp add: respond_def retransmit_until_acked_def acknowledge_2xx_def start_timer_def send_def
      stop_flag_def kv.get_put Let_def split: option.splits)

definition example_ok :: response where
  "example_ok = \<lparr>rs_code = 200, rs_reason = ''OK'', rs_headers = [], rs_body = []\<rparr>"

lemma example_dialog_key: "dialog_key example_invite = Some ''c|7''" 
  "dialog_key (example_invite\<lparr>rq_method := Ack\<rparr>) = Some ''c|7''"
proof -
  have "hget (rq_headers example_invite) ''call-id'' = Some ''c''" by code_simp
  moreover have "split_whitespace ''7 INVITE'' = [''7'', ''INVITE'']" "method_parse ''INVITE'' = Some Invite"
    by code_simp+
  moreover have "parse_u32 ''7'' = Some 7"
    by (simp add: parse_u32_def parse_uint_def parse_radix_def strip_prefix_Cons digit_val_def byte_of_def)
  moreover have "hget (rq_headers example_invite) ''cseq'' = Some ''7 INVITE''" by code_simp
  moreover have "show_nat 7 = ''7''" by code_simp
  ultimately show "dialog_key example_invite = Some ''c|7''"
    "dialog_key (example_invite\<lparr>rq_method := Ack\<rparr>) = Some ''c|7''"
    by (simp_all add: dialog_key_def h_cseq_def h_call_id_def bar_def)
qed

lemma ack_stops_the_2xx_witness:
  "co_stopped (acknowledge_2xx (example_invite\<lparr>rq_method := Ack\<rparr>)
      (respond open_core example_env example_invite example_src example_ok)) = [0]"
proof -
  have "rq_method example_invite = Invite" "200 \<le> rs_code example_ok" "rs_code example_ok < 300"
    by (simp_all add: example_invite_no_auth example_ok_def)
  note * = ack_stops_the_2xx [OF this example_dialog_key, of open_core example_env example_src]
  then show ?thesis by (auto simp: open_core_def example_core_def kv.get_empty)
qed

section \<open>Via and To\<close>

lemma hget_all_replace_first:
  assumes "hget_all h n = w # ws"
  shows "hget_all (hreplace_first h n v) n = v # ws"
  using assms
proof (induction h)
  case (Cons p h)
  then show ?case
    by (cases p) (auto simp: hget_all_def hreplace_first_def split: if_splits)
qed (simp add: hget_all_def)

lemma hget_all_replace_first_other:
  "canonical n \<noteq> canonical m \<Longrightarrow> hget_all (hreplace_first h n v) m = hget_all h m"
proof (induction h)
  case (Cons p h)
  then show ?case by (cases p) (auto simp: hget_all_def hreplace_first_def)
qed (simp add: hget_all_def hreplace_first_def)

text \<open>Annotating the topmost Via with the source of the request changes nothing else: the
  further Via fields stay as they are and in order, the values that share the first field follow it
  unchanged after their comma, and no other header field is touched. So every proxy on the way back
  finds its own Via.\<close>

theorem annotate_via_keeps_the_rest:
  "(case hget_all h ''via'' of
      [] \<Rightarrow> hget_all (annotate_via h src) ''via'' = []
    | raw # vias \<Rightarrow> \<exists>first. hget_all (annotate_via h src) ''via'' =
        (case split_once (CHR '','') raw of Some (_, r) \<Rightarrow> first @ '','' @ r | None \<Rightarrow> first) # vias) \<and>
   (canonical n = ''via'' \<or> hget_all (annotate_via h src) n = hget_all h n)"
proof (cases "hget_all h ''via''")
  case Nil
  then have "hget h ''via'' = None" by (simp add: hs.get_None)
  then have "annotate_via h src = h" by (simp add: annotate_via_def)
  with Nil show ?thesis by simp
next
  case (Cons raw vias)
  then have raw: "hget h ''via'' = Some raw" by (simp add: hs.get_first)
  have other: "canonical n = ''via'' \<or> hget_all (annotate_via h src) n = hget_all h n"
  proof -
    have "hget_all (hreplace_first h ''via'' v) n = hget_all h n" if "canonical n \<noteq> ''via''" for v
      using that hget_all_replace_first_other [of "''via''" n h v] by (simp add: eq_commute)
    with raw show ?thesis
      by (auto simp: annotate_via_def Let_def split_beta split: option.splits)
  qed
  have "\<exists>first. hget_all (annotate_via h src) ''via'' =
      (case split_once (CHR '','') raw of Some (_, r) \<Rightarrow> first @ '','' @ r | None \<Rightarrow> first) # vias"
  proof (cases "split_once (CHR '','') raw")
    case None
    then show ?thesis
      using raw Cons hget_all_replace_first [OF Cons] by (simp add: annotate_via_def Let_def split: option.split)
  next
    case (Some fr)
    obtain f r where fr: "fr = (f, r)" by (cases fr)
    then have f: "raw = f @ '','' @ r" using Some by (simp add: split_once_Some_iff)
    show ?thesis
    proof (cases "via_parse f")
      case None
      then have "annotate_via h src = h" using raw Some fr by (simp add: annotate_via_def)
      with Some fr f Cons show ?thesis by simp
    next
      case (Some via)
      then have "\<exists>v. annotate_via h src = hreplace_first h ''via'' (via_show v @ '','' @ r)"
        using raw \<open>split_once (CHR '','') raw = Some fr\<close> fr by (simp add: annotate_via_def Let_def) blast
      with \<open>split_once (CHR '','') raw = Some fr\<close> fr show ?thesis
        using hget_all_replace_first [OF Cons] by auto
    qed
  qed
  with Cons other show ?thesis by simp
qed

text \<open>Every response the gateway makes except a 100 carries a To tag: the one the request
  already had, or a new one of the given random bytes, on the otherwise unchanged To; and a 100 mirrors
  To as it came.\<close>

theorem response_has_to_tag:
  assumes "h_to (rq_headers req) = Some t" and "wf_name_addr (na_with_tag t (random_hex (en_tag en)))"
  shows "h_to (rs_headers (make_response co en req code reason)) =
    Some (if code \<noteq> 100 \<and> na_tag t = None then na_with_tag t (random_hex (en_tag en)) else t) \<and>
    na_tag (na_with_tag t (random_hex (en_tag en))) = Some (random_hex (en_tag en))"
proof
  let ?t' = "na_with_tag t (random_hex (en_tag en))"
  obtain raw where raw: "hget (rq_headers req) ''to'' = Some raw" "name_addr_parse raw = Some t"
    using assms(1) by (auto simp: h_to_def split: option.splits bind_splits)
  have "hget_all (rs_headers (reply req k r)) ''to'' = take 1 (hget_all (rq_headers req) ''to'')" for k r
    using reply_headers [of req k r "''to''"] by simp
  then have "hget (rs_headers (reply req k r)) ''to'' = Some raw" for k r
    using raw(1) by (auto simp: hs.get_first split: list.splits)
  then have to: "h_to (hset (rs_headers (reply req k r)) ''user-agent'' v) = Some t" for k r v
    using raw(2) by (simp add: h_to_def hs.get_set_other)
  have wrote: "h_to (hset h ''to'' (name_addr_show ?t')) = Some ?t'" for h
    using name_addr_parse_show_aux [OF assms(2)] by (simp add: h_to_def hs.get_set)
  show "h_to (rs_headers (make_response co en req code reason)) =
    Some (if code \<noteq> 100 \<and> na_tag t = None then ?t' else t)"
    by (simp add: make_response_def Let_def to wrote)
  show "na_tag ?t' = Some (random_hex (en_tag en))"
    by (simp add: na_tag_def na_with_tag_def np.get_set)
qed

definition tagless_request :: request where
  "tagless_request = (request_new Options (uri_new None ''gw'' None))\<lparr>rq_headers := [(''to'', ''<sip:x@gw>'')]\<rparr>"

theorem response_has_to_tag_witness:
  "h_to (rs_headers (make_response open_core example_env tagless_request 200 None)) =
    Some (na_with_tag (name_addr_new (uri_new (Some ''x'') ''gw'' None)) ''0102'')"
proof -
  let ?t = "name_addr_new (uri_new (Some ''x'') ''gw'' None)"
  have hx: "random_hex (en_tag example_env) = ''0102''" by (simp add: example_env_def) code_simp
  have t: "h_to (rq_headers tagless_request) = Some ?t" by code_simp
  have wf: "wf_name_addr (na_with_tag ?t (random_hex (en_tag example_env)))" unfolding hx by code_simp
  have "na_tag ?t = None" by code_simp
  with response_has_to_tag [OF t wf, of open_core 200 None] show ?thesis by (simp add: hx)
qed

end
