(* ===== verification/CallControl.thy ===== *)
theory CallControl
  imports Gateway SipServer
begin

text \<open>
  What the gateway guarantees about the one call it carries. The first part says which fields each
  step leaves alone; the properties follow from it event by event.
\<close>

section \<open>What the steps leave alone\<close>

text \<open>What identifies a call, and never changes while it lasts.\<close>

definition call_identity :: "active_call \<Rightarrow> role \<times> string option \<times> string \<times> nat option \<times> name_addr \<times> u16" where
  "call_identity c = (ca_role c, ca_mm_path c, ca_call_id c, ca_cdr_id c, ca_local c, ca_local_rtp_port c)"

definition stage_of :: "gateway \<Rightarrow> ((role \<times> string option \<times> string \<times> nat option \<times> name_addr \<times> u16) \<times> bool) option" where
  "stage_of gw = map_option (\<lambda>c. (call_identity c, ca_answered c)) (gw_call gw)"

text \<open>What the gateway never changes in the SIP element: the requests it was given, and who it is.\<close>

definition core_log :: "sip_core \<Rightarrow> (request \<times> socket_addr) list \<times> sip_cfg \<times> socket_addr" where
  "core_log co = (co_events co, co_cfg co, co_bound co)"

lemma core_log_simps [simp]: "core_log (respond co en req src resp) = core_log co"
  "core_log (send_raw co req dest) = core_log co" "core_log (snd (next_cseq co)) = core_log co"
  "core_log (co\<lparr>co_modem_ready := b\<rparr>) = core_log co"
  "core_log (fst (resolve_target co lookup order now t)) = core_log co"
  by (simp_all add: core_log_def send_raw_def next_cseq_def resolve_target_def split_beta Let_def split: option.split)

lemma core_log_send [simp]: "send_request co req dest = Some (branch, co') \<Longrightarrow> core_log co' = core_log co"
  by (auto simp: send_request_def core_log_def Let_def split: option.splits)

lemma core_log_eqs: "next_cseq co = (q, co') \<Longrightarrow> core_log co' = core_log co"
  "resolve_target co lookup order now t = (co', r) \<Longrightarrow> core_log co' = core_log co"
  using core_log_simps(3) [of co] core_log_simps(5) [of co lookup order now t] by auto

lemma core_log_in_dialog [simp]: "core_log (snd (build_in_dialog_request en co c m)) = core_log co"
  by (simp add: build_in_dialog_request_def split_beta)

text \<open>A step between two states of one call: it may talk to the SIP side and change how far the call
  is, and nothing else.\<close>

definition talks :: "gateway \<Rightarrow> gateway \<Rightarrow> bool" where
  "talks gw gw' \<longleftrightarrow> gw_cfg gw' = gw_cfg gw \<and> gw_modem gw' = gw_modem gw \<and> gw_db gw' = gw_db gw \<and>
     gw_ops gw' = gw_ops gw \<and> gw_spawned gw' = gw_spawned gw \<and> stage_of gw' = stage_of gw \<and>
     core_log (gw_core gw') = core_log (gw_core gw)"

lemma talks_refl [simp]: "talks gw gw"
  by (simp add: talks_def)

lemma talks_trans: "talks a b \<Longrightarrow> talks b c \<Longrightarrow> talks a c"
  by (simp add: talks_def)

lemma with_core_fields [simp]: "gw_call (with_core f gw) = gw_call gw" "gw_core (with_core f gw) = f (gw_core gw)"
  "gw_cfg (with_core f gw) = gw_cfg gw" "gw_modem (with_core f gw) = gw_modem gw" "gw_db (with_core f gw) = gw_db gw"
  "gw_ops (with_core f gw) = gw_ops gw" "gw_spawned (with_core f gw) = gw_spawned gw"
  by (simp_all add: with_core_def)

lemma with_call_fields [simp]: "gw_core (with_call f gw) = gw_core gw" "gw_call (with_call f gw) = map_option f (gw_call gw)"
  "gw_cfg (with_call f gw) = gw_cfg gw" "gw_modem (with_call f gw) = gw_modem gw" "gw_db (with_call f gw) = gw_db gw"
  "gw_ops (with_call f gw) = gw_ops gw" "gw_spawned (with_call f gw) = gw_spawned gw"
  by (simp_all add: with_call_def)

lemma talks_with_call:
  "(\<And>c. call_identity (f c) = call_identity c \<and> ca_answered (f c) = ca_answered c) \<Longrightarrow> talks gw (with_call f gw)"
  by (simp add: talks_def stage_of_def option.map_comp comp_def)

lemma gw_respond_fields [simp]: "gw_call (gw_respond ge req src resp gw) = gw_call gw"
  "gw_cfg (gw_respond ge req src resp gw) = gw_cfg gw" "gw_modem (gw_respond ge req src resp gw) = gw_modem gw"
  "gw_db (gw_respond ge req src resp gw) = gw_db gw" "gw_ops (gw_respond ge req src resp gw) = gw_ops gw"
  "gw_spawned (gw_respond ge req src resp gw) = gw_spawned gw"
  "core_log (gw_core (gw_respond ge req src resp gw)) = core_log (gw_core gw)"
  by (simp_all add: gw_respond_def)

lemma gw_reply_fields [simp]: "gw_call (gw_reply ge req src code gw) = gw_call gw"
  "gw_cfg (gw_reply ge req src code gw) = gw_cfg gw" "gw_modem (gw_reply ge req src code gw) = gw_modem gw"
  "gw_db (gw_reply ge req src code gw) = gw_db gw" "gw_ops (gw_reply ge req src code gw) = gw_ops gw"
  "gw_spawned (gw_reply ge req src code gw) = gw_spawned gw"
  "core_log (gw_core (gw_reply ge req src code gw)) = core_log (gw_core gw)"
  by (simp_all add: gw_reply_def Let_def)

lemma answer_invite_fields [simp]: "gw_call (answer_invite ge code c gw) = gw_call gw"
  "gw_cfg (answer_invite ge code c gw) = gw_cfg gw" "gw_modem (answer_invite ge code c gw) = gw_modem gw"
  "gw_db (answer_invite ge code c gw) = gw_db gw" "gw_ops (answer_invite ge code c gw) = gw_ops gw"
  "gw_spawned (answer_invite ge code c gw) = gw_spawned gw"
  "core_log (gw_core (answer_invite ge code c gw)) = core_log (gw_core gw)"
  by (simp_all add: answer_invite_def Let_def)

lemma ack_failure_fields [simp]: "gw_call (ack_failure resp gw) = gw_call gw"
  "gw_cfg (ack_failure resp gw) = gw_cfg gw" "gw_modem (ack_failure resp gw) = gw_modem gw"
  "gw_db (ack_failure resp gw) = gw_db gw" "gw_ops (ack_failure resp gw) = gw_ops gw"
  "gw_spawned (ack_failure resp gw) = gw_spawned gw"
  "core_log (gw_core (ack_failure resp gw)) = core_log (gw_core gw)"
  by (simp_all add: ack_failure_def Let_def split: option.splits)

lemma cancel_outgoing_fields [simp]: "gw_call (cancel_outgoing_invite gw) = gw_call gw"
  "gw_cfg (cancel_outgoing_invite gw) = gw_cfg gw" "gw_modem (cancel_outgoing_invite gw) = gw_modem gw"
  "gw_db (cancel_outgoing_invite gw) = gw_db gw" "gw_ops (cancel_outgoing_invite gw) = gw_ops gw"
  "gw_spawned (cancel_outgoing_invite gw) = gw_spawned gw"
  "core_log (gw_core (cancel_outgoing_invite gw)) = core_log (gw_core gw)"
  by (simp_all add: cancel_outgoing_invite_def split: option.splits)

lemma talks_fields: "gw_call gw' = gw_call gw \<Longrightarrow> gw_cfg gw' = gw_cfg gw \<Longrightarrow> gw_modem gw' = gw_modem gw \<Longrightarrow>
    gw_db gw' = gw_db gw \<Longrightarrow> gw_ops gw' = gw_ops gw \<Longrightarrow> gw_spawned gw' = gw_spawned gw \<Longrightarrow>
    core_log (gw_core gw') = core_log (gw_core gw) \<Longrightarrow> talks gw gw'"
  by (simp add: talks_def stage_of_def)

lemma talks_send_provisional [simp]: "talks gw (send_provisional ge code gw)"
proof (cases "gw_call gw")
  case (Some c)
  have "talks gw (with_call (\<lambda>c. c\<lparr>ca_ringing_sent := True\<rparr>) gw)"
    by (rule talks_with_call) (simp add: call_identity_def)
  moreover have "talks g (answer_invite ge code c g)" for g by (rule talks_fields) simp_all
  ultimately show ?thesis using Some by (auto simp: send_provisional_def intro: talks_trans)
qed (simp add: send_provisional_def)

lemma talks_start_media [simp]: "talks gw (snd (start_media ge remote cd gw))"
proof -
  have "talks gw (with_call (\<lambda>c. add_task Rfc2833Relay (add_task InbandRelay (c\<lparr>ca_rtp_socket := False,
      ca_media_dtmf_pt := Option.bind (ca_remote_sdp c) sdp_telephone_event, ca_media := m c\<rparr>))) gw)" for m
    by (rule talks_with_call) (simp add: call_identity_def add_task_def)
  then show ?thesis
    by (auto simp: start_media_def Let_def split: option.splits)
qed

lemma talks_open_media [simp]: "talks gw (snd (open_media_for_early_media ge gw))"
  by (auto simp: open_media_for_early_media_def split: option.splits)

lemma talks_respond_with_media [simp]: "talks gw (snd (respond_with_media ge code gw))"
proof (cases "gw_call gw")
  case (Some c)
  show ?thesis
  proof (cases "ca_remote_sdp c")
    case s: (Some s)
    obtain ok gw1 where m: "(if ca_media c = None then start_media ge (sdp_endpoint s) (ca_codec c) gw else (True, gw)) = (ok, gw1)"
      by fastforce
    have "talks gw (snd (if ca_media c = None then start_media ge (sdp_endpoint s) (ca_codec c) gw else (True, gw)))" by simp
    then have "talks gw gw1" unfolding m by simp
    moreover have "talks gw1 (gw_respond ge r d p gw1)" for r d p by (rule talks_fields) simp_all
    ultimately show ?thesis
      using Some s m talks_trans by (auto simp: respond_with_media_def Let_def split: option.splits)
  qed (simp add: Some respond_with_media_def)
qed (simp add: respond_with_media_def)

lemma talks_start_early_media [simp]: "talks gw (snd (start_early_media ge gw))"
proof -
  let ?f = "\<lambda>c. case ca_media c of None \<Rightarrow> c
    | Some m \<Rightarrow> add_task EarlyMediaWatch (c\<lparr>ca_media := Some (m\<lparr>ss_rings := reset_uplink_level (ss_rings m)\<rparr>)\<rparr>)"
  obtain ok gw1 where m: "open_media_for_early_media ge gw = (ok, gw1)" by fastforce
  have "talks gw (snd (open_media_for_early_media ge gw))" by simp
  then have step: "talks gw gw1" unfolding m by simp
  have "talks g (with_call ?f g)" for g
    by (rule talks_with_call) (simp add: call_identity_def add_task_def split: option.split)
  from talks_trans [OF talks_trans [OF step talks_send_provisional] this] show ?thesis
    using step by (simp add: start_early_media_def m)
qed

lemma talks_upgrade [simp]: "talks gw (snd (upgrade_to_early_media ge gw))"
proof (cases "gw_call gw")
  case (Some c)
  obtain ok gw1 where m: "respond_with_media ge 183 gw = (ok, gw1)" by fastforce
  have "talks gw (snd (respond_with_media ge 183 gw))" by simp
  then have step: "talks gw gw1" unfolding m by simp
  have "talks gw1 (with_call (\<lambda>c. c\<lparr>ca_early_media := True\<rparr>) gw1)"
    by (rule talks_with_call) (simp add: call_identity_def)
  from talks_trans [OF step this] show ?thesis using Some step by (simp add: upgrade_to_early_media_def m)
qed (simp add: upgrade_to_early_media_def)

lemma talks_on_alerting [simp]: "talks gw (on_alerting ge gw)"
proof -
  obtain ok gw1 where m: "start_early_media ge gw = (ok, gw1)" by fastforce
  have "talks gw (snd (start_early_media ge gw))" by simp
  then have step: "talks gw gw1" unfolding m by simp
  then show ?thesis
    using talks_trans [OF step talks_send_provisional] by (simp add: on_alerting_def m)
qed

lemma talks_reinvite [simp]: "talks gw (on_sip_reinvite ge req src gw)"
proof -
  have "talks gw (follow_offer ge offer gw)" for offer
  proof (cases offer)
    case (Some s)
    then show ?thesis
      unfolding follow_offer_def by (simp) (rule talks_with_call, simp add: call_identity_def)
  qed (simp add: follow_offer_def)
  moreover have "talks g (gw_respond ge req src r g)" for g r by (rule talks_fields) simp_all
  ultimately have answer: "talks gw (answer_reinvite ge req src c offer gw)" for c offer
    unfolding answer_reinvite_def by (rule talks_trans)
  have reply: "talks gw (gw_reply ge req src code gw)" for code by (rule talks_fields) simp_all
  show ?thesis
    by (auto simp: on_sip_reinvite_def Let_def answer reply split: option.split)
qed

section \<open>Keeping, ending and beginning a call\<close>

definition hangups :: "modem_handle option \<Rightarrow> string option \<Rightarrow> modem_op list" where
  "hangups m p = (case (m, p) of (Some _, Some x) \<Rightarrow> [Hangup x] | _ \<Rightarrow> [])"

definition open_rows :: "database \<Rightarrow> nat list" where
  "open_rows db = map cl_row_id (filter (\<lambda>r. cl_row_ended r = None) (db_calls db))"

definition no_dial :: "modem_op list \<Rightarrow> bool" where
  "no_dial ops \<longleftrightarrow> list_all (\<lambda>op. case op of Dial _ \<Rightarrow> False | _ \<Rightarrow> True) ops"

definition ops_grow :: "gateway \<Rightarrow> gateway \<Rightarrow> modem_op list \<Rightarrow> bool" where
  "ops_grow gw gw' last_ops \<longleftrightarrow>
     (\<exists>more. gw_ops gw' = gw_ops gw @ more @ last_ops \<and> (gw_call gw \<noteq> None \<longrightarrow> no_dial more))"

text \<open>The three things an event can do to the call: the call, if there is one, goes on; it ends, its
  mobile leg is hung up and its record closed; or one begins where there was none.\<close>

definition keeps :: "gateway \<Rightarrow> gateway \<Rightarrow> bool" where
  "keeps gw gw' \<longleftrightarrow> gw_cfg gw' = gw_cfg gw \<and> core_log (gw_core gw') = core_log (gw_core gw) \<and> ops_grow gw gw' [] \<and> open_rows (gw_db gw') = open_rows (gw_db gw) \<and>
     map_option call_identity (gw_call gw') = map_option call_identity (gw_call gw) \<and>
     (\<forall>c c'. gw_call gw = Some c \<longrightarrow> gw_call gw' = Some c' \<longrightarrow> ca_answered c \<longrightarrow> ca_answered c')"

definition closes :: "gw_env \<Rightarrow> gateway \<Rightarrow> gateway \<Rightarrow> bool" where
  "closes ge gw gw' \<longleftrightarrow> gw_cfg gw' = gw_cfg gw \<and> core_log (gw_core gw') = core_log (gw_core gw) \<and> gw_call gw' = None \<and>
     (\<exists>c. gw_call gw = Some c \<and> ops_grow gw gw' (hangups (gw_modem gw') (ca_mm_path c)) \<and>
        (ge_db_ok ge \<longrightarrow> open_rows (gw_db gw') = filter (\<lambda>i. Some i \<noteq> ca_cdr_id c) (open_rows (gw_db gw))))"

definition begins :: "gateway \<Rightarrow> gateway \<Rightarrow> bool" where
  "begins gw gw' \<longleftrightarrow> gw_cfg gw' = gw_cfg gw \<and> core_log (gw_core gw') = core_log (gw_core gw) \<and> gw_call gw = None \<and>
     (\<exists>c. gw_call gw' = Some c \<and> ca_mm_path c \<noteq> None \<and> \<not> ca_answered c \<and>
        open_rows (gw_db gw') = open_rows (gw_db gw) @ option_list (ca_cdr_id c))"

lemma ops_grow_refl: "gw_ops gw' = gw_ops gw \<Longrightarrow> ops_grow gw gw' []"
  by (simp add: ops_grow_def no_dial_def)

lemma ops_grow_trans:
  assumes "ops_grow a b []" and "ops_grow b c l" and "gw_call a \<noteq> None \<longrightarrow> gw_call b \<noteq> None"
  shows "ops_grow a c l"
proof -
  obtain m n where "gw_ops b = gw_ops a @ m" "gw_call a \<noteq> None \<longrightarrow> no_dial m" "gw_ops c = gw_ops b @ n @ l"
    "gw_call b \<noteq> None \<longrightarrow> no_dial n" using assms(1,2) by (auto simp: ops_grow_def)
  with assms(3) show ?thesis unfolding ops_grow_def by (intro exI [of _ "m @ n"]) (auto simp: no_dial_def)
qed

lemma talks_keeps: "talks gw gw' \<Longrightarrow> keeps gw gw'"
  by (cases "gw_call gw"; cases "gw_call gw'") (auto simp: talks_def keeps_def stage_of_def ops_grow_refl)

lemma keeps_refl [simp]: "keeps gw gw"
  by (simp add: talks_keeps)

lemma keeps_same_call: "keeps a b \<Longrightarrow> gw_call a \<noteq> None \<longleftrightarrow> gw_call b \<noteq> None"
  by (cases "gw_call a"; cases "gw_call b") (auto simp: keeps_def)

lemma keeps_trans:
  assumes "keeps a b" and "keeps b c" shows "keeps a c"
proof -
  have "ops_grow a b []" "ops_grow b c []" using assms by (simp_all only: keeps_def)
  from ops_grow_trans [OF this] have grow: "ops_grow a c []" using keeps_same_call [OF assms(1)] by blast
  have answered: "ca_answered z" if "gw_call a = Some x" "gw_call c = Some z" "ca_answered x" for x z
  proof -
    have "gw_call b \<noteq> None" using that(1) keeps_same_call [OF assms(1)] by simp
    then obtain y where "gw_call b = Some y" by blast
    then show ?thesis using that assms unfolding keeps_def by blast
  qed
  show ?thesis unfolding keeps_def using assms grow answered by (simp only: keeps_def) blast
qed

lemma keeps_closes:
  assumes k: "keeps a b" and e: "closes ge b c" shows "closes ge a c"
proof -
  from e obtain x where x: "gw_call b = Some x" by (auto simp: closes_def)
  with k obtain y where y: "gw_call a = Some y" "call_identity x = call_identity y"
    by (cases "gw_call a") (auto simp: keeps_def)
  then have "ca_mm_path x = ca_mm_path y" "ca_cdr_id x = ca_cdr_id y" by (simp_all add: call_identity_def)
  with e x have grow: "ops_grow b c (hangups (gw_modem c) (ca_mm_path y))" by (auto simp: closes_def)
  have "ops_grow a b []" using k by (simp only: keeps_def)
  from ops_grow_trans [OF this grow] x have "ops_grow a c (hangups (gw_modem c) (ca_mm_path y))" by simp
  then show ?thesis
    using k e x y \<open>ca_cdr_id x = ca_cdr_id y\<close> by (auto simp: closes_def keeps_def)
qed

lemma keeps_begins: "keeps a b \<Longrightarrow> begins b c \<Longrightarrow> begins a c"
  by (auto simp: keeps_def begins_def)

lemma keeps_simps [simp]: "core_log co = core_log (gw_core gw) \<Longrightarrow> keeps gw (gw\<lparr>gw_core := co\<rparr>)"
  "keeps gw (spawn_job j gw)"
  by (simp_all add: keeps_def spawn_job_def ops_grow_refl)

lemma keeps_modem_does: "(case op of Dial _ \<Rightarrow> False | _ \<Rightarrow> True) \<Longrightarrow> keeps gw (modem_does op gw)"
  by (auto simp: keeps_def modem_does_def ops_grow_def no_dial_def)

lemma open_rows_answered: "open_rows (call_answered now i db) = open_rows db"
proof -
  have "map cl_row_id (filter (\<lambda>r. cl_row_ended r = None)
      (map (\<lambda>c. if cl_row_id c = i then c\<lparr>cl_row_answered := Some now\<rparr> else c) rows)) =
      map cl_row_id (filter (\<lambda>r. cl_row_ended r = None) rows)" for rows
    by (induction rows) auto
  then show ?thesis by (simp add: open_rows_def call_answered_def update_call_def)
qed

lemma open_rows_ended: "open_rows (call_ended now i d db) = filter (\<lambda>j. j \<noteq> i) (open_rows db)"
proof -
  have "map cl_row_id (filter (\<lambda>r. cl_row_ended r = None)
      (map (\<lambda>c. if cl_row_id c = i then c\<lparr>cl_row_ended := Some (now, d)\<rparr> else c) rows)) =
      filter (\<lambda>j. j \<noteq> i) (map cl_row_id (filter (\<lambda>r. cl_row_ended r = None) rows))" for rows
    by (induction rows) auto
  then show ?thesis by (simp add: open_rows_def call_ended_def update_call_def)
qed

lemma open_rows_insert [simp]: "open_rows (snd (insert_message now m db)) = open_rows db"
  by (simp add: open_rows_def insert_message_def)

lemma keeps_cdr_answered [simp]: "keeps gw (cdr_answered ge cid gw)"
  by (auto simp: keeps_def cdr_answered_def db_run_def open_rows_answered ops_grow_refl split: option.splits)

lemma closes_finish:
  assumes "gw_call gw = Some c" shows "closes ge gw (finish_call ge d (hangup_leg (ca_mm_path c) gw))"
proof -
  let ?g = "hangup_leg (ca_mm_path c) gw"
  have g: "gw_call ?g = Some c" "gw_cfg ?g = gw_cfg gw" "gw_modem ?g = gw_modem gw" "gw_db ?g = gw_db gw"
    "gw_ops ?g = gw_ops gw @ hangups (gw_modem gw) (ca_mm_path c)" "gw_core ?g = gw_core gw"
    using assms by (auto simp: hangup_leg_def modem_does_def hangups_def split: option.splits)
  then show ?thesis
    using assms
    by (auto simp: closes_def finish_call_def cdr_ended_def db_run_def open_rows_ended ops_grow_def no_dial_def
        split: option.splits)
qed

lemma closes_teardown:
  assumes "gw_call gw = Some c" shows "closes ge gw (teardown_call ge reason code gw)"
proof -
  let ?fin = "\<lambda>g. finish_call ge reason (hangup_leg (ca_mm_path c) g)"
  have step: "closes ge gw (?fin g)" if "keeps gw g" "gw_call g = gw_call gw" for g
    using keeps_closes [OF that(1) closes_finish] assms that(2) by simp
  have bye: "closes ge gw (?fin (spawn_job j (gw\<lparr>gw_core := co\<rparr>)))"
    if "core_log co = core_log (gw_core gw)" for j co
    using keeps_trans [OF keeps_simps(1) [OF that] keeps_simps(2)] by (intro step) (simp_all add: spawn_job_def)
  have failure: "closes ge gw (?fin (gw_respond ge r d p gw))" for r d p
    by (intro step talks_keeps talks_fields) simp_all
  have cancel: "closes ge gw (?fin (cancel_outgoing_invite gw))"
    by (intro step talks_keeps talks_fields) simp_all
  show ?thesis
    using assms bye failure cancel
    by (simp add: teardown_call_def Let_def split_beta split: role.split)
qed

section \<open>What each event does\<close>

definition moves :: "gw_env \<Rightarrow> gateway \<Rightarrow> gateway \<Rightarrow> bool" where
  "moves ge gw gw' \<longleftrightarrow> keeps gw gw' \<or> closes ge gw gw' \<or> begins gw gw'"

lemma keeps_moves: "keeps gw gw' \<Longrightarrow> moves ge gw gw'"
  by (simp add: moves_def)

lemma keeps_then_moves: "keeps a b \<Longrightarrow> moves ge b c \<Longrightarrow> moves ge a c"
  by (auto simp: moves_def intro: keeps_trans keeps_closes keeps_begins)

lemma keeps_with_call:
  "(\<And>c. call_identity (f c) = call_identity c \<and> (ca_answered c \<longrightarrow> ca_answered (f c))) \<Longrightarrow> keeps gw (with_call f gw)"
  by (simp add: keeps_def ops_grow_refl option.map_comp comp_def)

lemma keeps_gw_respond [simp]: "keeps gw (gw_respond ge req src resp gw)"
  by (intro talks_keeps talks_fields) simp_all

lemma keeps_gw_reply [simp]: "keeps gw (gw_reply ge req src code gw)"
  by (intro talks_keeps talks_fields) simp_all

lemma moves_finish:
  "gw_call gw = Some c \<Longrightarrow> moves ge gw (finish_call ge d (hangup_leg (ca_mm_path c) gw))"
  by (simp add: moves_def closes_finish)

lemma moves_teardown: "moves ge gw (teardown_call ge reason code gw)"
  by (cases "gw_call gw") (simp_all add: moves_def closes_teardown, simp add: teardown_call_def)

lemma keeps_failed_dial: "gw_call gw = None \<Longrightarrow> keeps gw (modem_does op gw)"
  by (simp add: keeps_def modem_does_def ops_grow_def)

lemma db_start_call_moves:
  assumes "gw_call gw = None" and "db_start_call ge dir peer gw = (cdr, gw')"
    and "ca_mm_path c \<noteq> None" and "\<not> ca_answered c" and "ca_cdr_id c = cdr"
    and "core_log co = core_log (gw_core gw')"
  shows "begins gw (gw'\<lparr>gw_core := co, gw_call := Some c\<rparr>)"
proof -
  have "open_rows (gw_db gw') = open_rows (gw_db gw) @ option_list cdr" "gw_cfg gw' = gw_cfg gw"
    "gw_core gw' = gw_core gw"
    using assms(2) by (auto simp: db_start_call_def start_call_def open_rows_def option_list_def Let_def split: if_splits)
  with assms show ?thesis by (auto simp: begins_def)
qed

lemma moves_place_call:
  assumes "gw_call gw = None"
  shows "moves ge gw (place_call ge req src number offer cd to from call_id gw)"
proof (cases "gw_bind_port ge gw src")
  case (Inr port)
  define gw1 where "gw1 = modem_does (Dial number) gw"
  have k: "keeps gw gw1" "gw_call gw1 = None"
    using assms keeps_failed_dial by (auto simp: gw1_def modem_does_def)
  show ?thesis
  proof (cases "ge_dial ge number")
    case (Some path)
    obtain cdr gw2 where d: "db_start_call ge Outgoing number gw1 = (cdr, gw2)" by fastforce
    obtain cseq co where s: "next_cseq (gw_core gw2) = (cseq, co)" by fastforce
    have "begins gw1 (gw2\<lparr>gw_core := co, gw_call := Some
        (incoming_call ge req src number offer cd to from call_id port path cdr cseq)\<rparr>)"
      using k(2) d by (rule db_start_call_moves) (simp_all add: incoming_call_def core_log_eqs(1) [OF s])
    then show ?thesis
      using keeps_begins [OF k(1)] Inr Some d s by (simp add: place_call_def gw1_def moves_def)
  qed (use k keeps_trans [OF k(1) keeps_gw_reply] Inr in \<open>simp add: place_call_def gw1_def keeps_moves\<close>)
qed (simp add: place_call_def keeps_moves)

lemma moves_new_invite:
  assumes "gw_call gw = None" shows "moves ge gw (on_new_invite ge req src gw)"
proof -
  have "moves ge gw (place_call ge req src number offer cd to from call_id (gw_reply ge req src 100 gw))"
    for number offer cd to "from" call_id
    using assms by (intro keeps_then_moves [OF keeps_gw_reply moves_place_call]) simp
  then show ?thesis
    by (auto simp: on_new_invite_def Let_def keeps_moves split: option.splits)
qed

lemma moves_sip_invite: "moves ge gw (on_sip_invite ge req src gw)"
  using moves_new_invite [of gw ge req src]
  by (auto simp: on_sip_invite_def keeps_moves talks_keeps split: option.splits)

lemma moves_sip_bye: "moves ge gw (on_sip_bye ge req src gw)"
proof (cases "in_dialog gw req")
  case True
  then obtain c where c: "gw_call gw = Some c" by (auto simp: in_dialog_def split: option.splits)
  have "moves ge g (finish_call ge d (hangup_leg (call_path g) g))" if "gw_call g = Some c" for g d
    using moves_finish [OF that] that by (simp add: call_path_def)
  then have "moves ge (gw_respond ge req src resp gw)
      (finish_call ge d (hangup_leg (call_path (gw_respond ge req src resp gw)) (gw_respond ge req src resp gw)))" for resp d
    using c by simp
  from keeps_then_moves [OF keeps_gw_respond this] show ?thesis
    using True by (simp add: on_sip_bye_def Let_def)
qed (simp add: on_sip_bye_def Let_def keeps_moves)

lemma moves_sip_cancel: "moves ge gw (on_sip_cancel ge req src gw)"
proof -
  have "moves ge g (finish_call ge d (hangup_leg (ca_mm_path c) (answer_invite ge 487 c g)))"
    if "gw_call g = Some c" for g c d
  proof -
    have "keeps g (answer_invite ge 487 c g)" by (intro talks_keeps talks_fields) simp_all
    from keeps_then_moves [OF this moves_finish] that show ?thesis by simp
  qed
  then have "moves ge (gw_respond ge req src resp gw) (finish_call ge d (hangup_leg (ca_mm_path c)
      (answer_invite ge 487 c (gw_respond ge req src resp gw))))" if "gw_call gw = Some c" for resp c d
    using that by simp
  from keeps_then_moves [OF keeps_gw_respond this] show ?thesis
    by (cases "gw_call gw") (simp_all add: on_sip_cancel_def Let_def keeps_moves)
qed

lemma keeps_deliver_dtmf [simp]: "keeps gw (snd (deliver_dtmf ge digits gw))"
proof -
  have modem: "keeps gw (snd (dtmf_by_modem ge mth digits gw))" for mth gw
  proof -
    have a: "keeps g (modem_does (SendDtmf p digits) g)" for g p by (simp add: keeps_modem_does)
    have "keeps g (with_call (\<lambda>c. c\<lparr>ca_dtmf_via_modem_failed := True\<rparr>) g)" for g
      by (rule keeps_with_call) (simp add: call_identity_def)
    from keeps_trans [OF a this] a show ?thesis
      by (auto simp: dtmf_by_modem_def Let_def split: option.split)
  qed
  have inband: "keeps gw (snd (dtmf_inband ge digits gw))" for gw
  proof -
    have "keeps gw (with_call (\<lambda>c. c\<lparr>ca_media := m\<rparr>) gw)" for m
      by (rule keeps_with_call) (simp add: call_identity_def)
    then show ?thesis by (auto simp: dtmf_inband_def Let_def split_beta split: option.split)
  qed
  show ?thesis
    using modem [of gw] inband [of gw] keeps_trans [OF modem inband]
    by (auto simp: deliver_dtmf_def Let_def split_beta split: option.split)
qed

lemma keeps_send_dtmf_info [simp]: "keeps gw (send_dtmf_info ge digit gw)"
  using keeps_trans [OF keeps_simps(1) keeps_simps(2)]
  by (auto simp: send_dtmf_info_def Let_def split_beta split: option.split)

lemma keeps_sip_info: "keeps gw (on_sip_info ge req src gw)"
  using keeps_trans [OF keeps_deliver_dtmf keeps_gw_respond]
  by (auto simp: on_sip_info_def Let_def split_beta split: option.split)

lemma keeps_sip_message: "keeps gw (on_sip_message ge req src gw)"
  by (simp add: on_sip_message_def Let_def)

lemma moves_sip_request: "moves ge gw (on_sip_request ge req src gw)"
  by (cases "rq_method req")
    (simp_all add: on_sip_request_def moves_sip_invite moves_sip_bye moves_sip_cancel keeps_moves
      keeps_sip_info keeps_sip_message)

lemma keeps_modem_ops [simp]: "keeps gw (modem_does (Hangup p) gw)" "keeps gw (modem_does (DeleteCall p) gw)"
  "keeps gw (modem_does (Accept p) gw)"
  by (simp_all add: keeps_modem_does)

lemma begins_start_sip_call:
  assumes "gw_call gw = None" and "start_sip_call ge path info gw = (ok, gw')"
  shows "if ok then begins gw gw' else keeps gw gw'"
proof -
  have "begins gw (snd (db_start_call ge Incoming peer (gw\<lparr>gw_core := co\<rparr>))\<lparr>gw_call := Some c\<rparr>)"
    if "ca_mm_path c \<noteq> None" "\<not> ca_answered c" "ca_cdr_id c = fst (db_start_call ge Incoming peer (gw\<lparr>gw_core := co\<rparr>))"
      "core_log co = core_log (gw_core gw)" for c co peer
    using assms(1) that
    by (auto simp: begins_def db_start_call_def start_call_def open_rows_def option_list_def Let_def split_beta split: if_splits)
  then show ?thesis
    using assms(2)
    by (auto simp: start_sip_call_def Let_def split_beta core_log_eqs [symmetric] split: sum.splits option.splits prod.splits)
qed

lemma moves_call_added: "moves ge gw (on_mm_call_added ge path gw)"
proof (cases "gw_call gw")
  case None
  have "moves ge gw (let (ok, gw1) = start_sip_call ge path info gw in if ok then gw1 else modem_does (Hangup path) gw1)" for info
  proof (cases "start_sip_call ge path info gw")
    case (Pair ok gw1)
    with begins_start_sip_call [OF None Pair] keeps_trans [OF _ keeps_modem_ops(1)] show ?thesis
      by (auto simp: moves_def split: if_splits)
  qed
  then show ?thesis using None
    by (auto simp: on_mm_call_added_def keeps_moves split: option.splits)
qed (auto simp: on_mm_call_added_def keeps_moves split: option.splits)

lemma moves_modem_answered: "moves ge gw (on_modem_answered ge gw)"
proof (cases "gw_call gw")
  case (Some c)
  obtain ok gw1 where m: "(case ca_role c of FromSip \<Rightarrow> respond_with_media ge 200 gw | ToSip \<Rightarrow> (True, gw)) = (ok, gw1)"
    by fastforce
  have "talks gw (snd (case ca_role c of FromSip \<Rightarrow> respond_with_media ge 200 gw | ToSip \<Rightarrow> (True, gw)))"
    by (simp split: role.split)
  then have step: "keeps gw gw1" unfolding m by (simp add: talks_keeps)
  have "keeps gw1 (with_call (\<lambda>c. c\<lparr>ca_answered := True\<rparr>) gw1)"
    by (rule keeps_with_call) (simp add: call_identity_def)
  from keeps_trans [OF step keeps_trans [OF this keeps_cdr_answered]] show ?thesis
    using Some m keeps_then_moves [OF step moves_teardown] by (simp add: on_modem_answered_def keeps_moves)
qed (simp add: on_modem_answered_def keeps_moves)

lemma moves_call_state: "moves ge gw (on_mm_call_state ge path new reason gw)"
  by (auto simp: on_mm_call_state_def keeps_moves talks_keeps moves_modem_answered moves_teardown split: option.split)

lemma moves_dropped: "moves ge gw (finish_call ge d (hangup_leg (call_path gw) gw))"
proof (cases "gw_call gw")
  case (Some c)
  with moves_finish [OF Some] show ?thesis by (simp add: call_path_def)
next
  case None
  then have "call_path gw = None" by (simp add: call_path_def)
  with None show ?thesis by (simp add: finish_call_def hangup_leg_def keeps_moves split: option.split)
qed

lemma keeps_retry [simp]: "keeps gw (snd (retry_invite_with_auth ge resp gw))"
proof -
  have "keeps gw (with_call (\<lambda>c. add_task t (c\<lparr>ca_auth_retried := True, ca_local_cseq := q, ca_invite := i\<rparr>))
      (gw\<lparr>gw_core := co\<rparr>))" if "core_log co = core_log (gw_core gw)" for t q i co
    by (rule keeps_trans [OF keeps_simps(1) [OF that]], rule keeps_with_call) (simp add: call_identity_def add_task_def)
  then show ?thesis
    by (auto simp: retry_invite_with_auth_def Let_def split_beta split: option.split prod.split)
qed

lemma keeps_ack_failure [simp]: "keeps gw (ack_failure resp gw)"
  by (intro talks_keeps talks_fields) simp_all

lemma keeps_cancel_outgoing [simp]: "keeps gw (cancel_outgoing_invite gw)"
  by (intro talks_keeps talks_fields) simp_all

lemma moves_sip_failed: "moves ge gw (on_sip_failed ge resp gw)"
proof -
  let ?retry = "\<lambda>g. if rs_code resp = 401 \<or> rs_code resp = 407 then retry_invite_with_auth ge resp g else (False, g)"
  obtain again gw2 where m: "?retry (ack_failure resp gw) = (again, gw2)" by fastforce
  have "keeps g (snd (?retry g))" for g by simp
  from this [of "ack_failure resp gw"] have "keeps (ack_failure resp gw) gw2" unfolding m by simp
  then have "keeps gw gw2" by (rule keeps_trans [OF keeps_ack_failure])
  then show ?thesis
    using m keeps_then_moves [OF _ moves_dropped] by (auto simp: on_sip_failed_def Let_def keeps_moves)
qed

lemma moves_connect_media: "moves ge gw (connect_media ge s gw)"
proof -
  let ?g1 = "\<lambda>cd. with_call (\<lambda>c. c\<lparr>ca_codec := cd, ca_remote_sdp := Some s\<rparr>) gw"
  define cd where "cd = (case negotiate s of Some k \<Rightarrow> k | None \<Rightarrow> Pcmu)"
  obtain ok gw2 where m: "start_media ge (sdp_endpoint s) cd (?g1 cd) = (ok, gw2)" by fastforce
  have "keeps gw (?g1 cd)" by (rule keeps_with_call) (simp add: call_identity_def)
  moreover have "talks (?g1 cd) (snd (start_media ge (sdp_endpoint s) cd (?g1 cd)))" by simp
  ultimately have step: "keeps gw gw2" unfolding m using keeps_trans talks_keeps by simp
  have accepted: "keeps gw2 (cdr_answered ge i (modem_does (Accept p) gw2))" for i p
    using keeps_trans [OF keeps_modem_ops(3) keeps_cdr_answered] .
  have refused: "moves ge gw2 (teardown_call ge d n (modem_does (Accept p) gw2))" for p d n
    using keeps_then_moves [OF keeps_modem_ops(3) moves_teardown] .
  have "moves ge gw2 (connect_media ge s gw)"
    using m accepted refused
    by (auto simp: connect_media_def Let_def moves_teardown keeps_moves cd_def [symmetric] split: option.split)
  with step show ?thesis by (rule keeps_then_moves)
qed

lemma learn_dialog_same [simp]: "call_identity (learn_dialog ge resp c) = call_identity c"
  "ca_answered (learn_dialog ge resp c) = ca_answered c"
  by (simp_all add: learn_dialog_def call_identity_def Let_def split: option.split)

lemma moves_sip_answered: "moves ge gw (on_sip_answered ge resp gw)"
proof (cases "gw_call gw")
  case (Some c0)
  let ?g = "\<lambda>co. with_call (\<lambda>c. c\<lparr>ca_answered := True\<rparr>) (gw\<lparr>gw_call := Some (learn_dialog ge resp c0), gw_core := co\<rparr>)"
  have "keeps gw (?g co)" if "core_log co = core_log (gw_core gw)" for co
    using Some that by (simp add: keeps_def ops_grow_refl) (simp add: call_identity_def learn_dialog_def Let_def split: option.split)
  then have "moves ge gw (teardown_call ge d n (?g co))" "moves ge gw (connect_media ge s (?g co))"
    if "core_log co = core_log (gw_core gw)" for co d n s
    using that keeps_then_moves moves_teardown moves_connect_media by blast+
  then show ?thesis
    using Some by (auto simp: on_sip_answered_def Let_def with_core_def split: option.split)
qed (simp add: on_sip_answered_def keeps_moves)

lemma moves_ring_timeout: "moves ge gw (on_ring_timeout ge gw)"
  using keeps_then_moves [OF keeps_cancel_outgoing moves_dropped] by (simp add: on_ring_timeout_def Let_def)

lemma keeps_text_sms [simp]: "keeps gw (handle_text_sms ge path info modem gw)"
proof -
  have store: "keeps g (gw\<lparr>gw_db := snd (insert_message now m (gw_db gw))\<rparr>)" if "g = gw" for g now m
    using that by (simp add: keeps_def ops_grow_refl)
  then show ?thesis
    using keeps_trans [OF store keeps_simps(2)] keeps_trans [OF keeps_trans [OF store keeps_simps(2)] keeps_simps(2)]
    by (auto simp: handle_text_sms_def Let_def split_beta)
qed

lemma keeps_sms_added [simp]: "keeps gw (on_sms_added is_wap_push ge path received attempt gw)"
  by (auto simp: on_sms_added_def handle_mms_push_def split: option.split)

lemma moves_internal: "moves ge gw (on_internal is_wap_push ge ev gw)"
  by (cases ev) (simp_all add: on_internal_def moves_sip_answered moves_sip_failed moves_ring_timeout keeps_moves talks_keeps)

lemma keeps_set_modem [simp]: "keeps gw (set_modem handle gw)"
  by (simp add: keeps_def set_modem_def ops_grow_refl)

lemma moves_modem_event: "moves ge gw (on_modem_event is_wap_push ge ev gw)"
  using keeps_then_moves [OF keeps_set_modem moves_teardown]
  by (cases ev) (simp_all add: on_modem_event_def moves_call_added moves_teardown moves_call_state keeps_moves)

lemma moves_check_media: "moves ge gw (check_media ge gw)"
  by (auto simp: check_media_def Let_def keeps_moves moves_teardown split: option.split)

lemma moves_step: "moves ge gw (gw_step is_wap_push ge ev gw)"
  by (cases ev) (simp_all add: gw_step_def moves_sip_request moves_modem_event moves_internal moves_check_media moves_teardown)

end
