(* ===== verification/CallRules.thy ===== *)
theory CallRules
  imports CallControl
begin

text \<open>
  What the gateway promises about the one call it carries, over runs of its event loop: the life of a
  call, its record in the database, its mobile leg, and what leads to a call being dialled.
\<close>

section \<open>The life of a call\<close>

type_synonym call_stage = "((role \<times> string option \<times> string \<times> nat option \<times> name_addr \<times> u16) \<times> bool) option"

text \<open>The abstract machine: no call, a call being set up, a call that is answered. A call keeps its
  identity (direction, mobile leg, Call-ID, record, own address, RTP port) until it ends, an answered
  call never becomes unanswered, and a new call begins only after the one before it has ended.\<close>

inductive stage_step :: "call_stage \<Rightarrow> call_stage \<Rightarrow> bool" where
  stays: "stage_step s s"
| begun: "stage_step None (Some (i, False))"
| answered: "stage_step (Some (i, False)) (Some (i, True))"
| ended: "stage_step (Some (i, a)) None"

inductive_cases stage_stepE: "stage_step s t"

lemma moves_stage: "moves ge gw gw' \<Longrightarrow> stage_step (stage_of gw) (stage_of gw')"
proof -
  assume m: "moves ge gw gw'"
  consider "keeps gw gw'" | "closes ge gw gw'" | "begins gw gw'" using m by (auto simp: moves_def)
  then show ?thesis
  proof cases
    case 1
    then show ?thesis
      by (cases "gw_call gw"; cases "gw_call gw'"; cases "ca_answered (the (gw_call gw))";
          cases "ca_answered (the (gw_call gw'))")
        (auto simp: keeps_def stage_of_def intro: stage_step.intros)
  qed (auto simp: closes_def begins_def stage_of_def intro: stage_step.intros)
qed

text \<open>A run of the event loop: the events in the order they are handled, each with what the outside
  world answers.\<close>

definition gw_run :: "(u8 list \<Rightarrow> bool) \<Rightarrow> (gw_env \<times> gw_event) list \<Rightarrow> gateway \<Rightarrow> gateway" where
  "gw_run is_wap_push evs gw = fold (\<lambda>(ge, ev). gw_step is_wap_push ge ev) evs gw"

lemma gw_run_simps [simp]: "gw_run w [] gw = gw" "gw_run w ((ge, ev) # evs) gw = gw_run w evs (gw_step w ge ev gw)"
  by (simp_all add: gw_run_def)

text \<open>Property C3: the gateway carries one call at a time and refines the machine above: whatever
  requests, modem events, answers, timeouts and failures arrive in whatever order, every step of the
  event loop leaves the call as it is, begins one where there was none, answers the call it carries, or
  ends it. No call is replaced, changes its identity or goes back to being unanswered.\<close>

theorem event_loop_refines_call_stages:
  "stage_step (stage_of gw) (stage_of (gw_step is_wap_push ge ev gw))"
  by (rule moves_stage [OF moves_step])

section \<open>The record of a call\<close>

text \<open>The rows of the call table that are still open: the one of the call, if it has one.\<close>

definition records_match :: "gateway \<Rightarrow> bool" where
  "records_match gw \<longleftrightarrow> open_rows (gw_db gw) = (case gw_call gw of Some c \<Rightarrow> option_list (ca_cdr_id c) | None \<Rightarrow> [])"

lemma records_match_step:
  assumes "records_match gw" and ok: "ge_db_ok ge" shows "records_match (gw_step w ge ev gw)"
proof -
  let ?gw' = "gw_step w ge ev gw"
  consider (keeps) "keeps gw ?gw'" | (closes) "closes ge gw ?gw'" | (begins) "begins gw ?gw'"
    using moves_step [of ge gw w ev] by (auto simp: moves_def)
  then show ?thesis
  proof cases
    case keeps
    with assms(1) show ?thesis
      by (cases "gw_call gw"; cases "gw_call ?gw'") (auto simp: keeps_def records_match_def call_identity_def)
  qed (use assms in \<open>auto simp: closes_def begins_def records_match_def option_list_def split: option.splits\<close>)
qed

text \<open>Property C8: while the database takes its writes, the call table has exactly one open row, that of
  the call being carried, and none when there is no call: every call that was begun and has ended, in
  whatever way it ended, has its end and its outcome on record.\<close>

theorem ended_calls_are_on_record:
  assumes "records_match gw" and "list_all (\<lambda>(ge, ev). ge_db_ok ge) evs"
  shows "records_match (gw_run is_wap_push evs gw)"
  using assms
proof (induction evs arbitrary: gw)
  case (Cons e evs)
  obtain ge ev where e: "e = (ge, ev)" by fastforce
  with Cons.prems have "records_match (gw_step is_wap_push ge ev gw)" by (simp add: records_match_step)
  with Cons show ?case by (simp add: e)
qed simp

section \<open>The mobile leg\<close>

text \<open>Property C18: a call that ends never leaves its mobile leg behind. Whatever ends it (a BYE, a CANCEL,
  a refusal, the ring timeout, a media failure, the modem's own hang-up, the shutdown), the last thing
  asked of the modem, if it is there, is to hang up that leg, and in between nothing is dialled.\<close>

theorem ended_call_is_hung_up:
  assumes "gw_call gw = Some c" and "gw_call (gw_step is_wap_push ge ev gw) = None"
    and "ca_mm_path c = Some path" and "gw_modem (gw_step is_wap_push ge ev gw) \<noteq> None"
  shows "\<exists>before. gw_ops (gw_step is_wap_push ge ev gw) = gw_ops gw @ before @ [Hangup path] \<and> no_dial before"
proof -
  let ?gw' = "gw_step is_wap_push ge ev gw"
  have "closes ge gw ?gw'"
    using moves_step [of ge gw is_wap_push ev] assms(1,2) by (auto simp: moves_def keeps_def begins_def)
  then have "ops_grow gw ?gw' (hangups (gw_modem ?gw') (Some path))" using assms(1,3) by (auto simp: closes_def)
  then show ?thesis using assms(1,4) by (auto simp: ops_grow_def hangups_def)
qed

section \<open>What is dialled\<close>

definition dialled :: "modem_op list \<Rightarrow> string list" where
  "dialled ops = List.map_filter (\<lambda>op. case op of Dial n \<Rightarrow> Some n | _ \<Rightarrow> None) ops"

lemma dialled_simps [simp]: "dialled [] = []" "dialled (Dial n # ops) = n # dialled ops"
  "dialled (Hangup p # ops) = dialled ops" "dialled (Accept p # ops) = dialled ops"
  "dialled (SendDtmf p d # ops) = dialled ops" "dialled (DeleteCall p # ops) = dialled ops"
  by (simp_all add: dialled_def map_filter_simps)

lemma dialled_append [simp]: "dialled (xs @ ys) = dialled xs @ dialled ys"
  by (induction xs) (auto simp: dialled_def map_filter_simps split: option.splits)

lemma no_dial_dialled: "no_dial ops \<longleftrightarrow> dialled ops = []"
  by (induction ops) (auto simp: no_dial_def dialled_def map_filter_simps split: option.splits modem_op.splits)

lemma dialled_hangups [simp]: "dialled (hangups m p) = []"
  by (simp add: hangups_def split: option.split)

lemma dialled_op [simp]: "dialled (gw_ops (modem_does op gw)) = dialled (gw_ops gw) @ dialled [op]"
  by (simp add: modem_does_def)

lemma with_a_call_nothing_is_dialled:
  assumes "gw_call gw \<noteq> None" shows "dialled (gw_ops (gw_step w ge ev gw)) = dialled (gw_ops gw)"
  using moves_step [of ge gw w ev] assms
  by (auto simp: moves_def keeps_def closes_def begins_def ops_grow_def no_dial_dialled)

definition invited_number :: "request \<Rightarrow> string" where
  "invited_number req = sanitize_number (case u_user (rq_uri req) of Some u \<Rightarrow> u | None \<Rightarrow> [])"

lemma dialled_place_call:
  "dialled (gw_ops (place_call ge req src number offer cd to from cid gw)) \<in>
    {dialled (gw_ops gw), dialled (gw_ops gw) @ [number]}"
  by (auto simp: place_call_def db_start_call_def modem_does_def Let_def split_beta split: sum.split option.split)

lemma dialled_new_invite:
  "dialled (gw_ops (on_new_invite ge req src gw)) = dialled (gw_ops gw) \<or>
   gw_modem gw \<noteq> None \<and> invited_number req \<noteq> [] \<and>
     dialled (gw_ops (on_new_invite ge req src gw)) = dialled (gw_ops gw) @ [invited_number req]"
proof -
  have "dialled (gw_ops (place_call ge req src n offer cd to from cid (gw_reply ge req src 100 gw))) \<in>
      {dialled (gw_ops gw), dialled (gw_ops gw) @ [n]}" for n offer cd to "from" cid
    using dialled_place_call [of ge req src n offer cd to "from" cid "gw_reply ge req src 100 gw"] by simp
  then show ?thesis
    by (auto simp: on_new_invite_def Let_def invited_number_def split: option.split)
qed

lemma idle_fields [simp]:
  assumes "gw_call gw = None"
  shows "finish_call ge d gw = gw" "teardown_call ge d n gw = gw" "hangup_leg (call_path gw) gw = gw"
    "call_path gw = None" "send_dtmf_info ge digits gw = gw" "call_id_matches gw cid = False"
    "in_dialog gw req = False" "check_media ge gw = gw" "on_mm_call_state ge path new reason gw = gw"
  using assms
  by (simp_all add: finish_call_def teardown_call_def hangup_leg_def call_path_def send_dtmf_info_def
      call_id_matches_def in_dialog_def check_media_def on_mm_call_state_def split: option.split)

lemma idle_call_added:
  assumes "gw_call gw = None" shows "dialled (gw_ops (on_mm_call_added ge path gw)) = dialled (gw_ops gw)"
proof -
  have "gw_ops (snd (start_sip_call ge path info gw)) = gw_ops gw" for info
    by (simp add: start_sip_call_def db_start_call_def Let_def split_beta split: sum.split option.split)
  then show ?thesis
    using assms by (simp add: on_mm_call_added_def Let_def split_beta split: option.split)
qed

lemma sms_added_ops [simp]: "gw_ops (on_sms_added w ge path received attempt gw) = gw_ops gw"
  by (simp add: on_sms_added_def handle_mms_push_def handle_text_sms_def spawn_job_def Let_def split_beta split: option.split)

lemma idle_step_dials:
  assumes "gw_call gw = None" and "\<And>req src. ev = SipRequest req src \<Longrightarrow> rq_method req \<noteq> Invite"
  shows "dialled (gw_ops (gw_step w ge ev gw)) = dialled (gw_ops gw)"
proof (cases ev)
  case (SipRequest req src)
  with assms show ?thesis
    by (auto simp: gw_step_def on_sip_request_def on_sip_bye_def on_sip_cancel_def on_sip_info_def
        on_sip_message_def spawn_job_def Let_def split: sip_method.split option.split)
next
  case (ModemEvent e)
  have "gw_call (set_modem h gw) = None" "gw_ops (set_modem h gw) = gw_ops gw" for h
    using assms(1) by (simp_all add: set_modem_def)
  with assms(1) ModemEvent idle_call_added show ?thesis
    by (cases e) (simp_all add: gw_step_def on_modem_event_def)
next
  case (InternalEvent e)
  with assms(1) show ?thesis by (cases e) (simp_all add: gw_step_def on_internal_def)
qed (use assms(1) in \<open>simp_all add: gw_step_def\<close>)

text \<open>One event dials at most one number, and only an INVITE does, only while no call is carried and a
  modem is there, and then the number is the digits of its request URI.\<close>

lemma step_dials:
  "dialled (gw_ops (gw_step w ge ev gw)) = dialled (gw_ops gw) \<or>
   (\<exists>req src. ev = SipRequest req src \<and> rq_method req = Invite \<and> gw_call gw = None \<and> gw_modem gw \<noteq> None \<and>
      invited_number req \<noteq> [] \<and>
      dialled (gw_ops (gw_step w ge ev gw)) = dialled (gw_ops gw) @ [invited_number req])"
proof (cases "gw_call gw = None \<and> (\<exists>req src. ev = SipRequest req src \<and> rq_method req = Invite)")
  case True
  then obtain req src where "ev = SipRequest req src" "rq_method req = Invite" "gw_call gw = None" by blast
  then show ?thesis
    using dialled_new_invite [of ge req src gw] by (simp add: gw_step_def on_sip_request_def on_sip_invite_def)
next
  case False
  then show ?thesis using idle_step_dials with_a_call_nothing_is_dialled by metis
qed

section \<open>How the peer learns of the end\<close>

lemma respond_with_media_failed: "respond_with_media ge code gw = (False, gw') \<Longrightarrow> gw' = gw"
  by (auto simp: respond_with_media_def start_media_def Let_def split_beta split: option.splits if_splits)

text \<open>The INVITE of a call is refused: the last thing the SIP element is asked to do is to answer it with
  a code of 400 or more.\<close>

definition invite_refused :: "gw_env \<Rightarrow> active_call \<Rightarrow> gateway \<Rightarrow> bool" where
  "invite_refused ge c gw \<longleftrightarrow> (\<exists>co resp.
     gw_core gw = respond co (ge_sip ge) (ca_invite c) (invite_dest c) resp \<and> 400 \<le> rs_code resp)"

lemma core_finish [simp]: "gw_core (finish_call ge d gw) = gw_core gw"
  by (simp add: finish_call_def cdr_ended_def db_run_def split: option.split)

lemma core_hangup_leg [simp]: "gw_core (hangup_leg p gw) = gw_core gw"
  by (simp add: hangup_leg_def modem_does_def split: option.split)

lemma make_response_code [simp]: "rs_code (make_response co en req code reason) = code"
  by (simp add: make_response_def reply_def Let_def)

lemma refused_by_respond:
  "400 \<le> rs_code resp \<Longrightarrow>
    invite_refused ge c (finish_call ge d (hangup_leg p (gw_respond ge (ca_invite c) (invite_dest c) resp gw)))"
  by (auto simp: invite_refused_def gw_respond_def)

lemma teardown_refuses:
  assumes "gw_call gw = Some c" and "ca_role c = FromSip" and "\<not> ca_answered c"
  shows "invite_refused ge c (teardown_call ge reason code gw)"
proof -
  have "400 \<le> (if code < 400 then 480 else code :: u16)" by (simp add: word_le_nat_alt word_less_nat_alt)
  then show ?thesis
    using assms unfolding teardown_call_def by (simp only: option.case role.case if_False Let_def) (rule refused_by_respond, simp)
qed

lemma cancel_refuses:
  assumes "gw_call gw = Some c" and "gw_call (on_sip_cancel ge req src gw) = None"
  shows "invite_refused ge c (on_sip_cancel ge req src gw)"
  using assms
  by (auto simp: on_sip_cancel_def Let_def answer_invite_def intro!: refused_by_respond split: if_splits)

lemma talks_no_end: "talks gw gw' \<Longrightarrow> gw_call gw = Some c \<Longrightarrow> gw_call gw' \<noteq> None"
  by (auto simp: talks_def stage_of_def)

lemma keeps_no_end: "keeps gw gw' \<Longrightarrow> gw_call gw = Some c \<Longrightarrow> gw_call gw' \<noteq> None"
  by (auto simp: keeps_def)

lemma modem_answered_refuses:
  assumes "gw_call gw = Some c" and "ca_role c = FromSip" and "\<not> ca_answered c"
    and "gw_call (on_modem_answered ge gw) = None"
  shows "invite_refused ge c (on_modem_answered ge gw)"
proof (cases "respond_with_media ge 200 gw")
  case (Pair ok gw1)
  show ?thesis
  proof (cases ok)
    case True
    have "talks gw (snd (respond_with_media ge 200 gw))" by simp
    then have "gw_call gw1 \<noteq> None" using Pair assms(1) by (auto dest: talks_no_end)
    then have "gw_call (on_modem_answered ge gw) \<noteq> None"
      using assms(1,2) Pair True by (auto simp: on_modem_answered_def cdr_answered_def db_run_def split: option.split)
    then show ?thesis using assms(4) by simp
  next
    case False
    with Pair respond_with_media_failed have "gw1 = gw" by simp
    then show ?thesis using assms Pair False by (simp add: on_modem_answered_def teardown_refuses)
  qed
qed

lemma call_state_refuses:
  assumes "gw_call gw = Some c" and "ca_role c = FromSip" and "\<not> ca_answered c"
    and "gw_call (on_mm_call_state ge path new reason gw) = None"
  shows "invite_refused ge c (on_mm_call_state ge path new reason gw)"
proof -
  have *: "gw_call (on_alerting ge gw) \<noteq> None" using talks_no_end [OF talks_on_alerting assms(1)] .
  consider "new = call_ringing_out \<or> new = call_dialing" | "new = call_active" | "new = call_terminated"
    | "new \<notin> {call_ringing_out, call_dialing, call_active, call_terminated}" by blast
  then show ?thesis
  proof cases
    case 1
    with assms * show ?thesis by (simp add: on_mm_call_state_def split: if_splits)
  next
    case 2
    then have "\<not> (new = call_ringing_out \<or> new = call_dialing)"
      by (simp add: call_active_def call_ringing_out_def call_dialing_def)
    with 2 assms modem_answered_refuses [OF assms(1-3)] show ?thesis
      by (simp add: on_mm_call_state_def split: if_splits)
  next
    case 3
    then have "\<not> (new = call_ringing_out \<or> new = call_dialing)" "new \<noteq> call_active"
      by (simp_all add: call_active_def call_ringing_out_def call_dialing_def call_terminated_def)
    with 3 assms teardown_refuses [OF assms(1-3)] show ?thesis
      by (simp add: on_mm_call_state_def split: if_splits)
  qed (use assms in \<open>simp add: on_mm_call_state_def split: if_splits\<close>)
qed

lemma modem_event_refuses:
  assumes c: "gw_call gw = Some c" "ca_role c = FromSip" "\<not> ca_answered c"
    and "gw_call (on_modem_event w ge ev gw) = None"
  shows "invite_refused ge c (on_modem_event w ge ev gw)"
proof -
  have "gw_call (set_modem h gw) = Some c" for h using c(1) by (simp add: set_modem_def)
  moreover have "gw_call (on_mm_call_added ge path gw) \<noteq> None" for path
    using c(1) by (auto simp: on_mm_call_added_def modem_does_def split: option.split)
  moreover note keeps_no_end [OF keeps_send_dtmf_info c(1)] keeps_no_end [OF keeps_sms_added c(1)]
  ultimately have alive: "gw_call (set_modem h gw) = Some c" "(gw_call (on_mm_call_added ge path gw) = None) = False"
    "(gw_call (send_dtmf_info ge digit gw) = None) = False"
    "(gw_call (on_sms_added w ge path received attempt gw) = None) = False"
    for h path digit received attempt by blast+
  from assms show ?thesis
    by (cases ev) (simp_all add: on_modem_event_def alive teardown_refuses [OF _ c(2,3)] call_state_refuses [OF c] split: if_splits)
qed

text \<open>What the task that waits for the answer to an INVITE of the gateway's own reports of it. A call from SIP has no such task.\<close>

definition reports_invite :: "string \<Rightarrow> internal \<Rightarrow> bool" where
  "reports_invite cid e \<longleftrightarrow>
     (case e of SipAnswered i _ \<Rightarrow> i = cid | SipFailed i _ \<Rightarrow> i = cid | RingTimeout i \<Rightarrow> i = cid | _ \<Rightarrow> False)"

lemma internal_end:
  assumes "gw_call gw = Some c" and "gw_call (on_internal w ge e gw) = None"
  shows "reports_invite (ca_call_id c) e"
proof -
  have alive: "(gw_call (snd (upgrade_to_early_media ge gw)) = None) = False" "(gw_call (snd (deliver_dtmf ge digits gw)) = None) = False"
    "(gw_call (send_dtmf_info ge digits gw) = None) = False" "(gw_call (on_sms_added w ge path received attempt gw) = None) = False"
    for digits path received attempt
    using talks_no_end [OF talks_upgrade assms(1)] keeps_no_end [OF keeps_deliver_dtmf assms(1)]
      keeps_no_end [OF keeps_send_dtmf_info assms(1)] keeps_no_end [OF keeps_sms_added assms(1)] by blast+
  show ?thesis
    using assms by (cases e) (auto simp: on_internal_def reports_invite_def call_id_matches_def alive split: if_splits)
qed

lemma bye_end:
  assumes "gw_call gw = Some c" and "gw_call (on_sip_bye ge req src gw) = None"
  shows "in_dialog_of c req \<and> gw_core (on_sip_bye ge req src gw) =
    respond (gw_core gw) (ge_sip ge) req src (make_response (gw_core gw) (ge_sip ge) req 200 None)"
  using assms by (auto simp: on_sip_bye_def in_dialog_def gw_respond_def Let_def split: if_splits)

text \<open>Property C5: How a caller from SIP learns that the call will not be answered. When a call that came from SIP ends before it was
  answered, be it that the mobile side refused, hung up, the modem vanished, the media failed, the
  caller cancelled or the gateway shuts down, the last thing the SIP element did is to answer the INVITE with a final refusal. There is one
  exception: a BYE of the call's own dialog ends the call too, and then the 200 to the BYE is all that is sent, the INVITE stays without a final
  response. No internal event ends such a call but a report on an INVITE of the gateway's own under the same Call-ID.\<close>

theorem early_end_refuses_the_invite:
  assumes "gw_call gw = Some c" and "ca_role c = FromSip" and "\<not> ca_answered c"
    and "gw_call (gw_step is_wap_push ge ev gw) = None"
  shows "case ev of
      SipRequest req src \<Rightarrow>
        if rq_method req = Bye
        then in_dialog_of c req \<and> gw_core (gw_step is_wap_push ge ev gw) =
          respond (gw_core gw) (ge_sip ge) req src (make_response (gw_core gw) (ge_sip ge) req 200 None)
        else invite_refused ge c (gw_step is_wap_push ge ev gw)
    | InternalEvent e \<Rightarrow> reports_invite (ca_call_id c) e
    | _ \<Rightarrow> invite_refused ge c (gw_step is_wap_push ge ev gw)"
proof (cases ev)
  case (SipRequest req src)
  have "gw_call (on_sip_invite ge req src gw) \<noteq> None"
    using assms(1) talks_no_end [OF talks_respond_with_media assms(1)] talks_no_end [OF talks_send_provisional assms(1)]
      talks_no_end [OF talks_reinvite assms(1)]
    by (simp add: on_sip_invite_def)
  moreover note keeps_no_end [OF keeps_sip_info assms(1)] keeps_no_end [OF keeps_sip_message assms(1)]
  ultimately have alive: "(gw_call (on_sip_invite ge req src gw) = None) = False"
    "(gw_call (on_sip_info ge req src gw) = None) = False" "(gw_call (on_sip_message ge req src gw) = None) = False"
    by blast+
  from SipRequest assms show ?thesis
    by (auto simp: gw_step_def on_sip_request_def alive cancel_refuses [OF assms(1)] bye_end [OF assms(1)] split: sip_method.splits)
next
  case (ModemEvent e)
  then show ?thesis using assms modem_event_refuses by (simp add: gw_step_def)
next
  case (InternalEvent e)
  then show ?thesis using assms internal_end [OF assms(1)] by (simp add: gw_step_def)
next
  case Watchdog
  then show ?thesis
    using assms teardown_refuses by (auto simp: gw_step_def check_media_def Let_def split: option.splits if_splits)
qed (use assms teardown_refuses in \<open>simp_all add: gw_step_def\<close>)

section \<open>Requests of others\<close>

text \<open>What a request of somebody else can make of a gateway with a call: the request is answered at most once, and a MESSAGE may
  leave one task that submits it.\<close>

definition only_answered :: "gw_env \<Rightarrow> request \<Rightarrow> socket_addr \<Rightarrow> gateway \<Rightarrow> gateway \<Rightarrow> bool" where
  "only_answered ge req src gw gw' \<longleftrightarrow> gw_call gw' = gw_call gw \<and> gw_ops gw' = gw_ops gw \<and> gw_db gw' = gw_db gw \<and> gw_modem gw' = gw_modem gw \<and>
     (gw_core gw' = gw_core gw \<or> (\<exists>resp. gw_core gw' = respond (gw_core gw) (ge_sip ge) req src resp)) \<and>
     (gw_spawned gw' = gw_spawned gw \<or> rq_method req = Message \<and> gw_core gw' = gw_core gw \<and>
        gw_spawned gw' \<in> {gw_spawned gw @ [SubmitSms req src (message_number req) (body_str req)],
          gw_spawned gw @ [SubmitMms req src (message_number req)]})"

lemma only_answered_simps [simp]: "only_answered ge req src gw gw" "only_answered ge req src gw (gw_reply ge req src code gw)"
  "only_answered ge req src gw (gw_respond ge req src resp gw)"
  by (simp_all add: only_answered_def) (auto simp: gw_respond_def gw_reply_def Let_def)

text \<open>Property C19: Nobody but the two ends of the call can disturb it. A request whose Call-ID is not that
  of the call, and a BYE or INFO with its Call-ID but other tags, whatever its method and body, leaves the call as it is, asks nothing
  of the modem for it and touches no record; it gets at most one answer (486, 481, 415, ...) and that is all, except that a MESSAGE
  may be submitted: then it leaves exactly one task, which sends that message, and whose end leaves the call and what was asked
  of the modem for it alone as well.\<close>

theorem foreign_request_leaves_the_call:
  assumes "gw_call gw = Some c"
    and "h_call_id (rq_headers req) \<noteq> Some (ca_call_id c) \<or> rq_method req \<in> {Bye, Info} \<and> \<not> in_dialog_of c req"
  shows "let gw' = on_sip_request ge req src gw in only_answered ge req src gw gw' \<and>
    gw_call (sms_submitted ge' req src number body sent gw') = Some c \<and> gw_ops (sms_submitted ge' req src number body sent gw') = gw_ops gw \<and>
    gw_call (mms_submitted ge' req src outcome gw') = Some c \<and> gw_ops (mms_submitted ge' req src outcome gw') = gw_ops gw"
proof -
  have "\<not> in_dialog gw req" if "rq_method req \<in> {Bye, Info}"
    using assms that by (auto simp: in_dialog_def in_dialog_of_def)
  moreover have "h_call_id (rq_headers req) \<noteq> Some (ca_call_id c)" if "rq_method req \<notin> {Bye, Info}"
    using assms that by blast
  moreover have "only_answered ge req src gw (on_sip_message ge req src gw)" if "rq_method req = Message"
    using that by (simp add: on_sip_message_def Let_def) (auto simp: only_answered_def spawn_job_def)
  ultimately have o: "only_answered ge req src gw (on_sip_request ge req src gw)"
    using assms(1)
    by (cases "rq_method req")
      (auto simp: on_sip_request_def on_sip_invite_def on_sip_bye_def on_sip_cancel_def cancel_matches_def
        on_sip_info_def Let_def split: option.split)
  have s: "gw_call (sms_submitted ge' req src number body sent g) = gw_call g" "gw_ops (sms_submitted ge' req src number body sent g) = gw_ops g"
    "gw_call (mms_submitted ge' req src outcome g) = gw_call g" "gw_ops (mms_submitted ge' req src outcome g) = gw_ops g" for g
    by (simp_all add: sms_submitted_def mms_submitted_def db_run_def spawn_job_def Let_def split: option.split)
  show ?thesis unfolding Let_def s using o assms(1) by (simp add: only_answered_def)
qed

section \<open>Tearing down\<close>

lemma canonical_max_forwards [simp]: "canonical ''max-forwards'' = ''max-forwards''"
  by code_simp

lemma build_request_fields [simp]:
  "rq_method (build_request co en m u from to cid q dest b) = m" "rq_uri (build_request co en m u from to cid q dest b) = u"
  "hget (rq_headers (build_request co en m u from to cid q dest b)) ''call-id'' = Some cid"
  "hget (rq_headers (build_request co en m u from to cid q dest b)) ''to'' = Some (name_addr_show to)"
  "hget (rq_headers (build_request co en m u from to cid q dest b)) ''from'' = Some (name_addr_show from)"
  by (simp_all add: build_request_def request_new_def Let_def hs.get_set hs.get_set_other)

lemma in_dialog_request_sent [simp]: "co_sent (snd (build_in_dialog_request en co c m)) = co_sent co"
  by (simp add: build_in_dialog_request_def next_cseq_def)

lemma derived_fields [simp]: "rq_method (derived_request m c) = m" "rq_uri (derived_request m c) = rq_uri (ca_invite c)"
  "hget_all (rq_headers (derived_request m c)) ''via'' = hget_all (rq_headers (ca_invite c)) ''via''"
proof -
  have "hget_all (hremove h ''content-type'') ''via'' = hget_all h ''via''" for h
    by (auto simp: hget_all_def hremove_def intro!: arg_cong [where f = "map snd"] filter_cong)
  then show "hget_all (rq_headers (derived_request m c)) ''via'' = hget_all (rq_headers (ca_invite c)) ''via''"
    by (simp add: derived_request_def hs.get_all_set_other)
qed (simp_all add: derived_request_def)

lemma spawned_after [simp]: "gw_spawned (finish_call ge d gw) = gw_spawned gw" "gw_spawned (hangup_leg p gw) = gw_spawned gw"
  by (simp_all add: finish_call_def cdr_ended_def db_run_def hangup_leg_def modem_does_def split: option.split)

text \<open>Property C20: tearing a call down tells its peer so, in the way the state of the call asks for: an
  answered call is ended by a BYE of its dialog, left to a task that waits for the answer; an INVITE of
  ours that is still pending by a CANCEL with the request URI and the Via of that INVITE, sent to where
  it went; and nothing else is sent.\<close>

theorem teardown_tells_the_peer:
  assumes "gw_call gw = Some c"
  shows "if ca_answered c
    then \<exists>bye. gw_spawned (teardown_call ge reason code gw) = gw_spawned gw @ [SendAndWait bye (ca_remote_addr c)] \<and>
      rq_method bye = Bye \<and> rq_uri bye = ca_remote_target c \<and>
      hget (rq_headers bye) ''call-id'' = Some (ca_call_id c) \<and>
      hget (rq_headers bye) ''to'' = Some (name_addr_show (ca_remote c)) \<and>
      hget (rq_headers bye) ''from'' = Some (name_addr_show (ca_local c)) \<and>
      co_sent (gw_core (teardown_call ge reason code gw)) = co_sent (gw_core gw)
    else if ca_role c = ToSip
    then \<exists>cancel. co_sent (gw_core (teardown_call ge reason code gw)) =
        co_sent (gw_core gw) @ [(request_encode cancel, ca_remote_addr c)] \<and>
      rq_method cancel = Cancel \<and> rq_uri cancel = rq_uri (ca_invite c) \<and>
      hget_all (rq_headers cancel) ''via'' = hget_all (rq_headers (ca_invite c)) ''via'' \<and>
      gw_spawned (teardown_call ge reason code gw) = gw_spawned gw
    else invite_refused ge c (teardown_call ge reason code gw)"
proof (cases "ca_answered c")
  case True
  let ?en = "(ge_sip ge)\<lparr>en_branch := ge_bye_branch ge\<rparr>"
  define bye where "bye = fst (build_in_dialog_request ?en (gw_core gw) c Bye)"
  have "rq_method bye = Bye" "rq_uri bye = ca_remote_target c" "hget (rq_headers bye) ''call-id'' = Some (ca_call_id c)"
    "hget (rq_headers bye) ''to'' = Some (name_addr_show (ca_remote c))"
    "hget (rq_headers bye) ''from'' = Some (name_addr_show (ca_local c))"
    by (simp_all add: bye_def build_in_dialog_request_def next_cseq_def)
  moreover have "gw_spawned (teardown_call ge reason code gw) = gw_spawned gw @ [SendAndWait bye (ca_remote_addr c)]"
    "co_sent (gw_core (teardown_call ge reason code gw)) = co_sent (gw_core gw)"
    using assms True by (simp_all add: teardown_call_def spawn_job_def bye_def split_beta Let_def)
  ultimately show ?thesis using True by auto
next
  case False
  show ?thesis
  proof (cases "ca_role c")
    case ToSip
    have "co_sent (gw_core (teardown_call ge reason code gw)) =
        co_sent (gw_core gw) @ [(request_encode (derived_request Cancel c), ca_remote_addr c)]"
      "gw_spawned (teardown_call ge reason code gw) = gw_spawned gw"
      using assms False ToSip by (simp_all add: teardown_call_def cancel_outgoing_invite_def send_raw_def)
    then show ?thesis using False ToSip derived_fields [of Cancel c] by (auto intro!: exI [of _ "derived_request Cancel c"])
  qed (use assms False teardown_refuses in simp)
qed

section \<open>Messages\<close>

text \<open>A message is only ever sent for a SIP user who asks for it: a MESSAGE becomes work for
  the modem exactly if it is marked \<open>messagetype=sms\<close>, a modem is there, and its body is JSON or text
  with a number to send it to; otherwise it is refused and nothing is left to do.\<close>

lemma message_work:
  "gw_spawned (on_sip_message ge req src gw) = gw_spawned gw @
    (if (case message_type req of Some v \<Rightarrow> eq_ignore_ascii_case v ''sms'' | None \<Rightarrow> False) \<and> gw_modem gw \<noteq> None
     then (case (case h_content_type (rq_headers req) of Some t \<Rightarrow> t | None \<Rightarrow> ''text/plain'') of ty \<Rightarrow>
       if contains_text ''json'' ty then [SubmitMms req src (message_number req)]
       else if starts_with ''text/plain'' ty \<and> message_number req \<noteq> []
       then [SubmitSms req src (message_number req) (body_str req)] else [])
     else [])"
  by (simp add: on_sip_message_def spawn_job_def Let_def)

section \<open>Retries end\<close>

text \<open>An INVITE is sent again with credentials at most once. A refusal of our INVITE either
  leads to that one repetition, for a call that is not answered and was not repeated before, and marks
  the call so; or the call is over, and its mobile leg with it.\<close>

lemma invite_repeated_once:
  assumes "gw_call gw = Some c"
  shows "case gw_call (on_sip_failed ge resp gw) of
      None \<Rightarrow> True
    | Some c' \<Rightarrow> rs_code resp \<in> {401, 407} \<and> ca_role c = ToSip \<and> \<not> ca_answered c \<and> \<not> ca_auth_retried c \<and>
        ca_auth_retried c' \<and> call_identity c' = call_identity c \<and> sp_register (cf_sip (gw_cfg gw)) \<noteq> None"
proof -
  have "gw_call (finish_call ge d g) = None" for d g
    by (simp add: finish_call_def cdr_ended_def db_run_def split: option.split)
  moreover have "case retry_invite_with_auth ge resp (ack_failure resp gw) of (ok, g) \<Rightarrow>
      if ok then ca_role c = ToSip \<and> \<not> ca_answered c \<and> \<not> ca_auth_retried c \<and> sp_register (cf_sip (gw_cfg gw)) \<noteq> None \<and>
        (\<exists>c'. gw_call g = Some c' \<and> ca_auth_retried c' \<and> call_identity c' = call_identity c) else True"
    using assms
    by (simp add: retry_invite_with_auth_def Let_def add_task_def call_identity_def split_beta split: option.split)
  ultimately show ?thesis
    by (auto simp: on_sip_failed_def Let_def split: option.split if_splits prod.splits)
qed

section \<open>Examples\<close>

text \<open>A gateway that is setting up a call from SIP to the mobile side, and what its world answers.\<close>

definition example_world :: gw_env where
  "example_world =
     \<lparr>ge_sip = example_env, ge_bye_branch = [9], ge_tag = [7], ge_call_rand = [6], ge_sdp_now = 1,
      ge_iso = ''2024-01-01T00:00:00Z'', ge_db_ok = True, ge_lookup = (\<lambda>_ _. []), ge_order = [],
      ge_bind = (\<lambda>_ _. Bound), ge_slot = 0, ge_dial = (\<lambda>_. Some ''/call/1''), ge_call_info = (\<lambda>_. None),
      ge_accept = (\<lambda>_. True), ge_dtmf = (\<lambda>_ _. True), ge_sms_info = (\<lambda>_. None), ge_audio_opens = True,
      ge_audio_failed = False, ge_stream = (1, 2, 3), ge_samples = (\<lambda>_ _. None)\<rparr>"

definition example_address :: name_addr where
  "example_address = name_addr_new (uri_new (Some ''100'') ''gw.local'' None)"

definition example_call :: active_call where
  "example_call = incoming_call example_world example_invite example_src ''5551234''
     (sdp_offer 1 (V4 0x0A000009) 4000 (Some 101) 20) Pcmu example_address example_address ''c'' 16384
     ''/call/1'' (Some 1) 1"

definition example_gateway :: gateway where
  "example_gateway =
     \<lparr>gw_cfg = default_config, gw_core = example_core,
      gw_db = snd (start_call ''2024-01-01T00:00:00Z'' Outgoing ''5551234'' empty_database),
      gw_modem = Some \<lparr>mh_path = ''/modem/0'', mh_own_number = None, mh_alsa = None\<rparr>,
      gw_call = Some example_call, gw_ops = [Dial ''5551234''], gw_spawned = []\<rparr>"

lemma example_gateway_fields [simp]: "gw_call example_gateway = Some example_call" "gw_ops example_gateway = [Dial ''5551234'']"
  "gw_modem example_gateway \<noteq> None" "ca_role example_call = FromSip" "\<not> ca_answered example_call"
  "ca_mm_path example_call = Some ''/call/1''" "ca_call_id example_call = ''c''" "ca_cdr_id example_call = Some 1"
  by (simp_all add: example_gateway_def example_call_def incoming_call_def)

lemma teardown_ends [simp]: "gw_call (teardown_call ge reason code gw) = None"
  using closes_teardown [of gw] by (cases "gw_call gw") (auto simp: closes_def)

lemma modem_after [simp]: "gw_modem (finish_call ge d gw) = gw_modem gw" "gw_modem (hangup_leg p gw) = gw_modem gw"
  "gw_modem (spawn_job t gw) = gw_modem gw"
  by (simp_all add: finish_call_def cdr_ended_def db_run_def hangup_leg_def modem_does_def spawn_job_def split: option.split)

lemma teardown_modem [simp]: "gw_modem (teardown_call ge reason code gw) = gw_modem gw"
  by (cases "gw_call gw") (simp_all add: teardown_call_def Let_def split_beta split: role.split)

lemma example_shutdown: "gw_step w ge Shutdown gw = teardown_call ge ''modem2sip is shutting down'' 200 gw"
  by (simp add: gw_step_def)

lemma example_records: "records_match example_gateway"
  by (simp add: records_match_def) (simp add: example_gateway_def start_call_def empty_database_def open_rows_def option_list_def)

theorem ended_calls_are_on_record_witness:
  "records_match (gw_run (\<lambda>_. False) [(example_world, Watchdog), (example_world, Shutdown)] example_gateway)"
  using ended_calls_are_on_record [OF example_records, of "[(example_world, Watchdog), (example_world, Shutdown)]"]
  by (simp add: example_world_def)

theorem ended_call_is_hung_up_witness:
  "\<exists>before. gw_ops (gw_step (\<lambda>_. False) example_world Shutdown example_gateway) =
     Dial ''5551234'' # before @ [Hangup ''/call/1''] \<and> no_dial before"
  using ended_call_is_hung_up [of example_gateway example_call "\<lambda>_. False" example_world Shutdown "''/call/1''"]
  by (simp add: example_shutdown)

theorem early_end_refuses_the_invite_witness:
  "invite_refused example_world example_call (gw_step (\<lambda>_. False) example_world Shutdown example_gateway)"
  using early_end_refuses_the_invite [of example_gateway example_call "\<lambda>_. False" example_world Shutdown]
  by (simp add: example_shutdown)

theorem foreign_request_leaves_the_call_witness:
  "only_answered example_world (request_new Bye (uri_new None ''gw'' None)) example_src example_gateway
     (on_sip_request example_world (request_new Bye (uri_new None ''gw'' None)) example_src example_gateway)"
proof -
  have "h_call_id (rq_headers (request_new Bye (uri_new None ''gw'' None))) \<noteq> Some (ca_call_id example_call)"
    by (simp add: request_new_def h_call_id_def hget_def)
  with foreign_request_leaves_the_call [of example_gateway example_call "request_new Bye (uri_new None ''gw'' None)"]
  show ?thesis by (simp add: Let_def)
qed

theorem teardown_tells_the_peer_witness:
  "\<exists>bye. gw_spawned (teardown_call example_world ''x'' 200
        (with_call (\<lambda>c. c\<lparr>ca_answered := True\<rparr>) example_gateway)) = [SendAndWait bye example_src] \<and>
      rq_method bye = Bye \<and> hget (rq_headers bye) ''call-id'' = Some ''c''"
proof -
  let ?gw = "with_call (\<lambda>c. c\<lparr>ca_answered := True\<rparr>) example_gateway"
  have "gw_call ?gw = Some (example_call\<lparr>ca_answered := True\<rparr>)" "gw_spawned ?gw = []"
    "ca_remote_addr example_call = example_src"
    by simp_all (simp_all add: example_gateway_def example_call_def incoming_call_def)
  with teardown_tells_the_peer [of ?gw "example_call\<lparr>ca_answered := True\<rparr>" example_world "''x''" 200]
  show ?thesis by auto
qed

theorem invite_repeated_once_witness:
  "gw_call (on_sip_failed example_world (reply example_invite 401 ''Unauthorized'') example_gateway) = None"
  using invite_repeated_once [of example_gateway example_call "reply example_invite 401 ''Unauthorized''" example_world]
  by (simp split: option.splits)

section \<open>Two gaps\<close>

text \<open>A BYE in the dialog of a call that was not answered yet ends the call, and only the BYE itself is
  answered: the INVITE, whose caller was told to wait, never gets a final response.\<close>

lemma early_bye_answers_only_itself:
  assumes "in_dialog gw req"
  shows "\<exists>resp. gw_core (on_sip_bye ge req src gw) = respond (gw_core gw) (ge_sip ge) req src resp"
  using assms by (auto simp: on_sip_bye_def gw_respond_def Let_def)

text \<open>A 2xx that arrives after the call it answers is gone (the caller on the mobile side hung up, or the
  CANCEL crossed it) is neither acknowledged nor ended by a BYE.\<close>

lemma late_answer_ignored:
  "gw_call gw = None \<Longrightarrow> on_internal is_wap_push ge (SipAnswered call_id resp) gw = gw"
  by (simp add: on_internal_def)

end
