(* ===== verification/System.thy ===== *)
theory System
  imports CallRules
begin

text \<open>
  The SIP element and the gateway together: datagrams arrive at the element, what it lets through is
  queued for the gateway, and the gateway's event loop takes it from the queue between the events of
  the modem, of its timers and of its own tasks. The inputs of a run are the interleaving. The handlers
  of the two parts run one after another here; in the code they are tasks that share the element.
\<close>

record system =
  sy_gw :: gateway
  sy_taken :: nat

datatype input =
    Datagram sip_env string socket_addr
  | TakeRequest gw_env
  | OtherEvent gw_env gw_event
  | SmsTask gw_env request socket_addr string string "string option"
  | MmsTask gw_env request socket_addr mms_outcome

definition queued :: "system \<Rightarrow> (request \<times> socket_addr) list" where
  "queued s = co_events (gw_core (sy_gw s))"

fun sys_step :: "(u8 list \<Rightarrow> bool) \<Rightarrow> input \<Rightarrow> system \<Rightarrow> system" where
  "sys_step w (Datagram en data src) s =
     s\<lparr>sy_gw := with_core (\<lambda>co. on_datagram co en data src) (sy_gw s)\<rparr>"
| "sys_step w (TakeRequest ge) s =
     (if sy_taken s < length (queued s)
      then (let (req, src) = queued s ! sy_taken s in
            s\<lparr>sy_gw := gw_step w ge (SipRequest req src) (sy_gw s), sy_taken := sy_taken s + 1\<rparr>)
      else s)"
| "sys_step w (OtherEvent ge ev) s =
     (case ev of SipRequest _ _ \<Rightarrow> s | _ \<Rightarrow> s\<lparr>sy_gw := gw_step w ge ev (sy_gw s)\<rparr>)"
| "sys_step w (SmsTask ge req src number body sent) s =
     s\<lparr>sy_gw := sms_submitted ge req src number body sent (sy_gw s)\<rparr>"
| "sys_step w (MmsTask ge req src outcome) s = s\<lparr>sy_gw := mms_submitted ge req src outcome (sy_gw s)\<rparr>"

definition sys_run :: "(u8 list \<Rightarrow> bool) \<Rightarrow> input list \<Rightarrow> system \<Rightarrow> system" where
  "sys_run w ins s = fold (sys_step w) ins s"

definition sys_start :: "system \<Rightarrow> bool" where
  "sys_start s \<longleftrightarrow> sy_taken s = 0 \<and> queued s = [] \<and> gw_ops (sy_gw s) = []"

section \<open>Who is let through\<close>

text \<open>What stays true of a request after it was let through: its source is allowed and, an ACK and the
  exempt requests apart, its credentials verify for the account.\<close>

definition permitted :: "sip_core \<Rightarrow> sip_env \<Rightarrow> request \<Rightarrow> socket_addr \<Rightarrow> bool" where
  "permitted co en req src \<longleftrightarrow> source_allowed co (sa_ip src) \<and>
     (case cfg_auth (co_cfg co) of
        None \<Rightarrow> True
      | Some account \<Rightarrow> rq_method req = Ack \<or> exempt req \<or>
          (case Option.bind (hget (rq_headers req) ''authorization'') credentials_parse of
             None \<Rightarrow> False | Some c \<Rightarrow> credentials_ok co en req account c))"

lemma permitted_cong:
  assumes "co_cfg co' = co_cfg co" "co_bound co' = co_bound co" "en_md5 en' = en_md5 en"
  shows "permitted co' en' req src = permitted co en req src"
proof -
  have "domain_name co' = domain_name co" unfolding domain_name_def assms ..
  then have creds: "credentials_ok co' en' req = credentials_ok co en req"
    unfolding credentials_ok_def assms by (intro ext) simp
  have source: "source_allowed co' = source_allowed co" unfolding source_allowed_def assms ..
  show ?thesis unfolding permitted_def assms creds source ..
qed

lemma permitted_if_authorised:
  "source_allowed co (sa_ip src) \<Longrightarrow> rq_method req = Ack \<or> authorised co en req \<Longrightarrow> permitted co en req src"
  by (auto simp: permitted_def authorised_def split: option.splits)

text \<open>Who the element is: what its requests and its clients' credentials are checked against.\<close>

definition same_element :: "sip_core \<Rightarrow> sip_core \<Rightarrow> bool" where
  "same_element co co' \<longleftrightarrow> co_cfg co' = co_cfg co \<and> co_bound co' = co_bound co"

lemma gc_frame [simp]: "co_cfg (core_gc co now) = co_cfg co" "co_bound (core_gc co now) = co_bound co"
  "co_events (core_gc co now) = co_events co"
  by (simp_all add: core_gc_def)

lemma response_frame [simp]: "co_cfg (on_response co r) = co_cfg co" "co_bound (on_response co r) = co_bound co"
  "co_events (on_response co r) = co_events co"
  by (simp_all add: on_response_def Let_def split: option.split)

lemma deliver_frame [simp]: "co_cfg (deliver r s co) = co_cfg co" "co_bound (deliver r s co) = co_bound co"
  by (simp_all add: deliver_def)

lemma register_frame [simp]: "co_cfg (handle_register co en r s) = co_cfg co"
  "co_bound (handle_register co en r s) = co_bound co"
  by (simp_all add: handle_register_def Let_def split_beta split: option.split)

lemma options_frame [simp]: "co_cfg (handle_options co en r s) = co_cfg co"
  "co_bound (handle_options co en r s) = co_bound co"
  by (simp_all add: handle_options_def Let_def)

lemma claimed_frame [simp]: "co_cfg (handle_claimed co en r s) = co_cfg co"
  "co_bound (handle_claimed co en r s) = co_bound co"
  by (simp_all add: handle_claimed_def Let_def split_beta split: sip_method.split)

lemma request_frame [simp]: "co_cfg (on_request co en r s) = co_cfg co" "co_bound (on_request co en r s) = co_bound co"
  by (simp_all add: on_request_def Let_def split_beta split: option.split claim.split)

lemma datagram_element: "same_element co (on_datagram co en data src)"
  by (simp add: on_datagram_def same_element_def split: option.split message.split)

lemma datagram_events:
  "co_events (on_datagram co en data src) = co_events co \<or>
   (\<exists>req. co_events (on_datagram co en data src) = co_events co @ [(req, src)] \<and> permitted co en req src)"
  using permitted_if_authorised
  by (auto simp: on_datagram_def on_request_events_aux split: option.split message.split)

lemma step_log: "core_log (gw_core (gw_step w ge ev gw)) = core_log (gw_core gw)"
  using moves_step [of ge gw w ev] by (auto simp: moves_def keeps_def closes_def begins_def)

lemma task_fields [simp]:
  "core_log (gw_core (sms_submitted ge req src number body sent gw)) = core_log (gw_core gw)"
  "gw_ops (sms_submitted ge req src number body sent gw) = gw_ops gw"
  "core_log (gw_core (mms_submitted ge req src outcome gw)) = core_log (gw_core gw)"
  "gw_ops (mms_submitted ge req src outcome gw) = gw_ops gw"
  by (simp_all add: sms_submitted_def mms_submitted_def db_run_def spawn_job_def Let_def split: option.split)

section \<open>What a run dials\<close>

text \<open>The INVITEs the gateway has taken, in order.\<close>

definition invites_taken :: "system \<Rightarrow> (request \<times> socket_addr) list" where
  "invites_taken s = filter (\<lambda>(req, src). rq_method req = Invite) (take (sy_taken s) (queued s))"

definition sys_inv :: "sip_core \<Rightarrow> sip_env \<Rightarrow> system \<Rightarrow> bool" where
  "sys_inv co en s \<longleftrightarrow> same_element co (gw_core (sy_gw s)) \<and> sy_taken s \<le> length (queued s) \<and>
     list_all (\<lambda>(req, src). permitted co en req src) (queued s) \<and>
     subseq (dialled (gw_ops (sy_gw s))) (map (\<lambda>(req, src). invited_number req) (invites_taken s))"

lemma sys_inv_same_queue:
  assumes "sys_inv co en s" and "core_log (gw_core g) = core_log (gw_core (sy_gw s))"
    and "dialled (gw_ops g) = dialled (gw_ops (sy_gw s))"
  shows "sys_inv co en (s\<lparr>sy_gw := g\<rparr>)"
  using assms by (simp add: sys_inv_def same_element_def queued_def invites_taken_def core_log_def)

definition input_md5 :: "md5_fn \<Rightarrow> input \<Rightarrow> bool" where
  "input_md5 md5 i \<longleftrightarrow> (case i of Datagram en _ _ \<Rightarrow> en_md5 en = md5 | _ \<Rightarrow> True)"

lemma sys_inv_datagram:
  assumes inv: "sys_inv co en s" and md5: "en_md5 e = en_md5 en"
  shows "sys_inv co en (s\<lparr>sy_gw := with_core (\<lambda>c. on_datagram c e data src) (sy_gw s)\<rparr>)"
proof -
  let ?c = "gw_core (sy_gw s)"
  have same: "same_element co ?c" using inv by (simp add: sys_inv_def)
  then have el: "same_element co (on_datagram ?c e data src)"
    using datagram_element [of ?c e data src] by (simp add: same_element_def)
  have perm: "permitted ?c e req src = permitted co en req src" for req src
    using same md5 by (intro permitted_cong) (simp_all add: same_element_def)
  from datagram_events [of ?c e data src] show ?thesis
    using inv el by (auto simp: sys_inv_def queued_def invites_taken_def perm)
qed

lemma sys_inv_take:
  assumes inv: "sys_inv co en s" and n: "sy_taken s < length (queued s)" and q: "queued s ! sy_taken s = (req, src)"
  shows "sys_inv co en (s\<lparr>sy_gw := gw_step w ge (SipRequest req src) (sy_gw s), sy_taken := sy_taken s + 1\<rparr>)"
proof -
  let ?s' = "s\<lparr>sy_gw := gw_step w ge (SipRequest req src) (sy_gw s), sy_taken := sy_taken s + 1\<rparr>"
  have queue: "queued ?s' = queued s" and el: "same_element co (gw_core (sy_gw ?s'))"
    using step_log [of w ge "SipRequest req src" "sy_gw s"] inv
    by (simp_all add: queued_def core_log_def sys_inv_def same_element_def)
  have "invites_taken ?s' = invites_taken s @ (if rq_method req = Invite then [(req, src)] else [])"
    unfolding invites_taken_def queue using n q by (simp add: take_Suc_conv_app_nth)
  with inv n queue el step_dials [of w ge "SipRequest req src" "sy_gw s"] show ?thesis
    by (auto simp: sys_inv_def intro: list_emb_append_mono list_emb_append2 subseq_rev_drop_many)
qed

lemma sys_inv_step:
  assumes inv: "sys_inv co en s" and "input_md5 (en_md5 en) i"
  shows "sys_inv co en (sys_step w i s)"
proof (cases i)
  case (Datagram e data src)
  with assms sys_inv_datagram show ?thesis by (simp add: input_md5_def)
next
  case (TakeRequest ge)
  with inv sys_inv_take show ?thesis by (cases "queued s ! sy_taken s") simp
next
  case (OtherEvent ge ev)
  have "sys_inv co en (s\<lparr>sy_gw := gw_step w ge ev (sy_gw s)\<rparr>)" if "\<And>req src. ev \<noteq> SipRequest req src"
    using that step_dials [of w ge ev "sy_gw s"] by (intro sys_inv_same_queue [OF inv] step_log) blast
  with OtherEvent inv show ?thesis by (cases ev) simp_all
qed (use inv in \<open>simp_all add: sys_inv_same_queue\<close>)

text \<open>Property C1: a call is dialled only for a caller who may. In every run of the whole system, with
  datagrams of any content from anywhere arriving in any order among the events of the modem and the
  timers, the numbers dialled are those of INVITEs the gateway took, in their order and each INVITE at
  most once; and each of these came from an allowed source and, where an account is configured,
  carried credentials whose digest verifies with the account's password for INVITE, for this body and
  for this address.\<close>

theorem dialled_for_permitted_invites:
  assumes "sys_start s" and "list_all (input_md5 (en_md5 en)) ins"
  shows "subseq (dialled (gw_ops (sy_gw (sys_run w ins s))))
      (map (\<lambda>(req, src). invited_number req) (invites_taken (sys_run w ins s))) \<and>
    list_all (\<lambda>(req, src). permitted (gw_core (sy_gw s)) en req src) (invites_taken (sys_run w ins s))"
proof -
  let ?co = "gw_core (sy_gw s)"
  have "sys_inv ?co en (sys_run w ins t)" if "sys_inv ?co en t" for t
    using that assms(2) unfolding sys_run_def
    by (induction ins arbitrary: t) (simp_all add: sys_inv_step)
  moreover have "sys_inv ?co en s"
    using assms(1) by (simp add: sys_start_def sys_inv_def same_element_def invites_taken_def)
  ultimately have "sys_inv ?co en (sys_run w ins s)" .
  then show ?thesis
    by (auto simp: sys_inv_def invites_taken_def list_all_iff dest: in_set_takeD)
qed

theorem dialled_for_permitted_invites_witness:
  "list_all (\<lambda>(req, src). permitted example_core example_env req src) (invites_taken (sys_run (\<lambda>_. False)
     [Datagram example_env (request_encode example_invite) example_src, TakeRequest example_world,
      OtherEvent example_world (ModemEvent (CallState ''/call/1'' 7 0)), OtherEvent example_world Shutdown]
     \<lparr>sy_gw = example_gateway\<lparr>gw_call := None, gw_ops := []\<rparr>, sy_taken = 0\<rparr>))"
proof -
  let ?s = "\<lparr>sy_gw = example_gateway\<lparr>gw_call := None, gw_ops := []\<rparr>, sy_taken = 0\<rparr>"
  have core: "gw_core (sy_gw ?s) = example_core" by (simp add: example_gateway_def)
  have "sys_start ?s" using core by (simp add: sys_start_def queued_def) (simp add: example_core_def)
  from dialled_for_permitted_invites [OF this, of example_env] show ?thesis
    unfolding core by (simp add: input_md5_def)
qed

end
