(* ===== verification/Wsp.thy ===== *)
theory Wsp
  imports Prelude "HOL-Library.Monad_Syntax"
begin

unbundle bit_operations_syntax

text \<open>
  The primitives of \<open>src/mms/wsp.rs\<close>. A \<open>Reader\<close> is the bytes it has not read yet: its position never
  passes the end of the data, so position and rest determine each other. An operation returns what it
  read, if anything, and the rest. Where the code takes a split_at by a length it computed, the model
  uses \<open>split_at\<close>, which is \<open>None\<close> where Rust panics; the operations that do so return an option around
  their result. A writer returns the bytes it appends. The decoders of character sets are a library's:
  the parameter \<open>dec\<close>.
\<close>

section \<open>Assigned numbers\<close>

definition content_types :: "(u8 \<times> string) list" where
  "content_types =
    [(0x00, ''*/*''),
     (0x01, ''text/*''),
     (0x02, ''text/html''),
     (0x03, ''text/plain''),
     (0x04, ''text/x-hdml''),
     (0x05, ''text/x-ttml''),
     (0x06, ''text/x-vCalendar''),
     (0x07, ''text/x-vCard''),
     (0x08, ''text/vnd.wap.wml''),
     (0x09, ''text/vnd.wap.wmlscript''),
     (0x0A, ''text/vnd.wap.wta-event''),
     (0x0B, ''multipart/*''),
     (0x0C, ''multipart/mixed''),
     (0x0D, ''multipart/form-data''),
     (0x0E, ''multipart/byteranges''),
     (0x0F, ''multipart/alternative''),
     (0x10, ''application/*''),
     (0x11, ''application/java-vm''),
     (0x12, ''application/x-www-form-urlencoded''),
     (0x13, ''application/x-hdmlc''),
     (0x14, ''application/vnd.wap.wmlc''),
     (0x15, ''application/vnd.wap.wmlscriptc''),
     (0x16, ''application/vnd.wap.wta-eventc''),
     (0x17, ''application/vnd.wap.uaprof''),
     (0x18, ''application/vnd.wap.wtls-ca-certificate''),
     (0x19, ''application/vnd.wap.wtls-user-certificate''),
     (0x1A, ''application/x-x509-ca-cert''),
     (0x1B, ''application/x-x509-user-cert''),
     (0x1C, ''image/*''),
     (0x1D, ''image/gif''),
     (0x1E, ''image/jpeg''),
     (0x1F, ''image/tiff''),
     (0x20, ''image/png''),
     (0x21, ''image/vnd.wap.wbmp''),
     (0x22, ''application/vnd.wap.multipart.*''),
     (0x23, ''application/vnd.wap.multipart.mixed''),
     (0x24, ''application/vnd.wap.multipart.form-data''),
     (0x25, ''application/vnd.wap.multipart.byteranges''),
     (0x26, ''application/vnd.wap.multipart.alternative''),
     (0x27, ''application/xml''),
     (0x28, ''text/xml''),
     (0x29, ''application/vnd.wap.wbxml''),
     (0x2A, ''application/x-x968-cross-cert''),
     (0x2B, ''application/x-x968-ca-cert''),
     (0x2C, ''application/x-x968-user-cert''),
     (0x2D, ''text/vnd.wap.si''),
     (0x2E, ''application/vnd.wap.sic''),
     (0x2F, ''text/vnd.wap.sl''),
     (0x30, ''application/vnd.wap.slc''),
     (0x31, ''text/vnd.wap.co''),
     (0x32, ''application/vnd.wap.coc''),
     (0x33, ''application/vnd.wap.multipart.related''),
     (0x34, ''application/vnd.wap.sia''),
     (0x35, ''text/vnd.wap.connectivity-xml''),
     (0x36, ''application/vnd.wap.connectivity-wbxml''),
     (0x37, ''application/pkcs7-mime''),
     (0x3E, ''application/vnd.wap.mms-message'')]"

definition content_type_name :: "u8 \<Rightarrow> string" where
  "content_type_name code =
     (case find (\<lambda>(c, _). c = code) content_types of
        Some (_, n) \<Rightarrow> n | None \<Rightarrow> ''application/octet-stream'')"

definition content_type_code :: "string \<Rightarrow> u8 option" where
  "content_type_code name = map_option fst (find (\<lambda>(_, n). eq_ignore_ascii_case n name) content_types)"

definition param_names :: "(u8 \<times> string) list" where
  "param_names =
    [(0x00, ''q''),
     (0x01, ''charset''),
     (0x02, ''level''),
     (0x03, ''type''),
     (0x05, ''name''),
     (0x06, ''filename''),
     (0x07, ''differences''),
     (0x08, ''padding''),
     (0x09, ''type''),
     (0x0A, ''start''),
     (0x0B, ''start-info''),
     (0x0C, ''comment''),
     (0x0D, ''domain''),
     (0x0E, ''max-age''),
     (0x0F, ''path''),
     (0x10, ''secure''),
     (0x11, ''sec''),
     (0x12, ''mac''),
     (0x13, ''creation-date''),
     (0x14, ''modification-date''),
     (0x15, ''read-date''),
     (0x16, ''size''),
     (0x17, ''name''),
     (0x18, ''filename''),
     (0x19, ''start''),
     (0x1A, ''start-info''),
     (0x1B, ''comment''),
     (0x1C, ''domain''),
     (0x1D, ''path'')]"

definition param_name :: "u8 \<Rightarrow> string option" where
  "param_name code = map_option snd (find (\<lambda>(c, _). c = code) param_names)"

datatype charset = Windows1252 | Utf8 | Utf16be | Utf16le | EucKr | ShiftJis | EucJp | Big5 | Gbk | Gb18030

fun charset_name :: "charset \<Rightarrow> string" where
  "charset_name Windows1252 = ''windows-1252''"
| "charset_name Utf8 = ''UTF-8''"
| "charset_name Utf16be = ''UTF-16BE''"
| "charset_name Utf16le = ''UTF-16LE''"
| "charset_name EucKr = ''EUC-KR''"
| "charset_name ShiftJis = ''Shift_JIS''"
| "charset_name EucJp = ''EUC-JP''"
| "charset_name Big5 = ''Big5''"
| "charset_name Gbk = ''GBK''"
| "charset_name Gb18030 = ''gb18030''"

text \<open>MIBenum to charset.\<close>

definition charset_for :: "u32 \<Rightarrow> charset" where
  "charset_for mib =
     (if mib = 3 \<or> mib = 4 then Windows1252
      else if mib = 106 then Utf8
      else if mib = 1000 \<or> mib = 1015 \<or> mib = 1013 then Utf16be
      else if mib = 1014 then Utf16le
      else if mib = 36 \<or> mib = 38 then EucKr
      else if mib = 17 \<or> mib = 2024 then ShiftJis
      else if mib = 18 then EucJp
      else if mib = 2026 then Big5
      else if mib = 57 \<or> mib = 113 \<or> mib = 2025 then Gbk
      else if mib = 2085 then Gb18030
      else Utf8)"

section \<open>The reader\<close>

text \<open>A split_at of a length the code computed.\<close>

definition split_at :: "nat \<Rightarrow> u8 list \<Rightarrow> (u8 list \<times> u8 list) option" where
  "split_at n r = (if n \<le> length r then Some (take n r, drop n r) else None)"

definition rd_u8 :: "u8 list \<Rightarrow> u8 option \<times> u8 list" where
  "rd_u8 r = (case r of [] \<Rightarrow> (None, []) | b # r' \<Rightarrow> (Some b, r'))"

definition rd_take :: "nat \<Rightarrow> u8 list \<Rightarrow> u8 list option \<times> u8 list" where
  "rd_take n r = (if length r < n then (None, r) else (Some (take n r), drop n r))"

fun uintvar_loop :: "nat \<Rightarrow> u64 \<Rightarrow> u8 list \<Rightarrow> u64 option \<times> u8 list" where
  "uintvar_loop 0 acc r = (None, r)"
| "uintvar_loop (Suc n) acc [] = (None, [])"
| "uintvar_loop (Suc n) acc (b # r) =
     (let v = push_bit 7 acc OR ucast (b AND 0x7F) in
      if b AND 0x80 = 0 then (Some v, r) else uintvar_loop n v r)"

definition uintvar :: "u8 list \<Rightarrow> u64 option \<times> u8 list" where
  "uintvar r = uintvar_loop 8 0 r"

definition lossy :: "u8 list \<Rightarrow> string" where
  "lossy bs = from_utf8_lossy (bytes_text bs)"

definition unquote :: "u8 list \<Rightarrow> u8 list" where
  "unquote r = (case r of b # r' \<Rightarrow> if b = 0x7F then r' else r | [] \<Rightarrow> [])"

definition text_string :: "u8 list \<Rightarrow> string option \<times> u8 list" where
  "text_string r0 =
     (let r = unquote r0; text = takeWhile (\<lambda>b. b \<noteq> 0) r in
      case dropWhile (\<lambda>b. b \<noteq> 0) r of
        _ # rest \<Rightarrow> (Some (lossy text), rest)
      | [] \<Rightarrow> if r \<noteq> [] then (Some (lossy r), []) else (None, []))"

definition value_length :: "u8 list \<Rightarrow> nat option \<times> u8 list" where
  "value_length r =
     (case r of
        [] \<Rightarrow> (None, [])
      | b # r' \<Rightarrow>
          if b \<le> 30 then (Some (unat b), r')
          else if b = 0x1F then (let (v, r'') = uintvar r' in (map_option unat v, r''))
          else (None, r))"

definition bounded_value_length :: "u8 list \<Rightarrow> nat option \<times> u8 list" where
  "bounded_value_length r = (let (v, r') = value_length r in (map_option (\<lambda>n. min n (length r')) v, r'))"

definition long_int :: "u8 list \<Rightarrow> u64 option \<times> u8 list" where
  "long_int r =
     (case r of
        [] \<Rightarrow> (None, [])
      | b # r' \<Rightarrow>
          if b = 0 \<or> 8 < b then (None, r')
          else (let (bs, r'') = rd_take (unat b) r' in
            (map_option (foldl (\<lambda>acc b. push_bit 8 acc OR ucast b) 0) bs, r'')))"

definition integer_value :: "u8 list \<Rightarrow> u64 option \<times> u8 list" where
  "integer_value r =
     (case r of
        [] \<Rightarrow> (None, [])
      | b # r' \<Rightarrow> if b AND 0x80 \<noteq> 0 then (Some (ucast (b AND 0x7F)), r') else long_int r)"

text \<open>The text of an encoded string after its charset: without its terminator, if it has one.\<close>

definition strip_terminator :: "nat \<Rightarrow> u8 list \<Rightarrow> u8 list" where
  "strip_terminator t raw =
     (if t \<le> length raw \<and> list_all (\<lambda>b. b = 0) (drop (length raw - t) raw)
      then take (length raw - t) raw else raw)"

definition charset_text :: "(charset \<Rightarrow> u8 list \<Rightarrow> string) \<Rightarrow> u8 list \<Rightarrow> string" where
  "charset_text dec inner =
     (let (v, raw) = integer_value inner;
          cs = charset_for (ucast (case v of Some m \<Rightarrow> m | None \<Rightarrow> 106));
          t = (if starts_with ''UTF-16'' (charset_name cs) then 2 else 1)
      in dec cs (strip_terminator t raw))"

definition encoded_string :: "(charset \<Rightarrow> u8 list \<Rightarrow> string) \<Rightarrow> u8 list \<Rightarrow> (string option \<times> u8 list) option" where
  "encoded_string dec r =
     (case r of
        [] \<Rightarrow> Some (None, [])
      | b # _ \<Rightarrow>
          if 0x20 \<le> b then Some (text_string r)
          else (case bounded_value_length r of
              (None, r1) \<Rightarrow> Some (None, r1)
            | (Some len, r1) \<Rightarrow> do { (inner, r2) \<leftarrow> split_at len r1; Some (Some (charset_text dec inner), r2) }))"

definition text_or_empty :: "string option \<Rightarrow> string" where
  "text_or_empty v = (case v of Some t \<Rightarrow> t | None \<Rightarrow> [])"

definition show_u64 :: "u64 option \<Rightarrow> string" where
  "show_u64 v = (case v of Some n \<Rightarrow> show_nat (unat n) | None \<Rightarrow> [])"

text \<open>The value of a charset parameter: a well-known integer or text.\<close>

definition charset_value :: "u8 list \<Rightarrow> string \<times> u8 list" where
  "charset_value r =
     (case r of
        [] \<Rightarrow> (text_or_empty (fst (text_string r)), snd (text_string r))
      | p # _ \<Rightarrow>
          if p AND 0x80 \<noteq> 0 \<or> p < 0x20
          then (let (v, r') = integer_value r in
            (case v of Some m \<Rightarrow> charset_name (charset_for (ucast m)) | None \<Rightarrow> [], r'))
          else (let (v, r') = text_string r in (text_or_empty v, r')))"

definition parameter :: "(charset \<Rightarrow> u8 list \<Rightarrow> string) \<Rightarrow> u8 list \<Rightarrow> ((string \<times> string) option \<times> u8 list) option" where
  "parameter dec r =
     (case r of
        [] \<Rightarrow> Some (None, [])
      | b # r1 \<Rightarrow>
          if b AND 0x80 \<noteq> 0 then
            (let code = b AND 0x7F;
                 name = (case param_name code of Some n \<Rightarrow> n | None \<Rightarrow> ''x-unknown'') in
             if code = 0x10 then Some (Some (name, []), r1)
             else if code = 0x00 then (let (v, r2) = uintvar r1 in Some (Some (name, show_u64 v), r2))
             else if code \<in> {0x02, 0x0E, 0x16} then
               (let (v, r2) = integer_value r1 in Some (Some (name, show_u64 v), r2))
             else if code = 0x01 then (let (v, r2) = charset_value r1 in Some (Some (name, v), r2))
             else do { (v, r2) \<leftarrow> encoded_string dec r1; Some (Some (name, text_or_empty v), r2) })
          else
            (case text_string r of
               (None, r2) \<Rightarrow> Some (None, r2)
             | (Some name, r2) \<Rightarrow>
                 do { (v, r3) \<leftarrow> encoded_string dec r2; Some (Some (name, text_or_empty v), r3) }))"

section \<open>What reading leaves\<close>

lemma split_at_Some [simp]: "split_at n r = Some (a, b) \<longleftrightarrow> n \<le> length r \<and> a = take n r \<and> b = drop n r"
  by (auto simp: split_at_def)

lemma split_at_None [simp]: "split_at n r = None \<longleftrightarrow> length r < n"
  by (auto simp: split_at_def)

lemma length_unquote: "length (unquote r) \<le> length r"
  by (cases r) (auto simp: unquote_def)

lemma text_string_shrinks: "length (snd (text_string r)) \<le> length r - 1"
proof -
  have "length (dropWhile (\<lambda>b. b \<noteq> 0) (unquote r)) \<le> length (unquote r)" by (rule length_dropWhile_le)
  with length_unquote [of r] show ?thesis
    by (auto simp: text_string_def Let_def split: list.split)
qed

lemma uintvar_loop_shrinks: "length (snd (uintvar_loop n acc r)) \<le> length r - (if n = 0 then 0 else 1)"
proof (induction n acc r rule: uintvar_loop.induct)
  case (3 n acc b r)
  then show ?case by (auto simp: Let_def split: if_splits)
qed auto

lemma uintvar_shrinks: "length (snd (uintvar r)) \<le> length r - 1"
  using uintvar_loop_shrinks [of 8 0 r] by (simp add: uintvar_def)

lemma value_length_shrinks: "length (snd (value_length r)) \<le> length r"
  using uintvar_shrinks [of "tl r"] by (auto simp: value_length_def split_beta split: list.splits)

lemma value_length_Some: "value_length r = (Some n, r') \<Longrightarrow> length r' < length r"
  using uintvar_shrinks [of "tl r"]
  by (cases r) (auto simp: value_length_def split_beta split: if_splits)

lemma long_int_shrinks: "length (snd (long_int r)) \<le> length r - 1"
  by (auto simp: long_int_def rd_take_def split: list.split)

lemma integer_value_shrinks: "length (snd (integer_value r)) \<le> length r - 1"
  using long_int_shrinks [of r] by (cases r) (auto simp: integer_value_def)

lemma bounded_value_length_fits: "bounded_value_length r = (Some n, r') \<Longrightarrow> n \<le> length r' \<and> length r' < length r"
  using value_length_Some [of r] by (auto simp: bounded_value_length_def split_beta prod_eq_iff)

lemma bounded_value_length_shrinks: "length (snd (bounded_value_length r)) \<le> length r"
  using value_length_shrinks [of r] by (simp add: bounded_value_length_def split_beta)

lemma encoded_string_total: "\<exists>v r'. encoded_string dec r = Some (v, r') \<and> length r' \<le> length r"
proof (cases r)
  case (Cons b rest)
  obtain n r1 where b: "bounded_value_length r = (n, r1)" by fastforce
  show ?thesis
  proof (cases n)
    case None
    with b bounded_value_length_shrinks [of r] text_string_shrinks [of r] Cons show ?thesis
      by (cases "text_string r") (auto simp: encoded_string_def)
  next
    case (Some len)
    with b have "len \<le> length r1 \<and> length r1 < length r" using bounded_value_length_fits by blast
    with b Some text_string_shrinks [of r] Cons show ?thesis
      by (cases "text_string r") (auto simp: encoded_string_def split_at_def)
  qed
qed (simp add: encoded_string_def)

lemma charset_value_shrinks: "length (snd (charset_value r)) \<le> length r"
  using text_string_shrinks [of r] integer_value_shrinks [of r]
  by (auto simp: charset_value_def split_beta split: list.split)

lemma parameter_total: "\<exists>v r'. parameter dec r = Some (v, r') \<and> length r' \<le> length r - 1"
proof (cases r)
  case (Cons b r1)
  obtain v2 r2 where t: "text_string r = (v2, r2)" by fastforce
  then have "length r2 \<le> length r - 1" using text_string_shrinks [of r] by simp
  moreover obtain v3 r3 where "encoded_string dec r2 = Some (v3, r3)" "length r3 \<le> length r2"
    using encoded_string_total by blast
  moreover obtain v4 r4 where "encoded_string dec r1 = Some (v4, r4)" "length r4 \<le> length r1"
    using encoded_string_total by blast
  ultimately show ?thesis
    using Cons t uintvar_shrinks [of r1] integer_value_shrinks [of r1] charset_value_shrinks [of r1]
    by (cases v2) (auto simp: parameter_def split_beta Let_def)
qed (simp add: parameter_def)

section \<open>Content types\<close>

text \<open>The parameters of a content type, up to the end of its value or the first that cannot be read.\<close>

function content_params ::
  "(charset \<Rightarrow> u8 list \<Rightarrow> string) \<Rightarrow> u8 list \<Rightarrow> (string \<times> string) list option" where
  "content_params dec r =
     (if r = [] then Some []
      else case parameter dec r of
        None \<Rightarrow> None
      | Some (None, _) \<Rightarrow> Some []
      | Some (Some kv, r') \<Rightarrow> map_option (Cons kv) (content_params dec r'))"
  by pat_completeness auto
termination
proof (relation "measure (length \<circ> snd)")
  fix dec :: "charset \<Rightarrow> u8 list \<Rightarrow> string" and r x kv r' opt
  assume "r \<noteq> []" "parameter dec r = Some x" "(opt, r') = x" "opt = Some kv"
  then have "length r' \<le> length r - 1" using parameter_total [of dec r] by auto
  with \<open>r \<noteq> []\<close> show "((dec, r'), (dec, r)) \<in> measure (length \<circ> snd)" by (cases r) auto
qed simp

declare content_params.simps [simp del]

definition inner_content_type ::
  "(charset \<Rightarrow> u8 list \<Rightarrow> string) \<Rightarrow> u8 list \<Rightarrow> (string \<times> (string \<times> string) list) option option" where
  "inner_content_type dec inner =
     (case inner of
        [] \<Rightarrow> Some None
      | b # rest \<Rightarrow>
          (case (if b AND 0x80 \<noteq> 0 then (Some (content_type_name (b AND 0x7F)), rest) else text_string inner) of
             (None, _) \<Rightarrow> Some None
           | (Some name, r) \<Rightarrow> do { ps \<leftarrow> content_params dec r; Some (Some (name, ps)) }))"

definition content_type ::
  "(charset \<Rightarrow> u8 list \<Rightarrow> string) \<Rightarrow> u8 list
     \<Rightarrow> ((string \<times> (string \<times> string) list) option \<times> u8 list) option" where
  "content_type dec r =
     (case r of
        [] \<Rightarrow> Some (None, [])
      | b # rest \<Rightarrow>
          if b AND 0x80 \<noteq> 0 then Some (Some (content_type_name (b AND 0x7F), []), rest)
          else if 0x20 \<le> b then (let (t, r') = text_string r in Some (map_option (\<lambda>t. (t, [])) t, r'))
          else (case bounded_value_length r of
              (None, r1) \<Rightarrow> Some (None, r1)
            | (Some len, r1) \<Rightarrow>
                do { (inner, r2) \<leftarrow> split_at len r1; v \<leftarrow> inner_content_type dec inner; Some (v, r2) }))"

text \<open>A header value of unknown type: whether it could be skipped.\<close>

definition skip_value :: "u8 list \<Rightarrow> bool \<times> u8 list" where
  "skip_value r =
     (case r of
        [] \<Rightarrow> (False, [])
      | b # rest \<Rightarrow>
          if b \<le> 30 \<or> b = 0x1F then
            (case bounded_value_length r of
               (None, r1) \<Rightarrow> (False, r1)
             | (Some len, r1) \<Rightarrow> (let (bs, r2) = rd_take len r1 in (bs \<noteq> None, r2)))
          else if b AND 0x80 \<noteq> 0 then (True, rest)
          else (let (t, r1) = text_string r in (t \<noteq> None, r1)))"

section \<open>The writers\<close>

lemma unat_drop_bit_less: "v \<noteq> 0 \<Longrightarrow> unat (drop_bit (Suc n) v) < unat (v :: u64)"
proof -
  assume "v \<noteq> 0"
  then have "0 < unat v" by (simp add: unat_gt_0)
  moreover have "unat (drop_bit (Suc n) v) = unat v div 2 ^ Suc n"
    unfolding unat_drop_bit_eq by (rule drop_bit_eq_div)
  moreover have "(1::nat) < 2 ^ Suc n" by (rule one_less_power) simp_all
  ultimately show ?thesis by (metis div_less_dividend)
qed

function uintvar_groups :: "u64 \<Rightarrow> u8 list" where
  "uintvar_groups value =
     (let g = ucast (value AND 0x7F); rest = drop_bit 7 value in
      if rest = 0 then [g] else uintvar_groups rest @ [g])"
  by pat_completeness auto
termination
proof (relation "measure unat")
  fix v rest :: u64 and g :: u8
  assume "rest = drop_bit 7 v" "rest \<noteq> 0"
  then show "(rest, v) \<in> measure unat" using unat_drop_bit_less [of v 6] by (cases "v = 0") auto
qed simp

declare uintvar_groups.simps [simp del]

definition write_uintvar :: "u64 \<Rightarrow> u8 list" where
  "write_uintvar value =
     (let gs = uintvar_groups value in map (\<lambda>b. b OR 0x80) (butlast gs) @ [List.last gs])"

definition write_text_string :: "string \<Rightarrow> u8 list" where
  "write_text_string text =
     (case text of c # _ \<Rightarrow> if 0x80 \<le> byte_of c then [0x7F] else [] | [] \<Rightarrow> []) @ text_bytes text @ [0]"

definition write_value_length :: "nat \<Rightarrow> u8 list" where
  "write_value_length len = (if len \<le> 30 then [of_nat len] else 0x1F # write_uintvar (of_nat len))"

definition CHARSET_UTF8 :: u64 where
  "CHARSET_UTF8 = 106"

function be_bytes :: "u64 \<Rightarrow> u8 list" where
  "be_bytes v = (if v = 0 then [] else be_bytes (drop_bit 8 v) @ [ucast (v AND 0xFF)])"
  by pat_completeness auto
termination
  by (relation "measure unat") (use unat_drop_bit_less [of _ 7] in auto)

declare be_bytes.simps [simp del]

definition write_long_int :: "u64 \<Rightarrow> u8 list" where
  "write_long_int value =
     (let bytes = (if be_bytes value = [] then [0] else be_bytes value) in of_nat (length bytes) # bytes)"

definition write_integer_value :: "u64 \<Rightarrow> u8 list" where
  "write_integer_value value = (if value \<le> 127 then [0x80 OR ucast value] else write_long_int value)"

definition write_encoded_string :: "string \<Rightarrow> u8 list" where
  "write_encoded_string text =
     (if is_ascii text then write_text_string text
      else (let inner = write_integer_value CHARSET_UTF8 @ text_bytes text @ [0] in
            write_value_length (length inner) @ inner))"

section \<open>Writing, then reading\<close>

lemma mask_7: "(0x7F :: 'a::len word) = mask 7"
  by (simp add: mask_eq_exp_minus_1)

lemma mask_8: "(0xFF :: 'a::len word) = mask 8"
  by (simp add: mask_eq_exp_minus_1)

lemma bit_127: "bit (0x7F :: 'a::len word) n \<longleftrightarrow> n < 7 \<and> n < LENGTH('a)"
  unfolding mask_7 by (auto simp: bit_mask_iff)

lemma bit_255: "bit (0xFF :: 'a::len word) n \<longleftrightarrow> n < 8 \<and> n < LENGTH('a)"
  unfolding mask_8 by (auto simp: bit_mask_iff)

lemma bit_128: "bit (0x80 :: 'a::len word) n \<longleftrightarrow> n = 7 \<and> n < LENGTH('a)"
proof -
  have "(0x80 :: 'a word) = 2 ^ 7" by simp
  then show ?thesis by (metis bit_exp_iff possible_bit_word)
qed

lemmas word_bits = bit_and_iff bit_or_iff bit_unsigned_iff bit_127 bit_255 bit_128

lemma word_split: "push_bit n (drop_bit n v) OR (v AND mask n) = (v :: 'a::len word)"
  by (rule bit_word_eqI) (auto simp: bit_and_iff bit_or_iff bit_push_bit_iff bit_drop_bit_eq bit_mask_iff)

lemma groups_le: "drop_bit 7 v = 0 \<Longrightarrow> v AND 0x7F = (v :: u64)"
  using word_split [of 7 v] by (simp add: mask_7)

lemma groups_value: "foldl (\<lambda>acc g. push_bit 7 acc OR ucast g) 0 (uintvar_groups v) = v"
proof (induction v rule: uintvar_groups.induct)
  case (1 v)
  have g: "ucast (ucast (v AND 0x7F) :: u8) = v AND (0x7F :: u64)"
    by (rule bit_word_eqI) (auto simp: word_bits simp del: bit_numeral_word_iff)
  have v: "push_bit 7 (drop_bit 7 v) OR (v AND 0x7F) = v"
    using word_split [of 7 v] by (simp add: mask_7)
  show ?case
  proof (cases "drop_bit 7 v = 0")
    case True
    then show ?thesis using g groups_le [of v] by (simp only: uintvar_groups.simps [of v] Let_def) simp
  next
    case False
    then show ?thesis using 1 by (simp add: uintvar_groups.simps [of v] Let_def g v)
  qed
qed

lemma groups_small: "g \<in> set (uintvar_groups v) \<Longrightarrow> g AND 0x80 = 0 \<and> g AND 0x7F = g"
proof (induction v rule: uintvar_groups.induct)
  case (1 v)
  have "ucast (v AND 0x7F) AND (0x80 :: u8) = 0" "ucast (v AND 0x7F) AND 0x7F = (ucast (v AND 0x7F) :: u8)"
    by (rule bit_word_eqI; auto simp: word_bits simp del: bit_numeral_word_iff)+
  with 1 show ?case by (auto simp: uintvar_groups.simps [of v] Let_def split: if_splits)
qed

lemma groups_nonempty [simp]: "uintvar_groups v \<noteq> []"
  by (simp add: uintvar_groups.simps [of v] Let_def)

lemma groups_length: "unat v < 128 ^ n \<Longrightarrow> 0 < n \<Longrightarrow> length (uintvar_groups v) \<le> n"
proof (induction v arbitrary: n rule: uintvar_groups.induct)
  case (1 v)
  show ?case
  proof (cases "drop_bit 7 v = 0")
    case False
    have d: "unat (drop_bit 7 v) = unat v div 128"
      unfolding unat_drop_bit_eq by (simp add: drop_bit_eq_div)
    obtain m where n: "n = Suc m" using "1.prems" by (cases n) auto
    have "unat (drop_bit 7 v) \<noteq> 0" using False unat_eq_0 by blast
    with d n "1.prems" have "m \<noteq> 0" by (cases m) auto
    moreover have "unat (drop_bit 7 v) < 128 ^ m" using "1.prems" n d by (simp add: less_mult_imp_div_less)
    ultimately have "length (uintvar_groups (drop_bit 7 v)) \<le> m" using "1.IH" False by simp
    with False n show ?thesis by (simp add: uintvar_groups.simps [of v] Let_def)
  qed (use "1.prems" in \<open>simp add: uintvar_groups.simps [of v] Let_def\<close>)
qed

lemma uintvar_loop_groups:
  assumes "gs \<noteq> []" "length gs \<le> n" "\<And>g. g \<in> set gs \<Longrightarrow> g AND 0x80 = 0 \<and> g AND 0x7F = g"
  shows "uintvar_loop n acc (map (\<lambda>b. b OR 0x80) (butlast gs) @ List.last gs # rest) =
    (Some (foldl (\<lambda>acc g. push_bit 7 acc OR ucast g) acc gs), rest)"
  using assms
proof (induction gs arbitrary: n acc)
  case (Cons g gs)
  obtain m where n: "n = Suc m" using Cons.prems by (cases n) auto
  have g: "g AND 0x80 = 0" "g AND 0x7F = g" using Cons.prems(3) by auto
  have "(g OR 0x80) AND 0x80 = (0x80 :: u8)" by (rule bit_word_eqI) (auto simp: word_bits simp del: bit_numeral_word_iff)
  moreover have "(g OR 0x80) AND 0x7F = g AND 0x7F" by (rule bit_word_eqI) (auto simp: word_bits simp del: bit_numeral_word_iff)
  ultimately show ?case using Cons n g by (cases "gs = []") auto
qed simp

lemma uintvar_write:
  "unat v < 2 ^ 56 \<Longrightarrow> uintvar (write_uintvar v @ rest) = (Some v, rest)"
  using uintvar_loop_groups [of "uintvar_groups v" 8 0 rest] groups_length [of v 8] groups_small groups_value
  by (simp add: uintvar_def write_uintvar_def Let_def)


lemma be_bytes_value: "foldl (\<lambda>acc b. push_bit 8 acc OR ucast b) 0 (be_bytes v) = v"
proof (induction v rule: be_bytes.induct)
  case (1 v)
  have "ucast (ucast (v AND 0xFF) :: u8) = v AND (0xFF :: u64)"
    by (rule bit_word_eqI) (auto simp: word_bits simp del: bit_numeral_word_iff)
  moreover have "push_bit 8 (drop_bit 8 v) OR (v AND 0xFF) = v"
    using word_split [of 8 v] by (simp add: mask_8)
  ultimately show ?case using 1 by (simp add: be_bytes.simps [of v])
qed

lemma be_bytes_length: "unat v < 256 ^ n \<Longrightarrow> length (be_bytes v) \<le> n"
proof (induction v arbitrary: n rule: be_bytes.induct)
  case (1 v)
  show ?case
  proof (cases "v = 0")
    case False
    then have "n \<noteq> 0" using 1 by (cases n) (auto simp: unat_eq_0)
    then obtain m where n: "n = Suc m" by (cases n) auto
    have "unat (drop_bit 8 v) = unat v div 256"
      unfolding unat_drop_bit_eq by (simp add: drop_bit_eq_div)
    then have "unat (drop_bit 8 v) < 256 ^ m" using "1.prems" n by (simp add: less_mult_imp_div_less)
    then have "length (be_bytes (drop_bit 8 v)) \<le> m" using "1.IH" False by simp
    with False n show ?thesis by (simp add: be_bytes.simps [of v])
  qed (simp add: be_bytes.simps [of 0])
qed

lemma be_bytes_Nil_iff: "be_bytes v = [] \<longleftrightarrow> v = 0"
  by (simp add: be_bytes.simps [of v])

lemma be_bytes_length_8: "length (be_bytes v) \<le> 8"
proof -
  have "unat v < 2 ^ 64" using unsigned_less [of v] by simp
  then show ?thesis using be_bytes_length [of v 8] by simp
qed

lemma long_int_read:
  assumes "bs \<noteq> []" "length bs \<le> 8"
  shows "long_int (of_nat (length bs) # bs @ rest) = (Some (foldl (\<lambda>acc b. push_bit 8 acc OR ucast b) 0 bs), rest)"
proof -
  have n: "unat (of_nat (length bs) :: u8) = length bs" using assms by (simp add: unat_of_nat)
  have "(of_nat (length bs) :: u8) \<noteq> 0" using n assms(1) by auto
  moreover have "\<not> 8 < (of_nat (length bs) :: u8)" using n assms(2) by (simp add: word_less_nat_alt)
  ultimately show ?thesis using n by (simp add: long_int_def rd_take_def)
qed

lemma long_int_write: "long_int (write_long_int v @ rest) = (Some v, rest)"
proof (cases "v = 0")
  case False
  with be_bytes_length_8 [of v] show ?thesis
    using long_int_read [of "be_bytes v" rest] be_bytes_value by (simp add: write_long_int_def Let_def be_bytes_Nil_iff)
next
  case True
  then show ?thesis
    using long_int_read [of "[0]" rest] by (simp add: write_long_int_def be_bytes_Nil_iff)
qed

lemma small_or_high:
  assumes "v \<le> (127 :: u64)"
  shows "(0x80 OR ucast v) AND (0x80 :: u8) \<noteq> 0" "ucast ((0x80 OR ucast v) AND (0x7F :: u8)) = v"
proof -
  have "(0x80 OR ucast v) AND (0x80 :: u8) = 0x80"
    by (rule bit_word_eqI) (auto simp: word_bits simp del: bit_numeral_word_iff)
  then show "(0x80 OR ucast v) AND (0x80 :: u8) \<noteq> 0" by simp
  have "ucast ((0x80 OR ucast v) AND (0x7F :: u8)) = v AND (0x7F :: u64)"
    by (rule bit_word_eqI) (auto simp: word_bits simp del: bit_numeral_word_iff)
  also have "\<dots> = v"
  proof (rule groups_le)
    have "unat v < 128" using assms by (simp add: word_le_nat_alt)
    then have "unat (drop_bit 7 v) = 0" unfolding unat_drop_bit_eq by (simp add: drop_bit_eq_div)
    then show "drop_bit 7 v = 0" using unat_eq_0 by blast
  qed
  finally show "ucast ((0x80 OR ucast v) AND (0x7F :: u8)) = v" .
qed

lemma long_int_head: "\<exists>b bs. write_long_int v = b # bs \<and> 0 < b \<and> b \<le> 8"
proof -
  have "length (be_bytes v) \<le> 8" by (rule be_bytes_length_8)
  then obtain bs where "write_long_int v = of_nat (length bs) # bs" "bs \<noteq> []" "length bs \<le> 8"
    by (cases "v = 0") (auto simp: write_long_int_def be_bytes_Nil_iff Let_def)
  moreover from this have "unat (of_nat (length bs) :: u8) = length bs" by (simp add: unat_of_nat)
  ultimately show ?thesis by (auto simp: word_less_nat_alt word_le_nat_alt)
qed

lemma integer_value_write: "integer_value (write_integer_value v @ rest) = (Some v, rest)"
proof (cases "v \<le> 127")
  case True
  with small_or_high show ?thesis by (simp add: write_integer_value_def integer_value_def)
next
  case False
  obtain b bs where w: "write_long_int v = b # bs" "0 < b" "b \<le> 8" using long_int_head by blast
  have "b AND 0x80 = 0"
  proof -
    have "b AND 0x80 \<le> 8" using w by (meson order_trans word_and_le1 word_and_le2)
    moreover have "b AND 0x80 = 0 \<or> b AND 0x80 = 0x80" 
      by (cases "bit b 7") (auto intro!: bit_word_eqI simp: word_bits simp del: bit_numeral_word_iff)
    ultimately show ?thesis by auto
  qed
  then show ?thesis using False w long_int_write [of v rest]
    by (simp add: write_integer_value_def integer_value_def)
qed


lemma text_bytes_no_NUL: "CHR 0x00 \<notin> set s \<Longrightarrow> b \<in> set (text_bytes s) \<Longrightarrow> b \<noteq> 0"
proof (induction s)
  case (Cons c s)
  have "(of_nat (byte_of c) :: u8) = 0 \<longleftrightarrow> c = CHR 0x00"
  proof
    assume "(of_nat (byte_of c) :: u8) = 0"
    then have "unat (of_nat (byte_of c) :: u8) = 0" by simp
    then have "byte_of c = byte_of (CHR 0x00)" by (simp add: unat_of_nat) (simp add: byte_of_def)
    then show "c = CHR 0x00" by (simp only: byte_of_inj)
  qed (simp add: byte_of_def)
  with Cons show ?case by auto
qed simp

lemma byte_word [simp]: "unat (of_nat (byte_of c) :: u8) = byte_of c"
  by (simp add: unat_of_nat)

lemma takeWhile_NUL: "CHR 0x00 \<notin> set s \<Longrightarrow> takeWhile (\<lambda>b. b \<noteq> 0) (text_bytes s @ 0 # rest) = text_bytes s"
  using text_bytes_no_NUL by (subst takeWhile_append2) auto

lemma dropWhile_NUL: "CHR 0x00 \<notin> set s \<Longrightarrow> dropWhile (\<lambda>b. b \<noteq> 0) (text_bytes s @ 0 # rest) = 0 # rest"
  using text_bytes_no_NUL by (subst dropWhile_append2) auto

text \<open>A text that can stand in a NUL-terminated string: no NUL, and not a quote as its first character.\<close>

definition text_fits :: "string \<Rightarrow> bool" where
  "text_fits s \<longleftrightarrow> utf8_valid s \<and> CHR 0x00 \<notin> set s \<and> (case s of c # _ \<Rightarrow> byte_of c \<noteq> 0x7F | [] \<Rightarrow> True)"

lemma unquote_write:
  assumes "text_fits s"
  shows "unquote (write_text_string s @ rest) = text_bytes s @ 0 # rest"
proof (cases s)
  case (Cons c t)
  have "(of_nat (byte_of c) :: u8) = 0x7F \<longleftrightarrow> byte_of c = 0x7F"
    by (simp add: word_unat_eq_iff)
  with Cons assms show ?thesis by (auto simp: unquote_def write_text_string_def text_fits_def)
qed (simp add: unquote_def write_text_string_def)

lemma text_string_write: "text_fits s \<Longrightarrow> text_string (write_text_string s @ rest) = (Some s, rest)"
  by (simp add: text_string_def unquote_write takeWhile_NUL dropWhile_NUL text_fits_def lossy_def from_utf8_lossy_valid)

lemma value_length_write:
  "n < 2 ^ 56 \<Longrightarrow> value_length (write_value_length n @ rest) = (Some n, rest)"
proof (cases "n \<le> 30")
  case True
  then have "unat (of_nat n :: u8) = n" by (simp add: unat_of_nat)
  with True show ?thesis by (simp add: write_value_length_def value_length_def word_le_nat_alt)
next
  case False
  assume n: "n < 2 ^ 56"
  then have "unat (of_nat n :: u64) = n" by (simp add: unat_of_nat)
  with n False show ?thesis
    using uintvar_write [of "of_nat n" rest] by (simp add: write_value_length_def value_length_def)
qed

lemma bounded_value_length_write:
  "n < 2 ^ 56 \<Longrightarrow> bounded_value_length (write_value_length n @ rest) = (Some (min n (length rest)), rest)"
  by (simp add: bounded_value_length_def value_length_write)

lemma write_value_length_head: "\<exists>b bs. write_value_length n = b # bs \<and> (b \<le> 30 \<or> b = 0x1F)"
proof (cases "n \<le> 30")
  case True
  then have "unat (of_nat n :: u8) = n" by (simp add: unat_of_nat)
  with True show ?thesis by (simp add: write_value_length_def word_le_nat_alt)
qed (simp add: write_value_length_def)

lemma write_utf8_charset: "write_integer_value CHARSET_UTF8 = [0xEA]"
  by (simp add: write_integer_value_def CHARSET_UTF8_def)

lemma write_encoded_nonascii:
  "\<not> is_ascii s \<Longrightarrow>
     write_encoded_string s = write_value_length (length s + 2) @ 0xEA # text_bytes s @ [0]"
  by (simp add: write_encoded_string_def write_utf8_charset Let_def)

lemma charset_for_utf8: "charset_for 106 = Utf8"
  by (simp add: charset_for_def)

lemma charset_text_as_utf8:
  assumes "integer_value inner = (v, raw)" "v = None \<or> v = Some 106"
  shows "charset_text dec inner = dec Utf8 (strip_terminator 1 raw)"
proof -
  have "(case v of Some m \<Rightarrow> m | None \<Rightarrow> 106) = 106" using assms(2) by auto
  moreover have "ucast (106 :: u64) = (106 :: u32)" by simp
  moreover have "\<not> starts_with ''UTF-16'' (charset_name Utf8)" by (simp add: starts_with_def strip_prefix_def)
  ultimately show ?thesis by (simp only: charset_text_def assms(1) prod.case Let_def charset_for_utf8 if_False)
qed

lemma charset_text_utf8: "charset_text dec (0xEA # raw) = dec Utf8 (strip_terminator 1 raw)"
  using charset_text_as_utf8 [of "0xEA # raw" "Some 106" raw] by (simp add: integer_value_def)

lemma charset_text_Nil: "charset_text dec [] = dec Utf8 []"
  using charset_text_as_utf8 [of "[]" None "[]"] by (simp add: integer_value_def strip_terminator_def)

text \<open>
  A text that an encoded string carries unchanged: a printable start where it is ASCII, and otherwise no
  byte order mark, which the decoders remove.
\<close>

definition byte_order_mark :: string where
  "byte_order_mark = [CHR 0xEF, CHR 0xBB, CHR 0xBF]"

definition encodable :: "string \<Rightarrow> bool" where
  "encodable s \<longleftrightarrow>
     (if is_ascii s then text_fits s \<and> (case s of c # _ \<Rightarrow> 0x20 \<le> byte_of c | [] \<Rightarrow> True)
      else utf8_valid s \<and> \<not> starts_with byte_order_mark s \<and> length s + 2 < 2 ^ 56)"

text \<open>What the UTF-8 decoder is documented to do.\<close>

definition decodes_utf8 :: "(charset \<Rightarrow> u8 list \<Rightarrow> string) \<Rightarrow> bool" where
  "decodes_utf8 dec \<longleftrightarrow>
     (\<forall>s. utf8_valid s \<longrightarrow> \<not> starts_with byte_order_mark s \<longrightarrow> dec Utf8 (text_bytes s) = s)"

lemma encoded_string_ascii:
  assumes "text_fits (c # s)" "0x20 \<le> byte_of c"
  shows "encoded_string dec (write_text_string (c # s) @ rest) = Some (Some (c # s), rest)"
proof -
  obtain b bs where w: "write_text_string (c # s) @ rest = b # bs" "0x20 \<le> b"
    using assms(2) by (cases "128 \<le> byte_of c") (auto simp: write_text_string_def word_le_nat_alt)
  then show ?thesis using text_string_write [OF assms(1), of rest] by (simp add: encoded_string_def)
qed

lemma encoded_string_empty: "decodes_utf8 dec \<Longrightarrow> encoded_string dec (write_text_string [] @ rest) = Some (Some [], rest)"
proof -
  assume "decodes_utf8 dec"
  then have "dec Utf8 [] = []"
    by (auto simp: decodes_utf8_def starts_with_def strip_prefix_def byte_order_mark_def dest: spec [of _ "[]"])
  moreover have "bounded_value_length (0 # rest) = (Some 0, rest)" by (simp add: bounded_value_length_def value_length_def)
  ultimately show ?thesis by (simp add: write_text_string_def encoded_string_def split_at_def charset_text_Nil)
qed

lemma encoded_string_text:
  assumes "text_fits s" "case s of c # _ \<Rightarrow> 0x20 \<le> byte_of c | [] \<Rightarrow> True" "decodes_utf8 dec"
  shows "encoded_string dec (write_text_string s @ rest) = Some (Some s, rest)"
  using assms encoded_string_empty encoded_string_ascii by (cases s) auto

lemma encoded_string_write:
  assumes "encodable s" "decodes_utf8 dec"
  shows "encoded_string dec (write_encoded_string s @ rest) = Some (Some s, rest)"
proof (cases "is_ascii s")
  case True
  then show ?thesis using assms encoded_string_text by (simp add: write_encoded_string_def encodable_def)
next
  case False
  let ?inner = "0xEA # text_bytes s @ [0]"
  have "strip_terminator 1 (text_bytes s @ [0]) = text_bytes s" by (simp add: strip_terminator_def)
  then have t: "charset_text dec ?inner = s"
    using assms False by (simp add: charset_text_utf8 encodable_def decodes_utf8_def)
  obtain b bs where w: "write_value_length (length s + 2) = b # bs" "b \<le> 30 \<or> b = 0x1F"
    using write_value_length_head by blast
  then have "\<not> 0x20 \<le> b" by (auto simp: word_le_nat_alt)
  moreover have "bounded_value_length (b # bs @ ?inner @ rest) = (Some (length s + 2), ?inner @ rest)"
    using bounded_value_length_write [of "length s + 2" "?inner @ rest"] assms(1) False w by (simp add: encodable_def)
  ultimately show ?thesis
    using False w t by (simp add: write_encoded_nonascii encoded_string_def split_at_def)
qed

lemma high_bit_and: "(b :: u8) AND 0x80 = 0 \<longleftrightarrow> \<not> bit b 7"
proof
  assume "b AND 0x80 = 0"
  then have "\<not> bit (b AND 0x80) 7" by simp
  then show "\<not> bit b 7" by (simp add: word_bits del: bit_numeral_word_iff)
qed (auto intro!: bit_word_eqI simp: word_bits simp del: bit_numeral_word_iff)

lemma high_bit: "(b :: u8) AND 0x80 = 0 \<longleftrightarrow> b < 0x80"
proof -
  have "b AND 0x80 = 0 \<longleftrightarrow> \<not> bit b 7" by (rule high_bit_and)
  also have "bit b 7 \<longleftrightarrow> bit (unat b) 7" by (simp add: bit_unsigned_iff)
  also have "(\<not> bit (unat b) 7) \<longleftrightarrow> even (unat b div 128)" by (subst bit_iff_odd) simp
  also have "\<dots> \<longleftrightarrow> unat b < 128"
  proof -
    have "unat b < 256" using unsigned_less [of b] by simp
    then have "unat b div 128 = (if unat b < 128 then 0 else 1)" by (auto simp: div_nat_eqI)
    then show ?thesis by simp
  qed
  finally show ?thesis by (simp add: word_less_nat_alt)
qed

lemma high_code: "c < (0x80 :: u8) \<Longrightarrow> (0x80 OR c) AND 0x80 \<noteq> 0 \<and> (0x80 OR c) AND 0x7F = c"
proof -
  assume "c < 0x80"
  then have "\<not> bit c 7" using high_bit [of c] high_bit_and [of c] by simp
  then have "bit c n \<Longrightarrow> n < 8 \<Longrightarrow> n < 7" for n by (cases "n = 7") auto
  then have "(0x80 OR c) AND 0x7F = c"
    by (intro bit_word_eqI) (auto simp: word_bits simp del: bit_numeral_word_iff)
  moreover have "bit (0x80 OR c) 7" by (simp add: word_bits del: bit_numeral_word_iff)
  ultimately show ?thesis using high_bit_and [of "0x80 OR c"] by simp
qed

text \<open>
  Skipping. What starts with a length is skipped as a whole; what starts with a printable character is
  a text and skipped up to its NUL; a byte with the high bit set is a value of its own.
\<close>

lemma skip_value_bounded:
  "length bs < 2 ^ 56 \<Longrightarrow> skip_value (write_value_length (length bs) @ bs @ rest) = (True, rest)"
  using bounded_value_length_write [of "length bs" "bs @ rest"] write_value_length_head [of "length bs"]
  by (auto simp: skip_value_def rd_take_def)

lemma skip_value_text:
  assumes "text_fits (c # s)" "0x20 \<le> byte_of c" "byte_of c < 0x80"
  shows "skip_value (write_text_string (c # s) @ rest) = (True, rest)"
proof -
  let ?b = "of_nat (byte_of c) :: u8"
  have w: "write_text_string (c # s) @ rest = ?b # text_bytes s @ 0 # rest"
    using assms(3) by (simp add: write_text_string_def)
  moreover have "?b AND 0x80 = 0" using assms(3) by (simp only: high_bit) (simp add: word_less_nat_alt)
  moreover have "\<not> ?b \<le> 30" "?b \<noteq> 0x1F"
    using assms(2,3) by (auto simp: word_le_nat_alt word_unat_eq_iff)
  ultimately show ?thesis using text_string_write [OF assms(1), of rest] by (simp add: skip_value_def)
qed

lemma skip_value_encoded:
  assumes "encodable s"
  shows "skip_value (write_encoded_string s @ rest) = (True, rest)"
proof (cases "is_ascii s")
  case True
  show ?thesis
  proof (cases s)
    case Nil
    then show ?thesis
      using skip_value_bounded [of "[]" rest]
      by (simp add: write_encoded_string_def write_text_string_def is_ascii_def write_value_length_def)
  next
    case (Cons c t)
    with True assms have "text_fits (c # t)" "0x20 \<le> byte_of c" "byte_of c < 0x80"
      by (auto simp: encodable_def is_ascii_def)
    with Cons True show ?thesis using skip_value_text by (simp add: write_encoded_string_def)
  qed
next
  case False
  with assms show ?thesis
    using skip_value_bounded [of "0xEA # text_bytes s @ [0]" rest]
    by (simp add: write_encoded_nonascii encodable_def)
qed

lemma skip_value_integer: "skip_value (write_integer_value v @ rest) = (True, rest)"
proof (cases "v \<le> 127")
  case True
  have "\<not> 0x80 OR ucast v < (0x80 :: u8)" using small_or_high(1) [OF True] high_bit by blast
  then have "\<not> 0x80 OR ucast v \<le> (30 :: u8)" "0x80 OR ucast v \<noteq> (0x1F :: u8)"
    by (auto simp: word_less_nat_alt word_le_nat_alt)
  then show ?thesis using True small_or_high(1) [OF True] by (simp add: write_integer_value_def skip_value_def)
next
  case False
  have "be_bytes v \<noteq> []" using False by (auto simp: be_bytes_Nil_iff)
  moreover have "length (be_bytes v) \<le> 8" by (rule be_bytes_length_8)
  ultimately have "write_long_int v = write_value_length (length (be_bytes v)) @ be_bytes v"
    by (simp add: write_long_int_def write_value_length_def Let_def)
  then show ?thesis
    using False skip_value_bounded [of "be_bytes v" rest] be_bytes_length_8 [of v]
    by (simp add: write_integer_value_def)
qed


section \<open>What every reader returns\<close>

lemma content_params_total: "content_params dec r \<noteq> None"
proof (induction dec r rule: content_params.induct)
  case (1 dec r)
  obtain v r' where "parameter dec r = Some (v, r')" using parameter_total by blast
  with 1 show ?case by (cases v) (auto simp: content_params.simps [of dec r])
qed

lemma inner_content_type_total: "inner_content_type dec inner \<noteq> None"
proof -
  have "content_params dec r \<bind> (\<lambda>ps. Some (Some (name, ps))) \<noteq> None" for r and name :: string
    using content_params_total [of dec r] by (cases "content_params dec r") auto
  then show ?thesis
    by (auto simp: inner_content_type_def simp del: not_None_eq split: list.split prod.split option.split)
qed

lemma content_type_total: "\<exists>v r'. content_type dec r = Some (v, r') \<and> length r' \<le> length r"
proof (cases r)
  case (Cons b rest)
  obtain n r1 where b: "bounded_value_length r = (n, r1)" by fastforce
  have t: "length (snd (text_string r)) \<le> length r" using text_string_shrinks [of r] by simp
  show ?thesis
  proof (cases n)
    case None
    with b t bounded_value_length_shrinks [of r] Cons show ?thesis
      by (cases "text_string r") (auto simp: content_type_def)
  next
    case (Some len)
    with b have "len \<le> length r1 \<and> length r1 < length r" using bounded_value_length_fits by blast
    moreover obtain v where "inner_content_type dec (take len r1) = Some v"
      using inner_content_type_total by (metis not_None_eq)
    ultimately show ?thesis
      using b t Some Cons by (cases "text_string r") (auto simp: content_type_def split_at_def)
  qed
qed (simp add: content_type_def)

lemma skip_value_shrinks: "length (snd (skip_value r)) \<le> length r"
proof (cases r)
  case (Cons b rest)
  obtain n r1 where b: "bounded_value_length r = (n, r1)" by fastforce
  with bounded_value_length_shrinks [of r] have "length r1 \<le> length r" by simp
  then show ?thesis
    using Cons b text_string_shrinks [of r]
    by (cases n) (auto simp: skip_value_def rd_take_def split_beta)
qed (simp add: skip_value_def)

lemma skip_value_progress: "fst (skip_value r) \<Longrightarrow> length (snd (skip_value r)) < length r"
proof (cases r)
  case (Cons b rest)
  assume ok: "fst (skip_value r)"
  obtain n r1 where b: "bounded_value_length r = (n, r1)" by fastforce
  show ?thesis
  proof (cases n)
    case None
    with ok b Cons text_string_shrinks [of r] show ?thesis
      by (auto simp: skip_value_def split_beta split: if_splits)
  next
    case (Some len)
    with b have "len \<le> length r1 \<and> length r1 < length r" using bounded_value_length_fits by blast
    with Some b Cons text_string_shrinks [of r] show ?thesis
      by (auto simp: skip_value_def rd_take_def split_beta)
  qed
qed (simp add: skip_value_def)

lemma uintvar_loop_more:
  "n < length gs \<Longrightarrow> (\<And>g. g \<in> set gs \<Longrightarrow> g AND 0x80 = 0) \<Longrightarrow>
     fst (uintvar_loop n acc (map (\<lambda>b. b OR 0x80) (butlast gs) @ rest)) = None"
proof (induction gs arbitrary: n acc)
  case (Cons g gs)
  have "(g OR 0x80) AND 0x80 = (0x80 :: u8)"
    by (rule bit_word_eqI) (auto simp: word_bits simp del: bit_numeral_word_iff)
  with Cons show ?case by (cases n; cases "gs = []") auto
qed simp

lemma groups_bound: "unat v < 128 ^ length (uintvar_groups v)"
proof (induction v rule: uintvar_groups.induct)
  case (1 v)
  have d: "unat (drop_bit 7 v) = unat v div 128"
    unfolding unat_drop_bit_eq by (simp add: drop_bit_eq_div)
  show ?case
  proof (cases "drop_bit 7 v = 0")
    case True
    with d have "unat v div 128 = 0" by simp
    with True show ?thesis by (simp add: uintvar_groups.simps [of v] Let_def div_eq_0_iff)
  next
    case False
    then have "unat v div 128 < 128 ^ length (uintvar_groups (drop_bit 7 v))" using 1 d by simp
    then have "unat v < 128 * 128 ^ length (uintvar_groups (drop_bit 7 v))"
      by (simp add: div_less_iff_less_mult mult.commute)
    with False show ?thesis by (simp add: uintvar_groups.simps [of v] Let_def)
  qed
qed

lemma uintvar_write_big: "2 ^ 56 \<le> unat v \<Longrightarrow> fst (uintvar (write_uintvar v @ rest)) = None"
proof -
  assume "2 ^ 56 \<le> unat v"
  then have "(128::nat) ^ 8 < 128 ^ length (uintvar_groups v)" using groups_bound [of v] by simp
  then have "8 < length (uintvar_groups v)" using power_less_imp_less_exp [of "128::nat" 8] by simp
  then show ?thesis
    using uintvar_loop_more [of 8 "uintvar_groups v" 0] groups_small
    by (simp add: uintvar_def write_uintvar_def Let_def)
qed

lemma write_uintvar_length: "length (write_uintvar v) \<le> 10"
proof -
  have "unat v < 2 ^ 64" using unsigned_less [of v] by simp
  then show ?thesis using groups_length [of v 10] by (simp add: write_uintvar_def Let_def)
qed

text \<open>The name under which a type of the table is read back.\<close>

definition canonical_type :: "string \<Rightarrow> string" where
  "canonical_type t = (case content_type_code t of Some c \<Rightarrow> content_type_name c | None \<Rightarrow> t)"

lemma find_key: "distinct (map fst xs) \<Longrightarrow> (k, v) \<in> set xs \<Longrightarrow> find (\<lambda>(k', _). k' = k) xs = Some (k, v)"
  by (induction xs) force+

lemma find_in_set: "find p xs = Some x \<Longrightarrow> p x \<and> x \<in> set xs"
  by (induction xs) (auto split: if_splits)

lemma content_types_distinct: "distinct (map fst content_types)"
  unfolding content_types_def by simp

lemma content_types_small: "list_all (\<lambda>(c, n). c < 0x80) content_types"
  unfolding content_types_def by simp

lemma content_type_code_Some:
  assumes "content_type_code t = Some c"
  shows "c < 0x80" "eq_ignore_ascii_case (content_type_name c) t"
proof -
  obtain n where n: "find (\<lambda>(_, n). eq_ignore_ascii_case n t) content_types = Some (c, n)"
    using assms by (auto simp: content_type_code_def)
  then have m: "(c, n) \<in> set content_types" "eq_ignore_ascii_case n t" using find_in_set by fastforce+
  then show "c < 0x80" using content_types_small by (auto simp: list_all_iff)
  show "eq_ignore_ascii_case (content_type_name c) t"
    using m find_key [OF content_types_distinct] by (simp add: content_type_name_def)
qed

lemma canonical_type_eq: "eq_ignore_ascii_case (canonical_type t) t"
  using content_type_code_Some(2) by (auto simp: canonical_type_def split: option.split)

section \<open>Properties\<close>

text \<open>
  Lengths and integers are read back as they were written. A uintvar fits the writer's ten
  bytes and is read back exactly when the value is below \<open>2 ^ 56\<close>, which is what the reader's eight bytes
  hold; beyond, the reader refuses it. An integer value is read back whatever its size, and both
  readers leave exactly the bytes that follow.
\<close>

lemma wsp_integers_round_trip:
  "length (write_uintvar v) \<le> 10"
  "if unat v < 2 ^ 56 then uintvar (write_uintvar v @ rest) = (Some v, rest)
   else fst (uintvar (write_uintvar v @ rest)) = None"
  "integer_value (write_integer_value v @ rest) = (Some v, rest)"
  "skip_value (write_integer_value v @ rest) = (True, rest)"
  using uintvar_write [of v rest] uintvar_write_big [of v rest] write_uintvar_length [of v]
    integer_value_write [of v rest] skip_value_integer [of v rest]
  by auto

text \<open>
  A text written as an encoded string is read back unchanged, and skipped as one value, with
  the bytes that follow left to be read. ASCII has to start with a printable character and hold no NUL; any other
  text carries its own length, so it only has to be UTF-8 without a byte order mark.
\<close>

lemma wsp_encoded_string_round_trip:
  assumes "encodable s" and "decodes_utf8 dec"
  shows "encoded_string dec (write_encoded_string s @ rest) = Some (Some s, rest) \<and>
    skip_value (write_encoded_string s @ rest) = (True, rest)"
  using encoded_string_write [OF assms] skip_value_encoded [OF assms(1)] by simp

lemma wsp_encoded_string_round_trip_witness:
  "encoded_string (\<lambda>_. bytes_text) (write_encoded_string [CHR 0xC3, CHR 0xA9] @ [7]) =
     Some (Some [CHR 0xC3, CHR 0xA9], [7])"
proof -
  have "utf8_valid [CHR 0xC3, CHR 0xA9]"
    by (simp add: utf8_valid.simps [of "_ # _"] utf8_step_def byte_at_def byte_of_def in_range_def)
  then have "encodable [CHR 0xC3, CHR 0xA9]"
    by (simp add: encodable_def is_ascii_def byte_of_def starts_with_def strip_prefix_def byte_order_mark_def)
  moreover have "decodes_utf8 (\<lambda>_. bytes_text)" by (simp add: decodes_utf8_def)
  ultimately show ?thesis using wsp_encoded_string_round_trip by blast
qed

text \<open>Property C29: Whatever bytes arrive, no reader takes a split_at outside of them: an encoded string, a
  parameter and a content type always have a result, and what is left is never longer than what there was.
\<close>

theorem wsp_readers_never_panic:
  "(\<exists>v r'. encoded_string dec r = Some (v, r') \<and> length r' \<le> length r) \<and>
   (\<exists>v r'. parameter dec r = Some (v, r') \<and> length r' \<le> length r - 1) \<and>
   (\<exists>v r'. content_type dec r = Some (v, r') \<and> length r' \<le> length r)"
  using encoded_string_total parameter_total content_type_total by blast

end
