(* ===== verification/Mms.thy ===== *)
theory Mms
  imports Wsp Numbers
begin

unbundle bit_operations_syntax

text \<open>
  MMS messages: \<open>src/mms/pdu.rs\<close> and the WAP push of \<open>src/mms/mod.rs\<close>. Reading goes through the readers of
  \<open>Wsp\<close>, so decoding returns \<open>None\<close> where Rust panics; the theorems show that it never does. The
  decoder's loop over the header fields is a function over one step, whose result says how the loop
  goes on.
\<close>

section \<open>Field and message numbers\<close>

definition BCC :: u8 where "BCC = 0x81"
definition CC :: u8 where "CC = 0x82"
definition CONTENT_LOCATION :: u8 where "CONTENT_LOCATION = 0x83"
definition CONTENT_TYPE :: u8 where "CONTENT_TYPE = 0x84"
definition DATE :: u8 where "DATE = 0x85"
definition DELIVERY_REPORT :: u8 where "DELIVERY_REPORT = 0x86"
definition EXPIRY :: u8 where "EXPIRY = 0x88"
definition FROM :: u8 where "FROM = 0x89"
definition MESSAGE_CLASS :: u8 where "MESSAGE_CLASS = 0x8A"
definition MESSAGE_ID :: u8 where "MESSAGE_ID = 0x8B"
definition MESSAGE_TYPE :: u8 where "MESSAGE_TYPE = 0x8C"
definition MMS_VERSION :: u8 where "MMS_VERSION = 0x8D"
definition MESSAGE_SIZE :: u8 where "MESSAGE_SIZE = 0x8E"
definition READ_REPORT :: u8 where "READ_REPORT = 0x90"
definition REPORT_ALLOWED :: u8 where "REPORT_ALLOWED = 0x91"
definition RESPONSE_STATUS :: u8 where "RESPONSE_STATUS = 0x92"
definition RESPONSE_TEXT :: u8 where "RESPONSE_TEXT = 0x93"
definition STATUS :: u8 where "STATUS = 0x95"
definition SUBJECT :: u8 where "SUBJECT = 0x96"
definition TO :: u8 where "TO = 0x97"
definition TRANSACTION_ID :: u8 where "TRANSACTION_ID = 0x98"
definition RETRIEVE_STATUS :: u8 where "RETRIEVE_STATUS = 0x99"
definition RETRIEVE_TEXT :: u8 where "RETRIEVE_TEXT = 0x9A"

lemmas fields = BCC_def CC_def CONTENT_LOCATION_def CONTENT_TYPE_def DATE_def DELIVERY_REPORT_def EXPIRY_def
  FROM_def MESSAGE_CLASS_def MESSAGE_ID_def MESSAGE_TYPE_def MMS_VERSION_def MESSAGE_SIZE_def
  READ_REPORT_def REPORT_ALLOWED_def RESPONSE_STATUS_def RESPONSE_TEXT_def STATUS_def SUBJECT_def TO_def
  TRANSACTION_ID_def RETRIEVE_STATUS_def RETRIEVE_TEXT_def

definition SEND_REQ :: u8 where "SEND_REQ = 0x80"
definition SEND_CONF :: u8 where "SEND_CONF = 0x81"
definition NOTIFICATION_IND :: u8 where "NOTIFICATION_IND = 0x82"
definition NOTIFYRESP_IND :: u8 where "NOTIFYRESP_IND = 0x83"
definition RETRIEVE_CONF :: u8 where "RETRIEVE_CONF = 0x84"
definition ACKNOWLEDGE_IND :: u8 where "ACKNOWLEDGE_IND = 0x85"

definition msg_type_name :: "u8 \<Rightarrow> string" where
  "msg_type_name t =
     (if t = 0x80 then ''m-send-req''
      else if t = 0x81 then ''m-send-conf''
      else if t = 0x82 then ''m-notification-ind''
      else if t = 0x83 then ''m-notifyresp-ind''
      else if t = 0x84 then ''m-retrieve-conf''
      else if t = 0x85 then ''m-acknowledge-ind''
      else if t = 0x86 then ''m-delivery-ind''
      else if t = 0x87 then ''m-read-rec-ind''
      else if t = 0x88 then ''m-read-orig-ind''
      else ''unknown'')"

definition VERSION_1_2 :: u8 where "VERSION_1_2 = 0x92"

section \<open>Messages and their parts\<close>

type_synonym decoder = "charset \<Rightarrow> u8 list \<Rightarrow> string"

record mms_part =
  mp_type :: string
  mp_params :: "(string \<times> string) list"
  mp_id :: "string option"
  mp_location :: "string option"
  mp_data :: "u8 list"

definition mms_part_new :: "string \<Rightarrow> u8 list \<Rightarrow> mms_part" where
  "mms_part_new ct data = \<lparr>mp_type = ct, mp_params = [], mp_id = None, mp_location = None, mp_data = data\<rparr>"

definition mp_name :: "mms_part \<Rightarrow> string option" where
  "mp_name p =
     (case find (\<lambda>(k, _). k = ''name'' \<or> k = ''filename'') (mp_params p) of
        Some (_, v) \<Rightarrow> Some v | None \<Rightarrow> mp_location p)"

definition is_text :: "mms_part \<Rightarrow> bool" where
  "is_text p \<longleftrightarrow> starts_with ''text/'' (mp_type p)"

text \<open>\<open>label\<close> is the library's table of charset labels.\<close>

definition mp_text :: "decoder \<Rightarrow> (string \<Rightarrow> (u8 list \<Rightarrow> string) option) \<Rightarrow> mms_part \<Rightarrow> string option" where
  "mp_text dec label p =
     (if \<not> is_text p then None
      else Some
        ((case Option.bind (find (\<lambda>(k, _). k = ''charset'') (mp_params p)) (\<lambda>(_, v). label v) of
            Some decode \<Rightarrow> decode | None \<Rightarrow> dec Utf8) (mp_data p)))"

record mms_message =
  mm_type :: u8
  mm_transaction :: "string option"
  mm_version :: "u8 option"
  mm_from :: "string option"
  mm_to :: "string list"
  mm_cc :: "string list"
  mm_subject :: "string option"
  mm_date :: "u64 option"
  mm_id :: "string option"
  mm_class :: "string option"
  mm_location :: "string option"
  mm_size :: "u64 option"
  mm_expiry :: "u64 option"
  mm_response :: "u8 option"
  mm_retrieve :: "u8 option"
  mm_response_text :: "string option"
  mm_content_type :: "string option"
  mm_content_params :: "(string \<times> string) list"
  mm_parts :: "mms_part list"

definition mms_default :: mms_message where
  "mms_default =
     \<lparr>mm_type = 0, mm_transaction = None, mm_version = None, mm_from = None, mm_to = [], mm_cc = [],
      mm_subject = None, mm_date = None, mm_id = None, mm_class = None, mm_location = None, mm_size = None,
      mm_expiry = None, mm_response = None, mm_retrieve = None, mm_response_text = None,
      mm_content_type = None, mm_content_params = [], mm_parts = []\<rparr>"

definition body_text :: "decoder \<Rightarrow> (string \<Rightarrow> (u8 list \<Rightarrow> string) option) \<Rightarrow> mms_message \<Rightarrow> string option" where
  "body_text dec label m =
     (let texts = List.map_filter (mp_text dec label)
            (filter (\<lambda>p. is_text p \<and> \<not> contains_text ''smil'' (mp_type p)) (mm_parts m)) in
      if texts = [] then None else Some (join [CHR 0x0A] texts))"

definition strip_address_type :: "string \<Rightarrow> string" where
  "strip_address_type addr = trim (takeWhile (\<lambda>c. c \<noteq> CHR ''/'') addr)"

definition mm_sender :: "mms_message \<Rightarrow> string option" where
  "mm_sender m = map_option strip_address_type (mm_from m)"

section \<open>Decoding\<close>

text \<open>A value behind its length: its bytes, and what follows it.\<close>

definition read_sized :: "u8 list \<Rightarrow> (u8 list \<times> u8 list) option" where
  "read_sized r =
     (let (n, r1) = bounded_value_length r in split_at (case n of Some len \<Rightarrow> len | None \<Rightarrow> 0) r1)"

definition read_from :: "decoder \<Rightarrow> u8 list \<Rightarrow> (string option \<times> u8 list) option" where
  "read_from dec r =
     do { (inner, r2) \<leftarrow> read_sized r;
          case inner of
            t # rest \<Rightarrow>
              if t = 0x80 then do { (v, _) \<leftarrow> encoded_string dec rest; Some (v, r2) } else Some (None, r2)
          | [] \<Rightarrow> Some (None, r2) }"

definition read_expiry :: "u8 list \<Rightarrow> (u64 option \<times> u8 list) option" where
  "read_expiry r =
     do { (inner, r2) \<leftarrow> read_sized r; Some (fst (integer_value (snd (rd_u8 inner))), r2) }"

definition read_class :: "u8 list \<Rightarrow> string option \<times> u8 list" where
  "read_class r =
     (case r of
        v # rest \<Rightarrow>
          if v AND 0x80 \<noteq> 0
          then (Some (let k = v AND 0x7F in
                  if k = 0 then ''personal'' else if k = 1 then ''advertisement''
                  else if k = 2 then ''informational'' else if k = 3 then ''auto'' else ''unknown''), rest)
          else text_string r
      | [] \<Rightarrow> text_string r)"

datatype flow = Next mms_message "u8 list" | Stop mms_message | Body mms_message "u8 list" | Malformed

text \<open>One field: where the loop goes from there.\<close>

definition read_field :: "decoder \<Rightarrow> u8 \<Rightarrow> u8 list \<Rightarrow> mms_message \<Rightarrow> flow option" where
  "read_field dec b r m =
     (if b = MESSAGE_TYPE then
        (let (v, r') = rd_u8 r in Some (Next (m\<lparr>mm_type := (case v of Some t \<Rightarrow> t | None \<Rightarrow> 0)\<rparr>) r'))
      else if b = TRANSACTION_ID then (let (v, r') = text_string r in Some (Next (m\<lparr>mm_transaction := v\<rparr>) r'))
      else if b = MMS_VERSION then (let (v, r') = rd_u8 r in Some (Next (m\<lparr>mm_version := v\<rparr>) r'))
      else if b = FROM then do { (v, r') \<leftarrow> read_from dec r; Some (Next (m\<lparr>mm_from := v\<rparr>) r') }
      else if b = TO then
        do { (v, r') \<leftarrow> encoded_string dec r;
             Some (Next (case v of Some t \<Rightarrow> m\<lparr>mm_to := mm_to m @ [t]\<rparr> | None \<Rightarrow> m) r') }
      else if b = CC then
        do { (v, r') \<leftarrow> encoded_string dec r;
             Some (Next (case v of Some t \<Rightarrow> m\<lparr>mm_cc := mm_cc m @ [t]\<rparr> | None \<Rightarrow> m) r') }
      else if b = SUBJECT then do { (v, r') \<leftarrow> encoded_string dec r; Some (Next (m\<lparr>mm_subject := v\<rparr>) r') }
      else if b = MESSAGE_ID then (let (v, r') = text_string r in Some (Next (m\<lparr>mm_id := v\<rparr>) r'))
      else if b = CONTENT_LOCATION then (let (v, r') = text_string r in Some (Next (m\<lparr>mm_location := v\<rparr>) r'))
      else if b = DATE then (let (v, r') = long_int r in Some (Next (m\<lparr>mm_date := v\<rparr>) r'))
      else if b = MESSAGE_SIZE then (let (v, r') = integer_value r in Some (Next (m\<lparr>mm_size := v\<rparr>) r'))
      else if b = MESSAGE_CLASS then (let (v, r') = read_class r in Some (Next (m\<lparr>mm_class := v\<rparr>) r'))
      else if b = EXPIRY then do { (v, r') \<leftarrow> read_expiry r; Some (Next (m\<lparr>mm_expiry := v\<rparr>) r') }
      else if b = RESPONSE_STATUS then (let (v, r') = rd_u8 r in Some (Next (m\<lparr>mm_response := v\<rparr>) r'))
      else if b = RETRIEVE_STATUS then (let (v, r') = rd_u8 r in Some (Next (m\<lparr>mm_retrieve := v\<rparr>) r'))
      else if b = RESPONSE_TEXT \<or> b = RETRIEVE_TEXT then
        do { (v, r') \<leftarrow> encoded_string dec r; Some (Next (m\<lparr>mm_response_text := v\<rparr>) r') }
      else if b = CONTENT_TYPE then
        do { (v, r') \<leftarrow> content_type dec r;
             Some (case v of
                 Some (ct, ps) \<Rightarrow> Body (m\<lparr>mm_content_type := Some ct, mm_content_params := ps\<rparr>) r'
               | None \<Rightarrow> Malformed) }
      else (let (ok, r') = skip_value r in Some (if ok then Next m r' else Stop m)))"

definition header_step :: "decoder \<Rightarrow> u8 list \<Rightarrow> mms_message \<Rightarrow> flow option" where
  "header_step dec r m =
     (case r of
        [] \<Rightarrow> Some (Stop m)
      | b # rest \<Rightarrow>
          if b < 0x80
          then (let (ok, r') = skip_value (snd (text_string r)) in Some (if ok then Next m r' else Stop m))
          else read_field dec b rest m)"

lemma read_sized_total: "\<exists>inner r'. read_sized r = Some (inner, r') \<and> length inner + length r' \<le> length r"
proof -
  obtain n r1 where b: "bounded_value_length r = (n, r1)" by fastforce
  with bounded_value_length_shrinks [of r] have "length r1 \<le> length r" by simp
  then show ?thesis
    using b bounded_value_length_fits [of r _ r1] by (cases n) (auto simp: read_sized_def)
qed

lemma read_from_total: "\<exists>v r'. read_from dec r = Some (v, r') \<and> length r' \<le> length r"
proof -
  obtain inner r2 where i: "read_sized r = Some (inner, r2)" "length r2 \<le> length r"
    using read_sized_total [of r] by auto
  moreover obtain v r3 where "encoded_string dec (tl inner) = Some (v, r3)" using encoded_string_total by blast
  ultimately show ?thesis by (cases inner) (auto simp: read_from_def)
qed

lemma read_expiry_total: "\<exists>v r'. read_expiry r = Some (v, r') \<and> length r' \<le> length r"
  using read_sized_total [of r] by (auto simp: read_expiry_def)

lemma read_class_shrinks: "length (snd (read_class r)) \<le> length r"
  using text_string_shrinks [of r] by (auto simp: read_class_def split: list.split)

lemma rd_u8_shrinks: "length (snd (rd_u8 r)) \<le> length r"
  by (auto simp: rd_u8_def split: list.split)

text \<open>Whatever a step finds, it has a result, and it leaves no more bytes than it was given.\<close>

fun flow_rest :: "flow \<Rightarrow> u8 list" where
  "flow_rest (Next _ r) = r"
| "flow_rest (Body _ r) = r"
| "flow_rest _ = []"

fun flow_parts :: "flow \<Rightarrow> mms_part list" where
  "flow_parts (Next m _) = mm_parts m"
| "flow_parts (Body m _) = mm_parts m"
| "flow_parts (Stop m) = mm_parts m"
| "flow_parts Malformed = []"

lemma read_field_total:
  "\<exists>fl. read_field dec b r m = Some fl \<and> length (flow_rest fl) \<le> length r \<and>
     (mm_parts m = [] \<longrightarrow> flow_parts fl = [])"
proof -
  obtain v1 r1 where e: "encoded_string dec r = Some (v1, r1)" "length r1 \<le> length r"
    using encoded_string_total by blast
  obtain v2 r2 where f: "read_from dec r = Some (v2, r2)" "length r2 \<le> length r"
    using read_from_total by blast
  obtain v3 r3 where x: "read_expiry r = Some (v3, r3)" "length r3 \<le> length r"
    using read_expiry_total by blast
  obtain v4 r4 where c: "content_type dec r = Some (v4, r4)" "length r4 \<le> length r"
    using content_type_total by blast
  obtain k where k: "skip_value r = (fst (skip_value r), k)" "length k \<le> length r"
    using skip_value_shrinks [of r] by (metis prod.collapse)
  have t: "length (snd (text_string r)) \<le> length r" using text_string_shrinks [of r] by simp
  have i: "length (snd (integer_value r)) \<le> length r" "length (snd (long_int r)) \<le> length r"
    using integer_value_shrinks [of r] long_int_shrinks [of r] by simp_all
  show ?thesis
    using e f x c k t i rd_u8_shrinks [of r] read_class_shrinks [of r]
    by (auto simp: read_field_def split_beta split: option.split)
qed

lemma header_step_total:
  "\<exists>fl. header_step dec r m = Some fl \<and> (\<forall>m' r'. fl = Next m' r' \<longrightarrow> length r' < length r) \<and>
     length (flow_rest fl) \<le> length r \<and> (mm_parts m = [] \<longrightarrow> flow_parts fl = [])"
proof (cases r)
  case (Cons b rest)
  obtain fl where "read_field dec b rest m = Some fl" "length (flow_rest fl) \<le> length rest"
    "mm_parts m = [] \<longrightarrow> flow_parts fl = []"
    using read_field_total by blast
  moreover have "length (snd (skip_value (snd (text_string r)))) \<le> length r - 1"
    using skip_value_shrinks [of "snd (text_string r)"] text_string_shrinks [of r] by simp
  ultimately show ?thesis using Cons by (cases fl) (auto simp: header_step_def split_beta)
qed (simp add: header_step_def)


text \<open>The loop: the message, and the body where a content type was reached.\<close>

function decode_headers ::
  "decoder \<Rightarrow> u8 list \<Rightarrow> mms_message \<Rightarrow> (string + mms_message \<times> u8 list option) option" where
  "decode_headers dec r m =
     (case header_step dec r m of
        None \<Rightarrow> None
      | Some Malformed \<Rightarrow> Some (Inl ''malformed MMS Content-Type'')
      | Some (Stop m') \<Rightarrow> Some (Inr (m', None))
      | Some (Body m' r') \<Rightarrow> Some (Inr (m', Some r'))
      | Some (Next m' r') \<Rightarrow> decode_headers dec r' m')"
  by pat_completeness auto
termination
proof (relation "measure (\<lambda>(dec, r, m). length r)")
  fix dec :: decoder and r m fl m' r'
  assume "header_step dec r m = Some fl" "fl = Next m' r'"
  then show "((dec, r', m'), (dec, r, m)) \<in> measure (\<lambda>(dec, r, m). length r)"
    using header_step_total [of dec r m] by auto
qed simp

declare decode_headers.simps [simp del]

definition is_multipart :: "string \<Rightarrow> bool" where
  "is_multipart ct \<longleftrightarrow> starts_with ''multipart/'' ct \<or> starts_with ''application/vnd.wap.multipart'' ct"

text \<open>One header of a part, behind its content type: \<open>None\<close> where it cannot be skipped.\<close>

definition part_header :: "u8 list \<Rightarrow> mms_part \<Rightarrow> (u8 list \<times> mms_part) option" where
  "part_header r p =
     (case r of
        [] \<Rightarrow> None
      | h # rest \<Rightarrow>
          if h = 0xC0 then
            (let (v, r') = text_string rest in
             Some (r', p\<lparr>mp_id := map_option (trim_matches (\<lambda>c. c = CHR ''<'' \<or> c = CHR ''>'')) v\<rparr>))
          else if h = 0x8E then (let (v, r') = text_string rest in Some (r', p\<lparr>mp_location := v\<rparr>))
          else (let (ok, r') = skip_value (if h < 0x80 then snd (text_string r) else rest) in
            if ok then Some (r', p) else None))"

lemma part_header_shrinks: "part_header r p = Some (r', p') \<Longrightarrow> length r' < length r"
proof (cases r)
  case (Cons h rest)
  assume h: "part_header r p = Some (r', p')"
  have "length (snd (text_string r)) \<le> length rest" using text_string_shrinks [of r] Cons by simp
  with h Cons show ?thesis
    using text_string_shrinks [of rest] skip_value_shrinks [of rest] skip_value_shrinks [of "snd (text_string r)"]
    by (auto simp: part_header_def split_beta split: if_splits)
qed (simp add: part_header_def)

function part_headers :: "u8 list \<Rightarrow> mms_part \<Rightarrow> mms_part" where
  "part_headers r p = (case part_header r p of Some (r', p') \<Rightarrow> part_headers r' p' | None \<Rightarrow> p)"
  by pat_completeness auto
termination
  by (relation "measure (length \<circ> fst)") (auto dest: part_header_shrinks)

declare part_headers.simps [simp del]

text \<open>One part: \<open>None\<close> within the result where the loop stops, \<open>None\<close> outside for a panic.\<close>

definition decode_part :: "decoder \<Rightarrow> u8 list \<Rightarrow> (mms_part \<times> u8 list) option option" where
  "decode_part dec r =
     (case uintvar r of
        (Some hl, r1) \<Rightarrow>
          (case uintvar r1 of
             (Some dl, r2) \<Rightarrow>
               (case rd_take (unat hl) r2 of
                  (Some hb, r3) \<Rightarrow>
                    (case rd_take (unat dl) r3 of
                       (Some data, r4) \<Rightarrow>
                         do { (v, hr) \<leftarrow> content_type dec hb;
                              let (ct, ps) = (case v of Some x \<Rightarrow> x | None \<Rightarrow> (''application/octet-stream'', [])) in
                              Some (Some (part_headers hr
                                \<lparr>mp_type = ct, mp_params = ps, mp_id = None, mp_location = None, mp_data = data\<rparr>, r4)) }
                     | (None, _) \<Rightarrow> Some None)
                | (None, _) \<Rightarrow> Some None)
           | (None, _) \<Rightarrow> Some None)
      | (None, _) \<Rightarrow> Some None)"

fun decode_parts :: "decoder \<Rightarrow> nat \<Rightarrow> u8 list \<Rightarrow> mms_part list option" where
  "decode_parts dec 0 r = Some []"
| "decode_parts dec (Suc n) r =
     (case decode_part dec r of
        None \<Rightarrow> None
      | Some None \<Rightarrow> Some []
      | Some (Some (p, r')) \<Rightarrow> map_option (Cons p) (decode_parts dec n r'))"

definition decode_multipart :: "decoder \<Rightarrow> u8 list \<Rightarrow> mms_part list option" where
  "decode_multipart dec body =
     (case uintvar body of
        (None, _) \<Rightarrow> Some []
      | (Some count, r) \<Rightarrow> decode_parts dec (min (unat count) 256) r)"

definition decode_body :: "decoder \<Rightarrow> mms_message \<Rightarrow> u8 list \<Rightarrow> mms_message option" where
  "decode_body dec m body =
     (let ct = (case mm_content_type m of Some t \<Rightarrow> t | None \<Rightarrow> []) in
      if is_multipart ct
      then map_option (\<lambda>ps. m\<lparr>mm_parts := ps\<rparr>) (decode_multipart dec body)
      else Some (m\<lparr>mm_parts :=
          (if body \<noteq> []
           then [\<lparr>mp_type = ct, mp_params = mm_content_params m, mp_id = None, mp_location = None, mp_data = body\<rparr>]
           else [])\<rparr>))"

definition mms_decode :: "decoder \<Rightarrow> u8 list \<Rightarrow> (string + mms_message) option" where
  "mms_decode dec data =
     do { res \<leftarrow> decode_headers dec data mms_default;
          case res of
            Inl e \<Rightarrow> Some (Inl e)
          | Inr (m, None) \<Rightarrow> Some (Inr m)
          | Inr (m, Some body) \<Rightarrow> map_option Inr (decode_body dec m body) }"

section \<open>Encoding\<close>

definition contains_char :: "char \<Rightarrow> string \<Rightarrow> bool" where
  "contains_char c s \<longleftrightarrow> c \<in> set s"

definition format_address :: "string \<Rightarrow> string" where
  "format_address addr0 =
     (let addr = trim addr0 in
      if contains_char (CHR ''@'') addr \<or> contains_text ''/TYPE='' addr then addr else addr @ ''/TYPE=PLMN'')"

record send_req =
  sq_transaction :: string
  sq_from :: "string option"
  sq_to :: "string list"
  sq_subject :: "string option"
  sq_parts :: "mms_part list"
  sq_delivery_report :: bool
  sq_read_report :: bool

definition part_content_type :: "mms_part \<Rightarrow> u8 list" where
  "part_content_type p =
     (case content_type_code (mp_type p) of
        Some code \<Rightarrow> [0x80 OR code] | None \<Rightarrow> write_text_string (mp_type p)) @
     (if is_text p then (0x80 OR 0x01) # write_integer_value CHARSET_UTF8 else []) @
     (case mp_name p of Some name \<Rightarrow> (0x80 OR 0x17) # write_text_string name | None \<Rightarrow> [])"

definition encode_part_headers :: "mms_part \<Rightarrow> u8 list" where
  "encode_part_headers p =
     write_value_length (length (part_content_type p)) @ part_content_type p @
     (case mp_id p of Some cid \<Rightarrow> 0xC0 # write_text_string (''<'' @ cid @ ''>'') | None \<Rightarrow> []) @
     (case mp_location p of Some loc \<Rightarrow> 0x8E # write_text_string loc | None \<Rightarrow> [])"

definition encode_part :: "mms_part \<Rightarrow> u8 list" where
  "encode_part p =
     write_uintvar (of_nat (length (encode_part_headers p))) @ write_uintvar (of_nat (length (mp_data p))) @
     encode_part_headers p @ mp_data p"

definition encode_multipart :: "mms_part list \<Rightarrow> u8 list" where
  "encode_multipart parts = write_uintvar (of_nat (length parts)) @ concat (map encode_part parts)"

definition encode_from :: "string option \<Rightarrow> u8 list" where
  "encode_from from =
     (case from of
        Some addr \<Rightarrow>
          (let inner = 0x80 # write_encoded_string (format_address addr) in write_value_length (length inner) @ inner)
      | None \<Rightarrow> write_value_length 1 @ [0x81])"

definition encode_content_type :: "mms_part list \<Rightarrow> u8 list" where
  "encode_content_type parts =
     (let ct =
        (if 1 < length parts
         then [0x80 OR 0x33, 0x80 OR 0x09] @ write_text_string ''application/smil'' @
           (case parts of
              p # _ \<Rightarrow> (case mp_id p of Some cid \<Rightarrow> (0x80 OR 0x19) # write_text_string (''<'' @ cid @ ''>'') | None \<Rightarrow> [])
            | [] \<Rightarrow> [])
         else [0x80 OR 0x23])
      in write_value_length (length ct) @ ct)"

definition encode_send_req :: "send_req \<Rightarrow> u8 list" where
  "encode_send_req q =
     [MESSAGE_TYPE, SEND_REQ] @
     TRANSACTION_ID # write_text_string (sq_transaction q) @
     [MMS_VERSION, VERSION_1_2] @
     FROM # encode_from (sq_from q) @
     concat (map (\<lambda>a. TO # write_encoded_string (format_address a)) (sq_to q)) @
     (case sq_subject q of
        Some s \<Rightarrow> if s = [] then [] else SUBJECT # write_encoded_string s | None \<Rightarrow> []) @
     [MESSAGE_CLASS, 0x80] @
     [DELIVERY_REPORT, if sq_delivery_report q then 0x80 else 0x81] @
     [READ_REPORT, if sq_read_report q then 0x80 else 0x81] @
     CONTENT_TYPE # encode_content_type (sq_parts q) @
     encode_multipart (sq_parts q)"

definition encode_notify_resp_ind :: "string \<Rightarrow> u8 \<Rightarrow> bool \<Rightarrow> u8 list" where
  "encode_notify_resp_ind transaction status report_allowed =
     [MESSAGE_TYPE, NOTIFYRESP_IND] @ TRANSACTION_ID # write_text_string transaction @
     [MMS_VERSION, VERSION_1_2] @ [STATUS, status] @ [REPORT_ALLOWED, if report_allowed then 0x80 else 0x81]"

definition encode_acknowledge_ind :: "string \<Rightarrow> bool \<Rightarrow> u8 list" where
  "encode_acknowledge_ind transaction report_allowed =
     [MESSAGE_TYPE, ACKNOWLEDGE_IND] @ TRANSACTION_ID # write_text_string transaction @
     [MMS_VERSION, VERSION_1_2] @ [REPORT_ALLOWED, if report_allowed then 0x80 else 0x81]"

text \<open>The layout that goes before the parts of a message.\<close>

definition smil_line :: "string \<Rightarrow> string" where
  "smil_line l = l @ [CHR 0x0A]"

definition smil_media :: "mms_part \<Rightarrow> string" where
  "smil_media p =
     (case mp_id p of
        None \<Rightarrow> []
      | Some cid \<Rightarrow>
          if starts_with ''image/'' (mp_type p)
          then smil_line (''      <img src=\"cid:'' @ cid @ ''\" region=\"Image\"/>'')
          else if starts_with ''text/'' (mp_type p)
          then smil_line (''      <text src=\"cid:'' @ cid @ ''\" region=\"Text\"/>'')
          else if starts_with ''audio/'' (mp_type p) \<or> starts_with ''video/'' (mp_type p)
          then smil_line (''      <video src=\"cid:'' @ cid @ ''\" region=\"Image\"/>'')
          else [])"

definition build_smil :: "mms_part list \<Rightarrow> string" where
  "build_smil parts =
     concat (map smil_line
       [''<smil>'', ''  <head>'', ''    <layout>'', ''      <root-layout width=\"320px\" height=\"480px\"/>'',
        ''      <region id=\"Image\" top=\"0%\" left=\"0%\" height=\"80%\" width=\"100%\" fit=\"meet\"/>'',
        ''      <region id=\"Text\" top=\"80%\" left=\"0%\" height=\"20%\" width=\"100%\" fit=\"scroll\"/>'',
        ''    </layout>'', ''  </head>'', ''  <body>'', ''    <par dur=\"8000ms\">'']) @
     concat (map smil_media parts) @
     concat (map smil_line [''    </par>'', ''  </body>'', ''</smil>''])"

section \<open>WAP push\<close>

definition is_wap_push :: "u8 list \<Rightarrow> bool" where
  "is_wap_push data \<longleftrightarrow> 3 < length data \<and> data ! 1 \<in> {0x06, 0x07}"

record wap_push =
  wp_type :: string
  wp_body :: "u8 list"

definition parse_wap_push :: "decoder \<Rightarrow> u8 list \<Rightarrow> (string + wap_push) option" where
  "parse_wap_push dec data =
     (if \<not> is_wap_push data then Some (Inl ''not a WSP push PDU'')
      else (case uintvar (snd (rd_u8 (snd (rd_u8 data)))) of
          (None, _) \<Rightarrow> Some (Inl ''bad push headers length'')
        | (Some len, r) \<Rightarrow>
            if length r < unat len then Some (Inl ''push headers run past the end of the PDU'')
            else do {
              (headers, body) \<leftarrow> split_at (unat len) r;
              (v, _) \<leftarrow> content_type dec headers;
              Some (case v of
                  None \<Rightarrow> Inl ''push PDU without a content type''
                | Some (ct, _) \<Rightarrow> Inr \<lparr>wp_type = ct, wp_body = body\<rparr>) }))"

definition is_mms_push :: "wap_push \<Rightarrow> bool" where
  "is_mms_push push \<longleftrightarrow>
     eq_ignore_ascii_case (wp_type push) ''application/vnd.wap.mms-message'' \<or> contains_text ''mms-message'' (wp_type push)"


section \<open>Decoding never panics, and makes nothing out of nothing\<close>

lemma decode_headers_total:
  "\<exists>res. decode_headers dec r m = Some res \<and>
     (\<forall>m' body. res = Inr (m', Some body) \<longrightarrow> length body \<le> length r) \<and>
     (\<forall>m' body. mm_parts m = [] \<longrightarrow> res = Inr (m', body) \<longrightarrow> mm_parts m' = [])"
proof (induction dec r m rule: decode_headers.induct)
  case (1 dec r m)
  obtain fl where h: "header_step dec r m = Some fl"
    and n: "\<And>m' r'. fl = Next m' r' \<Longrightarrow> length r' < length r" and b: "length (flow_rest fl) \<le> length r"
    and p: "mm_parts m = [] \<Longrightarrow> flow_parts fl = []"
    using header_step_total [of dec r m] by auto
  show ?case
  proof (cases fl)
    case (Next m' r')
    with n have "length r' < length r" by blast
    obtain res where res: "decode_headers dec r' m' = Some res"
      "\<And>m'' body. res = Inr (m'', Some body) \<Longrightarrow> length body \<le> length r'"
      "\<And>m'' body. mm_parts m' = [] \<Longrightarrow> res = Inr (m'', body) \<Longrightarrow> mm_parts m'' = []"
      using 1 [OF h Next] by auto
    from h Next res(1) have eq: "decode_headers dec r m = Some res" by (simp add: decode_headers.simps [of dec r m])
    have "length body \<le> length r" if "res = Inr (m'', Some body)" for m'' body
      using res(2) [OF that] \<open>length r' < length r\<close> by simp
    moreover have "mm_parts m'' = []" if "mm_parts m = []" "res = Inr (m'', body)" for m'' body
      using res(3) [OF _ that(2)] p [OF that(1)] Next by simp
    ultimately show ?thesis using eq by blast
  qed (use h b p in \<open>simp_all add: decode_headers.simps [of dec r m]\<close>)
qed

lemma part_headers_data [simp]: "mp_data (part_headers r p) = mp_data p"
proof (induction r p rule: part_headers.induct)
  case (1 r p)
  show ?case
  proof (cases "part_header r p")
    case (Some x)
    then obtain r' p' where x: "part_header r p = Some (r', p')" by (cases x) auto
    then have "mp_data p' = mp_data p"
      by (cases r) (auto simp: part_header_def split_beta split: if_splits)
    with 1 x show ?thesis by (simp add: part_headers.simps [of r p])
  qed (simp add: part_headers.simps [of r p])
qed

lemma decode_part_total:
  "\<exists>res. decode_part dec r = Some res \<and>
     (\<forall>p r'. res = Some (p, r') \<longrightarrow> length (mp_data p) + length r' \<le> length r)"
proof -
  obtain v1 r1 where u1: "uintvar r = (v1, r1)" by fastforce
  obtain v2 r2 where u2: "uintvar r1 = (v2, r2)" by fastforce
  have "length r1 \<le> length r" "length r2 \<le> length r1"
    using uintvar_shrinks [of r] uintvar_shrinks [of r1] u1 u2 by simp_all
  moreover obtain v3 r3 where "content_type dec (take (unat (the v1)) r2) = Some (v3, r3)"
    using content_type_total by blast
  ultimately show ?thesis
    using u1 u2 by (cases v1; cases v2) (auto simp: decode_part_def rd_take_def split_beta)
qed

lemma decode_parts_total:
  "\<exists>ps. decode_parts dec n r = Some ps \<and> length ps \<le> n \<and> sum_list (map (length \<circ> mp_data) ps) \<le> length r"
proof (induction n arbitrary: r)
  case (Suc n)
  obtain res where r: "decode_part dec r = Some res"
    and b: "\<And>p r'. res = Some (p, r') \<Longrightarrow> length (mp_data p) + length r' \<le> length r"
    using decode_part_total [of dec r] by auto
  show ?case
  proof (cases res)
    case (Some x)
    obtain p r' where x: "x = (p, r')" by (cases x)
    obtain ps where "decode_parts dec n r' = Some ps" "length ps \<le> n"
      "sum_list (map (length \<circ> mp_data) ps) \<le> length r'" using Suc by blast
    moreover from this r Some x have "decode_parts dec (Suc n) r = Some (p # ps)" by simp
    moreover have "length (mp_data p) + length r' \<le> length r" using b Some x by blast
    ultimately show ?thesis by (intro exI [of _ "p # ps"]) (auto simp: o_def)
  qed (use r in simp)
qed simp

lemma decode_multipart_total:
  "\<exists>ps. decode_multipart dec body = Some ps \<and> length ps \<le> 256 \<and>
     sum_list (map (length \<circ> mp_data) ps) \<le> length body"
proof -
  obtain v r where u: "uintvar body = (v, r)" by fastforce
  then have "length r \<le> length body" using uintvar_shrinks [of body] by simp
  moreover obtain ps where "decode_parts dec (min (unat (the v)) 256) r = Some ps"
    "length ps \<le> min (unat (the v)) 256" "sum_list (map (length \<circ> mp_data) ps) \<le> length r"
    using decode_parts_total by blast
  ultimately show ?thesis using u by (cases v) (auto simp: decode_multipart_def)
qed

lemma decode_body_total:
  "\<exists>m'. decode_body dec m body = Some m' \<and> length (mm_parts m') \<le> 256 \<and>
     sum_list (map (length \<circ> mp_data) (mm_parts m')) \<le> length body"
  using decode_multipart_total [of dec body] by (auto simp: decode_body_def Let_def)


lemma mms_decode_total:
  "\<exists>res. mms_decode dec data = Some res \<and>
     (\<forall>m. res = Inr m \<longrightarrow> length (mm_parts m) \<le> 256 \<and>
        sum_list (map (length \<circ> mp_data) (mm_parts m)) \<le> length data)"
proof -
  obtain res where h: "decode_headers dec data mms_default = Some res"
    "\<And>m' body. res = Inr (m', Some body) \<Longrightarrow> length body \<le> length data"
    "\<And>m' body. res = Inr (m', body) \<Longrightarrow> mm_parts m' = []"
    using decode_headers_total [of dec data mms_default] by (auto simp: mms_default_def)
  show ?thesis
  proof (cases res)
    case (Inr x)
    obtain m body where x: "x = (m, body)" by (cases x)
    show ?thesis
    proof (cases body)
      case (Some b)
      then show ?thesis using h Inr x decode_body_total [of dec m b] by (force simp: mms_decode_def)
    qed (use h Inr x in \<open>simp add: mms_decode_def\<close>)
  qed (use h in \<open>simp add: mms_decode_def\<close>)
qed

lemma decode_headers_error: "decode_headers dec r m = Some (Inl e) \<Longrightarrow> e = ''malformed MMS Content-Type''"
proof (induction dec r m rule: decode_headers.induct)
  case (1 dec r m)
  then show ?case by (auto simp: decode_headers.simps [of dec r m] split: option.splits flow.splits)
qed

lemma mms_decode_error: "mms_decode dec data = Some (Inl e) \<Longrightarrow> e = ''malformed MMS Content-Type''"
proof -
  assume e: "mms_decode dec data = Some (Inl e)"
  then obtain res where r: "decode_headers dec data mms_default = Some res"
    by (auto simp: mms_decode_def bind_eq_Some_conv)
  with e have "res = Inl e" by (cases res) (auto simp: mms_decode_def split: option.splits)
  with r show ?thesis using decode_headers_error by blast
qed

lemma parse_wap_push_total: "parse_wap_push dec data \<noteq> None"
proof -
  obtain v r where u: "uintvar (snd (rd_u8 (snd (rd_u8 data)))) = (v, r)" by fastforce
  obtain w r' where "content_type dec (take (unat (the v)) r) = Some (w, r')"
    using content_type_total by blast
  with u show ?thesis by (cases v) (auto simp: parse_wap_push_def split_at_def)
qed


section \<open>Decoding what was encoded\<close>

lemma decode_Next: "header_step dec r m = Some (Next m' r') \<Longrightarrow> decode_headers dec r m = decode_headers dec r' m'"
  by (simp add: decode_headers.simps [of dec r m])

lemma decode_Body: "header_step dec r m = Some (Body m' r') \<Longrightarrow> decode_headers dec r m = Some (Inr (m', Some r'))"
  by (simp add: decode_headers.simps [of dec r m])

lemma skip_short: "0x80 \<le> (b :: u8) \<Longrightarrow> skip_value (b # r) = (True, r)"
proof -
  assume b: "0x80 \<le> b"
  then have "b AND 0x80 \<noteq> 0" using high_bit [of b] by (simp add: linorder_not_less)
  moreover have "\<not> b \<le> 30" "b \<noteq> 0x1F" using b by (auto simp: word_le_nat_alt)
  ultimately show ?thesis by (simp add: skip_value_def)
qed

named_theorems decode_steps \<open>what the decoder does with one encoded field\<close>

lemma decode_type [decode_steps]:
  "decode_headers dec (MESSAGE_TYPE # t # r) m = decode_headers dec r (m\<lparr>mm_type := t\<rparr>)"
  by (rule decode_Next) (simp add: header_step_def read_field_def fields rd_u8_def)

lemma decode_transaction [decode_steps]:
  "text_fits t \<Longrightarrow> decode_headers dec (TRANSACTION_ID # write_text_string t @ r) m =
     decode_headers dec r (m\<lparr>mm_transaction := Some t\<rparr>)"
  by (rule decode_Next) (simp add: header_step_def read_field_def fields text_string_write)

lemma decode_version [decode_steps]:
  "decode_headers dec (MMS_VERSION # t # r) m = decode_headers dec r (m\<lparr>mm_version := Some t\<rparr>)"
  by (rule decode_Next) (simp add: header_step_def read_field_def fields rd_u8_def)

lemma decode_to [decode_steps]:
  "encodable t \<Longrightarrow> decodes_utf8 dec \<Longrightarrow> decode_headers dec (TO # write_encoded_string t @ r) m =
     decode_headers dec r (m\<lparr>mm_to := mm_to m @ [t]\<rparr>)"
  by (rule decode_Next) (simp add: header_step_def read_field_def fields encoded_string_write)

lemma decode_subject [decode_steps]:
  "encodable t \<Longrightarrow> decodes_utf8 dec \<Longrightarrow> decode_headers dec (SUBJECT # write_encoded_string t @ r) m =
     decode_headers dec r (m\<lparr>mm_subject := Some t\<rparr>)"
  by (rule decode_Next) (simp add: header_step_def read_field_def fields encoded_string_write)

lemma decode_personal [decode_steps]:
  "decode_headers dec (MESSAGE_CLASS # 0x80 # r) m = decode_headers dec r (m\<lparr>mm_class := Some ''personal''\<rparr>)"
  by (rule decode_Next) (simp add: header_step_def read_field_def fields read_class_def)

lemma decode_unread [decode_steps]:
  "0x80 \<le> t \<Longrightarrow> decode_headers dec (DELIVERY_REPORT # t # r) m = decode_headers dec r m"
  "0x80 \<le> t \<Longrightarrow> decode_headers dec (READ_REPORT # t # r) m = decode_headers dec r m"
  "0x80 \<le> t \<Longrightarrow> decode_headers dec (REPORT_ALLOWED # t # r) m = decode_headers dec r m"
  "0x80 \<le> t \<Longrightarrow> decode_headers dec (STATUS # t # r) m = decode_headers dec r m"
  by (rule decode_Next, simp add: header_step_def read_field_def fields skip_short)+

lemma decode_end [decode_steps]: "decode_headers dec [] m = Some (Inr (m, None))"
  by (simp add: decode_headers.simps [of dec "[]"] header_step_def)

lemma decode_tos:
  assumes "list_all encodable ts" "decodes_utf8 dec"
  shows "decode_headers dec (concat (map (\<lambda>t. TO # write_encoded_string t) ts) @ r) m =
    decode_headers dec r (m\<lparr>mm_to := mm_to m @ ts\<rparr>)"
  using assms by (induction ts arbitrary: m) (simp_all add: decode_steps)

lemma read_sized_write:
  "length bs < 2 ^ 56 \<Longrightarrow> read_sized (write_value_length (length bs) @ bs @ r) = Some (bs, r)"
  using bounded_value_length_write [of "length bs" "bs @ r"] by (simp add: read_sized_def)

lemma decode_from:
  assumes "case a of Some t \<Rightarrow> encodable (format_address t) | None \<Rightarrow> True"
    and "length (encode_from a) < 2 ^ 56" and "decodes_utf8 dec" and "mm_from m = None"
  shows "decode_headers dec (FROM # encode_from a @ r) m =
    decode_headers dec r (m\<lparr>mm_from := map_option format_address a\<rparr>)"
proof -
  have "read_from dec (encode_from a @ r) = Some (map_option format_address a, r)"
  proof (cases a)
    case None
    then show ?thesis using read_sized_write [of "[0x81]" r] by (simp add: read_from_def encode_from_def)
  next
    case (Some t)
    let ?inner = "0x80 # write_encoded_string (format_address t)"
    have "length ?inner < 2 ^ 56" using assms(2) Some by (simp add: encode_from_def Let_def)
    then have "read_sized (encode_from a @ r) = Some (?inner, r)"
      using read_sized_write [of ?inner r] Some by (simp add: encode_from_def Let_def)
    moreover have "encoded_string dec (write_encoded_string (format_address t)) = Some (Some (format_address t), [])"
      using encoded_string_write [of "format_address t" dec "[]"] assms(1,3) Some by simp
    ultimately show ?thesis using Some by (simp add: read_from_def)
  qed
  then show ?thesis by (intro decode_Next) (simp add: header_step_def read_field_def fields)
qed

text \<open>A parameter's text, which is read as an encoded string: it starts with a printable character.\<close>

definition value_fits :: "string \<Rightarrow> bool" where
  "value_fits s \<longleftrightarrow> text_fits s \<and> (case s of c # _ \<Rightarrow> 0x20 \<le> byte_of c | [] \<Rightarrow> True)"

lemma encoded_string_value:
  "value_fits s \<Longrightarrow> decodes_utf8 dec \<Longrightarrow> encoded_string dec (write_text_string s @ r) = Some (Some s, r)"
  by (simp add: value_fits_def encoded_string_text)

lemma param_name_known:
  "param_name 0x17 = Some ''name''" "param_name 0x01 = Some ''charset''"
  "param_name 0x09 = Some ''type''" "param_name 0x19 = Some ''start''"
  by (simp_all add: param_name_def param_names_def)

lemma parameter_charset: "parameter dec (0x81 # 0xEA # r) = Some (Some (''charset'', ''UTF-8''), r)"
  by (simp add: parameter_def param_name_known charset_value_def integer_value_def charset_for_def)

lemma parameter_text:
  assumes "value_fits s" "decodes_utf8 dec" "b \<in> {0x97, 0x89, 0x99}"
  shows "parameter dec (b # write_text_string s @ r) = Some (Some (the (param_name (b AND 0x7F)), s), r)"
  using assms by (auto simp: parameter_def param_name_known encoded_string_value text_or_empty_def)

lemma content_params_Nil [simp]: "content_params dec [] = Some []"
  by (simp add: content_params.simps [of dec "[]"])

lemma content_params_Cons:
  "parameter dec r = Some (Some kv, r') \<Longrightarrow> r \<noteq> [] \<Longrightarrow>
     content_params dec r = map_option (Cons kv) (content_params dec r')"
  by (simp add: content_params.simps [of dec r])

lemma content_params_charset:
  "content_params dec (0x81 # 0xEA # r) = map_option (Cons (''charset'', ''UTF-8'')) (content_params dec r)"
  by (rule content_params_Cons [OF parameter_charset]) simp

lemma content_params_text:
  assumes "value_fits s" "decodes_utf8 dec" "b \<in> {0x97, 0x89, 0x99}"
  shows "content_params dec (b # write_text_string s @ r) =
    map_option (Cons (the (param_name (b AND 0x7F)), s)) (content_params dec r)"
  by (rule content_params_Cons [OF parameter_text [OF assms]]) simp

lemma content_params_text_end:
  assumes "value_fits s" "decodes_utf8 dec" "b \<in> {0x97, 0x89, 0x99}"
  shows "content_params dec (b # write_text_string s) = Some [(the (param_name (b AND 0x7F)), s)]"
  using content_params_text [OF assms, of "[]"] by simp

text \<open>A content type behind its length is read as its contents are.\<close>

lemma content_type_sized:
  assumes "length ct < 2 ^ 56" "inner_content_type dec ct = Some v"
  shows "content_type dec (write_value_length (length ct) @ ct @ r) = Some (v, r)"
proof -
  obtain b bs where w: "write_value_length (length ct) = b # bs" "b \<le> 30 \<or> b = 0x1F"
    using write_value_length_head by blast
  then have "b < 0x80" "\<not> 0x20 \<le> b" by (auto simp: word_le_nat_alt word_less_nat_alt)
  then have "b AND 0x80 = 0" by (simp add: high_bit)
  moreover have "bounded_value_length (b # bs @ ct @ r) = (Some (length ct), ct @ r)"
    using bounded_value_length_write [of "length ct" "ct @ r"] assms(1) w by simp
  ultimately show ?thesis using w \<open>\<not> 0x20 \<le> b\<close> assms(2) by (simp add: content_type_def split_at_def)
qed

lemma inner_content_type_code:
  "c < 0x80 \<Longrightarrow> inner_content_type dec ((0x80 OR c) # r) =
     map_option (\<lambda>ps. Some (content_type_name c, ps)) (content_params dec r)"
  using high_code [of c] by (cases "content_params dec r") (simp_all add: inner_content_type_def)

lemma inner_content_type_text:
  assumes "text_fits t"
  shows "inner_content_type dec (write_text_string t @ r) =
    map_option (\<lambda>ps. Some (t, ps)) (content_params dec r)"
proof -
  obtain b bs where w: "write_text_string t @ r = b # bs" "b AND 0x80 = 0"
  proof (cases t)
    case (Cons c u)
    show thesis
    proof (cases "0x80 \<le> byte_of c")
      case False
      then have "(of_nat (byte_of c) :: u8) < 0x80" by (simp add: word_less_nat_alt)
      with Cons False that show thesis by (simp add: write_text_string_def high_bit)
    qed (use Cons that in \<open>simp add: write_text_string_def\<close>)
  qed (use that in \<open>simp add: write_text_string_def\<close>)
  then show ?thesis
    using text_string_write [OF assms, of r] by (cases "content_params dec r") (simp_all add: inner_content_type_def)
qed

text \<open>A part that encoding carries, and what it is read back as.\<close>

definition part_fits :: "mms_part \<Rightarrow> bool" where
  "part_fits p \<longleftrightarrow>
     text_fits (mp_type p) \<and>
     (case mp_name p of Some n \<Rightarrow> value_fits n | None \<Rightarrow> True) \<and>
     (case mp_id p of
        Some cid \<Rightarrow> text_fits (''<'' @ cid @ ''>'') \<and> CHR ''<'' \<notin> set cid \<and> CHR ''>'' \<notin> set cid
      | None \<Rightarrow> True) \<and>
     (case mp_location p of Some l \<Rightarrow> text_fits l | None \<Rightarrow> True) \<and>
     length (encode_part_headers p) < 2 ^ 56 \<and> length (mp_data p) < 2 ^ 56"

definition decoded_part :: "mms_part \<Rightarrow> mms_part" where
  "decoded_part p =
     p\<lparr>mp_type := canonical_type (mp_type p),
       mp_params := (if is_text p then [(''charset'', ''UTF-8'')] else []) @
         (case mp_name p of Some n \<Rightarrow> [(''name'', n)] | None \<Rightarrow> [])\<rparr>"

lemma part_content_type_read:
  assumes "part_fits p" "decodes_utf8 dec"
  shows "inner_content_type dec (part_content_type p) = Some (Some (mp_type (decoded_part p), mp_params (decoded_part p)))"
proof -
  let ?ps = "(if is_text p then [0x81, 0xEA] else []) @
    (case mp_name p of Some n \<Rightarrow> 0x97 # write_text_string n | None \<Rightarrow> [])"
  have ps: "content_params dec ?ps = Some (mp_params (decoded_part p))"
    using assms by (auto simp: part_fits_def decoded_part_def content_params_charset content_params_text_end
        param_name_known split: option.split)
  have e: "part_content_type p = (case content_type_code (mp_type p) of
        Some code \<Rightarrow> [0x80 OR code] | None \<Rightarrow> write_text_string (mp_type p)) @ ?ps"
    by (simp add: part_content_type_def write_utf8_charset split: option.split)
  show ?thesis
  proof (cases "content_type_code (mp_type p)")
    case None
    then show ?thesis using e ps assms inner_content_type_text [of "mp_type p" dec ?ps]
      by (simp add: part_fits_def decoded_part_def canonical_type_def)
  next
    case (Some c)
    then show ?thesis using e ps inner_content_type_code [of c dec ?ps] content_type_code_Some(1) [OF Some]
      by (simp add: decoded_part_def canonical_type_def)
  qed
qed

lemma trim_matches_brackets:
  "CHR ''<'' \<notin> set cid \<Longrightarrow> CHR ''>'' \<notin> set cid \<Longrightarrow>
     trim_matches (\<lambda>c. c = CHR ''<'' \<or> c = CHR ''>'') (''<'' @ cid @ ''>'') = cid"
proof -
  assume c: "CHR ''<'' \<notin> set cid" "CHR ''>'' \<notin> set cid"
  let ?P = "\<lambda>c. c = CHR ''<'' \<or> c = CHR ''>''"
  have e: "dropWhile ?P (xs @ [CHR ''>'']) = (if xs = [] then [] else xs @ [CHR ''>''])"
    if "CHR ''<'' \<notin> set xs" "CHR ''>'' \<notin> set xs" for xs
    using that by (cases xs) auto
  have r: "dropWhile ?P xs = xs" if "CHR ''<'' \<notin> set xs" "CHR ''>'' \<notin> set xs" for xs
    using that by (cases xs) auto
  show ?thesis
    using c e [of cid] r [of "rev cid"] by (simp add: trim_matches_def trim_start_matches_def trim_end_matches_def)
qed

lemma part_headers_Nil [simp]: "part_headers [] p = p"
  by (simp add: part_headers.simps [of "[]"] part_header_def)

lemma part_headers_id:
  "text_fits (''<'' @ cid @ ''>'') \<Longrightarrow> CHR ''<'' \<notin> set cid \<Longrightarrow> CHR ''>'' \<notin> set cid \<Longrightarrow>
     part_headers (0xC0 # write_text_string (''<'' @ cid @ ''>'') @ r) p = part_headers r (p\<lparr>mp_id := Some cid\<rparr>)"
  using text_string_write [of "''<'' @ cid @ ''>''" r] trim_matches_brackets [of cid]
  by (simp add: part_headers.simps [of "0xC0 # _"] part_header_def)

lemma part_headers_location:
  "text_fits l \<Longrightarrow> part_headers (0x8E # write_text_string l) p = p\<lparr>mp_location := Some l\<rparr>"
  using text_string_write [of l "[]"] by (simp add: part_headers.simps [of "0x8E # _"] part_header_def)

lemma part_headers_read:
  assumes "part_fits p" "mp_id q = None" "mp_location q = None"
  shows "part_headers
      ((case mp_id p of Some cid \<Rightarrow> 0xC0 # write_text_string (''<'' @ cid @ ''>'') | None \<Rightarrow> []) @
       (case mp_location p of Some loc \<Rightarrow> 0x8E # write_text_string loc | None \<Rightarrow> [])) q =
    q\<lparr>mp_id := mp_id p, mp_location := mp_location p\<rparr>"
proof -
  obtain t ps d where "q = \<lparr>mp_type = t, mp_params = ps, mp_id = None, mp_location = None, mp_data = d\<rparr>"
    using assms(2,3) by (cases q) auto
  then show ?thesis
    using assms(1) part_headers_id [of "the (mp_id p)" _ q] part_headers_id [of "the (mp_id p)" "[]" q]
      part_headers_location
    by (cases "mp_id p"; cases "mp_location p") (auto simp: part_fits_def)
qed


lemma decode_part_write:
  assumes "part_fits p" "decodes_utf8 dec"
  shows "decode_part dec (encode_part p @ r) = Some (Some (decoded_part p, r))"
proof -
  let ?h = "encode_part_headers p" and ?ct = "part_content_type p"
  let ?rest = "(case mp_id p of Some cid \<Rightarrow> 0xC0 # write_text_string (''<'' @ cid @ ''>'') | None \<Rightarrow> []) @
    (case mp_location p of Some loc \<Rightarrow> 0x8E # write_text_string loc | None \<Rightarrow> [])"
  have n: "unat (of_nat n :: u64) = n" if "n < 2 ^ 56" for n using that by (simp add: unat_of_nat)
  have s: "length ?h < 2 ^ 56" "length (mp_data p) < 2 ^ 56" using assms(1) by (simp_all add: part_fits_def)
  have "uintvar (encode_part p @ r) =
      (Some (of_nat (length ?h)), write_uintvar (of_nat (length (mp_data p))) @ ?h @ mp_data p @ r)"
    using uintvar_write [of "of_nat (length ?h)"] n [OF s(1)] s(1) by (simp add: encode_part_def)
  moreover have "uintvar (write_uintvar (of_nat (length (mp_data p))) @ ?h @ mp_data p @ r) =
      (Some (of_nat (length (mp_data p))), ?h @ mp_data p @ r)"
    using uintvar_write [of "of_nat (length (mp_data p))"] n [OF s(2)] s(2) by simp
  moreover have "content_type dec ?h = Some (Some (mp_type (decoded_part p), mp_params (decoded_part p)), ?rest)"
    using content_type_sized [of ?ct dec _ ?rest] part_content_type_read [OF assms] s(1)
    by (simp add: encode_part_headers_def)
  ultimately show ?thesis
    using n [OF s(1)] n [OF s(2)] assms(1)
    by (simp add: decode_part_def rd_take_def part_headers_read) (simp add: decoded_part_def)
qed

lemma decode_parts_write:
  assumes "list_all part_fits ps" "decodes_utf8 dec"
  shows "decode_parts dec (length ps) (concat (map encode_part ps) @ r) = Some (map decoded_part ps)"
  using assms by (induction ps) (simp_all add: decode_part_write)

lemma decode_multipart_write:
  assumes "list_all part_fits ps" "decodes_utf8 dec" "length ps \<le> 256"
  shows "decode_multipart dec (encode_multipart ps) = Some (map decoded_part ps)"
proof -
  have "unat (of_nat (length ps) :: u64) = length ps" using assms(3) by (simp add: unat_of_nat)
  then show ?thesis
    using uintvar_write [of "of_nat (length ps)" "concat (map encode_part ps)"] assms
      decode_parts_write [OF assms(1,2), of "[]"]
    by (simp add: decode_multipart_def encode_multipart_def min_def)
qed

text \<open>The content type of a message: its first part is where a multipart/related one starts.\<close>

definition related :: string where "related = ''application/vnd.wap.multipart.related''"
definition mixed :: string where "mixed = ''application/vnd.wap.multipart.mixed''"

definition decoded_type :: "mms_part list \<Rightarrow> string \<times> (string \<times> string) list" where
  "decoded_type ps =
     (if 1 < length ps
      then (related, (''type'', ''application/smil'') #
        (case mp_id (hd ps) of Some cid \<Rightarrow> [(''start'', ''<'' @ cid @ ''>'')] | None \<Rightarrow> []))
      else (mixed, []))"

lemma multipart_names:
  "content_type_name 0x33 = related" "content_type_name 0x23 = mixed"
  "is_multipart related" "is_multipart mixed"
  by (simp_all add: content_type_name_def content_types_def related_def mixed_def is_multipart_def starts_with_def
      strip_prefix_def)

lemma value_fits_start: "text_fits (CHR ''<'' # s) \<Longrightarrow> value_fits (CHR ''<'' # s)"
  by (simp add: value_fits_def byte_of_def)

lemma value_fits_smil: "value_fits ''application/smil''"
proof -
  have "is_ascii ''application/smil''" by (simp add: is_ascii_def byte_of_def)
  then show ?thesis by (simp add: value_fits_def text_fits_def utf8_valid_ascii byte_of_def)
qed

lemma content_type_write:
  assumes "list_all part_fits ps" "decodes_utf8 dec" "length (encode_content_type ps) < 2 ^ 56"
  shows "content_type dec (encode_content_type ps @ r) = Some (Some (decoded_type ps), r)"
proof -
  let ?start = "(case ps of
      p # _ \<Rightarrow> (case mp_id p of Some cid \<Rightarrow> 0x99 # write_text_string (''<'' @ cid @ ''>'') | None \<Rightarrow> [])
    | [] \<Rightarrow> [])"
  let ?ct = "if 1 < length ps then [0x80 OR 0x33, 0x89] @ write_text_string ''application/smil'' @ ?start
    else [0x80 OR 0x23]"
  have e: "encode_content_type ps = write_value_length (length ?ct) @ ?ct"
    by (cases ps) (simp_all add: encode_content_type_def Let_def split: option.split)
  have "content_params dec ?start =
      Some (case mp_id (hd ps) of Some cid \<Rightarrow> [(''start'', ''<'' @ cid @ ''>'')] | None \<Rightarrow> [])"
    if "1 < length ps"
  proof (cases ps)
    case (Cons p qs)
    then show ?thesis
      using assms(1,2) content_params_text_end [of "''<'' @ the (mp_id p) @ ''>''" dec "0x99"]
      by (cases "mp_id p") (auto simp: part_fits_def param_name_known dest: value_fits_start)
  qed (use that in simp)
  then have "inner_content_type dec ?ct = Some (Some (decoded_type ps))"
    using inner_content_type_code [of "0x33" dec "0x89 # write_text_string ''application/smil'' @ ?start"]
      inner_content_type_code [of "0x23" dec "[]"] assms(2)
    by (simp add: decoded_type_def multipart_names content_params_text value_fits_smil param_name_known)
  moreover have "length ?ct < 2 ^ 56" using assms(3) unfolding e by simp
  ultimately show ?thesis unfolding e using content_type_sized by simp
qed


lemma decode_content_type [decode_steps]:
  assumes "list_all part_fits ps" "decodes_utf8 dec" "length (encode_content_type ps) < 2 ^ 56"
  shows "decode_headers dec (CONTENT_TYPE # encode_content_type ps @ r) m =
    Some (Inr (m\<lparr>mm_content_type := Some (fst (decoded_type ps)), mm_content_params := snd (decoded_type ps)\<rparr>, Some r))"
  by (rule decode_Body)
    (simp add: header_step_def read_field_def fields content_type_write [OF assms] split_beta)

definition send_fits :: "send_req \<Rightarrow> bool" where
  "send_fits q \<longleftrightarrow>
     text_fits (sq_transaction q) \<and>
     (case sq_from q of Some a \<Rightarrow> encodable (format_address a) | None \<Rightarrow> True) \<and>
     length (encode_from (sq_from q)) < 2 ^ 56 \<and>
     list_all encodable (map format_address (sq_to q)) \<and>
     (case sq_subject q of Some s \<Rightarrow> encodable s | None \<Rightarrow> True) \<and>
     list_all part_fits (sq_parts q) \<and> length (sq_parts q) \<le> 256 \<and>
     length (encode_content_type (sq_parts q)) < 2 ^ 56"

definition received_as :: "send_req \<Rightarrow> mms_message" where
  "received_as q =
     mms_default\<lparr>mm_type := SEND_REQ, mm_transaction := Some (sq_transaction q), mm_version := Some VERSION_1_2,
       mm_from := map_option format_address (sq_from q), mm_to := map format_address (sq_to q),
       mm_subject := (case sq_subject q of Some s \<Rightarrow> if s = [] then None else Some s | None \<Rightarrow> None),
       mm_class := Some ''personal'',
       mm_content_type := Some (fst (decoded_type (sq_parts q))),
       mm_content_params := snd (decoded_type (sq_parts q)),
       mm_parts := map decoded_part (sq_parts q)\<rparr>"

lemma decode_optional_subject:
  assumes "case s of Some t \<Rightarrow> encodable t | None \<Rightarrow> True" "decodes_utf8 dec" "mm_subject m = None"
  shows "decode_headers dec
      ((case s of Some t \<Rightarrow> if t = [] then [] else SUBJECT # write_encoded_string t | None \<Rightarrow> []) @ r) m =
    decode_headers dec r
      (m\<lparr>mm_subject := (case s of Some t \<Rightarrow> if t = [] then None else Some t | None \<Rightarrow> None)\<rparr>)"
proof -
  have "m\<lparr>mm_subject := None\<rparr> = m" using assms(3) by (cases m) simp
  then show ?thesis using assms(1,2) by (cases s) (auto simp: decode_steps)
qed

lemma send_req_headers:
  assumes "send_fits q" "decodes_utf8 dec"
  shows "decode_headers dec (encode_send_req q) mms_default =
    Some (Inr (received_as q\<lparr>mm_parts := []\<rparr>, Some (encode_multipart (sq_parts q))))"
proof -
  let ?flag = "\<lambda>b. if b then 0x80 else (0x81 :: u8)"
  have f: "0x80 \<le> ?flag b" for b by simp
  have tos: "concat (map (\<lambda>a. TO # write_encoded_string (format_address a)) as) =
      concat (map (\<lambda>t. TO # write_encoded_string t) (map format_address as))" for as
    by (simp add: o_def)
  show ?thesis
    using assms
    by (simp add: encode_send_req_def send_fits_def received_as_def decode_steps decode_from decode_tos tos
        decode_optional_subject f mms_default_def del: map_map)
qed

section \<open>Properties\<close>

text \<open>Property C27: What this program posts to the MMSC is the message it was asked to send. Decoding an
  encoded M-Send.req gives back its transaction, sender, recipients (as formatted addresses), subject and all
  of its parts in order, with their data, identifiers and names; types are read back under the
  name the table of assigned numbers has for them.
\<close>

theorem mms_send_req_round_trip:
  assumes "send_fits q" and "decodes_utf8 dec"
  shows "mms_decode dec (encode_send_req q) = Some (Inr (received_as q))"
proof -
  have "is_multipart (fst (decoded_type (sq_parts q)))" by (simp add: decoded_type_def multipart_names)
  moreover have "decode_multipart dec (encode_multipart (sq_parts q)) = Some (map decoded_part (sq_parts q))"
    using assms by (simp add: send_fits_def decode_multipart_write)
  ultimately show ?thesis
    using send_req_headers [OF assms] by (simp add: mms_decode_def decode_body_def received_as_def)
qed


lemma text_fits_print: "list_all (\<lambda>c. 0x20 \<le> byte_of c \<and> byte_of c < 0x7F) s \<Longrightarrow> value_fits s"
proof -
  assume s: "list_all (\<lambda>c. 0x20 \<le> byte_of c \<and> byte_of c < 0x7F) s"
  have "is_ascii s" using s by (auto simp: is_ascii_def list_all_iff)
  moreover have "CHR 0x00 \<notin> set s" using s by (auto simp: list_all_iff byte_of_def)
  ultimately show ?thesis using s by (cases s) (auto simp: value_fits_def text_fits_def utf8_valid_ascii)
qed

definition sample_part :: mms_part where
  "sample_part = \<lparr>mp_type = ''text/plain'', mp_params = [], mp_id = Some ''t0'', mp_location = None, mp_data = [104]\<rparr>"

definition sample_send :: send_req where
  "sample_send = \<lparr>sq_transaction = ''T1'', sq_from = None, sq_to = [''+8210''], sq_subject = Some ''hi'',
     sq_parts = [sample_part], sq_delivery_report = False, sq_read_report = False\<rparr>"

lemma value_fits_encodable: "value_fits s \<Longrightarrow> is_ascii s \<Longrightarrow> encodable s"
  by (simp add: value_fits_def encodable_def)

lemma sample_address: "format_address ''+8210'' = ''+8210/TYPE=PLMN''"
  by code_simp

lemma sample_part_fits: "part_fits sample_part"
proof -
  have "value_fits ''text/plain''" "value_fits ''<t0>''" by (rule text_fits_print; simp add: byte_of_def)+
  moreover have "mp_name sample_part = None" by (simp add: mp_name_def sample_part_def)
  moreover have "length (encode_part_headers sample_part) = 10" by code_simp
  ultimately show ?thesis by (simp add: part_fits_def value_fits_def) (simp add: sample_part_def)
qed

lemma sample_send_fits: "send_fits sample_send"
proof -
  have "value_fits ''T1''" "value_fits ''hi''" "value_fits ''+8210/TYPE=PLMN''"
    by (rule text_fits_print; simp add: byte_of_def)+
  moreover have "is_ascii ''hi''" "is_ascii ''+8210/TYPE=PLMN''" by (simp_all add: is_ascii_def byte_of_def)
  moreover have "length (encode_from None) = 2" by code_simp
  moreover have "length (encode_content_type [sample_part]) = 2" by code_simp
  ultimately show ?thesis
    using sample_part_fits
    by (simp add: send_fits_def sample_send_def sample_address value_fits_encodable) (simp add: value_fits_def)
qed

lemma mms_send_req_round_trip_witness:
  "mms_decode (\<lambda>_. bytes_text) (encode_send_req sample_send) =
   Some (Inr (mms_default\<lparr>mm_type := 0x80, mm_transaction := Some ''T1'', mm_version := Some 0x92,
     mm_to := [''+8210/TYPE=PLMN''], mm_subject := Some ''hi'', mm_class := Some ''personal'',
     mm_content_type := Some ''application/vnd.wap.multipart.mixed'',
     mm_parts := [sample_part\<lparr>mp_params := [(''charset'', ''UTF-8'')]\<rparr>]\<rparr>))"
proof -
  have "decodes_utf8 (\<lambda>_. bytes_text)" by (simp add: decodes_utf8_def)
  moreover have "decoded_part sample_part = sample_part\<lparr>mp_params := [(''charset'', ''UTF-8'')]\<rparr>" by code_simp
  ultimately show ?thesis
    using mms_send_req_round_trip [OF sample_send_fits, of "\<lambda>_. bytes_text"]
    by (simp add: received_as_def sample_send_def sample_address decoded_type_def mixed_def SEND_REQ_def
        VERSION_1_2_def mms_default_def)
qed

text \<open>Property C28: Whatever the network delivers, decoding it never takes a slice outside of the message and
  always ends: it has a message or the error of a malformed content type. The message has at most
  256 parts, and their data together are no longer than what was received, so that no count or
  length in a message makes the decoder allocate more. The push around it always has a result as well.
\<close>

theorem mms_decoding_is_bounded:
  "(\<exists>res. mms_decode dec data = Some res \<and>
     (case res of
        Inl e \<Rightarrow> e = ''malformed MMS Content-Type''
      | Inr m \<Rightarrow> length (mm_parts m) \<le> 256 \<and> sum_list (map (length \<circ> mp_data) (mm_parts m)) \<le> length data)) \<and>
   parse_wap_push dec data \<noteq> None"
  using mms_decode_total [of dec data] mms_decode_error [of dec data] parse_wap_push_total [of dec data]
  by (auto split: sum.split)

text \<open>
  The two answers to a notification are read as what they are: the transaction they
  answer, and nothing that the recipient would take for a message.
\<close>

lemma mms_answers_round_trip:
  assumes "text_fits t" and "0x80 \<le> status"
  shows "mms_decode dec (encode_notify_resp_ind t status allowed) =
      Some (Inr (mms_default\<lparr>mm_type := NOTIFYRESP_IND, mm_transaction := Some t, mm_version := Some VERSION_1_2\<rparr>))"
    and "mms_decode dec (encode_acknowledge_ind t allowed) =
      Some (Inr (mms_default\<lparr>mm_type := ACKNOWLEDGE_IND, mm_transaction := Some t, mm_version := Some VERSION_1_2\<rparr>))"
  using assms
  by (simp_all add: mms_decode_def encode_notify_resp_ind_def encode_acknowledge_ind_def decode_steps mms_default_def)


lemma mms_answers_round_trip_witness:
  "mms_decode (\<lambda>_. bytes_text) (encode_notify_resp_ind ''T1'' 0x81 True) =
     Some (Inr (mms_default\<lparr>mm_type := 0x83, mm_transaction := Some ''T1'', mm_version := Some 0x92\<rparr>))"
proof -
  have "value_fits ''T1''" by (rule text_fits_print) (simp add: byte_of_def)
  then have "text_fits ''T1''" by (simp add: value_fits_def)
  then show ?thesis
    using mms_answers_round_trip(1) [of "''T1''" "0x81"] by (simp add: NOTIFYRESP_IND_def VERSION_1_2_def)
qed

text \<open>A WAP push whose content type is the assigned number of MMS messages, in either kind of push
  and behind any further headers, is recognised as a push, parsed to exactly the bytes behind its headers, and
  recognised as an MMS message.
\<close>

lemma wap_push_carries_the_message:
  assumes "kind \<in> {0x06, 0x07}" and "length hs < 2 ^ 32"
    and "push = tid # kind # write_uintvar (of_nat (length (0xBE # hs))) @ 0xBE # hs @ body"
  shows "is_wap_push push \<and>
    (\<exists>p. parse_wap_push dec push = Some (Inr p) \<and> is_mms_push p \<and> wp_body p = body)"
proof -
  let ?n = "Suc (length hs)"
  have n: "unat (of_nat ?n :: u64) = ?n" using assms(2) by (simp only: unat_of_nat) simp
  have "uintvar (write_uintvar (of_nat ?n) @ 0xBE # hs @ body) = (Some (of_nat ?n), 0xBE # hs @ body)"
    by (rule uintvar_write) (use n assms(2) in simp)
  moreover have "content_type dec (0xBE # hs) = Some (Some (''application/vnd.wap.mms-message'', []), hs)"
    by (simp add: content_type_def content_type_name_def content_types_def)
  moreover have "write_uintvar (of_nat ?n) \<noteq> []" by (simp add: write_uintvar_def Let_def)
  then have "is_wap_push push" using assms(1,3) by (cases "write_uintvar (of_nat ?n)") (auto simp: is_wap_push_def)
  ultimately show ?thesis
    using n assms(3) by (simp add: parse_wap_push_def rd_u8_def split_at_def is_mms_push_def)
qed

lemma wap_push_carries_the_message_witness:
  "\<exists>p. parse_wap_push (\<lambda>_. bytes_text) [1, 6, 1, 0xBE, 0x8C, 0x82] = Some (Inr p) \<and>
     is_mms_push p \<and> wp_body p = [0x8C, 0x82]"
proof -
  have "write_uintvar 1 = [1]" by (simp add: write_uintvar_def uintvar_groups.simps [of 1] drop_bit_eq_div)
  then show ?thesis
    using wap_push_carries_the_message [of 6 "[]" "[1, 6, 1, 0xBE, 0x8C, 0x82]" 1 "[0x8C, 0x82]" "\<lambda>_. bytes_text"]
    by simp
qed

text \<open>
  The quote of \<open>write_text_string\<close> covers the texts that start with a byte above \<open>0x7F\<close>, and not those
  that start with a control character: these are taken for a length.
\<close>

lemma control_text_is_misread:
  "encoded_string dec (write_encoded_string [CHR 0x01, CHR ''A'']) = Some (Some (dec Utf8 []), [0])"
proof -
  have "write_encoded_string [CHR 0x01, CHR ''A''] = [1, 0x41, 0]"
    by (simp add: write_encoded_string_def write_text_string_def is_ascii_def byte_of_def)
  moreover have "bounded_value_length [1, 0x41, 0] = (Some 1, [0x41, 0])"
    by (simp add: bounded_value_length_def value_length_def)
  moreover have "charset_text dec [0x41] = dec Utf8 []"
    using charset_text_as_utf8 [of "[0x41]" None "[]"]
    by (simp add: integer_value_def long_int_def strip_terminator_def)
  moreover have "\<not> 0x20 \<le> (1 :: u8)" by (simp add: word_le_nat_alt)
  ultimately show ?thesis by (simp add: encoded_string_def split_at_def)
qed

end
