(* ===== verification/Modem.thy ===== *)
theory Modem
  imports Gateway Mms
begin

text \<open>
  What the gateway does with a modem over D-Bus: \<open>src/mm/mod.rs\<close> (what is read of a modem, a call, a message and a
  bearer; dialling, hanging up and sending with the objects these leave in ModemManager) and \<open>src/vendor.rs\<close> (the commands
  that switch on the voice path). A property is \<open>None\<close> where reading it fails. The methods called are
  listed in order; the answers of ModemManager and of the modem are functions.
\<close>

section \<open>What is read\<close>

record modem_info =
  mi_path :: string
  mi_device :: string
  mi_equipment :: string
  mi_manufacturer :: string
  mi_model :: string
  mi_primary_port :: string
  mi_at_ports :: "string list"
  mi_audio_ports :: "string list"
  mi_own_number :: "string option"
  mi_sim_id :: "string option"
  mi_imsi :: "string option"
  mi_operator :: "string option"

record modem_props =
  mo_device :: "string option"
  mo_device_id :: "string option"
  mo_equipment :: "string option"
  mo_manufacturer :: "string option"
  mo_model :: "string option"
  mo_primary_port :: "string option"
  mo_own_numbers :: "string list option"
  mo_ports :: "(string \<times> u32) list option"
  mo_sim :: "string option"
  mo_bearers :: "string list option"

record sim_props =
  sc_identifier :: "string option"
  sc_imsi :: "string option"
  sc_operator :: "string option"

record gpp_props =
  gp_imei :: "string option"
  gp_operator :: "string option"

text \<open>The entries of a bearer's configuration that are not text have no text.\<close>

record bearer_props =
  be_connected :: "bool option"
  be_interface :: "string option"
  be_ip4 :: "(string \<times> string option) list option"

record call_props =
  cp_number :: "string option"
  cp_direction :: "int option"
  cp_state :: "int option"
  cp_audio_port :: "string option"

record sms_props =
  sy_state :: "u32 option"
  sy_pdu_type :: "u32 option"
  sy_number :: "string option"
  sy_text :: "string option"
  sy_data :: "u8 list option"
  sy_timestamp :: "string option"

text \<open>The objects on the bus, by path; \<open>None\<close> where a proxy cannot be built.\<close>

record bus =
  bu_modem :: "string \<Rightarrow> modem_props option"
  bu_sim :: "string \<Rightarrow> sim_props option"
  bu_3gpp :: "string \<Rightarrow> gpp_props option"
  bu_bearer :: "string \<Rightarrow> bearer_props option"
  bu_call :: "string \<Rightarrow> call_props option"
  bu_sms :: "string \<Rightarrow> sms_props option"

definition non_empty :: "string option \<Rightarrow> string option" where
  "non_empty s = (case s of Some t \<Rightarrow> if t = [] then None else Some t | None \<Rightarrow> None)"

definition ports_of_kind :: "u32 \<Rightarrow> (string \<times> u32) list option \<Rightarrow> string list" where
  "ports_of_kind kind ports =
     (case ports of Some ps \<Rightarrow> map fst (filter (\<lambda>(_, k). k = kind) ps) | None \<Rightarrow> [])"

definition read_info :: "bus \<Rightarrow> string \<Rightarrow> modem_props \<Rightarrow> modem_info" where
  "read_info b path m =
     (let sim = (case mo_sim m of Some p \<Rightarrow> if p = ''/'' then None else bu_sim b p | None \<Rightarrow> None);
          gpp = bu_3gpp b path;
          equipment = text_or_empty (mo_equipment m);
          sim_operator = (case sim of Some s \<Rightarrow> non_empty (sc_operator s) | None \<Rightarrow> None)
      in \<lparr>mi_path = path, mi_device = text_or_empty (mo_device m),
          mi_equipment = (case gpp of
              Some g \<Rightarrow> if equipment = [] then text_or_empty (gp_imei g) else equipment
            | None \<Rightarrow> equipment),
          mi_manufacturer = text_or_empty (mo_manufacturer m), mi_model = text_or_empty (mo_model m),
          mi_primary_port = text_or_empty (mo_primary_port m),
          mi_at_ports = map (\<lambda>n. ''/dev/'' @ n) (ports_of_kind 3 (mo_ports m)),
          mi_audio_ports = ports_of_kind 8 (mo_ports m),
          mi_own_number = (case mo_own_numbers m of Some (n # _) \<Rightarrow> Some n | _ \<Rightarrow> None),
          mi_sim_id = (case sim of Some s \<Rightarrow> non_empty (sc_identifier s) | None \<Rightarrow> None),
          mi_imsi = (case sim of Some s \<Rightarrow> non_empty (sc_imsi s) | None \<Rightarrow> None),
          mi_operator = (case Option.bind gpp (\<lambda>g. non_empty (gp_operator g)) of
              Some op \<Rightarrow> Some op | None \<Rightarrow> sim_operator)\<rparr>)"

definition call_info_of :: "bus \<Rightarrow> string \<Rightarrow> call_info option" where
  "call_info_of b path = map_option (\<lambda>c.
     \<lparr>ci_number = text_or_empty (cp_number c),
      ci_direction = (case cp_direction c of Some d \<Rightarrow> d | None \<Rightarrow> 0),
      ci_state = (case cp_state c of Some s \<Rightarrow> s | None \<Rightarrow> 0),
      ci_audio_port = non_empty (cp_audio_port c)\<rparr>) (bu_call b path)"

definition sms_info_of :: "bus \<Rightarrow> string \<Rightarrow> sms_info option" where
  "sms_info_of b path = map_option (\<lambda>s.
     \<lparr>si_state = (case sy_state s of Some x \<Rightarrow> x | None \<Rightarrow> 0), si_pdu_type = (case sy_pdu_type s of Some x \<Rightarrow> x | None \<Rightarrow> 0),
      si_number = text_or_empty (sy_number s), si_text = text_or_empty (sy_text s),
      si_data = (case sy_data s of Some d \<Rightarrow> d | None \<Rightarrow> []), si_timestamp = non_empty (sy_timestamp s)\<rparr>) (bu_sms b path)"

definition bearer_text :: "bearer_props \<Rightarrow> string \<Rightarrow> string option" where
  "bearer_text b key = (case be_ip4 b of Some cfg \<Rightarrow> Option.bind (map_of cfg key) (\<lambda>v. v) | None \<Rightarrow> None)"

record data_bearer =
  bi_interface :: string
  bi_address :: "ip_addr option"
  bi_dns :: "ip_addr list"

fun first_bearer :: "bus \<Rightarrow> string list \<Rightarrow> data_bearer option" where
  "first_bearer b [] = None"
| "first_bearer b (path # paths) =
     (case bu_bearer b path of
        None \<Rightarrow> first_bearer b paths
      | Some be \<Rightarrow>
          if be_connected be \<noteq> Some True then first_bearer b paths
          else if text_or_empty (be_interface be) = [] then first_bearer b paths
          else Some \<lparr>bi_interface = text_or_empty (be_interface be),
            bi_address = Option.bind (bearer_text be ''address'') parse_ip_addr,
            bi_dns = List.map_filter (\<lambda>k. Option.bind (bearer_text be k) parse_ip_addr) [''dns1'', ''dns2'', ''dns3'']\<rparr>)"

definition data_bearer_of :: "bus \<Rightarrow> modem_props \<Rightarrow> data_bearer option" where
  "data_bearer_of b m = (case mo_bearers m of Some paths \<Rightarrow> first_bearer b paths | None \<Rightarrow> None)"

section \<open>Calls and messages\<close>

datatype bus_call =
    VoiceCreate string | CallStart string | CallAccept string | CallHangup string | VoiceDelete string | VoiceHangupAll
  | CallDtmf string string
  | SmsCreate string string bool | SmsSend string | SmsDelete string

text \<open>
  How ModemManager answers: the object created, whether its proxy can be built and the method succeeds, and the
  state of a call each time it is polled, in the first wait and the one after everything was hung up.
\<close>

record call_env =
  ce_create :: "string \<Rightarrow> string option"
  ce_proxy :: "string \<Rightarrow> bool"
  ce_start :: "string \<Rightarrow> string option"
  ce_accept :: "string \<Rightarrow> bool"
  ce_state :: "nat \<Rightarrow> int option"
  ce_dtmf :: "string \<Rightarrow> bool"
  ce_sms_create :: "string \<Rightarrow> string \<Rightarrow> bool \<Rightarrow> string option"
  ce_sms_send :: "string \<Rightarrow> string option"
  ce_sms_delete :: "string \<Rightarrow> bool"

text \<open>Polled every 100 ms for 3 s; a call that cannot be read is gone.\<close>

definition terminate_timeout :: nat where "terminate_timeout = 3000"

function wait_terminated :: "(nat \<Rightarrow> int option) \<Rightarrow> nat \<Rightarrow> bool" where
  "wait_terminated state k =
     (if state k = Some call_terminated \<or> state k = None then True
      else if terminate_timeout \<le> k * 100 then False
      else wait_terminated state (Suc k))"
  by pat_completeness auto
termination by (relation "measure (\<lambda>(_, k). terminate_timeout - k * 100)") (auto simp: terminate_timeout_def)

declare wait_terminated.simps [simp del]

definition release_call :: "call_env \<Rightarrow> string \<Rightarrow> bus_call list" where
  "release_call ce path =
     (if wait_terminated (ce_state ce) 0 then [VoiceDelete path] else [VoiceHangupAll, VoiceDelete path])"

definition mm_dial :: "call_env \<Rightarrow> string \<Rightarrow> (string + string) \<times> bus_call list" where
  "mm_dial ce number =
     (case ce_create ce number of
        None \<Rightarrow> (Inl ''Voice.CreateCall'', [VoiceCreate number])
      | Some path \<Rightarrow>
          if \<not> ce_proxy ce path then (Inl ''proxy'', [VoiceCreate number])
          else (case ce_start ce path of
              Some e \<Rightarrow> (Inl (''Call.Start failed: '' @ e), [VoiceCreate number, CallStart path] @ release_call ce path)
            | None \<Rightarrow> (Inr path, [VoiceCreate number, CallStart path])))"

definition mm_accept :: "call_env \<Rightarrow> string \<Rightarrow> (string + unit) \<times> bus_call list" where
  "mm_accept ce path =
     (if \<not> ce_proxy ce path then (Inl ''proxy'', [])
      else if ce_accept ce path then (Inr (), [CallAccept path]) else (Inl ''Call.Accept'', [CallAccept path]))"

definition mm_hangup :: "call_env \<Rightarrow> string \<Rightarrow> (string + unit) \<times> bus_call list" where
  "mm_hangup ce path =
     (if \<not> ce_proxy ce path then (Inl ''proxy'', []) else (Inr (), CallHangup path # release_call ce path))"

fun dtmf_each :: "call_env \<Rightarrow> string \<Rightarrow> string list \<Rightarrow> (string + unit) \<times> bus_call list" where
  "dtmf_each ce path [] = (Inr (), [])"
| "dtmf_each ce path (d # ds) =
     (if ce_dtmf ce d then (case dtmf_each ce path ds of (r, ops) \<Rightarrow> (r, CallDtmf path d # ops))
      else (Inl ''Call.SendDtmf'', [CallDtmf path d]))"

definition mm_send_dtmf :: "call_env \<Rightarrow> string \<Rightarrow> string \<Rightarrow> (string + unit) \<times> bus_call list" where
  "mm_send_dtmf ce path digits =
     (if \<not> ce_proxy ce path then (Inl ''proxy'', [])
      else dtmf_each ce path (filter (\<lambda>d. trim d \<noteq> []) (utf8_chars digits)))"

definition mm_send_sms :: "call_env \<Rightarrow> string \<Rightarrow> string \<Rightarrow> bool \<Rightarrow> (string + string) \<times> bus_call list" where
  "mm_send_sms ce number body report =
     (case ce_sms_create ce number body report of
        None \<Rightarrow> (Inl ''Messaging.Create'', [SmsCreate number body report])
      | Some path \<Rightarrow>
          if \<not> ce_proxy ce path then (Inl ''proxy'', [SmsCreate number body report])
          else (case ce_sms_send ce path of
              None \<Rightarrow> (Inr path, [SmsCreate number body report, SmsSend path])
            | Some e \<Rightarrow>
                (Inl (''Sms.Send failed: '' @ e), [SmsCreate number body report, SmsSend path, SmsDelete path])))"

definition mm_delete_sms :: "call_env \<Rightarrow> string \<Rightarrow> (string + unit) \<times> bus_call list" where
  "mm_delete_sms ce path = (if ce_sms_delete ce path then Inr () else Inl ''Messaging.Delete'', [SmsDelete path])"

section \<open>The voice path\<close>

text \<open>
  \<open>src/vendor.rs\<close>. Whether ModemManager carries AT commands is remembered: not asked yet, allowed, refused. A serial port
  answers a command with the pieces that are read until the reply is complete or the time is up.
\<close>

definition is_quectel_model :: "string \<Rightarrow> bool" where
  "is_quectel_model model \<longleftrightarrow>
     (let m = to_ascii_uppercase model in
      list_ex (\<lambda>p. starts_with p m) [''EC2'', ''EC1'', ''EP0'', ''EG2'', ''EG9'', ''EM0'', ''BG9'', ''RM5''])"

definition vendor_applies :: "vendor_setup \<Rightarrow> modem_info \<Rightarrow> bool" where
  "vendor_applies mode info \<longleftrightarrow>
     (case mode of
        VendorNever \<Rightarrow> False
      | VendorAlways \<Rightarrow> mi_at_ports info \<noteq> []
      | VendorAuto \<Rightarrow> mi_at_ports info \<noteq> [] \<and>
          (contains_text ''quectel'' (to_ascii_lowercase (mi_manufacturer info)) \<or> is_quectel_model (mi_model info)))"

datatype mm_command = NotAsked | Allowed | Refused
datatype at_op = ViaModemManager string | OnPort string string
datatype at_outcome = AlreadyOn | Enabled

record at_env =
  ae_command :: "string \<Rightarrow> string + string"
  ae_open :: "string \<Rightarrow> string option"
  ae_reads :: "string \<Rightarrow> string \<Rightarrow> string list"

definition query_command :: string where "query_command = ''AT+QPCMV?''"
definition enable_command :: string where "enable_command = ''AT+QPCMV=1,2''"
definition interface_command :: string where "interface_command = ''AT+QDAI?''"

fun read_reply :: "string \<Rightarrow> string \<Rightarrow> string list \<Rightarrow> string + string" where
  "read_reply cmd so_far [] = Inl (cmd @ '' timed out (no OK from the modem)'')"
| "read_reply cmd so_far (c # cs) =
     (let r = so_far @ from_utf8_lossy c in
      if contains_text ''OK'' r then Inr r
      else if contains_text ''ERROR'' r
        then Inl (cmd @ '' -> '' @ map (\<lambda>ch. if ch = CHR 0x0D \<or> ch = CHR 0x0A then CHR '' '' else ch) (trim r))
      else read_reply cmd r cs)"

definition at_command :: "at_env \<Rightarrow> string \<Rightarrow> string \<Rightarrow> string + string" where
  "at_command ae port cmd = read_reply cmd [] (ae_reads ae port cmd)"

fun line_value :: "string \<Rightarrow> string list \<Rightarrow> string option" where
  "line_value key [] = None"
| "line_value key (l # ls) = (case strip_prefix key (trim l) of Some v \<Rightarrow> Some v | None \<Rightarrow> line_value key ls)"

definition says_enabled :: "string + string \<Rightarrow> bool" where
  "says_enabled told \<longleftrightarrow>
     (case told of
        Inr r \<Rightarrow> (case line_value ''+QPCMV:'' (str_lines r) of Some v \<Rightarrow> starts_with ''1'' (trim v) | None \<Rightarrow> False)
      | Inl _ \<Rightarrow> False)"

definition configure_port :: "at_env \<Rightarrow> string \<Rightarrow> bool \<Rightarrow> (string + at_outcome) \<times> at_op list" where
  "configure_port ae port force =
     (case ae_open ae port of
        Some e \<Rightarrow> (Inl e, [])
      | None \<Rightarrow>
          (let asked = OnPort port interface_command # (if force then [] else [OnPort port query_command]) in
           if \<not> force \<and> says_enabled (at_command ae port query_command) then (Inr AlreadyOn, asked)
           else (case at_command ae port enable_command of
               Inl e \<Rightarrow> (Inl enable_command, asked @ [OnPort port enable_command])
             | Inr _ \<Rightarrow> (Inr Enabled, asked @ [OnPort port enable_command]))))"

definition is_unauthorized :: "string \<Rightarrow> bool" where
  "is_unauthorized e \<longleftrightarrow> contains_text ''Unauthorized'' e \<or> contains_text ''debug mode'' e"

fun strip_all :: "nat \<Rightarrow> string \<Rightarrow> string \<Rightarrow> string" where
  "strip_all 0 p s = s"
| "strip_all (Suc n) p s = (case strip_prefix p s of Some r \<Rightarrow> strip_all n p r | None \<Rightarrow> s)"

text \<open>Setting it: \<open>None\<close> where ModemManager does not carry the command.\<close>

definition enable_via_mm :: "at_env \<Rightarrow> mm_command \<Rightarrow> (string + unit) option \<times> mm_command" where
  "enable_via_mm ae mc =
     (case ae_command ae enable_command of
        Inr _ \<Rightarrow> (Some (Inr ()), Allowed)
      | Inl e \<Rightarrow> if is_unauthorized e then (None, Refused) else (Some (Inl (''Modem.Command AT+QPCMV=1,2: '' @ e)), mc))"

definition via_modem_manager :: "at_env \<Rightarrow> bool \<Rightarrow> mm_command \<Rightarrow> (string + unit) option \<times> mm_command \<times> at_op list" where
  "via_modem_manager ae force mc =
     (let enable = [ViaModemManager enable_command]; query = ViaModemManager query_command in
      if force then (case enable_via_mm ae mc of (r, mc') \<Rightarrow> (r, mc', enable))
      else (case ae_command ae query_command of
          Inr told \<Rightarrow>
            if starts_with ''1'' (trim (strip_all (length told) ''+QPCMV:'' told)) then (Some (Inr ()), Allowed, [query])
            else (case enable_via_mm ae Allowed of (r, mc') \<Rightarrow> (r, mc', query # enable))
        | Inl e \<Rightarrow>
            if is_unauthorized e then (None, Refused, [query])
            else (Some (Inl (''Modem.Command: '' @ e)), mc, [query])))"

fun try_ports :: "at_env \<Rightarrow> bool \<Rightarrow> string \<Rightarrow> string list \<Rightarrow> (string + string) \<times> at_op list" where
  "try_ports ae force e [] = (Inl e, [])"
| "try_ports ae force e (port # ports) =
     (case configure_port ae port force of
        (Inr _, ops) \<Rightarrow> (Inr port, ops)
      | (Inl e', ops) \<Rightarrow> (case try_ports ae force e' ports of (r, ops') \<Rightarrow> (r, ops @ ops')))"

definition enable_usb_audio :: "at_env \<Rightarrow> modem_info \<Rightarrow> bool \<Rightarrow> mm_command \<Rightarrow>
    (string + string) \<times> mm_command \<times> at_op list" where
  "enable_usb_audio ae info force mc =
     (let serial =
        (if mi_at_ports info = [] then (Inl ''ModemManager reports no AT port for this modem'', [])
         else try_ports ae force ''no usable AT port'' (rev (mi_at_ports info))) in
      if mc = Refused then (fst serial, mc, snd serial)
      else (case via_modem_manager ae force mc of
          (Some (Inr _), mc', ops) \<Rightarrow> (Inr ''ModemManager'', mc', ops)
        | (Some (Inl e), mc', ops) \<Rightarrow> (Inl e, mc', ops)
        | (None, mc', ops) \<Rightarrow> (fst serial, mc', ops @ snd serial)))"

section \<open>Properties\<close>

definition ended :: "int option \<Rightarrow> bool" where
  "ended s \<longleftrightarrow> s = Some call_terminated \<or> s = None"

lemma wait_terminated_iff: "k \<le> 30 \<Longrightarrow> wait_terminated state k \<longleftrightarrow> (\<exists>j. k \<le> j \<and> j \<le> 30 \<and> ended (state j))"
proof (induction state k rule: wait_terminated.induct)
  case (1 state k)
  show ?case
  proof (cases "ended (state k)")
    case True
    then show ?thesis using "1.prems" by (subst wait_terminated.simps) (auto simp: ended_def)
  next
    case False
    have split: "(\<exists>j. k \<le> j \<and> j \<le> 30 \<and> ended (state j)) \<longleftrightarrow> (\<exists>j. Suc k \<le> j \<and> j \<le> 30 \<and> ended (state j))"
      using False by (metis Suc_leD not_less_eq_eq order_antisym)
    show ?thesis
    proof (cases "k < 30")
      case True
      then have "wait_terminated state (Suc k) \<longleftrightarrow> (\<exists>j. Suc k \<le> j \<and> j \<le> 30 \<and> ended (state j))"
        using 1 False by (simp add: ended_def terminate_timeout_def)
      then show ?thesis
        unfolding split using False True by (subst wait_terminated.simps) (auto simp: ended_def terminate_timeout_def)
    next
      case k: False
      then show ?thesis
        using False "1.prems" by (subst wait_terminated.simps) (auto simp: ended_def terminate_timeout_def dest: le_antisym)
    qed
  qed
qed

lemma release_call_ops:
  "release_call ce path =
     (if \<exists>j \<le> 30. ended (ce_state ce j) then [VoiceDelete path] else [VoiceHangupAll, VoiceDelete path])"
  using wait_terminated_iff [of 0 "ce_state ce"] by (auto simp: release_call_def)

lemma sent_on:
  "op \<in> set (snd (configure_port ae port force)) \<Longrightarrow>
     \<exists>cmd. op = OnPort port cmd \<and> cmd \<in> {interface_command, query_command, enable_command}"
  by (auto simp: configure_port_def Let_def split: option.splits sum.splits if_splits)

lemma try_ports_sent:
  "op \<in> set (snd (try_ports ae force e ports)) \<Longrightarrow>
     \<exists>port cmd. op = OnPort port cmd \<and> port \<in> set ports \<and> cmd \<in> {interface_command, query_command, enable_command}"
proof (induction ports arbitrary: e)
  case (Cons port ports)
  obtain r ops where c: "configure_port ae port force = (r, ops)" by fastforce
  show ?case
  proof (cases "op \<in> set ops")
    case True
    then show ?thesis using sent_on [of op ae port force] c by auto
  next
    case False
    then obtain e' where "op \<in> set (snd (try_ports ae force e' ports))"
      using Cons.prems c by (auto split: prod.splits sum.splits) (metis snd_conv)
    then show ?thesis using Cons.IH by (meson list.set_intros(2))
  qed
qed simp

lemma via_mm_sent:
  "op \<in> set (snd (snd (via_modem_manager ae force mc))) \<Longrightarrow> op \<in> ViaModemManager ` {query_command, enable_command}"
  by (auto simp: via_modem_manager_def Let_def split: sum.splits if_splits prod.splits)

text \<open>Property C17: A call never stays behind in ModemManager. Hanging up, and dialling where the call does not start, end
  with the deletion of its object, and everything is hung up first exactly if the call was not over, or
  gone, within three seconds; a message that could not be sent is deleted as well.
\<close>

theorem modem_objects_released:
  assumes "ce_proxy ce path"
  shows "snd (mm_hangup ce path) =
      CallHangup path # (if \<exists>j \<le> 30. ended (ce_state ce j) then [] else [VoiceHangupAll]) @ [VoiceDelete path] \<and>
    (ce_create ce number = Some path \<longrightarrow> (case mm_dial ce number of
       (Inr p, ops) \<Rightarrow> p = path \<and> ops = [VoiceCreate number, CallStart path]
     | (Inl _, ops) \<Rightarrow> ops = [VoiceCreate number, CallStart path] @
         (if \<exists>j \<le> 30. ended (ce_state ce j) then [] else [VoiceHangupAll]) @ [VoiceDelete path])) \<and>
    (ce_sms_create ce number body report = Some path \<longrightarrow> (case mm_send_sms ce number body report of
       (Inr p, ops) \<Rightarrow> p = path \<and> ops = [SmsCreate number body report, SmsSend path]
     | (Inl _, ops) \<Rightarrow> ops = [SmsCreate number body report, SmsSend path, SmsDelete path]))"
  using assms by (auto simp: mm_hangup_def mm_dial_def mm_send_sms_def release_call_ops split: option.split)

definition stubborn_env :: call_env where
  "stubborn_env = \<lparr>ce_create = (\<lambda>_. Some ''/Call/1''), ce_proxy = (\<lambda>_. True), ce_start = (\<lambda>_. Some ''IncompatibleState''),
     ce_accept = (\<lambda>_. True), ce_state = (\<lambda>_. Some 1), ce_dtmf = (\<lambda>_. True), ce_sms_create = (\<lambda>_ _ _. None),
     ce_sms_send = (\<lambda>_. None), ce_sms_delete = (\<lambda>_. True)\<rparr>"

lemma modem_objects_released_witness:
  "snd (mm_hangup stubborn_env ''/Call/1'') = [CallHangup ''/Call/1'', VoiceHangupAll, VoiceDelete ''/Call/1''] \<and>
   snd (mm_dial stubborn_env ''0212345678'') =
     [VoiceCreate ''0212345678'', CallStart ''/Call/1'', VoiceHangupAll, VoiceDelete ''/Call/1'']"
  using modem_objects_released [of stubborn_env "''/Call/1''" "''0212345678''"]
  by (simp add: stubborn_env_def mm_dial_def ended_def call_terminated_def)

definition permitted_op :: "modem_info \<Rightarrow> mm_command \<Rightarrow> at_op \<Rightarrow> bool" where
  "permitted_op info mc op \<longleftrightarrow>
     (case op of
        OnPort port cmd \<Rightarrow> port \<in> set (mi_at_ports info) \<and> cmd \<in> {interface_command, query_command, enable_command}
      | ViaModemManager cmd \<Rightarrow> mc \<noteq> Refused \<and> cmd \<in> {query_command, enable_command})"

text \<open>What a success rests on: the modem, asked by the way that is reported, said that the path is on, or accepted to switch it on.\<close>

definition confirmed_by_mm :: "at_env \<Rightarrow> bool \<Rightarrow> at_op list \<Rightarrow> bool" where
  "confirmed_by_mm ae force ops \<longleftrightarrow>
     (\<not> force \<and> ViaModemManager query_command \<in> set ops \<and>
        (\<exists>told. ae_command ae query_command = Inr told \<and> starts_with ''1'' (trim (strip_all (length told) ''+QPCMV:'' told)))) \<or>
     (ViaModemManager enable_command \<in> set ops \<and> (\<exists>told. ae_command ae enable_command = Inr told))"

definition confirmed_by_port :: "at_env \<Rightarrow> bool \<Rightarrow> string \<Rightarrow> at_op list \<Rightarrow> bool" where
  "confirmed_by_port ae force port ops \<longleftrightarrow>
     (\<not> force \<and> OnPort port query_command \<in> set ops \<and> says_enabled (at_command ae port query_command)) \<or>
     (OnPort port enable_command \<in> set ops \<and> (\<exists>told. at_command ae port enable_command = Inr told))"

lemma configure_port_confirmed:
  "configure_port ae port force = (Inr r, ops) \<Longrightarrow> confirmed_by_port ae force port ops"
  by (auto simp: configure_port_def confirmed_by_port_def Let_def split: option.splits sum.splits if_splits)

lemma try_ports_confirmed:
  "try_ports ae force e ports = (Inr port, ops) \<Longrightarrow> port \<in> set ports \<and> confirmed_by_port ae force port ops"
proof (induction ports arbitrary: e ops)
  case (Cons p ports)
  obtain r ops1 where c: "configure_port ae p force = (r, ops1)" by fastforce
  show ?case
  proof (cases r)
    case (Inl e')
    then obtain ops2 where "try_ports ae force e' ports = (Inr port, ops2)" "ops = ops1 @ ops2"
      using Cons.prems c by (auto split: prod.splits)
    then show ?thesis using Cons.IH by (auto simp: confirmed_by_port_def)
  qed (use Cons.prems c configure_port_confirmed in auto)
qed simp

lemma via_mm_confirmed:
  "via_modem_manager ae force mc = (Some (Inr u), mc', ops) \<Longrightarrow> confirmed_by_mm ae force ops"
  by (auto simp: via_modem_manager_def enable_via_mm_def confirmed_by_mm_def Let_def split: sum.splits if_splits prod.splits)

text \<open>Property C23: The program sends a modem nothing but the commands of the voice path, and only to ports ModemManager called AT ports:
  the two queries and the switch itself. Where ModemManager has refused to carry commands it is not asked again. Success is
  reported only if the modem, asked in this call by the way that is reported (ModemManager, where it has not refused, or a
  port it called an AT port), said that the path is on or accepted to switch it on.
\<close>

theorem vendor_commands_safe:
  "case enable_usb_audio ae info force mc of
     (r, _, ops) \<Rightarrow>
       list_all (permitted_op info mc) ops \<and>
       (case r of
          Inr port \<Rightarrow> (port = ''ModemManager'' \<and> mc \<noteq> Refused \<and> confirmed_by_mm ae force ops) \<or>
            (port \<in> set (mi_at_ports info) \<and> confirmed_by_port ae force port ops)
        | Inl _ \<Rightarrow> True)"
proof -
  let ?serial = "try_ports ae force ''no usable AT port'' (rev (mi_at_ports info))"
  have s: "list_all (permitted_op info mc) (snd ?serial)" unfolding list_all_iff by (auto simp: permitted_op_def dest!: try_ports_sent)
  obtain a mc' ops where v: "via_modem_manager ae force mc = (a, mc', ops)" by (rule prod_cases3)
  have m: "mc \<noteq> Refused \<Longrightarrow> list_all (permitted_op info mc) ops"
    unfolding list_all_iff using via_mm_sent [of _ ae force mc] v by (fastforce simp: permitted_op_def)
  have c: "a = Some (Inr u) \<Longrightarrow> confirmed_by_mm ae force ops" for u using via_mm_confirmed v by blast
  obtain r ops2 where p: "?serial = (r, ops2)" by fastforce
  have w: "port \<in> set (mi_at_ports info) \<and> confirmed_by_port ae force port (ops1 @ ops2)" if "r = Inr port" for port ops1
    using try_ports_confirmed [of ae force _ "rev (mi_at_ports info)" port ops2] that p by (auto simp: confirmed_by_port_def)
  show ?thesis
    using s m c w [of _ "[]"] w [of _ ops] unfolding enable_usb_audio_def Let_def v p
    by (auto split: option.split sum.split)
qed

end
