(* ===== verification/Cards.thy ===== *)
theory Cards
  imports Numbers "HOL-Library.Sublist"
begin

text \<open>
  Which sound card belongs to a modem: \<open>src/audio/discovery.rs\<close>. What is read of sysfs and of \<open>/proc/asound/cards\<close> is
  an argument. A path is the list of its components, the root being the component "/"; the empty
  list is the empty path.
\<close>

type_synonym fs_path = "string list"

record alsa_card =
  al_index :: u32
  al_id :: string
  al_name :: string
  al_device :: fs_path
  al_playback :: bool
  al_capture :: bool

definition device_string :: "alsa_card \<Rightarrow> bool \<Rightarrow> string" where
  "device_string c plug = (if plug then ''plughw'' else ''hw'') @ '':'' @ al_id c @ '',0''"

text \<open>An entry of \<open>/sys/class/sound\<close>: its name, identifier and device if they can be read, and what it holds.\<close>

record sound_entry =
  se_name :: string
  se_id :: "string option"
  se_device :: "fs_path option"
  se_subs :: "string list option"

definition ends_with :: "char \<Rightarrow> string \<Rightarrow> bool" where
  "ends_with c s \<longleftrightarrow> s \<noteq> [] \<and> last s = c"

fun after_text :: "string \<Rightarrow> string \<Rightarrow> string option" where
  "after_text p [] = (if p = [] then Some [] else None)"
| "after_text p (c # s) = (case strip_prefix p (c # s) of Some r \<Rightarrow> Some r | None \<Rightarrow> after_text p s)"

text \<open>A line of \<open>/proc/asound/cards\<close>: the number of a card and its long name.\<close>

definition asound_line :: "string \<Rightarrow> (u32 \<times> string) option" where
  "asound_line line =
     (let trimmed = trim_start line; (number, rest) = break_ws trimmed in
      if rest = [] then None
      else (case parse_u32 number of
          None \<Rightarrow> None
        | Some index \<Rightarrow> map_option (\<lambda>name. (index, trim name)) (after_text '': '' trimmed)))"

definition asound_names :: "string option \<Rightarrow> (u32 \<times> string) list" where
  "asound_names proc = (case proc of None \<Rightarrow> [] | Some body \<Rightarrow> rev (List.map_filter asound_line (str_lines body)))"

definition card_of :: "(u32 \<times> string) list \<Rightarrow> sound_entry \<Rightarrow> alsa_card option" where
  "card_of names e =
     (case Option.bind (strip_prefix ''card'' (se_name e)) parse_u32 of
        None \<Rightarrow> None
      | Some index \<Rightarrow>
          (let ident = (case se_id e of Some s \<Rightarrow> trim s | None \<Rightarrow> show_nat (unat index));
               pcms = filter (starts_with ''pcmC'') (case se_subs e of Some s \<Rightarrow> s | None \<Rightarrow> [])
           in Some \<lparr>al_index = index, al_id = ident,
                al_name = (case map_of names index of Some n \<Rightarrow> n | None \<Rightarrow> ident),
                al_device = (case se_device e of Some d \<Rightarrow> d | None \<Rightarrow> []),
                al_playback = list_ex (ends_with (CHR ''p'')) pcms, al_capture = list_ex (ends_with (CHR ''c'')) pcms\<rparr>))"

definition list_cards :: "sound_entry list option \<Rightarrow> string option \<Rightarrow> alsa_card list" where
  "list_cards entries proc =
     (case entries of
        None \<Rightarrow> []
      | Some es \<Rightarrow> sort_key al_index (List.map_filter (card_of (asound_names proc)) es))"

definition is_under :: "fs_path \<Rightarrow> fs_path \<Rightarrow> bool" where
  "is_under path ancestor \<longleftrightarrow> path \<noteq> [] \<and> ancestor \<noteq> [] \<and> prefix ancestor path"

text \<open>USB interfaces look like \<open>1-3:1.2\<close>, devices like \<open>1-3\<close>; the walk goes up from the end of the path.\<close>

definition usb_device_name :: "string \<Rightarrow> bool" where
  "usb_device_name n \<longleftrightarrow> CHR '':'' \<notin> set n \<and> CHR ''-'' \<in> set n \<and>
     (case n of c # _ \<Rightarrow> digit_val c \<noteq> None | [] \<Rightarrow> False)"

fun usb_root_up :: "fs_path \<Rightarrow> fs_path option" where
  "usb_root_up [] = None"
| "usb_root_up (n # up) = (if usb_device_name n then Some (rev (n # up)) else usb_root_up up)"

definition usb_device_root :: "fs_path \<Rightarrow> fs_path option" where
  "usb_device_root path = usb_root_up (rev path)"

definition both_ways :: "alsa_card \<Rightarrow> bool" where
  "both_ways c \<longleftrightarrow> al_playback c \<and> al_capture c"

definition hinted :: "string \<Rightarrow> alsa_card \<Rightarrow> bool" where
  "hinted hint c \<longleftrightarrow>
     (let h = to_ascii_lowercase hint in
      contains_text h (to_ascii_lowercase (al_id c)) \<or> contains_text h (to_ascii_lowercase (al_name c)))"

definition card_candidates :: "alsa_card list \<Rightarrow> fs_path \<Rightarrow> alsa_card list" where
  "card_candidates cards modem =
     (let under = filter (\<lambda>c. is_under (al_device c) modem) (filter both_ways cards) in
      if under \<noteq> [] then under
      else (case usb_device_root modem of
          None \<Rightarrow> []
        | Some root \<Rightarrow> filter (\<lambda>c. usb_device_root (al_device c) = Some root) (filter both_ways cards)))"

definition find_for_modem :: "alsa_card list \<Rightarrow> fs_path \<Rightarrow> string option \<Rightarrow> alsa_card option" where
  "find_for_modem cards modem hint =
     (let found = card_candidates cards modem;
          narrowed = (case hint of Some h \<Rightarrow> filter (hinted h) found | None \<Rightarrow> []);
          kept = (if 1 < length found \<and> narrowed \<noteq> [] then narrowed else found)
      in case kept of
           c # _ \<Rightarrow> Some c
         | [] \<Rightarrow> (case hint of Some h \<Rightarrow> find (\<lambda>c. both_ways c \<and> hinted h c) cards | None \<Rightarrow> None))"

section \<open>A card of its own\<close>

lemma usb_root_up_suffix: "usb_root_up up = Some r \<Longrightarrow> \<exists>down. up = down @ rev r \<and> \<not> list_ex usb_device_name down \<and> r \<noteq> [] \<and> usb_device_name (last r)"
proof (induction up)
  case (Cons n up)
  show ?case
  proof (cases "usb_device_name n")
    case True
    then show ?thesis using Cons.prems by (intro exI [of _ "[]"]) auto
  next
    case False
    then obtain down where "up = down @ rev r" "\<not> list_ex usb_device_name down" "r \<noteq> []" "usb_device_name (last r)"
      using Cons by auto
    then show ?thesis using False by (intro exI [of _ "n # down"]) auto
  qed
qed simp

lemma usb_root_up_skip: "\<not> list_ex usb_device_name down \<Longrightarrow> usb_root_up (down @ up) = usb_root_up up"
  by (induction down) auto

lemma usb_root_prefix: "usb_device_root p = Some r \<Longrightarrow> prefix r p"
  unfolding usb_device_root_def using usb_root_up_suffix [of "rev p" r] by (metis prefixI rev_append rev_rev_ident)

text \<open>The root of a path is that of every path between them.\<close>

lemma usb_root_between:
  assumes "usb_device_root p = Some r" "prefix r q" "prefix q p"
  shows "usb_device_root q = Some r"
proof -
  obtain down where d: "rev p = down @ rev r" "\<not> list_ex usb_device_name down" "r \<noteq> []" "usb_device_name (last r)"
    using usb_root_up_suffix assms(1) unfolding usb_device_root_def by blast
  obtain x y where x: "q = r @ x" "p = q @ y" using assms(2,3) by (auto simp: prefix_def)
  then have "down = rev y @ rev x" using d(1) by simp
  then have "\<not> list_ex usb_device_name (rev x)" using d(2) by simp
  moreover have "usb_root_up (rev r) = Some r" using d(3,4) by (cases r rule: rev_cases) auto
  ultimately show ?thesis by (simp add: usb_device_root_def x usb_root_up_skip)
qed

lemma found_candidate: "find_for_modem cards p None = Some c \<Longrightarrow> c \<in> set (card_candidates cards p)"
  by (auto simp: find_for_modem_def Let_def split: list.splits if_splits)

lemma candidate_cases:
  "c \<in> set (card_candidates cards p) \<Longrightarrow> c \<in> set cards \<and> both_ways c \<and>
     (prefix p (al_device c) \<or> (\<exists>r. usb_device_root p = Some r \<and> usb_device_root (al_device c) = Some r))"
  by (auto simp: card_candidates_def is_under_def Let_def split: if_splits option.splits)

text \<open>Property C24: Two modems never use one sound card. Without a hint in the configuration, the cards found for two
  modems that are different USB devices, neither inside the other, are different cards, and each can
  play and record.
\<close>

theorem modems_have_their_own_cards:
  assumes "\<not> prefix p p'" and "\<not> prefix p' p" and "usb_device_root p \<noteq> usb_device_root p'"
    and "find_for_modem cards p None = Some c" and "find_for_modem cards p' None = Some c'"
  shows "c \<noteq> c' \<and> both_ways c \<and> both_ways c'"
proof -
  have apart: False if "prefix a d" "usb_device_root b = Some r" "usb_device_root d = Some r"
    "\<not> prefix a b" "usb_device_root a \<noteq> usb_device_root b" for a b d r
  proof (cases "prefix r a")
    case True
    then show False using usb_root_between [OF that(3) True that(1)] that(2,5) by simp
  next
    case False
    then have "prefix a r" using prefix_same_cases [OF that(1) usb_root_prefix [OF that(3)]] by blast
    then show False using usb_root_prefix [OF that(2)] that(4) prefix_order.trans by blast
  qed
  have "False" if "al_device c = al_device c'"
  proof -
    from candidate_cases [OF found_candidate [OF assms(4)]] candidate_cases [OF found_candidate [OF assms(5)]] that
    show False
      using assms(1-3) apart [of p "al_device c" p'] apart [of p' "al_device c" p] prefix_same_cases [of p "al_device c" p']
      by auto
  qed
  then show ?thesis
    using candidate_cases [OF found_candidate [OF assms(4)]] candidate_cases [OF found_candidate [OF assms(5)]] by auto
qed

definition usb_path :: "string list \<Rightarrow> fs_path" where
  "usb_path rest = [''/'', ''sys'', ''devices'', ''usb1'', ''1-3''] @ rest"

definition sample_card :: "u32 \<Rightarrow> string \<Rightarrow> alsa_card" where
  "sample_card i port = \<lparr>al_index = i, al_id = ''EC25'', al_name = ''EC25'',
     al_device = usb_path [port, port @ '':1.2'', ''sound''], al_playback = True, al_capture = True\<rparr>"

lemma modems_have_their_own_cards_witness:
  "\<exists>c c'. find_for_modem [sample_card 1 ''1-3.1'', sample_card 2 ''1-3.2''] (usb_path [''1-3.1'', ''1-3.1:1.4'']) None = Some c \<and>
     find_for_modem [sample_card 1 ''1-3.1'', sample_card 2 ''1-3.2''] (usb_path [''1-3.2'']) None = Some c' \<and> c \<noteq> c'"
proof -
  have f: "find_for_modem [sample_card 1 ''1-3.1'', sample_card 2 ''1-3.2''] (usb_path [''1-3.1'', ''1-3.1:1.4'']) None =
      Some (sample_card 1 ''1-3.1'')"
    "find_for_modem [sample_card 1 ''1-3.1'', sample_card 2 ''1-3.2''] (usb_path [''1-3.2'']) None = Some (sample_card 2 ''1-3.2'')"
    "\<not> prefix (usb_path [''1-3.1'', ''1-3.1:1.4'']) (usb_path [''1-3.2''])"
    "\<not> prefix (usb_path [''1-3.2'']) (usb_path [''1-3.1'', ''1-3.1:1.4''])"
    "usb_device_root (usb_path [''1-3.1'', ''1-3.1:1.4'']) \<noteq> usb_device_root (usb_path [''1-3.2''])"
    by code_simp+
  show ?thesis using modems_have_their_own_cards [OF f(3,4,5,1,2)] f(1,2) by blast
qed

end
