(* ===== verification/ModemWatch.thy ===== *)
theory ModemWatch
  imports Modem Cards
begin

text \<open>
  The watcher of \<open>src/mm/watcher.rs\<close>: it looks for the configured modem, makes it usable, watches it and its calls, and tells the
  gateway. Signals, answers and polls of one presence of the modem are an environment; what the
  gateway is told is a list of the events of \<open>Gateway\<close>.
\<close>

section \<open>Which modem\<close>

definition path_index :: "string \<Rightarrow> u32 option" where
  "path_index path = parse_u32 (last (split_on (CHR ''/'') path))"

definition wanted :: "string option \<Rightarrow> string option" where
  "wanted field = non_empty (map_option trim field)"

definition eq_ci :: "string \<Rightarrow> string \<Rightarrow> bool" where
  "eq_ci a b \<longleftrightarrow> eq_ignore_ascii_case (trim a) (trim b)"

definition criterion :: "string option \<Rightarrow> string \<Rightarrow> bool" where
  "criterion field actual \<longleftrightarrow> (case wanted field of None \<Rightarrow> True | Some w \<Rightarrow> eq_ci actual w)"

definition device_matches :: "string option \<Rightarrow> string \<Rightarrow> bool" where
  "device_matches field device \<longleftrightarrow>
     (case wanted field of
        None \<Rightarrow> True
      | Some w \<Rightarrow> (starts_with w device \<or> starts_with device w) \<and> device \<noteq> [])"

definition equipment_of :: "bus \<Rightarrow> string \<Rightarrow> modem_props \<Rightarrow> string" where
  "equipment_of b path m =
     (let e = text_or_empty (mo_equipment m) in
      if e = [] then (case bu_3gpp b path of Some g \<Rightarrow> text_or_empty (gp_imei g) | None \<Rightarrow> e) else e)"

definition sim_matches :: "bus \<Rightarrow> modem_props \<Rightarrow> modem_match \<Rightarrow> bool option" where
  "sim_matches b m sel =
     (if wanted (mm_sim_id sel) = None \<and> wanted (mm_imsi sel) = None then Some True
      else (case mo_sim m of
          None \<Rightarrow> Some False
        | Some p \<Rightarrow>
            if p = ''/'' then Some False
            else (case bu_sim b p of
                None \<Rightarrow> None
              | Some s \<Rightarrow> Some (criterion (mm_sim_id sel) (text_or_empty (sc_identifier s)) \<and>
                  criterion (mm_imsi sel) (text_or_empty (sc_imsi s))))))"

text \<open>\<open>None\<close> where the modem cannot be inspected.\<close>

definition modem_matches :: "bus \<Rightarrow> string \<Rightarrow> modem_match \<Rightarrow> bool option" where
  "modem_matches b path sel =
     (case bu_modem b path of
        None \<Rightarrow> None
      | Some m \<Rightarrow>
          if (case mm_index sel of Some i \<Rightarrow> path_index path \<noteq> Some i | None \<Rightarrow> False) then Some False
          else if \<not> device_matches (mm_device sel) (text_or_empty (mo_device m)) then Some False
          else if \<not> criterion (mm_device_id sel) (text_or_empty (mo_device_id m)) then Some False
          else if \<not> criterion (mm_imei sel) (equipment_of b path m) then Some False
          else if \<not> criterion (mm_primary_port sel) (text_or_empty (mo_primary_port m)) then Some False
          else sim_matches b m sel)"

definition modem_iface :: string where "modem_iface = ''org.freedesktop.ModemManager1.Modem''"

definition path_rank :: "string \<Rightarrow> u32" where
  "path_rank p = (case path_index p of Some i \<Rightarrow> i | None \<Rightarrow> - 1)"

definition find_modem :: "bus \<Rightarrow> (string \<times> string list) list \<Rightarrow> modem_match \<Rightarrow> string option" where
  "find_modem b objects sel =
     find (\<lambda>p. modem_matches b p sel = Some True)
       (sort_key path_rank (map fst (filter (\<lambda>(_, ifaces). modem_iface \<in> set ifaces) objects)))"

text \<open>
  Waiting: each scan finds the objects or fails; between two scans comes a signal, five seconds, or the end of
  the signals. \<open>None\<close> is still waiting.
\<close>

datatype scan = Scan bus "(string \<times> string list) list" | ScanFails | SignalsEnd

fun wait_for_modem :: "modem_match \<Rightarrow> scan list \<Rightarrow> (string + string) option" where
  "wait_for_modem sel [] = None"
| "wait_for_modem sel (ScanFails # _) = Some (Inl ''GetManagedObjects'')"
| "wait_for_modem sel (SignalsEnd # _) = Some (Inl ''ObjectManager signal stream closed'')"
| "wait_for_modem sel (Scan b objects # scans) =
     (case find_modem b objects sel of Some p \<Rightarrow> Some (Inr p) | None \<Rightarrow> wait_for_modem sel scans)"

section \<open>Activation\<close>

definition MODEM_FAILED :: int where "MODEM_FAILED = -1"
definition MODEM_LOCKED :: int where "MODEM_LOCKED = 2"
definition MODEM_DISABLED :: int where "MODEM_DISABLED = 3"
definition MODEM_ENABLED :: int where "MODEM_ENABLED = 6"

definition modem_state_name :: "int \<Rightarrow> string" where
  "modem_state_name s =
     (if s = -1 then ''failed'' else if s = 0 then ''unknown'' else if s = 1 then ''initializing''
      else if s = 2 then ''locked'' else if s = 3 then ''disabled'' else if s = 4 then ''disabling''
      else if s = 5 then ''enabling'' else if s = 6 then ''enabled'' else if s = 7 then ''searching''
      else if s = 8 then ''registered'' else if s = 9 then ''disconnecting'' else if s = 10 then ''connecting''
      else if s = 11 then ''connected'' else ''?'')"

text \<open>
  The state is read every two seconds; the poll numbers at which the modem was asked to enable itself come along.
\<close>

function wait_usable :: "bool \<Rightarrow> (nat \<Rightarrow> int option) \<Rightarrow> nat \<Rightarrow> (string + unit) \<times> nat list" where
  "wait_usable enable state k =
     (case state k of
        None \<Rightarrow> (Inl ''reading Modem.State'', [])
      | Some s \<Rightarrow>
          if MODEM_ENABLED \<le> s then (Inr (), [])
          else if s = MODEM_FAILED then (Inl ''modem is in the failed state'', [])
          else if s = MODEM_LOCKED then (Inl ''SIM is locked; unlock it with mmcli or NetworkManager'', [])
          else (let asked = (if s = MODEM_DISABLED \<and> enable then [k] else []) in
            if 120 < 2 * k then (Inl ''modem did not become usable'', asked)
            else (case wait_usable enable state (Suc k) of (r, later) \<Rightarrow> (r, asked @ later))))"
  by pat_completeness auto
termination by (relation "measure (\<lambda>(_, _, k). 61 - k)") auto

declare wait_usable.simps [simp del]

definition resolve_alsa :: "audio_section \<Rightarrow> alsa_card list \<Rightarrow> fs_path \<Rightarrow> alsa_card option" where
  "resolve_alsa au cards device =
     (if au_device au \<noteq> None \<or> au_capture_device au \<noteq> None \<and> au_playback_device au \<noteq> None then None
      else if \<not> ac_auto au then None
      else if cards = [] then None
      else find_for_modem cards device (ac_card_hint au))"

text \<open>What the ready command finds in its environment.\<close>

definition ready_environment :: "modem_info \<Rightarrow> alsa_card option \<Rightarrow> (string \<times> string) list" where
  "ready_environment info snd_card =
     [(''M2S_MODEM_PATH'', mi_path info), (''M2S_DEVICE'', mi_device info), (''M2S_IMEI'', mi_equipment info),
      (''M2S_PRIMARY_PORT'', mi_primary_port info),
      (''M2S_AT_PORT'', case mi_at_ports info of p # _ \<Rightarrow> p | [] \<Rightarrow> []),
      (''M2S_AT_PORTS'', join '' '' (mi_at_ports info)), (''M2S_AUDIO_PORTS'', join '' '' (mi_audio_ports info)),
      (''M2S_ALSA_DEVICE'', case snd_card of Some c \<Rightarrow> device_string c True | None \<Rightarrow> [])]"

datatype 'a signal = Closed | Malformed | Signal 'a

text \<open>
  What the watch of a modem wakes up for. The last two come from the watcher of a call, by its number.
\<close>

datatype watch_input =
    Removed "(string \<times> string list) signal"
  | StateChanged "(int \<times> int \<times> u32) signal"
  | AddedCall "string signal"
  | DeletedCall "string signal"
  | AddedSms "(string \<times> bool) signal"
  | NameOwner "(string \<times> string option) signal"
  | Health "string + int"
  | TaskState nat "(int \<times> int \<times> u32) signal"
  | TaskDtmf nat "string signal"

text \<open>One presence of the modem, from the search to its loss.\<close>

record presence =
  pr_scans :: "scan list"
  pr_bus :: bus
  pr_state :: "nat \<Rightarrow> int option"
  pr_at :: at_env
  pr_cards :: "alsa_card list"
  pr_canonical :: "string \<Rightarrow> fs_path"
  pr_subscribe :: "string option"
  pr_names :: bool
  pr_proxy :: "string \<Rightarrow> bool"
  pr_calls :: "string list option"
  pr_sms :: "string list option"
  pr_inputs :: "watch_input list"

record activation =
  av_handle :: modem_handle
  av_at_ops :: "at_op list"
  av_ready :: "(string \<times> (string \<times> string) list) option"

definition activate :: "config \<Rightarrow> presence \<Rightarrow> string \<Rightarrow> string + activation" where
  "activate cfg pr path =
     (case bu_modem (pr_bus pr) path of
        None \<Rightarrow> Inl ''building Modem proxy''
      | Some m \<Rightarrow>
          (case fst (wait_usable (mm_enable (cf_modem cfg)) (pr_state pr) 0) of
             Inl e \<Rightarrow> Inl e
           | Inr _ \<Rightarrow>
               (let snd_card = resolve_alsa (cf_audio cfg) (pr_cards pr) (pr_canonical pr (text_or_empty (mo_device m)));
                    info = read_info (pr_bus pr) path m;
                    ops = (if vendor_applies (ac_vendor (cf_audio cfg)) info
                           then snd (snd (enable_usb_audio (pr_at pr) info False NotAsked)) else [])
                in Inr \<lparr>av_handle = \<lparr>mh_path = path, mh_own_number = mi_own_number info,
                      mh_alsa = map_option (\<lambda>c. device_string c True) snd_card\<rparr>,
                    av_at_ops = ops,
                    av_ready = map_option (\<lambda>cmd. (cmd, ready_environment info snd_card)) (mm_ready_command (cf_modem cfg))\<rparr>)))"

section \<open>Supervision\<close>

text \<open>
  The watchers of calls: the table has the number of the watcher of a path, \<open>wa_alive\<close> those that run, with their
  paths. \<open>wa_reason\<close> is set once the watch is over.
\<close>

record watch =
  wa_tasks :: "(string, nat) kv"
  wa_alive :: "(nat \<times> string) list"
  wa_next :: nat
  wa_names :: bool
  wa_events :: "modem_event list"
  wa_reason :: "string option"

definition watch_new :: "bool \<Rightarrow> watch" where
  "watch_new names = \<lparr>wa_tasks = kv_empty, wa_alive = [], wa_next = 0, wa_names = names, wa_events = [], wa_reason = None\<rparr>"

definition tell :: "modem_event \<Rightarrow> watch \<Rightarrow> watch" where
  "tell e w = w\<lparr>wa_events := wa_events w @ [e]\<rparr>"

definition abort_task :: "nat option \<Rightarrow> watch \<Rightarrow> watch" where
  "abort_task t w = (case t of None \<Rightarrow> w | Some i \<Rightarrow> w\<lparr>wa_alive := filter (\<lambda>(j, _). j \<noteq> i) (wa_alive w)\<rparr>)"

definition spawn_call_watch :: "bool \<Rightarrow> string \<Rightarrow> watch \<Rightarrow> watch" where
  "spawn_call_watch proxy path w =
     (if \<not> proxy then w
      else abort_task (kv_get (wa_tasks w) path)
        (w\<lparr>wa_tasks := kv_put path (wa_next w) (wa_tasks w), wa_alive := wa_alive w @ [(wa_next w, path)],
           wa_next := wa_next w + 1\<rparr>))"

text \<open>The loop is left: every watcher in the table is aborted.\<close>

definition watch_over :: "string \<Rightarrow> watch \<Rightarrow> watch" where
  "watch_over reason w =
     w\<lparr>wa_reason := Some reason, wa_alive := filter (\<lambda>(i, _). i \<notin> snd ` set (wa_tasks w)) (wa_alive w)\<rparr>"

definition running :: "nat \<Rightarrow> watch \<Rightarrow> string option" where
  "running i w = map_of (wa_alive w) i"

definition mm_service :: string where "mm_service = ''org.freedesktop.ModemManager1''"

definition on_wake :: "string \<Rightarrow> (string \<Rightarrow> bool) \<Rightarrow> watch_input \<Rightarrow> watch \<Rightarrow> watch" where
  "on_wake path proxy inp w =
     (case inp of
        Removed Closed \<Rightarrow> watch_over ''ObjectManager stream closed'' w
      | Removed (Signal (p, ifaces)) \<Rightarrow>
          if p = path \<and> modem_iface \<in> set ifaces then watch_over ''modem removed from ModemManager'' w else w
      | StateChanged Closed \<Rightarrow> watch_over ''StateChanged stream closed'' w
      | StateChanged (Signal (old, new, why)) \<Rightarrow>
          if new < MODEM_ENABLED then watch_over (''modem state dropped to '' @ modem_state_name new) w else w
      | AddedCall Closed \<Rightarrow> watch_over ''CallAdded stream closed'' w
      | AddedCall (Signal p) \<Rightarrow> tell (CallAdded p) (spawn_call_watch (proxy p) p w)
      | DeletedCall Closed \<Rightarrow> watch_over ''CallDeleted stream closed'' w
      | DeletedCall (Signal p) \<Rightarrow>
          tell (CallDeleted p) (abort_task (kv_get (wa_tasks w) p) (w\<lparr>wa_tasks := kv_del p (wa_tasks w)\<rparr>))
      | AddedSms Closed \<Rightarrow> watch_over ''Messaging.Added stream closed'' w
      | AddedSms (Signal (p, received)) \<Rightarrow> tell (SmsAdded p received) w
      | NameOwner s \<Rightarrow>
          if \<not> wa_names w then w
          else (case s of
              Closed \<Rightarrow> w\<lparr>wa_names := False\<rparr>
            | Malformed \<Rightarrow> w
            | Signal (name, owner) \<Rightarrow>
                if name = mm_service \<and> owner = None then watch_over ''ModemManager left the bus'' w else w)
      | Health (Inr s) \<Rightarrow>
          if s < MODEM_ENABLED then watch_over (''modem state is '' @ modem_state_name s) w else w
      | Health (Inl e) \<Rightarrow> watch_over (''modem is unreachable on D-Bus: '' @ e) w
      | TaskState i s \<Rightarrow>
          (case running i w of
             None \<Rightarrow> w
           | Some p \<Rightarrow>
               (case s of
                  Closed \<Rightarrow> abort_task (Some i) w
                | Malformed \<Rightarrow> w
                | Signal (old, new, reason) \<Rightarrow> tell (CallState p new reason) w))
      | TaskDtmf i s \<Rightarrow>
          (case (running i w, s) of (Some p, Signal digit) \<Rightarrow> tell (DtmfReceived p digit) w | _ \<Rightarrow> w)
      | _ \<Rightarrow> w)"

definition watch_step :: "string \<Rightarrow> (string \<Rightarrow> bool) \<Rightarrow> watch_input \<Rightarrow> watch \<Rightarrow> watch" where
  "watch_step path proxy inp w = (if wa_reason w = None then on_wake path proxy inp w else w)"

definition adopt_call :: "(string \<Rightarrow> bool) \<Rightarrow> string \<Rightarrow> watch \<Rightarrow> watch" where
  "adopt_call proxy c w = tell (CallAdded c) (spawn_call_watch (proxy c) c w)"

definition some_or_none :: "'a list option \<Rightarrow> 'a list" where
  "some_or_none xs = (case xs of Some l \<Rightarrow> l | None \<Rightarrow> [])"

definition supervise :: "presence \<Rightarrow> string \<Rightarrow> watch" where
  "supervise pr path =
     (case pr_subscribe pr of
        Some e \<Rightarrow> (watch_new (pr_names pr))\<lparr>wa_reason := Some e\<rparr>
      | None \<Rightarrow>
          (let w1 = fold (adopt_call (pr_proxy pr)) (some_or_none (pr_calls pr)) (watch_new (pr_names pr));
               w2 = fold (\<lambda>m. tell (SmsAdded m False)) (some_or_none (pr_sms pr)) w1
           in fold (watch_step path (pr_proxy pr)) (pr_inputs pr) w2))"

section \<open>Sessions\<close>

text \<open>The events of a session on the bus, and whether it ended.\<close>

fun watch_session :: "config \<Rightarrow> presence list \<Rightarrow> modem_event list \<times> bool" where
  "watch_session cfg [] = ([], False)"
| "watch_session cfg (pr # prs) =
     (case wait_for_modem (cf_modem cfg) (pr_scans pr) of
        None \<Rightarrow> ([], False)
      | Some (Inl _) \<Rightarrow> ([], True)
      | Some (Inr path) \<Rightarrow>
          (case activate cfg pr path of
             Inl _ \<Rightarrow> watch_session cfg prs
           | Inr av \<Rightarrow>
               (let w = supervise pr path in
                case wa_reason w of
                  None \<Rightarrow> (ModemUp (av_handle av) # wa_events w, False)
                | Some _ \<Rightarrow>
                    (case watch_session cfg prs of
                       (evs, over) \<Rightarrow> (ModemUp (av_handle av) # wa_events w @ [ModemDown] @ evs, over)))))"

text \<open>Attempts to connect: no bus, or a session and how many seconds it lasted. The wait behind each comes along.\<close>

datatype bus_attempt = NoBus | OnBus "presence list" nat

fun watch_run :: "config \<Rightarrow> nat \<Rightarrow> bus_attempt list \<Rightarrow> modem_event list \<times> nat list" where
  "watch_run cfg backoff [] = ([], [])"
| "watch_run cfg backoff (NoBus # rest) =
     (case watch_run cfg (min (backoff * 2) 30) rest of (evs, waits) \<Rightarrow> (evs, backoff # waits))"
| "watch_run cfg backoff (OnBus prs seconds # rest) =
     (case watch_session cfg prs of
        (evs, False) \<Rightarrow> (evs, [])
      | (evs, True) \<Rightarrow>
          (let b = (if 30 < seconds then 1 else backoff) in
           case watch_run cfg (min (b * 2) 30) rest of (evs', waits) \<Rightarrow> (evs @ [ModemDown] @ evs', b # waits)))"

section \<open>The watchers of calls\<close>

definition watch_ok :: "watch \<Rightarrow> bool" where
  "watch_ok w \<longleftrightarrow> distinct (map fst (wa_alive w)) \<and>
     (\<forall>i p. (i, p) \<in> set (wa_alive w) \<longrightarrow> kv_get (wa_tasks w) p = Some i) \<and>
     (\<forall>p i. kv_get (wa_tasks w) p = Some i \<longrightarrow> i < wa_next w) \<and>
     (wa_reason w \<noteq> None \<longrightarrow> wa_alive w = [])"

lemma watch_ok_new: "watch_ok (watch_new names)"
  by (simp add: watch_ok_def watch_new_def kv.get_empty)

lemma watch_ok_tell [simp]: "watch_ok (tell e w) = watch_ok w"
  by (simp add: watch_ok_def tell_def)

lemma distinct_filter_fst: "distinct (map fst xs) \<Longrightarrow> distinct (map fst (filter P xs))"
  by (induction xs) auto

lemma watch_ok_spawn:
  assumes "watch_ok w" "wa_reason w = None"
  shows "watch_ok (spawn_call_watch proxy path w)"
proof (cases proxy)
  case True
  have new: "wa_next w \<notin> fst ` set (wa_alive w)" using assms(1) by (fastforce simp: watch_ok_def)
  then have d: "distinct (map fst (wa_alive w @ [(wa_next w, path)]))" using assms(1) by (auto simp: watch_ok_def)
  show ?thesis
  proof (cases "kv_get (wa_tasks w) path")
    case None
    then show ?thesis
      using assms d True by (auto simp: watch_ok_def spawn_call_watch_def abort_task_def kv.get_put less_Suc_eq)
  next
    case (Some j)
    then have "j < wa_next w" using assms(1) by (auto simp: watch_ok_def)
    then show ?thesis
      using assms distinct_filter_fst [OF d, of "\<lambda>(k, _). k \<noteq> j"] True Some
      by (auto simp: watch_ok_def spawn_call_watch_def abort_task_def kv.get_put less_Suc_eq)
  qed
qed (simp add: spawn_call_watch_def assms)

lemma watch_ok_abort:
  "watch_ok w \<Longrightarrow> wa_reason w = None \<Longrightarrow> watch_ok (abort_task (Some i) w)"
  by (auto simp: watch_ok_def abort_task_def distinct_filter_fst)

lemma watch_ok_deleted:
  assumes "watch_ok w" "wa_reason w = None"
  shows "watch_ok (abort_task (kv_get (wa_tasks w) p) (w\<lparr>wa_tasks := kv_del p (wa_tasks w)\<rparr>))"
  using assms by (auto simp: watch_ok_def abort_task_def kv.get_del distinct_filter_fst split: option.split)

lemma watch_ok_over:
  assumes "watch_ok w"
  shows "watch_ok (watch_over reason w)"
proof -
  have "i \<in> snd ` set (wa_tasks w)" if "(i, p) \<in> set (wa_alive w)" for i p
  proof -
    have "map_of (wa_tasks w) p = Some i" using assms that by (simp add: watch_ok_def kv_get_def)
    then show ?thesis by (force dest: map_of_SomeD)
  qed
  then have "filter (\<lambda>(i, _). i \<notin> snd ` set (wa_tasks w)) (wa_alive w) = []" by (auto simp: filter_empty_conv)
  then show ?thesis using assms by (simp add: watch_ok_def watch_over_def)
qed

lemma watch_ok_wake:
  assumes "watch_ok w" "wa_reason w = None"
  shows "watch_ok (on_wake path proxy inp w)"
proof -
  note facts = assms watch_ok_over [OF assms(1)] watch_ok_spawn [OF assms] watch_ok_deleted [OF assms] watch_ok_abort [OF assms]
  have "watch_ok (w\<lparr>wa_names := False\<rparr>)" using assms by (simp add: watch_ok_def)
  then show ?thesis
    using facts by (cases inp) (auto simp: on_wake_def split: signal.split option.split sum.split)
qed

lemma watch_ok_step: "watch_ok w \<Longrightarrow> watch_ok (watch_step path proxy inp w)"
  by (simp add: watch_step_def watch_ok_wake)

lemma fold_invariant: "P w \<Longrightarrow> (\<And>x w. P w \<Longrightarrow> P (f x w)) \<Longrightarrow> P (fold f xs w)"
  by (induction xs arbitrary: w) auto

lemma watch_ok_supervise: "watch_ok (supervise pr path)"
proof -
  let ?ok = "\<lambda>w. watch_ok w \<and> wa_reason w = None"
  have r: "wa_reason (tell e w) = wa_reason w" "wa_reason (spawn_call_watch b c w) = wa_reason w" for e b c w
    by (auto simp: tell_def spawn_call_watch_def abort_task_def split: option.split)
  have new: "?ok (watch_new names)" for names by (simp add: watch_ok_new) (simp add: watch_new_def)
  have "?ok (fold (adopt_call proxy) cs (watch_new names))" for proxy cs names
    by (rule fold_invariant [of ?ok, OF new]) (simp add: adopt_call_def r watch_ok_spawn)
  then have "?ok (fold (\<lambda>m. tell (SmsAdded m False)) ms (fold (adopt_call proxy) cs (watch_new names)))" for proxy cs names ms
    by (rule fold_invariant [of ?ok]) (simp add: r)
  then have base: "watch_ok (fold (\<lambda>m. tell (SmsAdded m False)) ms (fold (adopt_call proxy) cs (watch_new names)))"
    for proxy cs names ms by blast
  have "watch_ok (fold (watch_step path proxy) inps (fold (\<lambda>m. tell (SmsAdded m False)) ms
      (fold (adopt_call proxy) cs (watch_new names))))" for proxy cs names ms inps
    by (rule fold_invariant [of watch_ok, OF base watch_ok_step])
  then show ?thesis
    by (auto simp: supervise_def Let_def watch_ok_def watch_new_def kv.get_empty split: option.split)
qed

section \<open>What the gateway is told\<close>

text \<open>Calls and messages are told of only while the modem is up; it comes up only while it is down.\<close>

fun bracketed :: "bool \<Rightarrow> modem_event list \<Rightarrow> bool" where
  "bracketed up [] = True"
| "bracketed up (ModemUp _ # es) = (\<not> up \<and> bracketed True es)"
| "bracketed up (ModemDown # es) = bracketed False es"
| "bracketed up (e # es) = (up \<and> bracketed up es)"

definition of_call :: "modem_event \<Rightarrow> bool" where
  "of_call e \<longleftrightarrow> (case e of ModemUp _ \<Rightarrow> False | ModemDown \<Rightarrow> False | _ \<Rightarrow> True)"

lemma bracketed_calls: "list_all of_call es \<Longrightarrow> bracketed True (es @ es') = bracketed True es'"
proof (induction es)
  case (Cons e es)
  then show ?case by (cases e) (auto simp: of_call_def)
qed simp

lemma of_call_step: "list_all of_call (wa_events w) \<Longrightarrow> list_all of_call (wa_events (watch_step path proxy inp w))"
proof -
  assume w: "list_all of_call (wa_events w)"
  have k: "wa_events (watch_over r v) = wa_events v" "wa_events (spawn_call_watch b c v) = wa_events v"
    "wa_events (abort_task t v) = wa_events v" "wa_events (tell e v) = wa_events v @ [e]" for r v b c t e
    by (auto simp: watch_over_def spawn_call_watch_def abort_task_def tell_def split: option.split)
  show ?thesis
    using w by (cases inp) (auto simp: watch_step_def on_wake_def k of_call_def split: signal.split option.split sum.split)
qed

lemma of_call_supervise: "list_all of_call (wa_events (supervise pr path))"
proof -
  let ?c = "\<lambda>w. list_all of_call (wa_events w)"
  have k: "wa_events (spawn_call_watch b c v) = wa_events v" "wa_events (tell e v) = wa_events v @ [e]" for b c v e
    by (auto simp: spawn_call_watch_def abort_task_def tell_def split: option.split)
  have "?c (fold (adopt_call proxy) cs (watch_new names))" for proxy cs names
    by (rule fold_invariant [of ?c]) (simp_all add: watch_new_def adopt_call_def k of_call_def)
  then have "?c (fold (\<lambda>m. tell (SmsAdded m False)) ms (fold (adopt_call proxy) cs (watch_new names)))" for proxy cs names ms
    by (rule fold_invariant [of ?c]) (simp_all add: k of_call_def)
  then have "?c (fold (watch_step path proxy) inps (fold (\<lambda>m. tell (SmsAdded m False)) ms
      (fold (adopt_call proxy) cs (watch_new names))))" for proxy cs names ms inps
    by (rule fold_invariant [of ?c]) (simp add: of_call_step)
  then show ?thesis by (auto simp: supervise_def Let_def watch_new_def split: option.split)
qed

lemma session_bracketed:
  "bracketed False (fst (watch_session cfg prs)) \<and>
     (snd (watch_session cfg prs) \<longrightarrow> bracketed False (fst (watch_session cfg prs) @ es) = bracketed False es)"
proof (induction prs)
  case (Cons pr prs)
  have c: "bracketed True (wa_events (supervise pr path))" for path
    using bracketed_calls [OF of_call_supervise, of pr path "[]"] by simp
  show ?case
    using Cons c bracketed_calls [OF of_call_supervise]
    by (auto simp: Let_def split: option.split sum.split prod.split)
qed simp

lemma run_bracketed: "bracketed False (fst (watch_run cfg backoff attempts))"
proof (induction attempts arbitrary: backoff)
  case (Cons a attempts)
  show ?case
  proof (cases a)
    case NoBus
    then show ?thesis using Cons by (simp add: split_beta)
  next
    case (OnBus prs seconds)
    obtain evs over where s: "watch_session cfg prs = (evs, over)" by fastforce
    have b: "bracketed False evs" "over \<Longrightarrow> bracketed False (evs @ es) = bracketed False es" for es
      using session_bracketed [of cfg prs es] s by auto
    show ?thesis using Cons b by (cases over) (simp_all add: OnBus s Let_def split_beta)
  qed
qed simp

text \<open>Who comes up: a modem that a scan found by the configuration's criteria, and that was enabled when it was polled.\<close>

definition usable :: "config \<Rightarrow> presence \<Rightarrow> modem_handle \<Rightarrow> bool" where
  "usable cfg pr h \<longleftrightarrow>
     (\<exists>b objects. Scan b objects \<in> set (pr_scans pr) \<and> find_modem b objects (cf_modem cfg) = Some (mh_path h)) \<and>
     (\<exists>k s. pr_state pr k = Some s \<and> MODEM_ENABLED \<le> s)"

lemma wait_for_modem_found:
  "wait_for_modem sel scans = Some (Inr p) \<Longrightarrow> \<exists>b objects. Scan b objects \<in> set scans \<and> find_modem b objects sel = Some p"
  by (induction sel scans rule: wait_for_modem.induct) (auto split: option.splits)

lemma wait_usable_enabled:
  "fst (wait_usable enable state k) = Inr u \<Longrightarrow> \<exists>j s. state j = Some s \<and> MODEM_ENABLED \<le> s"
proof (induction enable state k rule: wait_usable.induct)
  case (1 enable state k)
  show ?case
  proof (cases "\<exists>s. state k = Some s \<and> MODEM_ENABLED \<le> s")
    case False
    then show ?thesis
      using "1.prems" "1.IH" by (subst (asm) wait_usable.simps) (auto simp: Let_def split_beta split: option.splits if_splits)
  qed blast
qed

lemma activate_usable:
  assumes "wait_for_modem (cf_modem cfg) (pr_scans pr) = Some (Inr path)" and "activate cfg pr path = Inr av"
  shows "usable cfg pr (av_handle av)"
proof -
  have "mh_path (av_handle av) = path" "\<exists>u. fst (wait_usable (mm_enable (cf_modem cfg)) (pr_state pr) 0) = Inr u"
    using assms(2) by (auto simp: activate_def Let_def split: option.splits sum.splits)
  then show ?thesis
    using wait_for_modem_found [OF assms(1)] wait_usable_enabled unfolding usable_def by blast
qed

definition comes_up_usable :: "config \<Rightarrow> presence list \<Rightarrow> modem_event \<Rightarrow> bool" where
  "comes_up_usable cfg prs e \<longleftrightarrow> (case e of ModemUp h \<Rightarrow> list_ex (\<lambda>pr. usable cfg pr h) prs | _ \<Rightarrow> True)"

lemma comes_up_more: "comes_up_usable cfg prs e \<Longrightarrow> set prs \<subseteq> set prs' \<Longrightarrow> comes_up_usable cfg prs' e"
  by (auto simp: comes_up_usable_def list_ex_iff split: modem_event.splits)

lemma session_usable: "list_all (comes_up_usable cfg prs) (fst (watch_session cfg prs))"
proof (induction prs)
  case (Cons pr prs)
  have c: "list_all (comes_up_usable cfg qs) (wa_events (supervise pr path))" for qs path
    using of_call_supervise [of pr path] unfolding list_all_iff by (fastforce simp: of_call_def comes_up_usable_def split: modem_event.splits)
  have m: "list_all (comes_up_usable cfg (pr # prs)) (fst (watch_session cfg prs))"
    using Cons comes_up_more [of cfg prs _ "pr # prs"] unfolding list_all_iff by auto
  have u: "comes_up_usable cfg (pr # prs) (ModemUp (av_handle av))"
    if "wait_for_modem (cf_modem cfg) (pr_scans pr) = Some (Inr path)" "activate cfg pr path = Inr av" for path av
    using activate_usable [OF that] by (simp add: comes_up_usable_def)
  have "comes_up_usable cfg (pr # prs) ModemDown" by (simp add: comes_up_usable_def)
  then show ?case using c m u by (auto simp: Let_def split: option.split sum.split prod.split)
qed simp

fun presences :: "bus_attempt list \<Rightarrow> presence list" where
  "presences [] = []"
| "presences (NoBus # rest) = presences rest"
| "presences (OnBus prs _ # rest) = prs @ presences rest"

lemma run_usable: "list_all (comes_up_usable cfg (presences attempts)) (fst (watch_run cfg backoff attempts))"
proof (induction attempts arbitrary: backoff)
  case (Cons a attempts)
  show ?case
  proof (cases a)
    case NoBus
    then show ?thesis using Cons by (simp add: split_beta)
  next
    case (OnBus prs seconds)
    have "list_all (comes_up_usable cfg (presences (a # attempts))) (fst (watch_session cfg prs))"
      "list_all (comes_up_usable cfg (presences (a # attempts))) (fst (watch_run cfg b attempts))" for b
      using session_usable [of cfg prs] Cons [of b] comes_up_more [of cfg _ _ "presences (a # attempts)"] OnBus
      unfolding list_all_iff by auto
    moreover have "comes_up_usable cfg qs ModemDown" for qs by (simp add: comes_up_usable_def)
    ultimately show ?thesis by (cases "watch_session cfg prs") (auto simp: OnBus Let_def split_beta split: bool.split)
  qed
qed simp

lemma run_waits: "1 \<le> backoff \<Longrightarrow> backoff \<le> 30 \<Longrightarrow> list_all (\<lambda>n. 1 \<le> n \<and> n \<le> 30) (snd (watch_run cfg backoff attempts))"
  by (induction cfg backoff attempts rule: watch_run.induct) (auto simp: Let_def split: prod.split bool.split)

text \<open>Property C7: What the gateway hears of the modem makes sense, whatever the bus does. In every run the events come in brackets: a
  modem comes up only while none is, calls and messages are told of only between its coming up and its going down. Every
  modem that comes up was found by the configured criteria and was enabled. The program tries to reach the bus again
  after one to thirty seconds, each time it fails.
\<close>

theorem modem_events_bracketed:
  "bracketed False (fst (watch_run cfg 1 attempts)) \<and>
   list_all (comes_up_usable cfg (presences attempts)) (fst (watch_run cfg 1 attempts)) \<and>
   list_all (\<lambda>n. 1 \<le> n \<and> n \<le> 30) (snd (watch_run cfg 1 attempts))"
  using run_bracketed run_usable run_waits [of 1] by simp

text \<open>Property C22: A call has one watcher. At any time of a watch the watchers that run are of different calls, and each is the one the
  table has for its call, so that it can be stopped; none outlives the watch.
\<close>

theorem one_watcher_per_call:
  "let w = supervise pr path in
   distinct (map snd (wa_alive w)) \<and> list_all (\<lambda>(i, p). kv_get (wa_tasks w) p = Some i) (wa_alive w) \<and>
   (wa_reason w = None \<or> wa_alive w = [])"
proof -
  have ok: "watch_ok (supervise pr path)" by (rule watch_ok_supervise)
  have "i = j" if "(i, p) \<in> set (wa_alive (supervise pr path))" "(j, p) \<in> set (wa_alive (supervise pr path))" for i j p
    using ok that unfolding watch_ok_def by (metis option.inject)
  then have "inj_on snd (set (wa_alive (supervise pr path)))" by (auto intro!: inj_onI)
  moreover have "distinct (wa_alive (supervise pr path))" using ok by (simp add: watch_ok_def distinct_map)
  ultimately show ?thesis using ok by (auto simp: watch_ok_def Let_def distinct_map list_all_iff)
qed

text \<open>The modem that is found is the one of lowest number among those that match.\<close>

lemma find_modem_least:
  assumes "find_modem b objects sel = Some p"
  shows "modem_matches b p sel = Some True" "\<exists>ifaces. (p, ifaces) \<in> set objects \<and> modem_iface \<in> set ifaces"
    and "(q, ifaces') \<in> set objects \<Longrightarrow> modem_iface \<in> set ifaces' \<Longrightarrow> modem_matches b q sel = Some True \<Longrightarrow> path_rank p \<le> path_rank q"
proof -
  let ?ps = "sort_key path_rank (map fst (filter (\<lambda>(_, ifaces). modem_iface \<in> set ifaces) objects))"
  obtain i where i: "i < length ?ps" "modem_matches b (?ps ! i) sel = Some True" "p = ?ps ! i"
    "\<And>j. j < i \<Longrightarrow> modem_matches b (?ps ! j) sel \<noteq> Some True"
    using assms unfolding find_modem_def find_Some_iff by blast
  then show "modem_matches b p sel = Some True" by simp
  have "p \<in> set ?ps" unfolding i(3) using i(1) by (rule nth_mem)
  then show "\<exists>ifaces. (p, ifaces) \<in> set objects \<and> modem_iface \<in> set ifaces" by auto
  assume q: "(q, ifaces') \<in> set objects" "modem_iface \<in> set ifaces'" "modem_matches b q sel = Some True"
  then have "q \<in> set ?ps" by force
  then obtain j where j: "j < length ?ps" "q = ?ps ! j" by (metis in_set_conv_nth)
  then have "i \<le> j" using i(4) q(3) by (metis not_le_imp_less)
  then show "path_rank p \<le> path_rank q"
    using sorted_nth_mono [OF sorted_sort_key [of path_rank "map fst (filter (\<lambda>(_, ifaces). modem_iface \<in> set ifaces) objects)"]] i j by simp
qed

end
