(* ===== verification/Program.thy ===== *)
theory Program
  imports System ModemWatch
begin

text \<open>
  The watcher of the modem, the SIP element and the gateway together: the modem events of a run are those
  the watcher sent. What is shown is that a call never lacks its modem.
\<close>

section \<open>Who changes the modem\<close>

lemma modem_db [simp]: "gw_modem (snd (db_start_call ge dir peer gw)) = gw_modem gw" "gw_modem (cdr_answered ge cid gw) = gw_modem gw"
  "gw_modem (modem_does op gw) = gw_modem gw" "gw_modem (spawn_job j gw) = gw_modem gw"
  by (simp_all add: db_start_call_def cdr_answered_def db_run_def modem_does_def spawn_job_def Let_def split_beta split: option.split)

lemma modem_talks: "talks gw gw' \<Longrightarrow> gw_modem gw' = gw_modem gw"
  by (simp add: talks_def)

lemmas modem_media [simp] = talks_start_media [THEN modem_talks] talks_respond_with_media [THEN modem_talks]
  talks_on_alerting [THEN modem_talks] talks_reinvite [THEN modem_talks] talks_start_early_media [THEN modem_talks]
  talks_upgrade [THEN modem_talks] talks_send_provisional [THEN modem_talks]

lemma modem_new_invite [simp]: "gw_modem (on_new_invite ge req src gw) = gw_modem gw"
  by (simp add: on_new_invite_def place_call_def Let_def split_beta split: option.split sum.split)

lemma modem_dtmf [simp]: "gw_modem (snd (deliver_dtmf ge digits gw)) = gw_modem gw" "gw_modem (send_dtmf_info ge digit gw) = gw_modem gw"
  by (simp_all add: deliver_dtmf_def dtmf_by_modem_def dtmf_inband_def send_dtmf_info_def Let_def split_beta split: option.split)

lemma modem_sip_request [simp]: "gw_modem (on_sip_request ge req src gw) = gw_modem gw"
  by (simp add: on_sip_request_def on_sip_invite_def on_sip_bye_def on_sip_cancel_def on_sip_info_def on_sip_message_def
      Let_def split_beta split: sip_method.split option.split)

lemma modem_call_added [simp]: "gw_modem (on_mm_call_added ge path gw) = gw_modem gw"
proof -
  have "gw_modem (snd (start_sip_call ge path info gw)) = gw_modem gw" for info
    by (simp add: start_sip_call_def Let_def split_beta split: sum.split option.split)
  then show ?thesis by (simp add: on_mm_call_added_def Let_def split_beta split: option.split)
qed

lemma modem_call_state [simp]: "gw_modem (on_mm_call_state ge path new reason gw) = gw_modem gw"
proof -
  have "gw_modem (snd (case r of FromSip \<Rightarrow> respond_with_media ge 200 gw | ToSip \<Rightarrow> (True, gw))) = gw_modem gw" for r
    by (simp split: role.split)
  then have "gw_modem (on_modem_answered ge gw) = gw_modem gw"
    by (simp add: on_modem_answered_def Let_def split_beta split: option.split)
  then show ?thesis by (simp add: on_mm_call_state_def split: option.split)
qed

lemma modem_sip_failed [simp]: "gw_modem (on_sip_failed ge resp gw) = gw_modem gw"
proof -
  have "gw_modem (snd (retry_invite_with_auth ge resp g)) = gw_modem g" for g
    by (simp add: retry_invite_with_auth_def Let_def split_beta split: option.split)
  then show ?thesis by (simp add: on_sip_failed_def Let_def split_beta)
qed

lemma modem_sip_answered [simp]: "gw_modem (on_sip_answered ge resp gw) = gw_modem gw"
proof -
  have "gw_modem (connect_media ge s g) = gw_modem g" for s g
    by (simp add: connect_media_def Let_def split_beta split: option.split)
  then show ?thesis by (simp add: on_sip_answered_def Let_def split: option.split)
qed

lemma modem_sms [simp]: "gw_modem (on_sms_added w ge path received attempt gw) = gw_modem gw"
  by (simp add: on_sms_added_def handle_mms_push_def handle_text_sms_def Let_def split_beta split: option.split)

lemma modem_internal [simp]: "gw_modem (on_internal w ge ev gw) = gw_modem gw"
  by (cases ev) (simp_all add: on_internal_def on_ring_timeout_def Let_def)

lemma modem_check_media [simp]: "gw_modem (check_media ge gw) = gw_modem gw"
  by (simp add: check_media_def Let_def split: option.split)

lemma modem_set [simp]: "gw_modem (set_modem h gw) = h" "gw_call (set_modem h gw) = gw_call gw"
  by (simp_all add: set_modem_def)

lemma modem_tasks [simp]: "gw_modem (sms_submitted ge req src number body sent gw) = gw_modem gw"
  "gw_modem (mms_submitted ge req src outcome gw) = gw_modem gw"
  "gw_call (sms_submitted ge req src number body sent gw) = gw_call gw"
  "gw_call (mms_submitted ge req src outcome gw) = gw_call gw"
  by (simp_all add: sms_submitted_def mms_submitted_def db_run_def spawn_job_def Let_def split: option.split)

section \<open>A call has its modem\<close>

definition changes_modem :: "gw_event \<Rightarrow> bool" where
  "changes_modem ev \<longleftrightarrow> (case ev of ModemEvent e \<Rightarrow> \<not> of_call e | _ \<Rightarrow> False)"

lemma modem_kept: "\<not> changes_modem ev \<Longrightarrow> gw_modem (gw_step w ge ev gw) = gw_modem gw"
  by (cases ev) (auto simp: changes_modem_def of_call_def gw_step_def on_modem_event_def split: modem_event.splits)

lemma idle_without_modem:
  assumes "gw_call gw = None" and "gw_modem gw = None" shows "gw_call (gw_step w ge ev gw) = None"
proof (cases ev)
  case (SipRequest req src)
  with assms show ?thesis
    by (auto simp: gw_step_def on_sip_request_def on_sip_invite_def on_new_invite_def on_sip_bye_def on_sip_cancel_def
        on_sip_info_def on_sip_message_def spawn_job_def Let_def split: sip_method.split option.split)
next
  case (ModemEvent e)
  have "gw_call (on_sms_added w ge path received attempt gw) = None" for path received attempt
    using assms by (simp add: on_sms_added_def)
  with assms ModemEvent show ?thesis
    by (cases e) (simp_all add: gw_step_def on_modem_event_def on_mm_call_added_def)
next
  case (InternalEvent e)
  with assms show ?thesis
    by (cases e) (simp_all add: gw_step_def on_internal_def on_sms_added_def on_sip_answered_def on_sip_failed_def
        on_ring_timeout_def)
qed (use assms in \<open>simp_all add: gw_step_def\<close>)

text \<open>The modem events that are still to come, given that the modem is there or not.\<close>

definition modem_events_of :: "input list \<Rightarrow> modem_event list" where
  "modem_events_of ins = List.map_filter (\<lambda>i. case i of OtherEvent _ (ModemEvent e) \<Rightarrow> Some e | _ \<Rightarrow> None) ins"

definition served :: "(modem_handle \<Rightarrow> bool) \<Rightarrow> gateway \<Rightarrow> bool" where
  "served good gw \<longleftrightarrow> (case gw_modem gw of None \<Rightarrow> gw_call gw = None | Some h \<Rightarrow> good h)"

definition good_event :: "(modem_handle \<Rightarrow> bool) \<Rightarrow> modem_event \<Rightarrow> bool" where
  "good_event good e \<longleftrightarrow> (case e of ModemUp h \<Rightarrow> good h | _ \<Rightarrow> True)"

lemma served_kept: "served good gw \<Longrightarrow> \<not> changes_modem ev \<Longrightarrow> served good (gw_step w ge ev gw)"
  using idle_without_modem [of gw w ge ev] by (auto simp: served_def modem_kept split: option.splits)

lemma served_event:
  assumes "served good gw" and "bracketed (gw_modem gw \<noteq> None) (e # es)" and "good_event good e"
  shows "let gw' = gw_step w ge (ModemEvent e) gw in
    served good gw' \<and> bracketed (gw_modem gw' \<noteq> None) es \<and> (gw_modem gw' = gw_modem gw \<or> gw_call gw' = None)"
proof (cases "of_call e")
  case True
  then have "\<not> changes_modem (ModemEvent e)" by (simp add: changes_modem_def)
  from served_kept [OF assms(1) this] modem_kept [OF this] assms(2) True show ?thesis
    by (cases e) (auto simp: Let_def of_call_def)
next
  case False
  with assms show ?thesis
    by (cases e) (auto simp: gw_step_def on_modem_event_def served_def good_event_def of_call_def Let_def split: option.splits)
qed

lemma served_step:
  assumes "served good (sy_gw s)" and "bracketed (gw_modem (sy_gw s) \<noteq> None) (modem_events_of [i] @ es)"
    and "list_all (good_event good) (modem_events_of [i])"
  shows "let s' = sys_step w i s in
    served good (sy_gw s') \<and> bracketed (gw_modem (sy_gw s') \<noteq> None) es \<and>
    (gw_modem (sy_gw s') = gw_modem (sy_gw s) \<or> gw_call (sy_gw s') = None)"
proof -
  have other: ?thesis if "sy_gw (sys_step w i s) = gw_step w ge ev (sy_gw s)" "\<not> changes_modem ev" "modem_events_of [i] = []" for ge ev
    using served_kept [OF assms(1) that(2)] assms(2) that by (simp add: modem_kept)
  have plain: ?thesis if "gw_modem (sy_gw (sys_step w i s)) = gw_modem (sy_gw s)"
    "gw_call (sy_gw (sys_step w i s)) = gw_call (sy_gw s)" "modem_events_of [i] = []"
    using assms that by (auto simp: served_def split: option.splits)
  show ?thesis
  proof (cases i)
    case (TakeRequest ge)
    then show ?thesis
      using other [of ge "SipRequest (fst (queued s ! sy_taken s)) (snd (queued s ! sy_taken s))"] plain
      by (cases "sy_taken s < length (queued s)") (simp_all add: split_beta changes_modem_def modem_events_of_def map_filter_simps)
  next
    case (OtherEvent ge ev)
    then show ?thesis
      using other [of ge ev] plain served_event [OF assms(1), of _ es w ge] assms(2,3)
      by (cases ev) (simp_all add: changes_modem_def modem_events_of_def map_filter_simps Let_def)
  qed (use plain in \<open>simp_all add: modem_events_of_def map_filter_simps\<close>)
qed

lemma modem_events_append: "modem_events_of (xs @ ys) = modem_events_of xs @ modem_events_of ys"
  by (simp add: modem_events_of_def map_filter_def)

lemma served_run:
  assumes "served good (sy_gw s)" and "bracketed (gw_modem (sy_gw s) \<noteq> None) (modem_events_of ins @ es)"
    and "list_all (good_event good) (modem_events_of ins)"
  shows "served good (sy_gw (sys_run w ins s)) \<and> bracketed (gw_modem (sy_gw (sys_run w ins s)) \<noteq> None) es"
  using assms
proof (induction ins arbitrary: s)
  case (Cons i ins)
  have split: "modem_events_of (i # ins) = modem_events_of [i] @ modem_events_of ins"
    using modem_events_append [of "[i]" ins] by simp
  from served_step [of good s i "modem_events_of ins @ es" w] Cons.prems have
    "served good (sy_gw (sys_step w i s))" "bracketed (gw_modem (sy_gw (sys_step w i s)) \<noteq> None) (modem_events_of ins @ es)"
    by (simp_all add: split Let_def)
  from Cons.IH [OF this] Cons.prems(3) show ?case by (simp add: split sys_run_def)
qed (simp add: sys_run_def modem_events_of_def map_filter_simps)

lemma bracketed_prefix: "bracketed up (xs @ ys) \<Longrightarrow> bracketed up xs"
  by (induction up xs rule: bracketed.induct) auto

text \<open>Property C2: A call has its modem, in every run of the whole program. The modem events of the run being those the watcher sent,
  in their order and as far as they were taken, among datagrams, timers and tasks in any order: while there is no modem there is no call; the
  modem there is was found by the configured criteria and was enabled; and an input that changes the modem
  leaves no call, so that a call stays with the modem it began on.
\<close>

theorem calls_have_their_modem:
  assumes "gw_modem (sy_gw s) = None" and "gw_call (sy_gw s) = None"
    and "prefix (modem_events_of (ins @ [i])) (fst (watch_run cfg 1 attempts))"
  shows "let gw = sy_gw (sys_run w ins s); gw' = sy_gw (sys_run w (ins @ [i]) s) in
    served (\<lambda>h. list_ex (\<lambda>pr. usable cfg pr h) (presences attempts)) gw' \<and>
    (gw_modem gw' = gw_modem gw \<or> gw_call gw' = None)"
proof -
  let ?good = "\<lambda>h. list_ex (\<lambda>pr. usable cfg pr h) (presences attempts)"
  obtain es where es: "fst (watch_run cfg 1 attempts) = modem_events_of ins @ modem_events_of [i] @ es"
    using assms(3) by (auto simp: prefix_def modem_events_append)
  have "list_all (good_event ?good) (fst (watch_run cfg 1 attempts))"
    using run_usable [of cfg attempts 1]
    by (rule list.pred_mono_strong) (simp add: comes_up_usable_def good_event_def split: modem_event.splits)
  then have good: "list_all (good_event ?good) (modem_events_of ins)" "list_all (good_event ?good) (modem_events_of [i])"
    unfolding es by simp_all
  have "bracketed False (modem_events_of ins @ modem_events_of [i] @ es)" unfolding es [symmetric] by (rule run_bracketed)
  with assms(1,2) good(1) have "served ?good (sy_gw (sys_run w ins s)) \<and>
      bracketed (gw_modem (sy_gw (sys_run w ins s)) \<noteq> None) (modem_events_of [i] @ es)"
    by (intro served_run) (simp_all add: served_def)
  with served_step [of ?good "sys_run w ins s" i es w] good(2) show ?thesis
    by (simp add: Let_def sys_run_def)
qed

text \<open>A bus with one modem, enabled from the start, that the default configuration takes.\<close>

definition example_presence :: presence where
  "example_presence =
     (let props = \<lparr>mo_device = Some ''/sys/usb1'', mo_device_id = None, mo_equipment = Some ''3569'', mo_manufacturer = None,
            mo_model = None, mo_primary_port = None, mo_own_numbers = None, mo_ports = None, mo_sim = None, mo_bearers = None\<rparr>;
          b = \<lparr>bu_modem = (\<lambda>p. if p = ''/Modem/0'' then Some props else None), bu_sim = (\<lambda>_. None), bu_3gpp = (\<lambda>_. None),
            bu_bearer = (\<lambda>_. None), bu_call = (\<lambda>_. None), bu_sms = (\<lambda>_. None)\<rparr>
      in \<lparr>pr_scans = [Scan b [(''/Modem/0'', [modem_iface])]], pr_bus = b, pr_state = (\<lambda>_. Some 8),
          pr_at = \<lparr>ae_command = (\<lambda>_. Inl ''refused''), ae_open = (\<lambda>_. None), ae_reads = (\<lambda>_ _. [])\<rparr>,
          pr_cards = [], pr_canonical = (\<lambda>_. []), pr_subscribe = None, pr_names = True, pr_proxy = (\<lambda>_. True),
          pr_calls = Some [], pr_sms = Some [], pr_inputs = []\<rparr>)"

definition example_handle :: modem_handle where
  "example_handle = \<lparr>mh_path = ''/Modem/0'', mh_own_number = None, mh_alsa = None\<rparr>"

lemma example_found: "wait_for_modem (cf_modem default_config) (pr_scans example_presence) = Some (Inr ''/Modem/0'')"
  by (simp add: example_presence_def default_config_def default_modem_def find_modem_def modem_matches_def device_matches_def
      criterion_def sim_matches_def wanted_def non_empty_def Let_def)

lemma example_activation: "map_sum id av_handle (activate default_config example_presence ''/Modem/0'') = Inr example_handle"
  by (simp add: example_presence_def default_config_def default_modem_def default_audio_def activate_def Let_def wait_usable.simps
      MODEM_ENABLED_def resolve_alsa_def read_info_def non_empty_def example_handle_def)

lemma example_events: "fst (watch_run default_config 1 [OnBus [example_presence] 60]) = [ModemUp example_handle]"
proof -
  obtain av where av: "activate default_config example_presence ''/Modem/0'' = Inr av" "av_handle av = example_handle"
    using example_activation by (cases "activate default_config example_presence ''/Modem/0''") auto
  have "supervise example_presence ''/Modem/0'' = watch_new True"
    by (simp add: example_presence_def supervise_def some_or_none_def Let_def)
  with av example_found show ?thesis by (simp add: Let_def watch_new_def)
qed

lemma calls_have_their_modem_witness:
  "let i = OtherEvent example_world (ModemEvent (ModemUp example_handle));
       gw' = sy_gw (sys_run (\<lambda>_. False) [i] \<lparr>sy_gw = example_gateway\<lparr>gw_call := None, gw_modem := None\<rparr>, sy_taken = 0\<rparr>)
   in gw_modem gw' = Some example_handle \<and> usable default_config example_presence example_handle"
proof -
  let ?s = "\<lparr>sy_gw = example_gateway\<lparr>gw_call := None, gw_modem := None\<rparr>, sy_taken = 0\<rparr>"
  let ?i = "OtherEvent example_world (ModemEvent (ModemUp example_handle))"
  have up: "gw_modem (sy_gw (sys_run (\<lambda>_. False) [?i] ?s)) = Some example_handle"
    by (simp add: sys_run_def gw_step_def on_modem_event_def)
  have "prefix (modem_events_of ([] @ [?i])) (fst (watch_run default_config 1 [OnBus [example_presence] 60]))"
    unfolding example_events by (simp add: modem_events_of_def map_filter_simps)
  from calls_have_their_modem [OF _ _ this, of ?s "\<lambda>_. False"] up show ?thesis
    by (simp add: Let_def served_def)
qed

end
