(* ===== verification/Sound.thy ===== *)
theory Sound
  imports Audio Config
begin

text \<open>
  The stream between the rings of a call and the sound card of the modem (\<open>AudioStream\<close> and its two threads, \<open>src/audio/alsa_io.rs\<close>).
  The card is what it answers; gain and resampling, which are floating point, are a parameter with a state of its own. A
  thread looks at the stop flag where a turn begins, and a turn is one step; the pauses of the
  threads have no counterpart.
\<close>

section \<open>Opening the card\<close>

record audio_params =
  pa_capture_device :: string
  pa_playback_device :: string
  pa_card_rate :: u32
  pa_period_ms :: u32
  pa_periods :: u32
  pa_jitter_ms :: u32

datatype pcm_direction = PcmCapture | PcmPlayback

text \<open>What is asked of the card: the rate, the frames of a period and of the buffer, and, at the rate it granted, how many frames
  it starts at and wakes the thread for.\<close>

record pcm_request =
  pq_rate :: nat
  pq_period :: nat
  pq_buffer :: nat
  pq_start :: nat
  pq_avail :: nat

definition open_pcm :: "audio_params \<Rightarrow> pcm_direction \<Rightarrow> u32 \<Rightarrow> pcm_request" where
  "open_pcm p dir granted =
     (let period = period_frames (pa_card_rate p) (pa_period_ms p);
          given = period_frames granted (pa_period_ms p)
      in \<lparr>pq_rate = unat (pa_card_rate p), pq_period = period, pq_buffer = period * max (unat (pa_periods p)) 2,
          pq_start = (case dir of PcmPlayback \<Rightarrow> given | PcmCapture \<Rightarrow> 1), pq_avail = given\<rparr>)"

text \<open>What a thread reports of its opening, and whether it goes on; without its buffer interface it ends after the report, as a failure
  of the stream. The report of one that is still inside the call is missing.\<close>

datatype card_opening = OpenedAt u32 | OpenFails string | IoFails u32
datatype ready = Ready string u32 | NotReady string | Unheard

definition thread_opened :: "string \<Rightarrow> string \<Rightarrow> card_opening \<Rightarrow> ready \<times> bool" where
  "thread_opened what device opened =
     (case opened of
        OpenFails e \<Rightarrow> (NotReady (''opening ALSA '' @ what @ '' '' @ device @ '': '' @ e), False)
      | OpenedAt r \<Rightarrow> (Ready what r, True)
      | IoFails r \<Rightarrow> (Ready what r, False))"

text \<open>The first report that is no success decides; the threads are joined then, or, after the timeout, left to themselves.\<close>

datatype given_up = Joined | Detached

fun await_open :: "ready list \<Rightarrow> (string \<times> given_up) option" where
  "await_open [] = None"
| "await_open (Ready _ _ # rs) = await_open rs"
| "await_open (NotReady e # _) = Some (e, Joined)"
| "await_open (Unheard # _) = Some (''timed out opening the modem sound card'', Detached)"

section \<open>The two threads\<close>

record 'c card_thread =
  ct_alive :: bool
  ct_errors :: nat
  ct_conv :: 'c

record 'c sound =
  so_rings :: rings
  so_stop :: bool
  so_failed :: bool
  so_capture :: "'c card_thread"
  so_playback :: "'c card_thread"
  so_pending :: "i16 list"
  so_card :: "i16 list"

record 'c sound_env =
  sv_capture :: "i16 list \<Rightarrow> 'c \<Rightarrow> i16 list \<times> 'c"
  sv_playback :: "i16 list \<Rightarrow> 'c \<Rightarrow> i16 list \<times> 'c"
  sv_frames :: nat

datatype card_read = Frames "i16 list" | ReadFails
datatype card_write = Wrote nat | WriteFails

text \<open>Whether a thread goes on after an error, and its count; whether the card recovered makes no difference to that.\<close>

definition recover :: "nat \<Rightarrow> bool \<times> nat" where
  "recover errors = (let e = errors + 1 in (e \<le> 50, e))"

definition thread_fails :: "'c card_thread \<Rightarrow> bool \<times> 'c card_thread" where
  "thread_fails t = (case recover (ct_errors t) of (go_on, e) \<Rightarrow> (go_on, t\<lparr>ct_errors := e, ct_alive := go_on\<rparr>))"

definition capture_turn :: "'c sound_env \<Rightarrow> card_read \<Rightarrow> 'c sound \<Rightarrow> 'c sound" where
  "capture_turn sv r so =
     (let t = so_capture so in
      if \<not> ct_alive t then so
      else if so_stop so then so\<lparr>so_capture := t\<lparr>ct_alive := False\<rparr>\<rparr>
      else (case r of
          Frames buf \<Rightarrow>
            if buf = [] then so
            else (case sv_capture sv buf (ct_conv t) of
                (converted, c) \<Rightarrow> so\<lparr>so_rings := push_from_card converted (so_rings so),
                  so_capture := t\<lparr>ct_errors := 0, ct_conv := c\<rparr>\<rparr>)
        | ReadFails \<Rightarrow>
            (case thread_fails t of
               (go_on, t') \<Rightarrow> so\<lparr>so_failed := so_failed so \<or> \<not> go_on, so_capture := t'\<rparr>)))"

text \<open>A turn of the playback takes a chunk from the rings, or writes from the one it has.\<close>

definition playback_turn :: "'c sound_env \<Rightarrow> card_write \<Rightarrow> 'c sound \<Rightarrow> 'c sound" where
  "playback_turn sv w so =
     (let t = so_playback so in
      if \<not> ct_alive t then so
      else if so_stop so then so\<lparr>so_pending := [], so_playback := t\<lparr>ct_alive := False\<rparr>\<rparr>
      else if so_pending so = [] then
        (let (chunk, r) = take_for_card (sv_frames sv) (so_rings so);
             (converted, c) = sv_playback sv chunk (ct_conv t)
         in so\<lparr>so_rings := r, so_pending := converted, so_playback := t\<lparr>ct_conv := c\<rparr>\<rparr>)
      else (case w of
          Wrote n \<Rightarrow>
            if n = 0 then so
            else so\<lparr>so_card := so_card so @ take n (so_pending so), so_pending := drop n (so_pending so),
              so_playback := t\<lparr>ct_errors := 0\<rparr>\<rparr>
        | WriteFails \<Rightarrow>
            (case thread_fails t of
               (go_on, t') \<Rightarrow> so\<lparr>so_failed := so_failed so \<or> \<not> go_on, so_pending := [], so_playback := t'\<rparr>)))"

datatype sound_event = CaptureTurn card_read | PlaybackTurn card_write | PacketSide ring_op | StopSound

fun sound_step :: "'c sound_env \<Rightarrow> sound_event \<Rightarrow> 'c sound \<Rightarrow> 'c sound" where
  "sound_step sv (CaptureTurn r) so = capture_turn sv r so"
| "sound_step sv (PlaybackTurn w) so = playback_turn sv w so"
| "sound_step sv (PacketSide op) so = so\<lparr>so_rings := ring_step op (so_rings so)\<rparr>"
| "sound_step sv StopSound so = so\<lparr>so_stop := True\<rparr>"

definition sound_new :: "audio_params \<Rightarrow> 'c \<Rightarrow> 'c \<Rightarrow> 'c sound" where
  "sound_new p c c' =
     \<lparr>so_rings = rings_new (unat (pa_jitter_ms p)) (unat (pa_period_ms p)), so_stop = False, so_failed = False,
      so_capture = \<lparr>ct_alive = True, ct_errors = 0, ct_conv = c\<rparr>, so_playback = \<lparr>ct_alive = True, ct_errors = 0, ct_conv = c'\<rparr>,
      so_pending = [], so_card = []\<rparr>"

section \<open>What the stream guarantees\<close>

lemma rings_ok_ops:
  assumes "rings_ok t r"
  shows "rings_ok t (push_from_card s r)" "rings_ok t (push_from_network s r)" "rings_ok t (snd (take_for_card n r))"
  using rings_ok_step [OF assms, of "FromCard s"] rings_ok_step [OF assms, of "FromNetwork s"] rings_ok_step [OF assms, of "ToCard n"]
  by simp_all

definition sound_ok :: "nat \<Rightarrow> 'c sound \<Rightarrow> bool" where
  "sound_ok target so \<longleftrightarrow> rings_ok target (so_rings so) \<and>
     (\<forall>t \<in> {so_capture so, so_playback so}. ct_errors t \<le> (if ct_alive t then 50 else 51)) \<and>
     (so_failed so \<longleftrightarrow> ct_errors (so_capture so) = 51 \<or> ct_errors (so_playback so) = 51)"

lemma sound_ok_new: "sound_ok (rg_target (rings_new (unat (pa_jitter_ms p)) (unat (pa_period_ms p)))) (sound_new p c c')"
  by (simp add: sound_ok_def sound_new_def rings_ok_new)

lemma sound_ok_step: "sound_ok target so \<Longrightarrow> sound_ok target (sound_step sv ev so)"
proof (cases ev)
  case (CaptureTurn r)
  moreover assume "sound_ok target so"
  ultimately show ?thesis
    by (cases r) (auto simp: capture_turn_def sound_ok_def thread_fails_def recover_def Let_def rings_ok_ops split: prod.split if_splits)
next
  case (PlaybackTurn w)
  moreover assume "sound_ok target so"
  ultimately show ?thesis
    using rings_ok_ops(3) [of target "so_rings so" "sv_frames sv"]
    by (cases w) (auto simp: playback_turn_def sound_ok_def thread_fails_def recover_def Let_def split_beta split: if_splits)
qed (auto simp: sound_ok_def rings_ok_step)

text \<open>A stream is given up by a thread that saw 51 errors in a row, and by nothing else: a success sets its count
  back. Whatever the card does, the rings stay within their bounds.\<close>

lemma sound_ok_run: "sound_ok (rg_target (rings_new (unat (pa_jitter_ms p)) (unat (pa_period_ms p)))) (fold (sound_step sv) evs (sound_new p c c'))"
proof -
  have "sound_ok t so \<Longrightarrow> sound_ok t (fold (sound_step sv) evs so)" for t and so
    by (induction evs arbitrary: so) (simp_all add: sound_ok_step)
  then show ?thesis by (simp add: sound_ok_new)
qed

lemma success_forgives:
  "ct_alive (so_capture so) \<Longrightarrow> \<not> so_stop so \<Longrightarrow> buf \<noteq> [] \<Longrightarrow> ct_errors (so_capture (capture_turn sv (Frames buf) so)) = 0"
  "ct_alive (so_playback so) \<Longrightarrow> \<not> so_stop so \<Longrightarrow> so_pending so \<noteq> [] \<Longrightarrow> 0 < n \<Longrightarrow>
     ct_errors (so_playback (playback_turn sv (Wrote n) so)) = 0"
  by (simp_all add: capture_turn_def playback_turn_def Let_def split_beta)

text \<open>However little the card takes at a time, what it gets of a chunk is the chunk, in order, nothing
  twice and nothing left out.\<close>

lemma partial_writes:
  assumes "ct_alive (so_playback so)" and "\<not> so_stop so" and "list_all (\<lambda>n. 0 < n) ns" and "sum_list ns < length (so_pending so)"
  shows "let so' = fold (sound_step sv) (map (PlaybackTurn \<circ> Wrote) ns) so in
    so_card so' = so_card so @ take (sum_list ns) (so_pending so) \<and> so_pending so' = drop (sum_list ns) (so_pending so)"
  using assms
proof (induction ns arbitrary: so)
  case (Cons n ns)
  let ?so = "playback_turn sv (Wrote n) so"
  have so: "so_card ?so = so_card so @ take n (so_pending so)" "so_pending ?so = drop n (so_pending so)"
    "ct_alive (so_playback ?so)" "\<not> so_stop ?so"
    using Cons.prems by (auto simp: playback_turn_def Let_def)
  have "sum_list ns < length (so_pending ?so)" "list_all (\<lambda>n. 0 < n) ns" using Cons.prems so(2) by simp_all
  from Cons.IH [OF so(3,4) this(2,1)] show ?case by (simp add: so(1,2) Let_def take_add add.commute)
qed (simp add: Let_def)

text \<open>A stopped stream ends: the next turn of each thread is its last.\<close>

lemma stopped_threads_end:
  "so_stop so \<Longrightarrow> \<not> ct_alive (so_capture (capture_turn sv r so)) \<and> \<not> ct_alive (so_playback (playback_turn sv w so))"
  by (auto simp: capture_turn_def playback_turn_def Let_def)

text \<open>A stream that does not start has told why, and a thread that may still be inside the call is never waited for.\<close>

lemma await_open_detaches:
  "await_open rs = Some (e, Joined) \<Longrightarrow> NotReady e \<in> set rs" "await_open rs = Some (e, Detached) \<Longrightarrow> Unheard \<in> set rs"
  by (induction rs rule: await_open.induct) auto

end
