(* ===== verification/Upstream.thy ===== *)
theory Upstream
  imports SipCore Config
begin

text \<open>
  The registration of the gateway with an upstream registrar (\<open>src/sip/register.rs\<close>), and the transaction it
  rests on (\<open>transact\<close> of \<open>src/sip/core.rs\<close>). What arrives in answer to a request in time, the random bytes and the clock of
  each request, and the name service are the environment of a round. The loop's own state is the lifetime it asks for
  and the back-off; the element is shared with everything else, so every round finds whatever the
  others left.
\<close>

section \<open>Transactions\<close>

text \<open>
  The first request and, after a challenge, the one with credentials: the result, the requests that went out, and the
  element after them. A transaction is dropped as soon as its response is read, which stops its retransmission.
\<close>

definition exchange :: "sip_core \<Rightarrow> request \<Rightarrow> socket_addr \<Rightarrow> response list \<Rightarrow> string \<Rightarrow> (string + response) \<times> sip_core" where
  "exchange co req dest arrived timed_out =
     (case send_request co req dest of
        None \<Rightarrow> (Inl ''outgoing request has no Via branch'', co)
      | Some (branch, co1) \<Rightarrow>
          (case final_response arrived of Some r \<Rightarrow> Inr r | None \<Rightarrow> Inl timed_out,
           drop_client_txn branch (co_flags co) co1))"

definition transact :: "sip_core \<Rightarrow> sip_env \<Rightarrow> request \<Rightarrow> socket_addr \<Rightarrow> (string \<times> string) option \<Rightarrow>
    response list \<Rightarrow> response list \<Rightarrow> (string + response) \<times> request list \<times> sip_core" where
  "transact co en req dest creds arrived again =
     (case exchange co req dest arrived (''no final response to '' @ method_str (rq_method req)) of
        (Inl e, co1) \<Rightarrow> (Inl e, [req], co1)
      | (Inr resp, co1) \<Rightarrow>
          (case transact_first co1 en req creds resp of
             Done r \<Rightarrow> (Inr r, [req], co1)
           | NoUsableChallenge c \<Rightarrow>
               (Inl (show_nat (unat c) @ '' with no digest challenge this gateway can answer (MD5 only)''), [req], co1)
           | Again req2 co2 \<Rightarrow>
               (case exchange co2 req2 dest again ''no final response after authentication'' of
                  (r, co3) \<Rightarrow> (r, [req, req2], co3))))"

section \<open>One registration\<close>

record up_env =
  ue_first :: sip_env
  ue_second :: sip_env
  ue_lookup :: "string \<Rightarrow> u16 \<Rightarrow> socket_addr list"
  ue_arrived :: "response list"
  ue_again :: "response list"

definition registered_allow :: string where
  "registered_allow = ''INVITE, ACK, CANCEL, BYE, OPTIONS, INFO, MESSAGE''"

definition aor_user :: "upstream \<Rightarrow> string" where
  "aor_user up = (case up_from_user up of Some u \<Rightarrow> u | None \<Rightarrow> up_username up)"

definition our_contact :: "upstream \<Rightarrow> sip_core \<Rightarrow> sip_env \<Rightarrow> socket_addr \<Rightarrow> uri" where
  "our_contact up co en dest =
     uri_set_param
       (uri_new (Some (case up_contact_user up of Some u \<Rightarrow> u | None \<Rightarrow> aor_user up)) (show_ip (advertised_ip co en dest))
         (Some (sa_port (co_bound co))))
       ''transport'' (Some ''udp'')"

definition register_request :: "upstream \<Rightarrow> sip_core \<Rightarrow> sip_env \<Rightarrow> uri \<Rightarrow> socket_addr \<Rightarrow> string \<Rightarrow> string \<Rightarrow> u32 \<Rightarrow>
    request \<times> sip_core" where
  "register_request up co en registrar dest call_id local_tag expires =
     (let aor = uri_new (Some (aor_user up)) (u_host registrar) (u_port registrar);
          (cseq, co1) = next_cseq co;
          req = build_request co1 en Register (uri_new None (u_host registrar) (u_port registrar))
            (na_with_tag (name_addr_new aor) local_tag) (name_addr_new aor) call_id cseq dest False;
          h1 = hset (rq_headers req) ''contact'' (name_addr_show (name_addr_new (our_contact up co1 en dest)));
          h2 = hset h1 ''expires'' (show_nat (unat expires));
          h3 = hset h2 ''allow'' registered_allow
      in (req\<lparr>rq_headers := h3\<rparr>, co1))"

text \<open>A header field that holds a number.\<close>

definition number_in :: "string option \<Rightarrow> u32 option" where
  "number_in v = Option.bind v (\<lambda>s. parse_u32 (trim s))"

text \<open>The lifetime the registrar granted to our contact.\<close>

definition granted_lifetime :: "uri \<Rightarrow> u32 \<Rightarrow> response \<Rightarrow> u32" where
  "granted_lifetime contact expires resp =
     (let ours = find (\<lambda>c. uri_bare (na_uri c) = uri_bare contact)
            (List.map_filter name_addr_parse (hget_all (rs_headers resp) ''contact'')) in
      case first_of (Option.bind ours (\<lambda>c. number_in (na_param c ''expires''))) (number_in (hget (rs_headers resp) ''expires'')) of
        Some g \<Rightarrow> g
      | None \<Rightarrow> expires)"

text \<open>What a response means: the lifetime granted or an error, and the lifetime asked for from then on.\<close>

definition read_registration :: "uri \<Rightarrow> u32 \<Rightarrow> response \<Rightarrow> (string + u32) \<times> u32" where
  "read_registration contact expires resp =
     (if rs_code resp = 423 then
        (case number_in (hget (rs_headers resp) ''min-expires'') of
           Some m \<Rightarrow>
             if expires < m
             then (Inl (''retrying with the registrar's minimum expiry of '' @ show_nat (unat m) @ ''s''), m)
             else (Inl ''423 Interval Too Brief without a usable Min-Expires'', expires)
         | None \<Rightarrow> (Inl ''423 Interval Too Brief without a usable Min-Expires'', expires))
      else if \<not> is_success resp then
        (Inl (''registrar replied '' @ show_nat (unat (rs_code resp)) @ '' '' @ rs_reason resp), expires)
      else (let g = granted_lifetime contact expires resp in
        (if g = 0 then Inl ''registrar granted a zero lifetime'' else Inr g, expires)))"

record registration =
  rg_result :: "string + u32"
  rg_asked :: u32
  rg_requests :: "request list"

definition register_once :: "upstream \<Rightarrow> string \<Rightarrow> string \<Rightarrow> u32 \<Rightarrow> sip_core \<Rightarrow> up_env \<Rightarrow> registration \<times> sip_core" where
  "register_once up call_id local_tag expires co ue =
     (case uri_parse (up_registrar up) of
        None \<Rightarrow> (\<lparr>rg_result = Inl ''invalid registrar URI'', rg_asked = expires, rg_requests = []\<rparr>, co)
      | Some registrar \<Rightarrow>
          (case resolve_uri (ue_lookup ue) registrar of
             None \<Rightarrow>
               (\<lparr>rg_result = Inl (''no address for '' @ u_host registrar), rg_asked = expires, rg_requests = []\<rparr>, co)
           | Some dest \<Rightarrow>
               (let (req, co1) = register_request up co (ue_first ue) registrar dest call_id local_tag expires;
                    (res, reqs, co2) = transact co1 (ue_second ue) req dest (Some (up_username up, up_password up))
                      (ue_arrived ue) (ue_again ue) in
                case res of
                  Inl e \<Rightarrow> (\<lparr>rg_result = Inl e, rg_asked = expires, rg_requests = reqs\<rparr>, co2)
                | Inr resp \<Rightarrow>
                    (let (r, asked) = read_registration (our_contact up co1 (ue_first ue) dest) expires resp in
                     (\<lparr>rg_result = r, rg_asked = asked, rg_requests = reqs\<rparr>, co2)))))"

section \<open>The loop\<close>

text \<open>Times in seconds.\<close>

definition refresh_after :: "u32 \<Rightarrow> nat" where
  "refresh_after expires =
     (let granted = unat expires in min (max 5 (min 3600 (granted * 4 div 5))) (max 1 (granted - 1)))"

record reg_state =
  rl_asked :: u32
  rl_backoff :: nat

definition reg_initial :: "upstream \<Rightarrow> reg_state" where
  "reg_initial up = \<lparr>rl_asked = up_expires up, rl_backoff = 2\<rparr>"

text \<open>One round: what came of it, and how long the loop then sleeps.\<close>

definition reg_round :: "upstream \<Rightarrow> string \<Rightarrow> string \<Rightarrow> sip_core \<Rightarrow> up_env \<Rightarrow> reg_state \<Rightarrow>
    (registration \<times> nat) \<times> reg_state" where
  "reg_round up call_id local_tag co ue s =
     (let rg = fst (register_once up call_id local_tag (rl_asked s) co ue) in
      case rg_result rg of
        Inr expires \<Rightarrow> ((rg, refresh_after expires), \<lparr>rl_asked = rg_asked rg, rl_backoff = 2\<rparr>)
      | Inl _ \<Rightarrow> ((rg, rl_backoff s), \<lparr>rl_asked = rg_asked rg, rl_backoff = min (rl_backoff s * 2) 300\<rparr>))"

text \<open>The loop over the elements and environments its rounds find.\<close>

fun reg_run :: "upstream \<Rightarrow> string \<Rightarrow> string \<Rightarrow> (sip_core \<times> up_env) list \<Rightarrow> reg_state \<Rightarrow> (registration \<times> nat) list" where
  "reg_run up call_id local_tag [] s = []"
| "reg_run up call_id local_tag ((co, ue) # rounds) s =
     (let (r, s') = reg_round up call_id local_tag co ue s in r # reg_run up call_id local_tag rounds s')"

section \<open>What a round sends\<close>

text \<open>The header fields that make the registrations of a run one, and the numbers they are numbered with.\<close>

definition register_of :: "upstream \<Rightarrow> string \<Rightarrow> string \<Rightarrow> u32 \<Rightarrow> u32 \<Rightarrow> request \<Rightarrow> bool" where
  "register_of up call_id local_tag expires cseq r \<longleftrightarrow>
     (let h = rq_headers r in
      rq_method r = Register \<and> hget h ''call-id'' = Some call_id \<and>
      hget h ''cseq'' = Some (show_nat (unat cseq) @ '' REGISTER'') \<and> hget h ''expires'' = Some (show_nat (unat expires)) \<and>
      (\<exists>registrar. uri_parse (up_registrar up) = Some registrar \<and>
         (let aor = name_addr_new (uri_new (Some (aor_user up)) (u_host registrar) (u_port registrar)) in
          hget h ''from'' = Some (name_addr_show (na_with_tag aor local_tag)) \<and> hget h ''to'' = Some (name_addr_show aor))))"

lemmas header_facts = hs.get_set hs.get_set_other hs.get_push hs.get_push_other

lemma register_request_is:
  assumes "uri_parse (up_registrar up) = Some registrar"
    and "register_request up co en registrar dest call_id local_tag expires = (req, co1)"
  shows "register_of up call_id local_tag expires (co_cseq co) req" "co_cseq co1 = co_cseq co + 1"
  using assms
  by (auto simp: register_request_def register_of_def build_request_def request_new_def next_cseq_def Let_def
      header_facts split: if_splits)

lemma transact_first_again:
  assumes "transact_first co en req creds resp = Again req2 co2" and "register_of up call_id local_tag expires n req"
  shows "register_of up call_id local_tag expires (co_cseq co) req2"
proof -
  let ?h = "refresh_via_branch en (hset (rq_headers req) ''cseq''
    (show_nat (unat (co_cseq co)) @ '' '' @ method_str (rq_method req)))"
  have "rq_method req2 = rq_method req \<and>
    (\<exists>v. rq_headers req2 = hset ?h ''authorization'' v \<or> rq_headers req2 = hset ?h ''proxy-authorization'' v)"
    using assms(1) by (auto simp: transact_first_def next_cseq_def Let_def split: if_splits option.splits prod.splits)
  moreover have "canonical ''authorization'' = ''authorization''" "canonical ''proxy-authorization'' = ''proxy-authorization''"
    by code_simp+
  ultimately show ?thesis
    using assms(2)
    by (auto simp: register_of_def refresh_via_branch_def Let_def header_facts split: option.splits)
qed

lemma exchange_cseq: "snd (exchange co req dest arrived e) = co' \<Longrightarrow> co_cseq co' = co_cseq co"
  by (auto simp: exchange_def send_request_def drop_client_txn_def start_timer_def send_def stop_flag_def Let_def
      split: option.splits)

definition numbered :: "(u32 \<Rightarrow> request \<Rightarrow> bool) \<Rightarrow> u32 \<Rightarrow> request list \<Rightarrow> bool" where
  "numbered P n reqs \<longleftrightarrow> (case reqs of [] \<Rightarrow> True | [r] \<Rightarrow> P n r | [r, r2] \<Rightarrow> P n r \<and> P (n + 1) r2 | _ \<Rightarrow> False)"

lemma transact_sends:
  assumes "register_of up call_id local_tag expires n req" and "co_cseq co = n + 1"
    and "transact co en req dest creds arrived again = (res, reqs, co')"
  shows "numbered (register_of up call_id local_tag expires) n reqs"
proof -
  obtain r co1 where e: "exchange co req dest arrived (''no final response to '' @ method_str (rq_method req)) = (r, co1)"
    by fastforce
  then have c: "co_cseq co1 = n + 1" using exchange_cseq assms(2) by (metis snd_conv)
  show ?thesis
    using assms(1,3) e c transact_first_again [OF _ assms(1)]
    by (auto simp: transact_def numbered_def split: sum.splits transact_step.splits prod.splits) metis
qed

lemma read_registration_asks: "expires \<le> snd (read_registration contact expires resp)"
  by (auto simp: read_registration_def Let_def split: option.split)

lemma register_once_sends:
  "numbered (register_of up call_id local_tag expires) (co_cseq co)
     (rg_requests (fst (register_once up call_id local_tag expires co ue)))"
  "expires \<le> rg_asked (fst (register_once up call_id local_tag expires co ue))"
proof -
  have "numbered (register_of up call_id local_tag expires) (co_cseq co) reqs"
    if "uri_parse (up_registrar up) = Some registrar"
      "register_request up co (ue_first ue) registrar dest call_id local_tag expires = (req, co1)"
      "transact co1 en req dest creds arrived again = (res, reqs, co2)" for registrar dest req co1 en creds arrived again res reqs co2
    using transact_sends [OF register_request_is [OF that(1,2)] that(3)] .
  then show "numbered (register_of up call_id local_tag expires) (co_cseq co)
     (rg_requests (fst (register_once up call_id local_tag expires co ue)))"
    by (auto simp: register_once_def numbered_def Let_def split: option.split prod.split sum.split)
  show "expires \<le> rg_asked (fst (register_once up call_id local_tag expires co ue))"
    using read_registration_asks [of expires]
    by (auto simp: register_once_def Let_def split: option.split prod.split sum.split) (metis snd_conv)
qed

text \<open>
  The response a round came down to: the final one to the last request it sent. A request without a branch is not sent.
\<close>

definition answered_by :: "up_env \<Rightarrow> request list \<Rightarrow> response option" where
  "answered_by ue reqs =
     (let got = (\<lambda>r arrived. if Option.bind (h_top_via (rq_headers r)) via_branch = None then None else final_response arrived) in
      case reqs of [r] \<Rightarrow> got r (ue_arrived ue) | [r, r2] \<Rightarrow> got r2 (ue_again ue) | _ \<Rightarrow> None)"

definition named_minimum :: "response \<Rightarrow> u32 option" where
  "named_minimum resp = (if rs_code resp = 423 then number_in (hget (rs_headers resp) ''min-expires'') else None)"

text \<open>The lifetime asked for becomes the minimum a 423 named, if this is longer, and stays what it was in every other case.\<close>

definition demanded :: "up_env \<Rightarrow> u32 \<Rightarrow> registration \<Rightarrow> bool" where
  "demanded ue a rg \<longleftrightarrow>
     rg_asked rg = (case Option.bind (answered_by ue (rg_requests rg)) named_minimum of Some m \<Rightarrow> max a m | None \<Rightarrow> a)"

lemma read_registration_minimum:
  "snd (read_registration contact expires resp) = (case named_minimum resp of Some m \<Rightarrow> max expires m | None \<Rightarrow> expires)"
  by (auto simp: read_registration_def named_minimum_def Let_def max_def split: option.split)

lemma exchange_result:
  "fst (exchange co req dest arrived e) =
     (if Option.bind (h_top_via (rq_headers req)) via_branch = None then Inl ''outgoing request has no Via branch''
      else case final_response arrived of Some r \<Rightarrow> Inr r | None \<Rightarrow> Inl e)"
  by (auto simp: exchange_def send_request_def Let_def split: option.splits)

lemma transact_first_ends:
  assumes "transact_first co en req creds resp = Done r \<or> transact_first co en req creds resp = NoUsableChallenge c"
  shows "transact_first co en req creds resp = Done r \<Longrightarrow> r = resp"
    and "transact_first co en req creds resp = NoUsableChallenge c \<Longrightarrow> named_minimum resp = None"
  using assms by (auto simp: transact_first_def named_minimum_def Let_def split: if_splits option.splits prod.splits)

lemma transact_answered_by:
  assumes "transact co en req dest creds (ue_arrived ue) (ue_again ue) = (res, reqs, co')"
  shows "Option.bind (answered_by ue reqs) named_minimum = (case res of Inr resp \<Rightarrow> named_minimum resp | Inl _ \<Rightarrow> None)"
proof -
  let ?e = "''no final response to '' @ method_str (rq_method req)"
  obtain first co1 where e: "exchange co req dest (ue_arrived ue) ?e = (first, co1)" by fastforce
  note r = exchange_result [of co req dest "ue_arrived ue" ?e, unfolded e fst_conv]
  show ?thesis
  proof (cases first)
    case (Inl m)
    then show ?thesis using assms e r by (auto simp: transact_def answered_by_def split: if_splits option.splits)
  next
    case (Inr resp)
    then have got: "Option.bind (h_top_via (rq_headers req)) via_branch \<noteq> None" "final_response (ue_arrived ue) = Some resp"
      using r by (auto split: if_splits option.splits)
    show ?thesis
    proof (cases "transact_first co1 en req creds resp")
      case (Again req2 co2)
      obtain second co3 where e2: "exchange co2 req2 dest (ue_again ue) ''no final response after authentication'' = (second, co3)"
        by fastforce
      from exchange_result [of co2 req2 dest "ue_again ue" "''no final response after authentication''", unfolded e2 fst_conv]
      show ?thesis using assms e Inr Again e2 by (auto simp: transact_def answered_by_def split: if_splits option.splits)
    qed (use assms e Inr got transact_first_ends [of co1 en req creds resp] in
        \<open>auto simp: transact_def answered_by_def\<close>)
  qed
qed

lemma register_once_demanded: "demanded ue expires (fst (register_once up call_id local_tag expires co ue))"
proof -
  have "demanded ue expires \<lparr>rg_result = r, rg_asked = asked, rg_requests = reqs\<rparr>"
    if "transact co1 en req dest creds (ue_arrived ue) (ue_again ue) = (Inr resp, reqs, co2)"
      "read_registration contact expires resp = (r, asked)" for co1 en req dest creds resp reqs co2 contact r asked
    using transact_answered_by [OF that(1)] read_registration_minimum [of contact expires resp] that(2) by (simp add: demanded_def)
  moreover have "demanded ue expires \<lparr>rg_result = r, rg_asked = expires, rg_requests = reqs\<rparr>"
    if "transact co1 en req dest creds (ue_arrived ue) (ue_again ue) = (Inl e, reqs, co2)" for co1 en req dest creds e reqs co2 r
    using transact_answered_by [OF that] by (simp add: demanded_def)
  moreover have "demanded ue expires \<lparr>rg_result = r, rg_asked = expires, rg_requests = []\<rparr>" for r
    by (simp add: demanded_def answered_by_def)
  ultimately show ?thesis
    by (auto simp: register_once_def Let_def split: option.split prod.split sum.split)
qed

text \<open>
  A run, round by round, from a lifetime to ask for: at most two requests, numbered from the element's counter, both of the
  one registration and asking for that lifetime; the next round asks for what this one ended with.
\<close>

fun registers :: "upstream \<Rightarrow> string \<Rightarrow> string \<Rightarrow> u32 \<Rightarrow> (sip_core \<times> up_env) list \<Rightarrow> (registration \<times> nat) list \<Rightarrow> bool" where
  "registers up call_id local_tag a [] later = (later = [])"
| "registers up call_id local_tag a ((co, ue) # rounds) [] = False"
| "registers up call_id local_tag a ((co, ue) # rounds) ((rg, wait) # later) =
     (numbered (register_of up call_id local_tag a) (co_cseq co) (rg_requests rg) \<and> demanded ue a rg \<and>
      registers up call_id local_tag (rg_asked rg) rounds later)"

lemma reg_run_registers: "registers up call_id local_tag (rl_asked s) rounds (reg_run up call_id local_tag rounds s)"
proof (induction rounds arbitrary: s)
  case (Cons round rounds)
  obtain co ue where r: "round = (co, ue)" by fastforce
  let ?rg = "fst (register_once up call_id local_tag (rl_asked s) co ue)"
  obtain wait s' where w: "reg_round up call_id local_tag co ue s = ((?rg, wait), s')" "rl_asked s' = rg_asked ?rg"
    by (cases "rg_result ?rg") (simp_all add: reg_round_def Let_def)
  then show ?case using Cons [of s'] register_once_sends register_once_demanded by (simp add: r)
qed simp

lemma refresh_after_bounds:
  assumes "g \<noteq> 0"
  shows "1 \<le> refresh_after g" "refresh_after g \<le> 3600" "refresh_after g < unat g \<or> g = 1" "min 5 (unat g - 1) \<le> refresh_after g"
proof -
  have "0 < unat g" using assms by (simp add: unat_gt_0)
  moreover have "unat g = 1 \<longleftrightarrow> g = 1" by (metis unat_1 word_unat_eq_iff)
  ultimately show "1 \<le> refresh_after g" "refresh_after g \<le> 3600" "refresh_after g < unat g \<or> g = 1"
    "min 5 (unat g - 1) \<le> refresh_after g"
    by (auto simp: refresh_after_def Let_def)
qed

definition waits_well :: "registration \<times> nat \<Rightarrow> bool" where
  "waits_well r \<longleftrightarrow>
     (case r of (rg, wait) \<Rightarrow>
        (case rg_result rg of
           Inr g \<Rightarrow> 1 \<le> wait \<and> wait \<le> 3600 \<and> (wait < unat g \<or> g = 1) \<and> min 5 (unat g - 1) \<le> wait
         | Inl _ \<Rightarrow> 2 \<le> wait \<and> wait \<le> 300))"

lemma register_once_grants: "rg_result (fst (register_once up call_id local_tag expires co ue)) = Inr g \<Longrightarrow> g \<noteq> 0"
  by (auto simp: register_once_def read_registration_def Let_def split: option.splits prod.splits sum.splits if_splits)

lemma reg_run_waits:
  "2 \<le> rl_backoff s \<Longrightarrow> rl_backoff s \<le> 300 \<Longrightarrow> list_all waits_well (reg_run up call_id local_tag rounds s)"
proof (induction rounds arbitrary: s)
  case (Cons round rounds)
  obtain co ue where r: "round = (co, ue)" by fastforce
  let ?rg = "fst (register_once up call_id local_tag (rl_asked s) co ue)"
  obtain wait s' where w: "reg_round up call_id local_tag co ue s = ((?rg, wait), s')" "waits_well (?rg, wait)"
    "2 \<le> rl_backoff s'" "rl_backoff s' \<le> 300"
  proof (cases "rg_result ?rg")
    case (Inl e)
    then show ?thesis using that Cons.prems by (simp add: reg_round_def waits_well_def Let_def)
  next
    case (Inr g)
    then show ?thesis
      using that refresh_after_bounds [of g] register_once_grants [OF Inr] by (simp add: reg_round_def waits_well_def Let_def)
  qed
  then show ?case using Cons.IH [of s'] by (simp add: r)
qed simp

text \<open>Property C16: A registration never lapses for lack of a refresh, and a registrar that fails is never flooded. In every
  run, after a success the loop waits for less than the lifetime it was granted (or one second, the shortest wait, for a lifetime of one), for at most
  an hour and, unless the lifetime is shorter, for five seconds or more; after a failure, whatever it was, it
  tries again after two seconds to five minutes.
\<close>

theorem upstream_refreshed_in_time:
  "list_all (\<lambda>(rg, wait).
     case rg_result rg of
       Inr g \<Rightarrow> 1 \<le> wait \<and> wait \<le> 3600 \<and> (wait < unat g \<or> g = 1) \<and> min 5 (unat g - 1) \<le> wait
     | Inl _ \<Rightarrow> 2 \<le> wait \<and> wait \<le> 300) (reg_run up call_id local_tag rounds (reg_initial up))"
  using reg_run_waits [of "reg_initial up"] by (simp add: reg_initial_def waits_well_def [abs_def])

text \<open>Property C21: All registrations of a run are one. Every request is a REGISTER of the same Call-ID, From with the same
  tag, and To; a round sends at most two, with consecutive sequence numbers from the element's counter; the lifetime they ask for is the configured
  one until a registrar refuses it with a 423 that names a longer minimum, and then is exactly this minimum; no other response, and no silence,
  changes it.
\<close>

theorem upstream_registers_once:
  "registers up call_id local_tag (up_expires up) rounds (reg_run up call_id local_tag rounds (reg_initial up))"
  using reg_run_registers [of up call_id local_tag "reg_initial up" rounds] by (simp add: reg_initial_def)

end
