(* ===== verification/Dns.thy ===== *)
theory Dns
  imports Wsp Media
begin

unbundle bit_operations_syntax

text \<open>
  The resolver of \<open>src/mms/dns.rs\<close>: the query it builds, how it tells its answer from other datagrams,
  how it reads names and records, and the order in which servers and record types are tried. An error
  is the text on the left of a sum. The network is an argument: what happens to each query, with the
  datagrams that arrive before its deadline.
\<close>

section \<open>Names\<close>

definition TYPE_A :: u16 where "TYPE_A = 1"
definition TYPE_CNAME :: u16 where "TYPE_CNAME = 5"
definition TYPE_AAAA :: u16 where "TYPE_AAAA = 28"

definition from_be16 :: "u8 \<Rightarrow> u8 \<Rightarrow> u16" where
  "from_be16 a b = push_bit 8 (ucast a) OR ucast b"

text \<open>\<open>get\<close> of a slice, by an index and by a range.\<close>

definition byte_get :: "u8 list \<Rightarrow> nat \<Rightarrow> u8 option" where
  "byte_get msg i = (if i < length msg then Some (msg ! i) else None)"

definition range_get :: "u8 list \<Rightarrow> nat \<Rightarrow> nat \<Rightarrow> u8 list option" where
  "range_get msg a b = (if a \<le> b \<and> b \<le> length msg then Some (take (b - a) (drop a msg)) else None)"

fun skip_steps :: "nat \<Rightarrow> u8 list \<Rightarrow> nat \<Rightarrow> string + nat" where
  "skip_steps 0 msg pos = Inl ''name is too long''"
| "skip_steps (Suc n) msg pos =
     (case byte_get msg pos of
        None \<Rightarrow> Inl ''truncated name''
      | Some len \<Rightarrow>
          if len = 0 then Inr (pos + 1)
          else if len AND 0xC0 = 0xC0 then Inr (pos + 2)
          else skip_steps n msg (pos + (1 + unat len)))"

definition skip_name :: "u8 list \<Rightarrow> nat \<Rightarrow> string + nat" where
  "skip_name msg pos = skip_steps 128 msg pos"

text \<open>
  A pointer is followed at most 16 times, and between two of them the position only grows within the
  message: the loop ends on every message.
\<close>

function read_labels :: "u8 list \<Rightarrow> string \<Rightarrow> nat \<Rightarrow> nat \<Rightarrow> string + string" where
  "read_labels msg out hops pos =
     (case byte_get msg pos of
        None \<Rightarrow> Inl ''truncated name''
      | Some len \<Rightarrow>
          if len = 0 then Inr out
          else if len AND 0xC0 = 0xC0 then
            (case byte_get msg (pos + 1) of
               None \<Rightarrow> Inl ''truncated pointer''
             | Some lo \<Rightarrow>
                 if 16 < hops + 1 then Inl ''compression loop''
                 else read_labels msg out (hops + 1) (push_bit 8 (unat (len AND 0x3F)) OR unat lo))
          else
            (let start = pos + 1; end' = start + unat len in
             case range_get msg start end' of
               None \<Rightarrow> Inl ''truncated label''
             | Some label \<Rightarrow> read_labels msg (out @ (if out = [] then [] else ''.'') @ lossy label) hops end'))"
  by pat_completeness auto
termination
  by (relation "measures [\<lambda>(msg, out, hops, pos). 17 - hops, \<lambda>(msg, out, hops, pos). Suc (length msg) - pos]")
    (auto simp: byte_get_def range_get_def split: if_splits)

declare read_labels.simps [simp del]

definition read_name :: "u8 list \<Rightarrow> nat \<Rightarrow> string + string" where
  "read_name msg pos = read_labels msg [] 0 pos"

section \<open>Queries and answers\<close>

fun write_labels :: "string list \<Rightarrow> u8 list option" where
  "write_labels [] = Some []"
| "write_labels (l # ls) =
     (if l = [] \<or> 63 < length l then None
      else map_option (\<lambda>r. of_nat (length l) # text_bytes l @ r) (write_labels ls))"

definition host_labels :: "string \<Rightarrow> string list" where
  "host_labels host = split_on (CHR ''.'') (trim_end_matches (\<lambda>c. c = CHR ''.'') host)"

definition build_query :: "u16 \<Rightarrow> string \<Rightarrow> u16 \<Rightarrow> string + u8 list" where
  "build_query qid host qtype =
     (case write_labels (host_labels host) of
        None \<Rightarrow> Inl (''invalid host name: '' @ host)
      | Some ls \<Rightarrow> Inr (be16 qid @ be16 0x0100 @ be16 1 @ [0, 0, 0, 0, 0, 0] @ ls @ [0] @ be16 qtype @ be16 1))"

datatype dns_reply = Ours | Rejected u16 | NotOurs

definition question_echoed :: "u8 list \<Rightarrow> string \<Rightarrow> u16 \<Rightarrow> bool" where
  "question_echoed msg host qtype \<longleftrightarrow>
     from_be16 (msg ! 4) (msg ! 5) = 1 \<and>
     (case (read_name msg 12, skip_name msg 12) of
        (Inr name, Inr after) \<Rightarrow>
          (case range_get msg after (after + 4) of
             Some q \<Rightarrow> from_be16 (q ! 0) (q ! 1) = qtype \<and> from_be16 (q ! 2) (q ! 3) = 1 \<and>
               eq_ignore_ascii_case name (trim_end_matches (\<lambda>c. c = CHR ''.'') host)
           | None \<Rightarrow> False)
      | _ \<Rightarrow> False)"

definition classify :: "u8 list \<Rightarrow> u16 \<Rightarrow> string \<Rightarrow> u16 \<Rightarrow> dns_reply" where
  "classify msg want_id host qtype =
     (if length msg < 12 \<or> from_be16 (msg ! 0) (msg ! 1) \<noteq> want_id then NotOurs
      else (let flags = from_be16 (msg ! 2) (msg ! 3) in
        if flags AND 0x8000 = 0 then NotOurs
        else if question_echoed msg host qtype then Ours
        else if flags AND 0x000F = 0 then NotOurs
        else Rejected (flags AND 0x000F)))"

record dns_answer =
  an_addrs :: "ip_addr list"
  an_cname :: "string option"

fun skip_questions :: "nat \<Rightarrow> u8 list \<Rightarrow> nat \<Rightarrow> string + nat" where
  "skip_questions 0 msg pos = Inr pos"
| "skip_questions (Suc n) msg pos =
     (case skip_name msg pos of Inl e \<Rightarrow> Inl e | Inr p \<Rightarrow> skip_questions n msg (p + 4))"

definition octets_value :: "u8 list \<Rightarrow> u128" where
  "octets_value bs = foldl (\<lambda>acc b. push_bit 8 acc OR ucast b) 0 bs"

definition read_record :: "u8 list \<Rightarrow> u16 \<Rightarrow> nat \<Rightarrow> dns_answer \<Rightarrow> string + nat \<times> dns_answer" where
  "read_record msg qtype pos0 answer =
     (case skip_name msg pos0 of
        Inl e \<Rightarrow> Inl e
      | Inr pos \<Rightarrow>
          (case range_get msg pos (pos + 10) of
             None \<Rightarrow> Inl ''truncated record''
           | Some header \<Rightarrow>
               (let rtype = from_be16 (header ! 0) (header ! 1);
                    rdlen = unat (from_be16 (header ! 8) (header ! 9));
                    pos = pos + 10 in
                case range_get msg pos (pos + rdlen) of
                  None \<Rightarrow> Inl ''truncated rdata''
                | Some rdata \<Rightarrow> Inr (pos + rdlen,
                    if rtype = TYPE_A \<and> rdlen = 4 \<and> qtype = TYPE_A then
                      answer\<lparr>an_addrs := an_addrs answer @ [V4 (from_be32 (rdata ! 0) (rdata ! 1) (rdata ! 2) (rdata ! 3))]\<rparr>
                    else if rtype = TYPE_AAAA \<and> rdlen = 16 \<and> qtype = TYPE_AAAA then
                      answer\<lparr>an_addrs := an_addrs answer @ [V6 (octets_value rdata)]\<rparr>
                    else if rtype = TYPE_CNAME \<and> an_cname answer = None then
                      answer\<lparr>an_cname := (case read_name msg pos of Inr n \<Rightarrow> Some n | Inl _ \<Rightarrow> None)\<rparr>
                    else answer))))"

fun read_records :: "nat \<Rightarrow> u8 list \<Rightarrow> u16 \<Rightarrow> nat \<Rightarrow> dns_answer \<Rightarrow> string + dns_answer" where
  "read_records 0 msg qtype pos answer = Inr answer"
| "read_records (Suc n) msg qtype pos answer =
     (case read_record msg qtype pos answer of
        Inl e \<Rightarrow> Inl e
      | Inr (pos', answer') \<Rightarrow> read_records n msg qtype pos' answer')"

definition parse_answer :: "u8 list \<Rightarrow> u16 \<Rightarrow> u16 \<Rightarrow> string + dns_answer" where
  "parse_answer msg want_id qtype =
     (if length msg < 12 then Inl ''short DNS response''
      else if from_be16 (msg ! 0) (msg ! 1) \<noteq> want_id then Inl ''DNS response id mismatch''
      else (let flags = from_be16 (msg ! 2) (msg ! 3); rcode = flags AND 0x000F in
        if flags AND 0x8000 = 0 then Inl ''not a DNS response''
        else if rcode = 3 then Inl ''NXDOMAIN''
        else if rcode \<noteq> 0 then Inl (''DNS rcode '' @ show_nat (unat rcode))
        else (let qdcount = from_be16 (msg ! 4) (msg ! 5); ancount = from_be16 (msg ! 6) (msg ! 7) in
          case skip_questions (unat qdcount) msg 12 of
            Inl e \<Rightarrow> Inl e
          | Inr pos \<Rightarrow> read_records (unat ancount) msg qtype pos \<lparr>an_addrs = [], an_cname = None\<rparr>)))"

section \<open>Asking\<close>

record resolver =
  rs_servers :: "ip_addr list"
  rs_interface :: "string option"
  rs_local :: "ip_addr option"
  rs_timeout :: nat

definition is_usable :: "resolver \<Rightarrow> bool" where
  "is_usable rs \<longleftrightarrow> rs_servers rs \<noteq> []"

definition query_bind :: "ip_addr option \<Rightarrow> ip_addr \<Rightarrow> socket_addr" where
  "query_bind local_ip server =
     (case (local_ip, server) of
        (Some (V4 a), V4 _) \<Rightarrow> \<lparr>sa_ip = V4 a, sa_port = 0\<rparr>
      | (_, V4 _) \<Rightarrow> \<lparr>sa_ip = V4 0, sa_port = 0\<rparr>
      | (Some (V6 a), V6 _) \<Rightarrow> \<lparr>sa_ip = V6 a, sa_port = 0\<rparr>
      | (_, V6 _) \<Rightarrow> \<lparr>sa_ip = V6 0, sa_port = 0\<rparr>)"

text \<open>
  What the network does with one query: whether a socket bound to the address and interface connects
  to the server, the identifier drawn, whether sending fails, the datagrams that arrive on the
  connected socket before the deadline, and the error of the receive behind them, if it is not the
  deadline.
\<close>

record dns_try =
  dt_socket :: "socket_addr \<Rightarrow> string option \<Rightarrow> string option"
  dt_id :: u16
  dt_send :: "u8 list \<Rightarrow> string option"
  dt_datagrams :: "u8 list list"
  dt_receive :: "string option"

type_synonym network = "ip_addr \<Rightarrow> string \<Rightarrow> u16 \<Rightarrow> dns_try"

definition buffer_size :: nat where "buffer_size = 4096"

fun await_answer :: "ip_addr \<Rightarrow> u16 \<Rightarrow> string \<Rightarrow> u16 \<Rightarrow> u8 list list \<Rightarrow> string option \<Rightarrow> string + dns_answer" where
  "await_answer server qid host qtype [] failure =
     Inl (case failure of Some e \<Rightarrow> e | None \<Rightarrow> show_ip server @ '' did not answer'')"
| "await_answer server qid host qtype (d # ds) failure =
     (let msg = take buffer_size d in
      case classify msg qid host qtype of
        Ours \<Rightarrow> parse_answer msg qid qtype
      | Rejected rcode \<Rightarrow> Inl (show_ip server @ '' answered rcode '' @ show_nat (unat rcode))
      | NotOurs \<Rightarrow> await_answer server qid host qtype ds failure)"

definition dns_query :: "network \<Rightarrow> resolver \<Rightarrow> ip_addr \<Rightarrow> string \<Rightarrow> u16 \<Rightarrow> string + dns_answer" where
  "dns_query net rs server host qtype =
     (let t = net server host qtype in
      case dt_socket t (query_bind (rs_local rs) server) (rs_interface rs) of
        Some e \<Rightarrow> Inl e
      | None \<Rightarrow>
          (case build_query (dt_id t) host qtype of
             Inl e \<Rightarrow> Inl e
           | Inr q \<Rightarrow>
               (case dt_send t q of
                  Some e \<Rightarrow> Inl e
                | None \<Rightarrow> await_answer server (dt_id t) host qtype (dt_datagrams t) (dt_receive t))))"

fun query_servers ::
  "network \<Rightarrow> resolver \<Rightarrow> string \<Rightarrow> u16 \<Rightarrow> ip_addr list \<Rightarrow> string option \<Rightarrow> string + ip_addr list" where
  "query_servers net rs host qtype [] previous =
     Inl (case previous of Some e \<Rightarrow> e | None \<Rightarrow> ''no answer'')"
| "query_servers net rs host qtype (server # servers) previous =
     (case dns_query net rs server host qtype of
        Inr a \<Rightarrow>
          if an_addrs a \<noteq> [] then Inr (an_addrs a)
          else (case an_cname a of
              Some target \<Rightarrow>
                (case dns_query net rs server target qtype of
                   Inr b \<Rightarrow> if an_addrs b \<noteq> [] then Inr (an_addrs b)
                     else query_servers net rs host qtype servers previous
                 | Inl _ \<Rightarrow> query_servers net rs host qtype servers previous)
            | None \<Rightarrow> query_servers net rs host qtype servers previous)
      | Inl e \<Rightarrow> query_servers net rs host qtype servers (Some e))"

definition query_all_servers :: "network \<Rightarrow> resolver \<Rightarrow> string \<Rightarrow> u16 \<Rightarrow> string + ip_addr list" where
  "query_all_servers net rs host qtype = query_servers net rs host qtype (rs_servers rs) None"

fun lookup_types :: "network \<Rightarrow> resolver \<Rightarrow> string \<Rightarrow> u16 list \<Rightarrow> ip_addr list \<Rightarrow> ip_addr list" where
  "lookup_types net rs host [] addrs = addrs"
| "lookup_types net rs host (qtype # qtypes) addrs =
     (let found = addrs @ (case query_all_servers net rs host qtype of Inr a \<Rightarrow> a | Inl _ \<Rightarrow> []) in
      if found \<noteq> [] \<and> qtype = TYPE_A then found else lookup_types net rs host qtypes found)"

definition dns_lookup :: "network \<Rightarrow> resolver \<Rightarrow> string \<Rightarrow> u16 \<Rightarrow> string + socket_addr list" where
  "dns_lookup net rs host port =
     (case parse_ip_addr host of
        Some ip \<Rightarrow> Inr [\<lparr>sa_ip = ip, sa_port = port\<rparr>]
      | None \<Rightarrow>
          if \<not> is_usable rs then Inl ''no carrier DNS server known''
          else (let addrs = lookup_types net rs host [TYPE_A, TYPE_AAAA] [] in
            if addrs = [] then Inl (''carrier DNS has no address for '' @ host)
            else Inr (map (\<lambda>ip. \<lparr>sa_ip = ip, sa_port = port\<rparr>) addrs)))"

section \<open>Our own question\<close>

lemma label_byte:
  assumes "n \<le> 63" "n \<noteq> 0"
  shows "unat (of_nat n :: u8) = n" "(of_nat n :: u8) \<noteq> 0" "(of_nat n :: u8) AND 0xC0 \<noteq> 0xC0"
proof -
  show n: "unat (of_nat n :: u8) = n" using assms(1) by (simp add: unat_of_nat)
  show "(of_nat n :: u8) \<noteq> 0" using n assms(2) by auto
  show "(of_nat n :: u8) AND 0xC0 \<noteq> 0xC0"
  proof
    assume "(of_nat n :: u8) AND 0xC0 = 0xC0"
    then have "(0xC0 :: u8) \<le> of_nat n" by (metis word_and_le2)
    then show False using n assms(1) by (simp add: word_le_nat_alt)
  qed
qed

definition labels_ok :: "string list \<Rightarrow> bool" where
  "labels_ok ls \<longleftrightarrow> list_all (\<lambda>l. l \<noteq> [] \<and> length l \<le> 63 \<and> is_ascii l) ls"

lemma labels_ok_simps [simp]:
  "labels_ok []" "labels_ok (l # ls) \<longleftrightarrow> l \<noteq> [] \<and> length l \<le> 63 \<and> is_ascii l \<and> labels_ok ls"
  by (auto simp: labels_ok_def)

fun labels_bytes :: "string list \<Rightarrow> u8 list" where
  "labels_bytes [] = []"
| "labels_bytes (l # ls) = of_nat (length l) # text_bytes l @ labels_bytes ls"

lemma write_labels_ok: "labels_ok ls \<Longrightarrow> write_labels ls = Some (labels_bytes ls)"
  by (induction ls) auto

lemma skip_steps_labels:
  "labels_ok ls \<Longrightarrow> length ls < n \<Longrightarrow>
     skip_steps n (pre @ labels_bytes ls @ 0 # post) (length pre) = Inr (length pre + length (labels_bytes ls) + 1)"
proof (induction ls arbitrary: n pre)
  case Nil
  then show ?case by (cases n) (auto simp: byte_get_def)
next
  case (Cons l ls)
  then obtain m where n: "n = Suc m" by (cases n) auto
  note b = label_byte [of "length l"]
  let ?pre = "pre @ of_nat (length l) # text_bytes l"
  have "skip_steps m (?pre @ labels_bytes ls @ 0 # post) (length ?pre) =
      Inr (length ?pre + length (labels_bytes ls) + 1)"
    by (rule Cons.IH) (use Cons.prems n in auto)
  then show ?case using n b Cons.prems by (simp add: byte_get_def nth_append)
qed

lemma lossy_ascii: "is_ascii s \<Longrightarrow> lossy (text_bytes s) = s"
  by (simp add: lossy_def from_utf8_lossy_valid utf8_valid_ascii)

lemma join_Cons: "join [c] (l # ls) = l @ concat (map (Cons c) ls)"
  by (induction ls arbitrary: l) auto

lemma read_labels_labels:
  "labels_ok ls \<Longrightarrow> read_labels (pre @ labels_bytes ls @ 0 # post) out hops (length pre) =
     Inr (if out = [] then join ''.'' ls else out @ concat (map (Cons (CHR ''.'')) ls))"
proof (induction ls arbitrary: pre out)
  case Nil
  then show ?case
    by (subst read_labels.simps) (simp add: byte_get_def)
next
  case (Cons l ls)
  note b = label_byte [of "length l"]
  let ?pre = "pre @ of_nat (length l) # text_bytes l"
  let ?out = "out @ (if out = [] then [] else ''.'') @ l"
  let ?msg = "?pre @ labels_bytes ls @ 0 # post"
  have "range_get ?msg (length pre + 1) (length pre + 1 + length l) = Some (text_bytes l)"
    by (simp add: range_get_def)
  moreover have "byte_get ?msg (length pre) = Some (of_nat (length l))" by (simp add: byte_get_def nth_append)
  ultimately have "read_labels ?msg out hops (length pre) = read_labels ?msg ?out hops (length ?pre)"
    using b Cons.prems by (subst read_labels.simps) (simp add: lossy_ascii)
  also have "\<dots> = Inr (?out @ concat (map (Cons (CHR ''.'')) ls))"
    using Cons.IH [of ?pre ?out] Cons.prems by simp
  finally show ?case by (simp add: join_Cons)
qed

lemma from_be16_be16 [simp]: "from_be16 (ucast (drop_bit 8 w)) (ucast w) = w"
  by (rule bit_word_eqI)
    (auto simp: from_be16_def bit_or_iff bit_push_bit_iff bit_unsigned_iff bit_drop_bit_eq)

lemma from_be32_be32 [simp]:
  "from_be32 (ucast (drop_bit 24 w)) (ucast (drop_bit 16 w)) (ucast (drop_bit 8 w)) (ucast w) = w"
proof (rule bit_word_eqI)
  fix n
  assume "n < LENGTH(32)"
  then consider "n < 8" | "8 \<le> n" "n < 16" | "16 \<le> n" "n < 24" | "24 \<le> n" "n < 32" by fastforce
  then show "bit (from_be32 (ucast (drop_bit 24 w)) (ucast (drop_bit 16 w)) (ucast (drop_bit 8 w)) (ucast w)) n =
      bit w n"
    by cases (auto simp: from_be32_def bit_or_iff bit_push_bit_iff bit_unsigned_iff bit_drop_bit_eq)
qed

lemma skip_name_pointer:
  "byte_get msg pos = Some len \<Longrightarrow> len AND 0xC0 = 0xC0 \<Longrightarrow> skip_name msg pos = Inr (pos + 2)"
  using skip_steps.simps(2) [of 127 msg pos] by (auto simp: skip_name_def)

text \<open>An answer of the shape resolvers send: our question, and an address record for each address.\<close>

definition address_record :: "u32 \<Rightarrow> u32 \<Rightarrow> u8 list" where
  "address_record ttl a = [0xC0, 0x0C] @ be16 TYPE_A @ be16 1 @ be32 ttl @ be16 4 @ be32 a"

definition honest_answer :: "u16 \<Rightarrow> string list \<Rightarrow> u32 \<Rightarrow> u32 list \<Rightarrow> u8 list" where
  "honest_answer qid ls ttl addrs =
     be16 qid @ be16 0x8180 @ be16 1 @ be16 (of_nat (length addrs)) @ [0, 0, 0, 0] @
     labels_bytes ls @ [0] @ be16 TYPE_A @ be16 1 @ concat (map (address_record ttl) addrs)"

lemma read_address_record:
  "read_record (pre @ address_record ttl a @ post) TYPE_A (length pre) ans =
     Inr (length pre + length (address_record ttl a), ans\<lparr>an_addrs := an_addrs ans @ [V4 a]\<rparr>)"
proof -
  let ?msg = "pre @ address_record ttl a @ post" and ?p = "length pre"
  let ?h = "be16 TYPE_A @ be16 1 @ be32 ttl @ be16 4"
  have skip: "skip_name ?msg ?p = Inr (?p + 2)"
    by (rule skip_name_pointer [of _ _ "0xC0"]) (simp_all add: byte_get_def nth_append address_record_def)
  have header: "range_get ?msg (?p + 2) (?p + 2 + 10) = Some ?h"
    by (simp add: range_get_def address_record_def be16_def be32_def)
  have rdata: "range_get ?msg (?p + 2 + 10) (?p + 2 + 10 + 4) = Some (be32 a)"
    by (simp add: range_get_def address_record_def be16_def be32_def)
  have h: "from_be16 (?h ! 0) (?h ! 1) = TYPE_A" "unat (from_be16 (?h ! 8) (?h ! 9)) = 4"
    by (simp add: be16_def be32_def) (simp add: be16_def be32_def from_be16_def)
  have a: "from_be32 (be32 a ! 0) (be32 a ! 1) (be32 a ! 2) (be32 a ! 3) = a" by (simp add: be32_def)
  have "length (address_record ttl a) = 16" by (simp add: address_record_def be16_def be32_def)
  then show ?thesis
    unfolding read_record_def skip sum.case header option.case Let_def h rdata a by simp
qed

lemma read_records_honest:
  "read_records (length addrs) (pre @ concat (map (address_record ttl) addrs)) TYPE_A (length pre) ans =
     Inr (ans\<lparr>an_addrs := an_addrs ans @ map V4 addrs\<rparr>)"
proof (induction addrs arbitrary: pre ans)
  case (Cons a addrs)
  let ?pre = "pre @ address_record ttl a"
  have "read_records (length addrs) (?pre @ concat (map (address_record ttl) addrs)) TYPE_A (length ?pre)
      (ans\<lparr>an_addrs := an_addrs ans @ [V4 a]\<rparr>) =
    Inr (ans\<lparr>an_addrs := an_addrs ans @ map V4 (a # addrs)\<rparr>)"
    using Cons [of ?pre "ans\<lparr>an_addrs := an_addrs ans @ [V4 a]\<rparr>"] by simp
  then show ?case using read_address_record [of pre ttl a] by simp
qed simp

lemma honest_question:
  assumes "labels_ok ls" "length ls < 128"
  shows "read_name (honest_answer qid ls ttl addrs) 12 = Inr (join ''.'' ls)"
    and "skip_name (honest_answer qid ls ttl addrs) 12 = Inr (12 + length (labels_bytes ls) + 1)"
proof -
  let ?pre = "be16 qid @ be16 0x8180 @ be16 1 @ be16 (of_nat (length addrs)) @ [0, 0, 0, 0]"
  let ?post = "be16 TYPE_A @ be16 1 @ concat (map (address_record ttl) addrs)"
  have m: "honest_answer qid ls ttl addrs = ?pre @ labels_bytes ls @ 0 # ?post" by (simp add: honest_answer_def)
  have l: "length ?pre = 12" by (simp add: be16_def)
  show "read_name (honest_answer qid ls ttl addrs) 12 = Inr (join ''.'' ls)"
    unfolding m read_name_def using read_labels_labels [OF assms(1), of ?pre ?post "[]" 0] by (simp only: l) simp
  show "skip_name (honest_answer qid ls ttl addrs) 12 = Inr (12 + length (labels_bytes ls) + 1)"
    unfolding m skip_name_def using skip_steps_labels [OF assms, of ?pre ?post] by (simp only: l)
qed

lemma honest_header:
  "12 \<le> length (honest_answer qid ls ttl addrs)"
  "from_be16 (honest_answer qid ls ttl addrs ! 0) (honest_answer qid ls ttl addrs ! 1) = qid"
  "from_be16 (honest_answer qid ls ttl addrs ! 2) (honest_answer qid ls ttl addrs ! 3) = 0x8180"
  "from_be16 (honest_answer qid ls ttl addrs ! 4) (honest_answer qid ls ttl addrs ! 5) = 1"
  "from_be16 (honest_answer qid ls ttl addrs ! 6) (honest_answer qid ls ttl addrs ! 7) = of_nat (length addrs)"
proof -
  have b: "be16 w = [ucast (drop_bit 8 w), ucast w]" for w by (rule be16_def)
  have v: "from_be16 0x81 0x8180 = 0x8180" "from_be16 0 1 = 1" by (simp_all add: from_be16_def)
  obtain t where "honest_answer qid ls ttl addrs = be16 qid @ be16 0x8180 @ be16 1 @
      be16 (of_nat (length addrs)) @ t" "4 \<le> length t"
    by (simp add: honest_answer_def)
  then show "12 \<le> length (honest_answer qid ls ttl addrs)"
    "from_be16 (honest_answer qid ls ttl addrs ! 0) (honest_answer qid ls ttl addrs ! 1) = qid"
    "from_be16 (honest_answer qid ls ttl addrs ! 2) (honest_answer qid ls ttl addrs ! 3) = 0x8180"
    "from_be16 (honest_answer qid ls ttl addrs ! 4) (honest_answer qid ls ttl addrs ! 5) = 1"
    "from_be16 (honest_answer qid ls ttl addrs ! 6) (honest_answer qid ls ttl addrs ! 7) = of_nat (length addrs)"
    by (simp_all add: b v)
qed


section \<open>Properties\<close>

text \<open>When a server's answer counts: one of the datagrams carries our identifier, is a response, and echoes our question.\<close>

definition answered :: "network \<Rightarrow> ip_addr \<Rightarrow> string \<Rightarrow> u16 \<Rightarrow> dns_answer \<Rightarrow> bool" where
  "answered net server host qtype a \<longleftrightarrow>
     (\<exists>d \<in> set (dt_datagrams (net server host qtype)).
        let msg = take buffer_size d; qid = dt_id (net server host qtype) in
        12 \<le> length msg \<and> from_be16 (msg ! 0) (msg ! 1) = qid \<and>
        from_be16 (msg ! 2) (msg ! 3) AND 0x8000 \<noteq> 0 \<and> question_echoed msg host qtype \<and>
        parse_answer msg qid qtype = Inr a)"

lemma classify_Ours:
  "classify msg qid host qtype = Ours \<longleftrightarrow>
     12 \<le> length msg \<and> from_be16 (msg ! 0) (msg ! 1) = qid \<and>
     from_be16 (msg ! 2) (msg ! 3) AND 0x8000 \<noteq> 0 \<and> question_echoed msg host qtype"
  by (auto simp: classify_def Let_def)

lemma await_answer_Inr:
  "await_answer server qid host qtype ds failure = Inr a \<Longrightarrow>
     \<exists>d \<in> set ds. classify (take buffer_size d) qid host qtype = Ours \<and> parse_answer (take buffer_size d) qid qtype = Inr a"
  by (induction server qid host qtype ds failure rule: await_answer.induct)
    (auto simp: Let_def split: dns_reply.splits)

lemma query_answered: "dns_query net rs server host qtype = Inr a \<Longrightarrow> answered net server host qtype a"
proof -
  let ?t = "net server host qtype"
  assume "dns_query net rs server host qtype = Inr a"
  then have "await_answer server (dt_id ?t) host qtype (dt_datagrams ?t) (dt_receive ?t) = Inr a"
    by (auto simp: dns_query_def Let_def split: option.splits sum.splits)
  then obtain d where "d \<in> set (dt_datagrams ?t)" "classify (take buffer_size d) (dt_id ?t) host qtype = Ours"
    "parse_answer (take buffer_size d) (dt_id ?t) qtype = Inr a"
    using await_answer_Inr by blast
  then show ?thesis unfolding answered_def Let_def classify_Ours by blast
qed

lemma query_servers_answered:
  "query_servers net rs host qtype servers previous = Inr addrs \<Longrightarrow>
     \<exists>server \<in> set servers. \<exists>name a. answered net server name qtype a \<and> addrs = an_addrs a"
proof (induction servers arbitrary: previous)
  case (Cons server servers)
  have tail: ?case if "query_servers net rs host qtype servers p = Inr addrs" for p
    using Cons.IH [OF that] by auto
  have here: ?case if "dns_query net rs server name qtype = Inr a" "addrs = an_addrs a" for name a
    using query_answered [OF that(1)] that(2) by auto
  show ?case
  proof (cases "dns_query net rs server host qtype")
    case (Inl e)
    with Cons.prems tail show ?thesis by auto
  next
    case (Inr a)
    show ?thesis
    proof (cases "an_addrs a = []")
      case False
      with Cons.prems Inr here show ?thesis by auto
    next
      case True
      show ?thesis
      proof (cases "\<exists>target b. an_cname a = Some target \<and> dns_query net rs server target qtype = Inr b \<and>
          an_addrs b \<noteq> []")
        case True
        then obtain target b where "dns_query net rs server target qtype = Inr b" "addrs = an_addrs b"
          using Cons.prems Inr \<open>an_addrs a = []\<close> by auto
        then show ?thesis by (rule here)
      next
        case False
        with Cons.prems Inr \<open>an_addrs a = []\<close> have "query_servers net rs host qtype servers previous = Inr addrs"
          by (auto split: option.splits sum.splits if_splits)
        then show ?thesis by (rule tail)
      qed
    qed
  qed
qed simp

definition of_family :: "u16 \<Rightarrow> ip_addr \<Rightarrow> bool" where
  "of_family qtype a \<longleftrightarrow> (qtype = TYPE_A \<longrightarrow> \<not> is_ipv6 a) \<and> (qtype = TYPE_AAAA \<longrightarrow> is_ipv6 a)"

lemma read_record_family:
  assumes "read_record msg qtype pos ans = Inr (pos', ans')"
  shows "an_addrs ans' = an_addrs ans \<or> (\<exists>a. an_addrs ans' = an_addrs ans @ [a] \<and> of_family qtype a)"
proof -
  have "TYPE_A \<noteq> TYPE_AAAA" by (simp add: TYPE_A_def TYPE_AAAA_def)
  with assms show ?thesis
    by (auto simp: read_record_def Let_def is_ipv6_def of_family_def split: sum.splits option.splits if_splits)
qed

lemma read_records_family:
  "read_records n msg qtype pos ans = Inr ans' \<Longrightarrow> list_all (of_family qtype) (an_addrs ans) \<Longrightarrow>
     list_all (of_family qtype) (an_addrs ans')"
proof (induction n arbitrary: pos ans)
  case (Suc n)
  then obtain pos1 ans1 where r: "read_record msg qtype pos ans = Inr (pos1, ans1)"
    "read_records n msg qtype pos1 ans1 = Inr ans'"
    by (auto split: sum.splits)
  have "list_all (of_family qtype) (an_addrs ans1)"
    using read_record_family [OF r(1)] Suc.prems(2) by auto
  then show ?case using Suc.IH [OF r(2)] by blast
qed simp

lemma parse_answer_family: "parse_answer msg qid qtype = Inr a \<Longrightarrow> list_all (of_family qtype) (an_addrs a)"
  by (auto simp: parse_answer_def Let_def split: if_splits sum.splits dest!: read_records_family)

lemma answered_family: "answered net server name qtype a \<Longrightarrow> list_all (of_family qtype) (an_addrs a)"
  unfolding answered_def Let_def using parse_answer_family by blast

text \<open>Property C30: Every address the resolver hands out was in an answer to a question it asked: of a
  configured server, in a datagram of the socket connected to it that carries the identifier drawn for this query,
  is a response, and echoes the name, type and class that were asked. Whatever else arrives, forged
  or late, is passed over. The addresses are of the family that was asked for, and IPv6 addresses are handed out only
  where no server had an IPv4 address.
\<close>

theorem dns_addresses_answer_our_question:
  assumes "parse_ip_addr host = None" and "dns_lookup net rs host port = Inr addrs"
  shows "\<exists>qtype server name a. qtype \<in> {TYPE_A, TYPE_AAAA} \<and> server \<in> set (rs_servers rs) \<and>
    answered net server name qtype a \<and> addrs = map (\<lambda>ip. \<lparr>sa_ip = ip, sa_port = port\<rparr>) (an_addrs a) \<and>
    list_all (\<lambda>ip. is_ipv6 ip \<longleftrightarrow> qtype = TYPE_AAAA) (an_addrs a) \<and>
    (qtype = TYPE_AAAA \<longrightarrow> (\<forall>v4. query_all_servers net rs host TYPE_A \<noteq> Inr v4 \<or> v4 = []))"
proof -
  let ?q = "query_all_servers net rs host"
  have ne: "TYPE_A \<noteq> TYPE_AAAA" by (simp add: TYPE_A_def TYPE_AAAA_def)
  have src: ?thesis if q: "?q qtype = Inr ips" "qtype = TYPE_A \<or> qtype = TYPE_AAAA"
    and a: "addrs = map (\<lambda>ip. \<lparr>sa_ip = ip, sa_port = port\<rparr>) ips"
    and n: "qtype = TYPE_AAAA \<Longrightarrow> \<forall>v4. ?q TYPE_A \<noteq> Inr v4 \<or> v4 = []" for qtype ips
  proof -
    obtain server name ans where s: "server \<in> set (rs_servers rs)" "answered net server name qtype ans" "ips = an_addrs ans"
      using query_servers_answered q(1) unfolding query_all_servers_def by blast
    have "list_all (\<lambda>ip. is_ipv6 ip \<longleftrightarrow> qtype = TYPE_AAAA) (an_addrs ans)"
      using answered_family [OF s(2)] q(2) ne by (auto simp: of_family_def list_all_iff)
    with s q(2) a n show ?thesis by blast
  qed
  show ?thesis
  proof (cases "\<exists>v4. ?q TYPE_A = Inr v4 \<and> v4 \<noteq> []")
    case True
    then obtain v4 where "?q TYPE_A = Inr v4" "v4 \<noteq> []" by blast
    then show ?thesis
      using src [of TYPE_A v4] assms ne by (auto simp: dns_lookup_def Let_def split: if_splits)
  next
    case False
    then have "lookup_types net rs host [TYPE_A, TYPE_AAAA] [] =
        (case ?q TYPE_AAAA of Inr v6 \<Rightarrow> v6 | Inl _ \<Rightarrow> [])"
      using ne by (auto split: sum.splits)
    then obtain v6 where "?q TYPE_AAAA = Inr v6" "addrs = map (\<lambda>ip. \<lparr>sa_ip = ip, sa_port = port\<rparr>) v6"
      using assms by (auto simp: dns_lookup_def Let_def split: if_splits sum.splits)
    then show ?thesis using src [of TYPE_AAAA v6] False by blast
  qed
qed


lemma join_split_on: "join [c] (split_on c s) = s"
proof (induction s)
  case (Cons a s)
  then show ?case by (cases "split_on c s") (auto simp: join_Cons)
qed simp

lemma range_get_mid: "range_get (pre @ q @ post) (length pre) (length pre + length q) = Some q"
  by (simp add: range_get_def)

lemma honest_is_ours:
  assumes "labels_ok (host_labels host)" "length (host_labels host) < 128"
  shows "classify (honest_answer qid (host_labels host) ttl addrs) qid host TYPE_A = Ours"
proof -
  let ?ls = "host_labels host"
  let ?msg = "honest_answer qid ?ls ttl addrs" and ?p = "12 + length (labels_bytes ?ls) + 1"
  let ?pre = "be16 qid @ be16 0x8180 @ be16 1 @ be16 (of_nat (length addrs)) @ [0, 0, 0, 0] @ labels_bytes ?ls @ [0]"
  have m: "?msg = ?pre @ (be16 TYPE_A @ be16 1) @ concat (map (address_record ttl) addrs)"
    by (simp add: honest_answer_def)
  have l: "length ?pre = ?p" "length (be16 TYPE_A @ be16 1) = 4" by (simp_all add: be16_def)
  have "range_get ?msg ?p (?p + 4) = Some (be16 TYPE_A @ be16 1)"
    unfolding m l(1) [symmetric] l(2) [symmetric] by (rule range_get_mid)
  moreover have "join ''.'' ?ls = trim_end_matches (\<lambda>c. c = CHR ''.'') host"
    unfolding host_labels_def by (rule join_split_on)
  moreover have "from_be16 0 1 = 1" by (simp add: from_be16_def)
  ultimately have "question_echoed ?msg host TYPE_A"
    using honest_question [OF assms] honest_header(4) by (simp add: question_echoed_def be16_def)
  then show ?thesis using honest_header(1-3) by (simp add: classify_Ours)
qed

lemma honest_parsed:
  assumes "labels_ok ls" "length ls < 128" "length addrs < 2 ^ 16"
  shows "parse_answer (honest_answer qid ls ttl addrs) qid TYPE_A = Inr \<lparr>an_addrs = map V4 addrs, an_cname = None\<rparr>"
proof -
  let ?msg = "honest_answer qid ls ttl addrs"
  let ?pre = "be16 qid @ be16 0x8180 @ be16 1 @ be16 (of_nat (length addrs)) @ [0, 0, 0, 0] @ labels_bytes ls @ [0] @
    be16 TYPE_A @ be16 1"
  have n: "unat (of_nat (length addrs) :: u16) = length addrs" using assms(3) by (simp add: unat_of_nat)
  have p: "length ?pre = 12 + length (labels_bytes ls) + 1 + 4" by (simp add: be16_def)
  have m: "?msg = ?pre @ concat (map (address_record ttl) addrs)" by (simp add: honest_answer_def)
  have "skip_questions 1 ?msg 12 = Inr (length ?pre)"
    using honest_question(2) [OF assms(1,2)] by (simp only: One_nat_def skip_questions.simps sum.case p)
  moreover have "read_records (length addrs) ?msg TYPE_A (length ?pre) \<lparr>an_addrs = [], an_cname = None\<rparr> =
      Inr \<lparr>an_addrs = map V4 addrs, an_cname = None\<rparr>"
    unfolding m by (subst read_records_honest) simp
  ultimately show ?thesis
    using honest_header [of qid ls ttl addrs] n by (simp add: parse_answer_def Let_def)
qed

lemma honest_query:
  assumes t: "t = net server host TYPE_A"
    and ok: "labels_ok (host_labels host)" "length (host_labels host) < 128"
    and up: "dt_socket t (query_bind (rs_local rs) server) (rs_interface rs) = None" "dt_send t = (\<lambda>_. None)"
    and datagrams: "dt_datagrams t = others @ honest_answer (dt_id t) (host_labels host) ttl addrs # later"
    and others: "list_all (\<lambda>d. classify (take buffer_size d) (dt_id t) host TYPE_A = NotOurs) others"
    and size: "length (honest_answer (dt_id t) (host_labels host) ttl addrs) \<le> buffer_size"
  shows "dns_query net rs server host TYPE_A = Inr \<lparr>an_addrs = map V4 addrs, an_cname = None\<rparr>"
proof -
  let ?a = "honest_answer (dt_id t) (host_labels host) ttl addrs"
  have "length (concat (map (address_record ttl) addrs)) = 16 * length addrs"
    by (induction addrs) (simp_all add: address_record_def be16_def be32_def)
  then have "length addrs < 2 ^ 16" using size by (simp add: honest_answer_def buffer_size_def)
  then have p: "parse_answer ?a (dt_id t) TYPE_A = Inr \<lparr>an_addrs = map V4 addrs, an_cname = None\<rparr>"
    using honest_parsed ok by blast
  have "await_answer server (dt_id t) host TYPE_A (others @ ?a # later) failure =
      Inr \<lparr>an_addrs = map V4 addrs, an_cname = None\<rparr>" for failure
    using others honest_is_ours [OF ok] p size by (induction others) simp_all
  moreover obtain q where "build_query (dt_id t) host TYPE_A = Inr q"
    using write_labels_ok [OF ok(1)] by (simp add: build_query_def)
  ultimately show ?thesis using up datagrams by (simp add: dns_query_def t)
qed


text \<open>
  A server that answers is understood. For a host name of at most 127 labels, none of
  them empty or longer than 63 characters, the query is sent, datagrams that are not its answer are
  passed over, and the answer gives exactly the addresses of its records, in their order.
\<close>

lemma dns_answer_is_understood:
  assumes t: "t = net server host TYPE_A"
    and ok: "labels_ok (host_labels host)" "length (host_labels host) < 128"
    and up: "dt_socket t (query_bind (rs_local rs) server) (rs_interface rs) = None" "dt_send t = (\<lambda>_. None)"
    and datagrams: "dt_datagrams t = others @ honest_answer (dt_id t) (host_labels host) ttl addrs # later"
    and others: "list_all (\<lambda>d. classify (take buffer_size d) (dt_id t) host TYPE_A = NotOurs) others"
    and size: "length (honest_answer (dt_id t) (host_labels host) ttl addrs) \<le> buffer_size"
  shows "dns_query net rs server host TYPE_A = Inr \<lparr>an_addrs = map V4 addrs, an_cname = None\<rparr>"
  using assms by (rule honest_query [of t net server host rs others ttl addrs later])

definition sample_net :: "u32 list \<Rightarrow> network" where
  "sample_net addrs server host qtype =
     \<lparr>dt_socket = \<lambda>_ _. None, dt_id = 7, dt_send = \<lambda>_. None,
      dt_datagrams = [[0, 8, 0x81, 0x80, 0, 0, 0, 0, 0, 0, 0, 0], honest_answer 7 (host_labels host) 60 addrs],
      dt_receive = None\<rparr>"

definition sample_resolver :: resolver where
  "sample_resolver = \<lparr>rs_servers = [V4 1], rs_interface = None, rs_local = None, rs_timeout = 5\<rparr>"

lemma dns_answer_is_understood_witness:
  "dns_query (sample_net [0xAC1F2462]) sample_resolver (V4 1) ''mmsc.example'' TYPE_A =
     Inr \<lparr>an_addrs = [V4 0xAC1F2462], an_cname = None\<rparr>"
proof -
  have l: "host_labels ''mmsc.example'' = [''mmsc'', ''example'']" by code_simp
  have "labels_ok [''mmsc'', ''example'']" by (simp add: is_ascii_def byte_of_def)
  moreover have "classify [0, 8, 0x81, 0x80, 0, 0, 0, 0, 0, 0, 0, 0] 7 host TYPE_A = NotOurs" for host
    by (simp add: classify_def from_be16_def)
  moreover have "length (honest_answer 7 [''mmsc'', ''example''] 60 [0xAC1F2462]) = 46" 
    by (simp add: honest_answer_def address_record_def be16_def be32_def)
  ultimately show ?thesis
    using dns_answer_is_understood [of "sample_net [0xAC1F2462] (V4 1) ''mmsc.example'' TYPE_A" "sample_net [0xAC1F2462]"
        "V4 1" "''mmsc.example''" sample_resolver "[[0, 8, 0x81, 0x80, 0, 0, 0, 0, 0, 0, 0, 0]]" 60 "[0xAC1F2462]" "[]"]
    by (simp add: sample_net_def l buffer_size_def)
qed

text \<open>A name that starts with no hexadecimal digit and no colon is not an address.\<close>

lemma parse_ip_addr_name:
  assumes "hex_val c = None" "digit_val c = None" "c \<noteq> CHR '':''"
  shows "parse_ip_addr (c # s) = None"
proof -
  have n: "read_number hex_val r d z b (c # s) = None" "read_number digit_val r d z b (c # s) = None" for r d z b
    using assms by (simp_all add: read_number_def)
  then have v4: "read_ipv4 (c # s) = None" by (simp add: read_ipv4_def read_octet_def)
  then have "read_groups 0 8 (c # s) = ([], False, c # s)"
    using n read_groups.simps(2) [of 0 7 "c # s"] by (simp add: read_sep_def)
  moreover have "strip_prefix ''::'' (c # s) = None" using assms(3) by (simp add: strip_prefix_def)
  ultimately have "read_ipv6 (c # s) = None" by (simp add: read_ipv6_def)
  with v4 show ?thesis by (simp add: parse_ip_addr_def)
qed

lemma sample_host_is_a_name: "parse_ip_addr ''mmsc.example'' = None"
  by (rule parse_ip_addr_name) (simp_all add: hex_val_def digit_val_def byte_of_def)

lemma sample_lookup:
  "dns_lookup (sample_net [0xAC1F2462]) sample_resolver ''mmsc.example'' 80 =
     Inr [\<lparr>sa_ip = V4 0xAC1F2462, sa_port = 80\<rparr>]"
proof -
  have l: "host_labels ''mmsc.example'' = [''mmsc'', ''example'']" by code_simp
  have "labels_ok [''mmsc'', ''example'']" by (simp add: is_ascii_def byte_of_def)
  moreover have "classify [0, 8, 0x81, 0x80, 0, 0, 0, 0, 0, 0, 0, 0] 7 host TYPE_A = NotOurs" for host
    by (simp add: classify_def from_be16_def)
  moreover have "length (honest_answer 7 [''mmsc'', ''example''] 60 [0xAC1F2462]) = 46"
    by (simp add: honest_answer_def address_record_def be16_def be32_def)
  ultimately have "dns_query (sample_net [0xAC1F2462]) sample_resolver (V4 1) ''mmsc.example'' TYPE_A =
      Inr \<lparr>an_addrs = [V4 0xAC1F2462], an_cname = None\<rparr>"
    using honest_query [of "sample_net [0xAC1F2462] (V4 1) ''mmsc.example'' TYPE_A" "sample_net [0xAC1F2462]"
        "V4 1" "''mmsc.example''" sample_resolver "[[0, 8, 0x81, 0x80, 0, 0, 0, 0, 0, 0, 0, 0]]" 60 "[0xAC1F2462]" "[]"]
    by (simp add: sample_net_def l buffer_size_def)
  moreover note sample_host_is_a_name
  ultimately show ?thesis
    by (simp add: dns_lookup_def is_usable_def query_all_servers_def sample_resolver_def)
qed

lemma dns_addresses_answer_our_question_witness:
  "\<exists>qtype server name a. qtype \<in> {TYPE_A, TYPE_AAAA} \<and> server \<in> set (rs_servers sample_resolver) \<and>
    answered (sample_net [0xAC1F2462]) server name qtype a \<and>
    [\<lparr>sa_ip = V4 0xAC1F2462, sa_port = 80\<rparr>] = map (\<lambda>ip. \<lparr>sa_ip = ip, sa_port = 80\<rparr>) (an_addrs a)"
proof -
  obtain qtype server name a where "qtype \<in> {TYPE_A, TYPE_AAAA}" "server \<in> set (rs_servers sample_resolver)"
    "answered (sample_net [0xAC1F2462]) server name qtype a"
    "[\<lparr>sa_ip = V4 0xAC1F2462, sa_port = 80\<rparr>] = map (\<lambda>ip. \<lparr>sa_ip = ip, sa_port = 80\<rparr>) (an_addrs a)"
    using dns_addresses_answer_our_question [OF sample_host_is_a_name sample_lookup] by metis
  then show ?thesis by (intro exI conjI)
qed

end
