(* ===== verification/MmsHttp.thy ===== *)
theory MmsHttp
  imports Dns Numbers
begin

text \<open>
  The HTTP client of \<open>src/mms/http.rs\<close>: URLs, the request it sends, where it connects to, and how it reads
  a response. A connection is the bytes each read returns and what ends them: an error, or the end
  of the stream. Resolving through the system and connecting are the environment's.
\<close>

section \<open>URLs\<close>

record http_options =
  ho_proxy :: "string option"
  ho_interface :: "string option"
  ho_local :: "ip_addr option"
  ho_timeout :: nat
  ho_agent :: string
  ho_profile :: "string option"
  ho_max :: nat
  ho_dns :: "ip_addr list"

record http_response =
  hr_status :: u16
  hr_headers :: "(string \<times> string) list"
  hr_body :: "u8 list"

definition header_value :: "(string \<times> string) list \<Rightarrow> string \<Rightarrow> string option" where
  "header_value headers name = map_option snd (find (\<lambda>(k, _). eq_ignore_ascii_case k name) headers)"

definition hr_content_type :: "http_response \<Rightarrow> string option" where
  "hr_content_type r = header_value (hr_headers r) ''content-type''"

record http_url =
  hu_host :: string
  hu_port :: u16
  hu_path :: string

definition control_char :: "char \<Rightarrow> bool" where
  "control_char c \<longleftrightarrow> byte_of c < 0x20 \<or> byte_of c = 0x7F"

definition path_start :: "char \<Rightarrow> bool" where
  "path_start c \<longleftrightarrow> c \<in> {CHR ''/'', CHR ''?'', CHR ''#''}"

definition url_path :: "string \<Rightarrow> string" where
  "url_path s = (case s of [] \<Rightarrow> ''/'' | c # _ \<Rightarrow> if c = CHR ''/'' then s else CHR ''/'' # s)"

definition host_port :: "string \<Rightarrow> string \<times> u16" where
  "host_port authority =
     (case rsplit_once (CHR '':'') authority of
        Some (h, p) \<Rightarrow>
          if CHR '':'' \<notin> set h \<or> (h \<noteq> [] \<and> List.last h = CHR '']'')
          then (h, case parse_u16 p of Some n \<Rightarrow> n | None \<Rightarrow> 80)
          else (authority, 80)
      | None \<Rightarrow> (authority, 80))"

definition mms_parse_url :: "string \<Rightarrow> string + http_url" where
  "mms_parse_url url =
     (if \<exists>c \<in> set url. control_char c then Inl ''MMS URL contains control characters''
      else (case strip_prefix ''http://'' url of
          None \<Rightarrow>
            if starts_with ''https://'' url then Inl (''https MMSC URLs are not supported: '' @ url)
            else Inl (''unsupported MMS URL: '' @ url)
        | Some rest \<Rightarrow>
            (let authority0 = takeWhile (\<lambda>c. \<not> path_start c) rest;
                 path = url_path (dropWhile (\<lambda>c. \<not> path_start c) rest);
                 authority = (case rsplit_once (CHR ''@'') authority0 of Some (_, a) \<Rightarrow> a | None \<Rightarrow> authority0);
                 (host, port) = host_port authority in
             if host = [] then Inl (''MMS URL has no host: '' @ url)
             else Inr \<lparr>hu_host = host, hu_port = port, hu_path = path\<rparr>)))"

definition host_header :: "http_url \<Rightarrow> string" where
  "host_header u =
     (if hu_port u = 80 then hu_host u else hu_host u @ '':'' @ show_nat (unat (hu_port u)))"

section \<open>Requests\<close>

text \<open>Where to connect to, and the target of the request line.\<close>

definition request_target :: "http_url \<Rightarrow> string \<Rightarrow> http_options \<Rightarrow> string + string \<times> u16 \<times> string" where
  "request_target target url opts =
     (case ho_proxy opts of
        Some proxy \<Rightarrow>
          (case rsplit_once (CHR '':'') proxy of
             None \<Rightarrow> Inl ''mms.proxy must be host:port''
           | Some (h, p) \<Rightarrow>
               (case parse_u16 p of None \<Rightarrow> Inl ''mms.proxy port'' | Some port \<Rightarrow> Inr (h, port, url)))
      | None \<Rightarrow> Inr (hu_host target, hu_port target, hu_path target))"

definition request_lines ::
  "string \<Rightarrow> string \<Rightarrow> http_url \<Rightarrow> http_options \<Rightarrow> string option \<Rightarrow> u8 list option \<Rightarrow> string list" where
  "request_lines method line_target target opts ctype body =
     [method @ '' '' @ line_target @ '' HTTP/1.1'',
      ''Host: '' @ host_header target,
      ''User-Agent: '' @ ho_agent opts] @
     (case ho_profile opts of Some p \<Rightarrow> [''x-wap-profile: '' @ p] | None \<Rightarrow> []) @
     [''Accept: application/vnd.wap.mms-message, */*'', ''Accept-Charset: utf-8'', ''Connection: close''] @
     (case ctype of Some ct \<Rightarrow> [''Content-Type: '' @ ct] | None \<Rightarrow> []) @
     [''Content-Length: '' @ show_nat (case body of Some b \<Rightarrow> length b | None \<Rightarrow> 0)]"

definition request_head ::
  "string \<Rightarrow> string \<Rightarrow> http_url \<Rightarrow> http_options \<Rightarrow> string option \<Rightarrow> u8 list option \<Rightarrow> string" where
  "request_head method line_target target opts ctype body =
     concat (map (\<lambda>l. l @ crlf) (request_lines method line_target target opts ctype body)) @ crlf"

section \<open>Addresses\<close>

definition strip_brackets :: "string \<Rightarrow> string" where
  "strip_brackets host =
     (case strip_prefix ''['' host of
        Some h \<Rightarrow> if h \<noteq> [] \<and> List.last h = CHR '']'' then butlast h else host
      | None \<Rightarrow> host)"

text \<open>
  What the environment does: the carrier's network, the system's resolver, connecting a socket of the
  given interface and source address, sending, and what the connection then reads; and whether the
  deadline passes first.
\<close>

type_synonym connection = "u8 list list \<times> string option"

record http_env =
  he_net :: network
  he_system :: "string \<Rightarrow> u16 \<Rightarrow> string + socket_addr list"
  he_connect :: "socket_addr \<Rightarrow> string option \<Rightarrow> ip_addr option \<Rightarrow> string option"
  he_send :: "string option"
  he_stream :: connection
  he_late :: bool

definition http_resolve :: "http_env \<Rightarrow> string \<Rightarrow> u16 \<Rightarrow> http_options \<Rightarrow> string + socket_addr list" where
  "http_resolve env host0 port opts =
     (let host = strip_brackets host0 in
      case parse_ip_addr host of
        Some ip \<Rightarrow> Inr [\<lparr>sa_ip = ip, sa_port = port\<rparr>]
      | None \<Rightarrow>
          (let rs = \<lparr>rs_servers = ho_dns opts, rs_interface = ho_interface opts, rs_local = ho_local opts, rs_timeout = 5\<rparr>;
               carrier = (if is_usable rs then dns_lookup (he_net env) rs host port else Inl []) in
           case carrier of
             Inr addrs \<Rightarrow> Inr addrs
           | Inl _ \<Rightarrow>
               (case he_system env host port of
                  Inl e \<Rightarrow> Inl (''resolving '' @ host)
                | Inr found \<Rightarrow>
                    (let addrs = filter (\<lambda>a. \<not> is_ipv6 (sa_ip a)) found @ filter (\<lambda>a. is_ipv6 (sa_ip a)) found in
                     if addrs = [] then Inl (''no address for '' @ host) else Inr addrs))))"

fun connect_each :: "http_env \<Rightarrow> http_options \<Rightarrow> socket_addr list \<Rightarrow> string option \<Rightarrow> string + socket_addr" where
  "connect_each env opts [] previous =
     Inl (case previous of Some e \<Rightarrow> e | None \<Rightarrow> ''no address to connect to'')"
| "connect_each env opts (a # as) previous =
     (case he_connect env a (ho_interface opts) (ho_local opts) of
        None \<Rightarrow> Inr a | Some e \<Rightarrow> connect_each env opts as (Some e))"

definition connect_any :: "http_env \<Rightarrow> http_options \<Rightarrow> socket_addr list \<Rightarrow> string + socket_addr" where
  "connect_any env opts addrs = connect_each env opts addrs None"

section \<open>Responses\<close>

definition find_bytes :: "u8 list \<Rightarrow> u8 list \<Rightarrow> nat option" where
  "find_bytes needle hay =
     find (\<lambda>i. take (length needle) (drop i hay) = needle) [0..<Suc (length hay) - length needle]"

definition head_end :: "u8 list \<Rightarrow> (nat \<times> nat) option" where
  "head_end buf =
     (case (find_bytes [13, 10, 13, 10] buf, find_bytes [10, 10] buf) of
        (Some c, Some l) \<Rightarrow> if l < c then Some (l, l + 2) else Some (c, c + 4)
      | (Some c, None) \<Rightarrow> Some (c, c + 4)
      | (None, Some l) \<Rightarrow> Some (l, l + 2)
      | (None, None) \<Rightarrow> None)"

definition chunk_size :: nat where "chunk_size = 8192"
definition head_limit :: nat where "head_limit = 64 * 1024"

definition read_end :: "string option \<Rightarrow> string \<Rightarrow> string" where
  "read_end failure closed = (case failure of Some e \<Rightarrow> e | None \<Rightarrow> closed)"

text \<open>A read returns no more than the buffer holds, and nothing at the end of the stream.\<close>

fun read_head :: "u8 list \<Rightarrow> u8 list list \<Rightarrow> string option \<Rightarrow> string + u8 list \<times> (nat \<times> nat) \<times> u8 list list" where
  "read_head buf [] failure =
     (case head_end buf of
        Some e \<Rightarrow> Inr (buf, e, [])
      | None \<Rightarrow> Inl (read_end failure ''connection closed before the HTTP headers were complete''))"
| "read_head buf (c # cs) failure =
     (case head_end buf of
        Some e \<Rightarrow> Inr (buf, e, c # cs)
      | None \<Rightarrow>
          if c = [] then Inl ''connection closed before the HTTP headers were complete''
          else (let buf' = buf @ take chunk_size c in
            if head_limit < length buf' then Inl ''HTTP headers too large''
            else read_head buf' cs failure))"

text \<open>The rest of the stream, and the bytes that were announced.\<close>

fun read_rest :: "nat \<Rightarrow> u8 list \<Rightarrow> u8 list list \<Rightarrow> string option \<Rightarrow> string + u8 list" where
  "read_rest limit body [] failure = (case failure of Some e \<Rightarrow> Inl e | None \<Rightarrow> Inr body)"
| "read_rest limit body (c # cs) failure =
     (if c = [] then Inr body
      else (let body' = body @ take chunk_size c in
        if limit < length body' then Inl ''HTTP body exceeds the configured limit''
        else read_rest limit body' cs failure))"

fun read_announced :: "nat \<Rightarrow> u8 list \<Rightarrow> u8 list list \<Rightarrow> string option \<Rightarrow> string + u8 list" where
  "read_announced len body cs failure =
     (if len \<le> length body then Inr (take len body)
      else (case cs of
          [] \<Rightarrow> Inl (read_end failure ''connection closed before the announced body'')
        | c # cs' \<Rightarrow>
            if c = [] then Inl ''connection closed before the announced body''
            else read_announced len (body @ take chunk_size c) cs' failure))"

declare read_announced.simps [simp del]

lemma find_bytes_Some: "find_bytes needle hay = Some i \<Longrightarrow> i + length needle \<le> length hay"
  by (auto simp: find_bytes_def find_Some_iff)

function dechunk :: "u8 list \<Rightarrow> u8 list" where
  "dechunk r =
     (if r = [] then []
      else case find_bytes [13, 10] r of
          None \<Rightarrow> []
        | Some eol \<Rightarrow>
            (case parse_hex (2 ^ 64) (trim (takeWhile (\<lambda>c. c \<noteq> CHR '';'') (lossy (take eol r)))) of
               None \<Rightarrow> []
             | Some n \<Rightarrow>
                 (let r' = drop (eol + 2) r in
                  if n = 0 then []
                  else if n \<le> length r' then take n r' @ dechunk (drop (n + 2) r')
                  else r')))"
  by pat_completeness auto
termination
  by (relation "measure length") (auto dest: find_bytes_Some)

declare dechunk.simps [simp del]

definition status_of :: "string \<Rightarrow> u16 option" where
  "status_of line =
     (case split_whitespace line of _ # s # _ \<Rightarrow> parse_u16 s | _ \<Rightarrow> None)"

definition response_lines :: "u8 list \<Rightarrow> string list" where
  "response_lines head = map (trim_end_matches (\<lambda>c. c = CHR 0x0D)) (split_on (CHR 0x0A) (lossy head))"

definition parse_headers :: "string list \<Rightarrow> (string \<times> string) list" where
  "parse_headers lines = List.map_filter (\<lambda>l. map_option (\<lambda>(k, v). (trim k, trim v)) (split_once (CHR '':'') l)) lines"

definition is_chunked :: "(string \<times> string) list \<Rightarrow> bool" where
  "is_chunked headers =
     (case header_value headers ''transfer-encoding'' of
        Some v \<Rightarrow> contains_text ''chunked'' (to_ascii_lowercase v) | None \<Rightarrow> False)"

definition announced_length :: "(string \<times> string) list \<Rightarrow> nat option" where
  "announced_length headers = Option.bind (header_value headers ''content-length'') (\<lambda>v. parse_usize (trim v))"

definition read_body ::
  "nat \<Rightarrow> (string \<times> string) list \<Rightarrow> u8 list \<Rightarrow> u8 list list \<Rightarrow> string option \<Rightarrow> string + u8 list" where
  "read_body limit headers body cs failure =
     (if is_chunked headers then
        (case read_rest limit body cs failure of Inl e \<Rightarrow> Inl e | Inr b \<Rightarrow> Inr (dechunk b))
      else (case announced_length headers of
          Some len \<Rightarrow>
            if limit < len then Inl ''HTTP body exceeds the configured limit''
            else read_announced len body cs failure
        | None \<Rightarrow> read_rest limit body cs failure))"

definition size_limit :: "nat \<Rightarrow> nat" where
  "size_limit max_size = (if max_size = 0 then 8 * 1024 * 1024 else max_size)"

definition read_response :: "connection \<Rightarrow> nat \<Rightarrow> string + http_response" where
  "read_response stream max_size =
     (case read_head [] (fst stream) (snd stream) of
        Inl e \<Rightarrow> Inl e
      | Inr (buf, (head_to, body_from), cs) \<Rightarrow>
          (case response_lines (take head_to buf) of
             [] \<Rightarrow> Inl ''malformed HTTP status line: ''
           | status_line # rest \<Rightarrow>
               (case status_of status_line of
                  None \<Rightarrow> Inl (''malformed HTTP status line: '' @ status_line)
                | Some status \<Rightarrow>
                    (let headers = parse_headers rest in
                     case read_body (size_limit max_size) headers (drop body_from buf) cs (snd stream) of
                       Inl e \<Rightarrow> Inl e
                     | Inr body \<Rightarrow> Inr \<lparr>hr_status = status, hr_headers = headers, hr_body = body\<rparr>))))"

section \<open>One request\<close>

text \<open>The result, and what was sent to whom, if anything was.\<close>

definition http_request ::
  "http_env \<Rightarrow> string \<Rightarrow> string \<Rightarrow> string option \<Rightarrow> u8 list option \<Rightarrow> http_options
     \<Rightarrow> (string + http_response) \<times> (socket_addr \<times> string \<times> u8 list) option" where
  "http_request env method url ctype body opts =
     (case mms_parse_url url of
        Inl e \<Rightarrow> (Inl e, None)
      | Inr target \<Rightarrow>
          (case request_target target url opts of
             Inl e \<Rightarrow> (Inl e, None)
           | Inr (host, port, line_target) \<Rightarrow>
               (case http_resolve env host port opts of
                  Inl e \<Rightarrow> (Inl e, None)
                | Inr addrs \<Rightarrow>
                    (case connect_any env opts addrs of
                       Inl e \<Rightarrow> (Inl e, None)
                     | Inr a \<Rightarrow>
                         (let sent = Some (a, request_head method line_target target opts ctype body,
                                (case body of Some b \<Rightarrow> b | None \<Rightarrow> [])) in
                          if he_late env then (Inl ''MMS HTTP request timed out'', sent)
                          else (case he_send env of
                              Some e \<Rightarrow> (Inl e, sent)
                            | None \<Rightarrow> (read_response (he_stream env) (ho_max opts), sent)))))))"

definition http_get :: "http_env \<Rightarrow> string \<Rightarrow> http_options \<Rightarrow> (string + http_response) \<times> (socket_addr \<times> string \<times> u8 list) option" where
  "http_get env url opts = http_request env ''GET'' url None None opts"

definition http_post ::
  "http_env \<Rightarrow> string \<Rightarrow> string \<Rightarrow> u8 list \<Rightarrow> http_options
     \<Rightarrow> (string + http_response) \<times> (socket_addr \<times> string \<times> u8 list) option" where
  "http_post env url ctype body opts = http_request env ''POST'' url (Some ctype) (Some body) opts"

section \<open>What a URL can put into a request\<close>

definition clean :: "string \<Rightarrow> bool" where
  "clean s \<longleftrightarrow> list_all (\<lambda>c. \<not> control_char c) s"

lemma clean_append [simp]: "clean (a @ b) \<longleftrightarrow> clean a \<and> clean b"
  by (simp add: clean_def)

lemma clean_simps [simp]: "clean []" "clean (c # s) \<longleftrightarrow> \<not> control_char c \<and> clean s"
  by (simp_all add: clean_def)

lemma clean_subset: "set a \<subseteq> set b \<Longrightarrow> clean b \<Longrightarrow> clean a"
  by (auto simp: clean_def list_all_iff)

lemma ptext_clean: "ptext s \<Longrightarrow> clean s"
  by (auto simp: ptext_def clean_def control_char_def list_all_iff)

lemma clean_show_nat [simp]: "clean (show_nat n)"
  by (auto simp: clean_def control_char_def list_all_iff dest!: show_nat_digit)

lemma host_port_subset: "set (fst (host_port a)) \<subseteq> set a"
  by (auto simp: host_port_def rsplit_once_Some_iff split: option.splits)

lemma url_path_clean: "clean s \<Longrightarrow> clean (url_path s)"
  by (cases s) (auto simp: url_path_def control_char_def byte_of_def)

lemma parse_url_clean:
  assumes "mms_parse_url url = Inr u"
  shows "clean url" "clean (hu_host u)" "clean (hu_path u)"
proof -
  show url: "clean url" using assms by (auto simp: mms_parse_url_def clean_def list_all_iff split: if_splits)
  obtain rest where r: "strip_prefix ''http://'' url = Some rest"
    using assms by (auto simp: mms_parse_url_def split: if_splits option.splits)
  then have "set rest \<subseteq> set url" by (auto simp: strip_prefix_Some_iff)
  with url have rest: "clean rest" using clean_subset by blast
  define a0 where "a0 = takeWhile (\<lambda>c. \<not> path_start c) rest"
  define a where "a = (case rsplit_once (CHR ''@'') a0 of Some (_, x) \<Rightarrow> x | None \<Rightarrow> a0)"
  have "set a0 \<subseteq> set rest" by (auto simp: a0_def dest: set_takeWhileD)
  moreover have "set a \<subseteq> set a0" by (auto simp: a_def rsplit_once_Some_iff split: option.splits)
  ultimately have a: "clean a" using rest clean_subset by blast
  have "set (dropWhile (\<lambda>c. \<not> path_start c) rest) \<subseteq> set rest" by (auto dest: set_dropWhileD)
  with rest have "clean (url_path (dropWhile (\<lambda>c. \<not> path_start c) rest))"
    using clean_subset url_path_clean by blast
  moreover have "clean (fst (host_port a))" using a host_port_subset clean_subset by blast
  moreover have "hu_host u = fst (host_port a)" "hu_path u = url_path (dropWhile (\<lambda>c. \<not> path_start c) rest)"
    using assms r unfolding a_def a0_def by (auto simp: mms_parse_url_def Let_def split_beta split: if_splits)
  ultimately show "clean (hu_host u)" "clean (hu_path u)" by simp_all
qed

lemma str_lines_crlf_lines:
  "list_all clean ls \<Longrightarrow> str_lines (concat (map (\<lambda>l. l @ crlf) ls) @ s) = ls @ str_lines s"
proof (induction ls)
  case (Cons l ls)
  have "CHR 0x0A \<notin> set l" using Cons.prems by (auto simp: clean_def list_all_iff control_char_def byte_of_def)
  with Cons show ?case using str_lines_crlf [of l] by (simp add: crlf_def cr_def lf_def)
qed simp

lemma request_target_clean:
  assumes "mms_parse_url url = Inr u" "request_target u url opts = Inr (h, p, line_target)"
  shows "clean line_target"
  using assms parse_url_clean [OF assms(1)] by (auto simp: request_target_def split: option.splits)

lemma request_lines_clean:
  assumes "mms_parse_url url = Inr u" "request_target u url opts = Inr (h, p, line_target)"
    and "clean method" "clean (ho_agent opts)" "\<And>x. ho_profile opts = Some x \<Longrightarrow> clean x" "\<And>x. ctype = Some x \<Longrightarrow> clean x"
  shows "list_all clean (request_lines method line_target u opts ctype body)"
proof -
  have lits: "clean '' ''" "clean '' HTTP/1.1''" "clean ''Host: ''" "clean ''User-Agent: ''" "clean ''x-wap-profile: ''"
    "clean ''Accept: application/vnd.wap.mms-message, */*''" "clean ''Accept-Charset: utf-8''" "clean ''Connection: close''"
    "clean ''Content-Type: ''" "clean ''Content-Length: ''" "clean '':''"
    by (rule ptext_clean; simp add: byte_of_def)+
  then show ?thesis
    using assms(3-6) request_target_clean [OF assms(1,2)] parse_url_clean(2) [OF assms(1)]
    unfolding request_lines_def host_header_def
    by (simp only: list.pred_inject clean_append append.simps list_all_append clean_show_nat simp_thms
        split: option.split if_split) auto
qed

section \<open>How much is read\<close>

lemma read_head_bound:
  "read_head buf cs failure = Inr (buf', e, cs') \<Longrightarrow> length buf \<le> head_limit \<Longrightarrow> length buf' \<le> head_limit"
  by (induction buf cs failure rule: read_head.induct) (auto simp: Let_def split: option.splits if_splits)

lemma read_rest_bound:
  "read_rest limit body cs failure = Inr b \<Longrightarrow> length b \<le> max limit (length body)"
proof (induction limit body cs failure rule: read_rest.induct)
  case (2 limit body c cs failure)
  show ?case
  proof (cases "c = []")
    case False
    then have r: "read_rest limit (body @ take chunk_size c) cs failure = Inr b"
      "\<not> limit < length (body @ take chunk_size c)"
      using "2.prems" by (auto simp: Let_def split: if_splits)
    then show ?thesis using "2.IH" [OF False refl] by simp
  qed (use "2.prems" in auto)
qed (auto split: option.splits)

lemma read_announced_exact: "read_announced len body cs failure = Inr b \<Longrightarrow> length b = len"
proof (induction len body cs failure rule: read_announced.induct)
  case (1 len body cs failure)
  then show ?case
    by (auto simp: read_announced.simps [of len body] split: if_splits list.splits)
qed

lemma dechunk_bound: "length (dechunk r) \<le> length r"
proof (induction r rule: dechunk.induct)
  case (1 r)
  show ?case
  proof (cases "find_bytes [13, 10] r")
    case (Some eol)
    then have e: "eol + 2 \<le> length r" using find_bytes_Some by fastforce
    show ?thesis
    proof (cases "parse_hex (2 ^ 64) (trim (takeWhile (\<lambda>c. c \<noteq> CHR '';'') (lossy (take eol r))))")
      case (Some n)
      then show ?thesis
        using e \<open>find_bytes [13, 10] r = Some eol\<close> "1.IH" [OF _ \<open>find_bytes [13, 10] r = Some eol\<close> Some refl]
        by (subst dechunk.simps) (auto simp: Let_def)
    qed (subst dechunk.simps, simp add: \<open>find_bytes [13, 10] r = Some eol\<close>)
  qed (subst dechunk.simps, simp)
qed

lemma read_body_bound:
  assumes "read_body limit headers body cs failure = Inr b"
  shows "length b \<le> max limit (length body) \<and>
    (\<not> is_chunked headers \<longrightarrow> announced_length headers = Some n \<longrightarrow> length b = n \<and> n \<le> limit)"
proof (cases "is_chunked headers")
  case True
  with assms obtain raw where "read_rest limit body cs failure = Inr raw" "b = dechunk raw"
    by (auto simp: read_body_def split: sum.splits)
  then show ?thesis using True read_rest_bound dechunk_bound [of raw] by (meson order_trans)
next
  case False
  with assms show ?thesis
    by (cases "announced_length headers")
      (auto simp: read_body_def split: if_splits dest: read_rest_bound read_announced_exact)
qed

lemma read_response_parts:
  assumes "read_response stream max_size = Inr r"
  obtains buf e cs where "read_head [] (fst stream) (snd stream) = Inr (buf, e, cs)"
    "read_body (size_limit max_size) (hr_headers r) (drop (snd e) buf) cs (snd stream) = Inr (hr_body r)"
  using assms by (auto simp: read_response_def Let_def split: sum.splits list.splits option.splits)

section \<open>How it arrives\<close>

text \<open>The end of the headers does not depend on where the reads cut.\<close>

definition occurs :: "u8 list \<Rightarrow> u8 list \<Rightarrow> nat \<Rightarrow> bool" where
  "occurs needle hay i \<longleftrightarrow> i + length needle \<le> length hay \<and> take (length needle) (drop i hay) = needle"

lemma find_bytes_None_iff: "needle \<noteq> [] \<Longrightarrow> find_bytes needle hay = None \<longleftrightarrow> (\<forall>i. \<not> occurs needle hay i)"
  by (auto simp: find_bytes_def find_None_iff occurs_def)

lemma find_bytes_SomeI:
  assumes "occurs needle hay i" "\<And>j. occurs needle hay j \<Longrightarrow> i \<le> j" "needle \<noteq> []"
  shows "find_bytes needle hay = Some i"
proof -
  have "i < Suc (length hay) - length needle" using assms(1) by (auto simp: occurs_def)
  moreover have "\<not> occurs needle hay j" if "j < i" for j using assms(2) that by fastforce
  ultimately show ?thesis
    using assms(1,3) unfolding find_bytes_def find_Some_iff
    by (intro exI [of _ i]) (auto simp: occurs_def)
qed

lemma find_bytes_occurs: "find_bytes needle hay = Some i \<Longrightarrow> occurs needle hay i"
  by (auto simp: find_bytes_def find_Some_iff occurs_def)

lemma occurs_prefix: "i + length needle \<le> length a \<Longrightarrow> occurs needle (a @ b) i \<longleftrightarrow> occurs needle a i"
  by (auto simp: occurs_def)

lemma head_end_None: "head_end buf = None \<longleftrightarrow> (\<forall>i. \<not> occurs [13, 10, 13, 10] buf i \<and> \<not> occurs [10, 10] buf i)"
  using find_bytes_None_iff [of "[13, 10, 13, 10]" buf] find_bytes_None_iff [of "[10, 10]" buf]
  by (auto simp: head_end_def split: option.split)

lemma head_end_prefix: "head_end (a @ b) = None \<Longrightarrow> head_end a = None"
  unfolding head_end_None using occurs_prefix by (metis occurs_def)

lemma head_end_complete:
  assumes "head_end (head @ [13, 10, 13]) = None"
  shows "head_end (head @ [13, 10, 13, 10] @ rest) = Some (length head, length head + 4)"
proof -
  let ?h = "head @ [13, 10, 13]" and ?n = "length head"
  let ?m = "?h @ 10 # rest"
  have no: "?n + 3 < i + length needle" if "occurs needle ?m i" "needle = [13, 10, 13, 10] \<or> needle = [10, 10]" for needle i
  proof (rule ccontr)
    assume "\<not> ?n + 3 < i + length needle"
    then have "occurs needle ?h i" using that(1) occurs_prefix [of i needle ?h "10 # rest"] by simp
    with assms that(2) show False by (auto simp: head_end_None)
  qed
  have "occurs [13, 10, 13, 10] ?m ?n" by (simp add: occurs_def)
  moreover have "?n \<le> j" if "occurs [13, 10, 13, 10] ?m j" for j using no [OF that] by simp
  ultimately have crlf: "find_bytes [13, 10, 13, 10] ?m = Some ?n" by (intro find_bytes_SomeI) blast+
  have "?n < l" if "find_bytes [10, 10] ?m = Some l" for l
    using no [of "[10, 10]" l] find_bytes_occurs [OF that] by simp
  with crlf show ?thesis by (cases "find_bytes [10, 10] ?m") (fastforce simp: head_end_def)+
qed


definition pieces_ok :: "u8 list list \<Rightarrow> bool" where
  "pieces_ok cs \<longleftrightarrow> list_all (\<lambda>c. c \<noteq> [] \<and> length c \<le> chunk_size) cs"

lemma pieces_ok_simps [simp]:
  "pieces_ok []" "pieces_ok (c # cs) \<longleftrightarrow> c \<noteq> [] \<and> length c \<le> chunk_size \<and> pieces_ok cs"
  by (simp_all add: pieces_ok_def)

lemma read_head_arrives:
  assumes "head_end (head @ [13, 10, 13]) = None" "length head + 4 + chunk_size \<le> head_limit"
  shows "pieces_ok cs \<Longrightarrow> buf @ concat cs = head @ [13, 10, 13, 10] @ rest \<Longrightarrow>
     \<exists>tail cs'. read_head buf cs failure = Inr (head @ [13, 10, 13, 10] @ tail, (length head, length head + 4), cs') \<and>
       tail @ concat cs' = rest \<and> pieces_ok cs'"
proof (induction cs arbitrary: buf)
  case Nil
  then have "head_end buf = Some (length head, length head + 4)" using head_end_complete [OF assms(1), of rest] by simp
  with Nil show ?case by simp
next
  case (Cons c cs)
  let ?h = "head @ [13, 10, 13, 10]"
  show ?case
  proof (cases "length ?h \<le> length buf")
    case True
    have "take (length ?h) buf = ?h"
      using arg_cong [OF Cons.prems(2), of "take (length ?h)"] True by simp
    then obtain tail where b: "buf = ?h @ tail" by (metis append_take_drop_id)
    then have "tail @ concat (c # cs) = rest" using Cons.prems(2) by simp
    with b show ?thesis using head_end_complete [OF assms(1), of tail] Cons.prems(1) by simp
  next
    case False
    have prefix: "\<exists>us. zs = xs @ us" if "xs @ ys = zs @ ts" "length xs \<le> length zs" for xs ys zs ts :: "u8 list"
      using that by (metis append_eq_append_conv_if append_take_drop_id)
    have "\<exists>more. head @ [13, 10, 13] = buf @ more"
      using prefix [of buf "concat (c # cs)" "head @ [13, 10, 13]" "10 # rest"] Cons.prems(2) False by simp
    then have n: "head_end buf = None" using head_end_prefix assms(1) by metis
    have "length (buf @ c) \<le> head_limit" using False assms(2) Cons.prems(1) by simp
    moreover have "(buf @ c) @ concat cs = ?h @ rest" using Cons.prems(2) by simp
    ultimately show ?thesis using n Cons.prems(1) Cons.IH [of "buf @ c"] by simp
  qed
qed

lemma read_announced_arrives:
  "pieces_ok cs \<Longrightarrow> len \<le> length (body @ concat cs) \<Longrightarrow>
     read_announced len body cs failure = Inr (take len (body @ concat cs))"
proof (induction cs arbitrary: body)
  case (Cons c cs)
  then show ?case by (subst read_announced.simps) simp
qed (simp add: read_announced.simps)

lemma read_announced_short:
  "pieces_ok cs \<Longrightarrow> length (body @ concat cs) < len \<Longrightarrow> \<exists>e. read_announced len body cs failure = Inl e"
proof (induction cs arbitrary: body)
  case (Cons c cs)
  then show ?case using Cons.IH [of "body @ c"] by (subst read_announced.simps) simp
qed (simp add: read_announced.simps)

section \<open>Chunks\<close>

definition write_chunk :: "u8 list \<Rightarrow> u8 list" where
  "write_chunk c = text_bytes (show_hex (length c)) @ [13, 10] @ c @ [13, 10]"

lemma parse_hex_show: "n < bound \<Longrightarrow> parse_hex bound (show_hex n) = Some n"
proof -
  assume "n < bound"
  have "strip_prefix ''+'' (show_hex n) = None"
  proof (cases "show_hex n")
    case (Cons a t)
    then have "48 \<le> byte_of a" using show_hex_digit [of a n] by auto
    then have "a \<noteq> CHR ''+''" by (auto simp: byte_of_def)
    with Cons show ?thesis by (simp add: strip_prefix_Cons)
  qed simp
  with \<open>n < bound\<close> show ?thesis
    using digits_val_show_radix [of 16 hex_val n]
    by (simp add: parse_hex_def parse_radix_def show_hex_def hex_val_digit_char)
qed

lemma find_bytes_after:
  assumes "13 \<notin> set a"
  shows "find_bytes [13, 10] (a @ 13 # 10 # b) = Some (length a)"
proof (rule find_bytes_SomeI)
  show "occurs [13, 10] (a @ 13 # 10 # b) (length a)" by (simp add: occurs_def)
next
  fix j
  assume o: "occurs [13, 10] (a @ 13 # 10 # b) j"
  show "length a \<le> j"
  proof (rule ccontr)
    assume "\<not> length a \<le> j"
    then have j: "j < length a" by simp
    then have "hd (drop j (a @ 13 # 10 # b)) = a ! j" by (simp add: hd_append hd_drop_conv_nth)
    moreover have "hd (drop j (a @ 13 # 10 # b)) = 13"
      using o hd_take [of 2 "drop j (a @ 13 # 10 # b)"] by (simp add: occurs_def numeral_2_eq_2)
    ultimately show False using assms j nth_mem by metis
  qed
qed simp

lemma chunk_size_text:
  "13 \<notin> set (text_bytes (show_hex n))" "lossy (text_bytes (show_hex n)) = show_hex n"
  "takeWhile (\<lambda>c. c \<noteq> CHR '';'') (show_hex n) = show_hex n" "trim (show_hex n) = show_hex n"
proof -
  show "13 \<notin> set (text_bytes (show_hex n))"
  proof
    assume "13 \<in> set (text_bytes (show_hex n))"
    then obtain c where c: "c \<in> set (show_hex n)" "(13 :: u8) = of_nat (byte_of c)" by (auto simp: text_bytes_def)
    then have "unat (13 :: u8) = byte_of c" by (metis byte_word)
    with show_hex_digit [OF c(1)] show False by auto
  qed
  show "lossy (text_bytes (show_hex n)) = show_hex n"
    by (rule lossy_ascii) (rule vtext_is_ascii, rule vtext_show_hex)
  show "takeWhile (\<lambda>c. c \<noteq> CHR '';'') (show_hex n) = show_hex n"
  proof (rule takeWhile_eq_all_conv [THEN iffD2], rule ballI, rule notI)
    fix c
    assume "c \<in> set (show_hex n)" "c = CHR '';''"
    then show False using show_hex_digit [of c n] by (auto simp: byte_of_def)
  qed
  show "trim (show_hex n) = show_hex n" by (simp add: trim_vtext)
qed

lemma dechunk_chunk:
  "c \<noteq> [] \<Longrightarrow> length c < 2 ^ 64 \<Longrightarrow> dechunk (write_chunk c @ rest) = c @ dechunk rest"
proof -
  assume c: "c \<noteq> []" "length c < 2 ^ 64"
  let ?hex = "text_bytes (show_hex (length c))"
  have "find_bytes [13, 10] (write_chunk c @ rest) = Some (length ?hex)"
    using find_bytes_after [OF chunk_size_text(1) [of "length c"], of "c @ [13, 10] @ rest"] by (simp add: write_chunk_def)
  moreover have "write_chunk c @ rest \<noteq> []" by (simp add: write_chunk_def)
  ultimately show ?thesis
    using c parse_hex_show [OF c(2)]
    by (subst dechunk.simps) (simp add: write_chunk_def chunk_size_text)
qed

lemma dechunk_last: "dechunk (write_chunk [] @ rest) = []"
proof -
  have "find_bytes [13, 10] (write_chunk [] @ rest) = Some (length (text_bytes (show_hex 0)))"
    using find_bytes_after [OF chunk_size_text(1) [of 0], of "[13, 10] @ rest"] by (simp add: write_chunk_def)
  moreover have "write_chunk [] @ rest \<noteq> []" by (simp add: write_chunk_def)
  ultimately show ?thesis
    using parse_hex_show [of 0 "2 ^ 64"] by (subst dechunk.simps) (simp add: write_chunk_def chunk_size_text)
qed

lemma dechunk_chunks:
  "list_all (\<lambda>c. c \<noteq> [] \<and> length c < 2 ^ 64) cs \<Longrightarrow>
     dechunk (concat (map write_chunk cs) @ write_chunk [] @ rest) = concat cs"
  by (induction cs) (simp_all add: dechunk_chunk dechunk_last)


text \<open>
  What a read of the body starts from: the part that came with the head, and the pieces to come, which together are
  everything behind the head.
\<close>

lemma response_body:
  assumes "pieces_ok cs" and "concat cs = head @ [13, 10, 13, 10] @ rest"
    and "head_end (head @ [13, 10, 13]) = None" and "length head + 4 + chunk_size \<le> head_limit"
    and "response_lines head = line # hs" and "status_of line = Some status"
  obtains tail cs' where "tail @ concat cs' = rest" "pieces_ok cs'"
    "read_response (cs, failure) max_size =
      (case read_body (size_limit max_size) (parse_headers hs) tail cs' failure of
         Inl e \<Rightarrow> Inl e
       | Inr body \<Rightarrow> Inr \<lparr>hr_status = status, hr_headers = parse_headers hs, hr_body = body\<rparr>)"
proof -
  obtain tail cs' where "read_head [] cs failure =
      Inr (head @ [13, 10, 13, 10] @ tail, (length head, length head + 4), cs')"
    "tail @ concat cs' = rest" "pieces_ok cs'"
    using read_head_arrives [OF assms(3,4,1), of "[]" rest failure] assms(2) by auto
  then show ?thesis using that assms(5,6) by (simp add: read_response_def Let_def)
qed

lemma read_rest_arrives:
  "pieces_ok cs \<Longrightarrow> length (body @ concat cs) \<le> limit \<Longrightarrow> read_rest limit body cs None = Inr (body @ concat cs)"
  by (induction cs arbitrary: body) (simp_all add: Let_def)

lemma read_rest_fails: "pieces_ok cs \<Longrightarrow> \<exists>e. read_rest limit body cs (Some f) = Inl e"
  by (induction cs arbitrary: body) (simp_all add: Let_def)

lemma read_announced_result:
  assumes "pieces_ok cs"
  shows "if len \<le> length (body @ concat cs) then read_announced len body cs failure = Inr (take len (body @ concat cs))
    else \<exists>e. read_announced len body cs failure = Inl e"
  using read_announced_arrives [OF assms, of len body] read_announced_short [OF assms, of body len] by auto

text \<open>The body by its framing: as many bytes as were announced, or everything up to the end of the connection.\<close>

lemma read_body_arrives:
  assumes "pieces_ok cs" and "tail @ concat cs = rest"
  shows "case (is_chunked headers, announced_length headers) of
      (False, Some len) \<Rightarrow>
        if len \<le> limit \<and> len \<le> length rest then read_body limit headers tail cs failure = Inr (take len rest)
        else \<exists>e. read_body limit headers tail cs failure = Inl e
    | (chunked, _) \<Rightarrow>
        if failure \<noteq> None then \<exists>e. read_body limit headers tail cs failure = Inl e
        else length rest \<le> limit \<longrightarrow> read_body limit headers tail cs failure = Inr (if chunked then dechunk rest else rest)"
proof -
  have "failure = None \<Longrightarrow> length rest \<le> limit \<Longrightarrow> read_rest limit tail cs failure = Inr rest"
    using read_rest_arrives [OF assms(1), of tail limit] assms(2) by simp
  moreover have "failure \<noteq> None \<Longrightarrow> \<exists>e. read_rest limit tail cs failure = Inl e"
    using read_rest_fails [OF assms(1), of limit tail] by auto
  moreover have "if len \<le> length rest then read_announced len tail cs failure = Inr (take len rest)
      else \<exists>e. read_announced len tail cs failure = Inl e" for len
    using read_announced_result [OF assms(1), of len tail failure] assms(2) by simp
  ultimately show ?thesis
    by (cases "is_chunked headers"; cases "announced_length headers") (auto simp: read_body_def split: if_splits)
qed

text \<open>The reader keeps what arrived of a chunk that was cut off.\<close>

lemma cut_chunk_is_kept:
  assumes "length c < n" "n < 2 ^ 64"
  shows "dechunk (text_bytes (show_hex n) @ [13, 10] @ c) = c"
proof -
  let ?r = "text_bytes (show_hex n) @ [13, 10] @ c"
  have "find_bytes [13, 10] ?r = Some (length (text_bytes (show_hex n)))"
    using find_bytes_after [OF chunk_size_text(1) [of n], of c] by simp
  moreover have "?r \<noteq> []" by simp
  moreover have "n \<noteq> 0" "\<not> n \<le> length c" using assms(1) by simp_all
  ultimately show ?thesis
    using parse_hex_show [OF assms(2)] by (subst dechunk.simps) (simp add: chunk_size_text)
qed

text \<open>The limit is compared after a read, and so not with what came along with the headers.\<close>

lemma limit_skips_the_first_read: "read_body 1 [] [104, 105] [] None = Inr [104, 105]"
  by (simp add: read_body_def is_chunked_def announced_length_def header_value_def)

section \<open>Properties\<close>

text \<open>Property C31: A request is one request, whatever its URL holds. The URL of a retrieval was chosen by
  whoever sent the notification; if it is accepted at all, the head that is sent consists of exactly the lines the client
  means to send and the blank line behind them, with no line of the URL's making, and the length it
  announces is that of the body it sends. What the configuration contributes has to be free of
  control characters itself.
\<close>

theorem http_request_is_one_request:
  assumes "http_request env method url ctype body opts = (res, Some (a, head, sent))"
    and "clean method" and "clean (ho_agent opts)"
    and "case ho_profile opts of Some p \<Rightarrow> clean p | None \<Rightarrow> True" and "case ctype of Some c \<Rightarrow> clean c | None \<Rightarrow> True"
  shows "\<exists>u line_target ls. mms_parse_url url = Inr u \<and>
    ls = request_lines method line_target u opts ctype body \<and> list_all clean ls \<and>
    str_lines head = ls @ [[]] \<and> List.last ls = ''Content-Length: '' @ show_nat (length sent)"
proof -
  obtain u where u: "mms_parse_url url = Inr u"
    using assms(1) by (cases "mms_parse_url url") (auto simp: http_request_def)
  obtain h p line_target where t: "request_target u url opts = Inr (h, p, line_target)"
    using assms(1) u by (cases "request_target u url opts") (auto simp: http_request_def)
  have s: "head = request_head method line_target u opts ctype body" "sent = (case body of Some b \<Rightarrow> b | None \<Rightarrow> [])"
    using assms(1) u t by (auto simp: http_request_def Let_def split: sum.splits if_splits option.splits)
  let ?ls = "request_lines method line_target u opts ctype body"
  have c: "list_all clean ?ls" by (rule request_lines_clean [OF u t assms(2,3)]) (use assms(4,5) in auto)
  have "str_lines crlf = [[]]" using str_lines_crlf [of "[]" "[]"] by (simp add: crlf_def cr_def lf_def)
  with str_lines_crlf_lines [OF c, of crlf] s have "str_lines head = ?ls @ [[]]" by (simp add: request_head_def)
  moreover have "List.last ?ls = ''Content-Length: '' @ show_nat (length sent)"
    using s(2) by (cases body) (simp_all add: request_lines_def)
  ultimately show ?thesis using u c by blast
qed

definition sample_options :: http_options where
  "sample_options = \<lparr>ho_proxy = None, ho_interface = None, ho_local = None, ho_timeout = 60, ho_agent = ''modem2sip'',
     ho_profile = None, ho_max = 0, ho_dns = []\<rparr>"

definition sample_env :: http_env where
  "sample_env = \<lparr>he_net = \<lambda>_ _ _. \<lparr>dt_socket = \<lambda>_ _. None, dt_id = 0, dt_send = \<lambda>_. None, dt_datagrams = [], dt_receive = None\<rparr>,
     he_system = \<lambda>_ port. Inr [\<lparr>sa_ip = V4 7, sa_port = port\<rparr>], he_connect = \<lambda>_ _ _. None, he_send = None,
     he_stream = ([], None), he_late = False\<rparr>"

lemma sample_url: "mms_parse_url ''http://m/x'' = Inr \<lparr>hu_host = ''m'', hu_port = 80, hu_path = ''/x''\<rparr>"
  by code_simp

lemma http_request_is_one_request_witness:
  "\<exists>ls. str_lines (request_head ''GET'' ''/x'' \<lparr>hu_host = ''m'', hu_port = 80, hu_path = ''/x''\<rparr> sample_options None None) =
     ls @ [[]] \<and> List.last ls = ''Content-Length: '' @ show_nat 0"
proof -
  have ip: "parse_ip_addr ''m'' = None" by (rule parse_ip_addr_name) (simp_all add: hex_val_def digit_val_def byte_of_def)
  have "strip_brackets ''m'' = ''m''" by (simp add: strip_brackets_def strip_prefix_def)
  with ip have "http_resolve sample_env ''m'' 80 sample_options = Inr [\<lparr>sa_ip = V4 7, sa_port = 80\<rparr>]"
    by (simp add: http_resolve_def sample_env_def sample_options_def is_usable_def is_ipv6_def Let_def)
  moreover have "connect_any sample_env sample_options [a] = Inr a" for a
    by (simp add: connect_any_def sample_env_def)
  moreover have "he_late sample_env = False" "he_send sample_env = None" by (simp_all add: sample_env_def)
  moreover have "ho_proxy sample_options = None" by (simp add: sample_options_def)
  ultimately have "\<exists>res. http_request sample_env ''GET'' ''http://m/x'' None None sample_options =
      (res, Some (\<lparr>sa_ip = V4 7, sa_port = 80\<rparr>,
        request_head ''GET'' ''/x'' \<lparr>hu_host = ''m'', hu_port = 80, hu_path = ''/x''\<rparr> sample_options None None, []))"
    by (simp add: http_request_def sample_url request_target_def Let_def)
  then obtain res where r: "http_request sample_env ''GET'' ''http://m/x'' None None sample_options =
      (res, Some (\<lparr>sa_ip = V4 7, sa_port = 80\<rparr>,
        request_head ''GET'' ''/x'' \<lparr>hu_host = ''m'', hu_port = 80, hu_path = ''/x''\<rparr> sample_options None None, []))" ..
  have "clean ''GET''" "clean (ho_agent sample_options)"
    by (simp_all add: sample_options_def control_char_def byte_of_def)
  with http_request_is_one_request [OF r] show ?thesis by (auto simp: sample_options_def)
qed

text \<open>Property C37: A response is never larger than it may be, and never shorter than it says. A body is at most the configured
  limit, or what came along with the headers where that is more, which is at most \<open>64\<close> KiB; and the body of
  a response that announces its length has exactly that length, within the limit.
\<close>

theorem http_response_size:
  assumes "read_response stream max_size = Inr r"
  shows "length (hr_body r) \<le> max (size_limit max_size) head_limit \<and>
    (\<not> is_chunked (hr_headers r) \<longrightarrow> announced_length (hr_headers r) = Some n \<longrightarrow>
      length (hr_body r) = n \<and> n \<le> size_limit max_size)"
proof -
  obtain buf e cs where "read_head [] (fst stream) (snd stream) = Inr (buf, e, cs)"
    and b: "read_body (size_limit max_size) (hr_headers r) (drop (snd e) buf) cs (snd stream) = Inr (hr_body r)"
    using assms by (rule read_response_parts)
  then have "length buf \<le> head_limit" using read_head_bound [of "[]" "fst stream" "snd stream"] by simp
  then have "length (hr_body r) \<le> max (size_limit max_size) head_limit"
    using conjunct1 [OF read_body_bound [OF b]] by (auto simp: le_max_iff_disj)
  then show ?thesis using read_body_bound [OF b] by blast
qed

definition sample_head :: "u8 list" where
  "sample_head = text_bytes ''HTTP/1.1 200 OK'' @ [13, 10] @ text_bytes ''Content-Length: 2''"

lemma sample_status: "status_of ''HTTP/1.1 200 OK'' = Some 200"
proof -
  have "split_whitespace ''HTTP/1.1 200 OK'' = [''HTTP/1.1'', show_nat 200, ''OK'']" by code_simp
  then show ?thesis using parse_u16_show [of 200] by (simp add: status_of_def)
qed

lemma sample_head_reads:
  "response_lines sample_head = [''HTTP/1.1 200 OK'', ''Content-Length: 2'']"
  "parse_headers [''Content-Length: 2''] = [(''Content-Length'', ''2'')]"
  "is_chunked [(''Content-Length'', ''2'')] = False"
  "head_end (sample_head @ [13, 10, 13]) = None"
  "length sample_head = 34"
  by code_simp+

lemma sample_announced: "announced_length [(''Content-Length'', ''2'')] = Some 2"
proof -
  have "header_value [(''Content-Length'', ''2'')] ''content-length'' = Some (show_nat 2)" by code_simp
  moreover have "trim (show_nat 2) = show_nat 2" by (rule trim_vtext) (rule vtext_show_nat)
  moreover have "parse_usize (show_nat 2) = Some 2" by (rule parse_usize_show) simp
  ultimately show ?thesis by (simp add: announced_length_def)
qed

definition sample_pieces :: "u8 list list" where
  "sample_pieces = [sample_head @ [13], [10, 13, 10, 104], [105]]"

lemma sample_pieces_ok: "pieces_ok sample_pieces" "concat sample_pieces = sample_head @ [13, 10, 13, 10] @ [104, 105]"
  by (simp_all add: sample_pieces_def chunk_size_def sample_head_reads)

lemma sample_response:
  "read_response (sample_pieces, None) 0 = Inr \<lparr>hr_status = 200, hr_headers = [(''Content-Length'', ''2'')], hr_body = [104, 105]\<rparr>"
proof -
  obtain tail cs where b: "tail @ concat cs = [104, 105]" "pieces_ok cs" "read_response (sample_pieces, None) 0 =
      (case read_body (size_limit 0) (parse_headers [''Content-Length: 2'']) tail cs None of
         Inl e \<Rightarrow> Inl e
       | Inr body \<Rightarrow> Inr \<lparr>hr_status = 200, hr_headers = parse_headers [''Content-Length: 2''], hr_body = body\<rparr>)"
    using response_body [OF sample_pieces_ok sample_head_reads(4) _ sample_head_reads(1) sample_status, where failure = None and max_size = 0]
    by (auto simp: sample_head_reads chunk_size_def head_limit_def)
  show ?thesis
    using b(3) read_body_arrives [OF b(2,1), where headers = "parse_headers [''Content-Length: 2'']" and limit = "size_limit 0" and failure = None]
    by (simp add: sample_head_reads sample_announced size_limit_def)
qed

lemma http_response_size_witness:
  "\<exists>r. read_response (sample_pieces, None) 0 = Inr r \<and> length (hr_body r) = 2 \<and> hr_body r = [104, 105]"
  using sample_response http_response_size [OF sample_response, of 2] by (simp add: sample_head_reads sample_announced)

text \<open>Property C38: How the network cuts a response into pieces makes no difference. Let a head that ends in its first empty
  line, written CR LF CR LF, within the limit (less one read), be followed by any bytes, and let the reads return them in
  any pieces. With an announced length and no chunks, the body is exactly that many bytes of what follows, whatever comes behind
  them; a length above the limit, or a connection that ends before it, is refused. Otherwise everything up to the end of the
  connection is the body, put together from its chunks if it is chunked, as long as it is within the limit; and a connection that
  fails is refused. (What is longer than the limit may be taken or refused, by the pieces it comes in; a chunk cut off by the end of the
  connection is kept.)
\<close>

theorem http_response_ignores_segmentation:
  assumes "pieces_ok cs" and "concat cs = head @ [13, 10, 13, 10] @ rest"
    and "head_end (head @ [13, 10, 13]) = None" and "length head + 4 + chunk_size \<le> head_limit"
    and "response_lines head = line # hs" and "status_of line = Some status"
  shows "let headers = parse_headers hs; limit = size_limit max_size; got = read_response (cs, failure) max_size;
      given = (\<lambda>body. Inr \<lparr>hr_status = status, hr_headers = headers, hr_body = body\<rparr>) in
    case (is_chunked headers, announced_length headers) of
      (False, Some len) \<Rightarrow> if len \<le> limit \<and> len \<le> length rest then got = given (take len rest) else \<exists>e. got = Inl e
    | (chunked, _) \<Rightarrow>
        if failure \<noteq> None then \<exists>e. got = Inl e
        else length rest \<le> limit \<longrightarrow> got = given (if chunked then dechunk rest else rest)"
proof -
  obtain tail cs' where b: "tail @ concat cs' = rest" "pieces_ok cs'" and r: "read_response (cs, failure) max_size =
      (case read_body (size_limit max_size) (parse_headers hs) tail cs' failure of
         Inl e \<Rightarrow> Inl e
       | Inr body \<Rightarrow> Inr \<lparr>hr_status = status, hr_headers = parse_headers hs, hr_body = body\<rparr>)"
    using response_body [OF assms] .
  show ?thesis
    using read_body_arrives [OF b(2,1), where headers = "parse_headers hs" and limit = "size_limit max_size" and failure = failure] unfolding r Let_def
    by (auto split: option.splits bool.splits if_splits)
qed

lemma http_response_ignores_segmentation_witness:
  "read_response (sample_pieces, None) 0 =
     Inr \<lparr>hr_status = 200, hr_headers = [(''Content-Length'', ''2'')], hr_body = [104, 105]\<rparr>"
  using http_response_ignores_segmentation [OF sample_pieces_ok sample_head_reads(4) _ sample_head_reads(1) sample_status,
      where failure = None and max_size = 0]
  by (simp add: sample_head_reads sample_announced chunk_size_def head_limit_def size_limit_def)

text \<open>A chunked body is put together from its chunks: non-empty chunks of any sizes and contents,
  then an empty one, give exactly their concatenation, whatever trailer follows.
\<close>

lemma chunks_round_trip:
  assumes "list_all (\<lambda>c. c \<noteq> [] \<and> length c < 2 ^ 64) cs"
  shows "dechunk (concat (map write_chunk cs) @ write_chunk [] @ trailer) = concat cs"
  using dechunk_chunks [OF assms] .

lemma chunks_round_trip_witness:
  "dechunk (concat (map write_chunk [[1, 2], [13, 10]]) @ write_chunk [] @ [13, 10]) = [1, 2, 13, 10]"
  using chunks_round_trip [of "[[1, 2], [13, 10]]" "[13, 10]"] by simp

end
