(* ===== verification/MmsManager.thy ===== *)
theory MmsManager
  imports MmsHttp Modem
begin

text \<open>
  The MMS manager of \<open>src/mms/manager.rs\<close>: a notification is stored, its message fetched from the MMSC, stored and
  acknowledged; a message is submitted. An operation is a function from the world to a result, an error or a value,
  and the world after it. The world holds the database, which of the coming calls to it fail, what the coming
  HTTP requests meet, and the log of what was written and requested, in order.
\<close>

section \<open>The world\<close>

datatype mms_op = Db db_op | Get string "string + http_response" | Post string "u8 list" "string + http_response"
  | Setup string

record world =
  w_db :: database
  w_faults :: "bool list"
  w_http :: "http_env list"
  w_log :: "mms_op list"

text \<open>
  What does not change: the configuration, the decoders of the libraries, the clock, whether there is a modem and
  the bearer it has, the error of the setup command if it fails, random bytes, files, and where attachments go.
\<close>

record mms_env =
  me_cfg :: config
  me_dec :: decoder
  me_label :: "string \<Rightarrow> (u8 list \<Rightarrow> string) option"
  me_iso :: "u64 \<Rightarrow> string"
  me_now :: string
  me_bearer :: "data_bearer option option"
  me_setup :: "string option"
  me_draws :: "u8 list"
  me_base64 :: "string \<Rightarrow> u8 list option"
  me_file :: "string \<Rightarrow> u8 list option"
  me_unicode :: "string \<Rightarrow> bool"
  me_dir :: string

type_synonym 'a mms_action = "world \<Rightarrow> (string + 'a) \<times> world"

definition ok :: "'a \<Rightarrow> 'a mms_action" where
  "ok v w = (Inr v, w)"

definition err :: "string \<Rightarrow> 'a mms_action" where
  "err e w = (Inl e, w)"

definition and_try :: "'a mms_action \<Rightarrow> ('a \<Rightarrow> 'b mms_action) \<Rightarrow> 'b mms_action" where
  "and_try m f w = (case m w of (Inl e, w') \<Rightarrow> (Inl e, w') | (Inr v, w') \<Rightarrow> f v w')"

text \<open>A handler for the error: \<open>match result { Ok .. Err .. }\<close>.\<close>

definition on_result :: "'a mms_action \<Rightarrow> (string + 'a \<Rightarrow> 'b mms_action) \<Rightarrow> 'b mms_action" where
  "on_result m f w = (case m w of (r, w') \<Rightarrow> f r w')"

text \<open>\<open>context\<close>: the text that an error then shows.\<close>

definition with_context :: "string \<Rightarrow> 'a mms_action \<Rightarrow> 'a mms_action" where
  "with_context e m w = (case m w of (Inl _, w') \<Rightarrow> (Inl e, w') | (Inr v, w') \<Rightarrow> (Inr v, w'))"

text \<open>One call to the database, which may fail; a write is in the log when it succeeded.\<close>

definition db_read :: "(database \<Rightarrow> 'a) \<Rightarrow> 'a mms_action" where
  "db_read f w =
     (case w_faults w of
        True # fs \<Rightarrow> (Inl ''database'', w\<lparr>w_faults := fs\<rparr>)
      | _ \<Rightarrow> (Inr (f (w_db w)), w\<lparr>w_faults := tl (w_faults w)\<rparr>))"

definition db_write :: "db_op \<Rightarrow> unit mms_action" where
  "db_write op w =
     (case w_faults w of
        True # fs \<Rightarrow> (Inl ''database'', w\<lparr>w_faults := fs\<rparr>)
      | _ \<Rightarrow> (Inr (), w\<lparr>w_faults := tl (w_faults w), w_db := db_step op (w_db w), w_log := w_log w @ [Db op]\<rparr>))"

definition db_insert :: "mms_env \<Rightarrow> new_message \<Rightarrow> nat option mms_action" where
  "db_insert me msg w =
     (let mid = fst (insert_message (me_now me) msg (w_db w)) in
      case db_write (InsertMessage (me_now me) msg) w of (Inl e, w') \<Rightarrow> (Inl e, w') | (Inr _, w') \<Rightarrow> (Inr mid, w'))"

text \<open>One HTTP request: it meets the next connection, and is in the log with what came of it.\<close>

definition http_call ::
  "(string + http_response \<Rightarrow> mms_op) \<Rightarrow>
     (http_env \<Rightarrow> (string + http_response) \<times> (socket_addr \<times> string \<times> u8 list) option) \<Rightarrow> http_response mms_action" where
  "http_call op req w =
     (let r = (case w_http w of [] \<Rightarrow> Inl ''unreachable'' | he # _ \<Rightarrow> fst (req he)) in
      (r, w\<lparr>w_log := w_log w @ [op r], w_http := tl (w_http w)\<rparr>))"

section \<open>Options\<close>

definition http_options_for :: "mms_env \<Rightarrow> http_options" where
  "http_options_for me =
     (let m = cf_mms (me_cfg me);
          opts = \<lparr>ho_proxy = ms_proxy m, ho_interface = ms_interface m, ho_local = ms_local_ip m,
            ho_timeout = unat (ms_timeout_secs m), ho_agent = ms_user_agent m, ho_profile = ms_ua_profile m,
            ho_max = ms_max_size m, ho_dns = ms_dns m\<rparr>;
          needs_binding = (ho_interface opts = None \<and> ho_local opts = None) in
      if needs_binding \<or> ho_dns opts = [] then
        (case me_bearer me of
           Some (Some b) \<Rightarrow>
             (let opts1 = (if needs_binding then opts\<lparr>ho_interface := Some (bi_interface b), ho_local := bi_address b\<rparr>
                           else opts) in
              if ho_dns opts1 = [] then opts1\<lparr>ho_dns := bi_dns b\<rparr> else opts1)
         | _ \<Rightarrow> opts)
      else opts)"

definition run_setup_command :: "mms_env \<Rightarrow> unit mms_action" where
  "run_setup_command me w =
     (case ms_setup_command (cf_mms (me_cfg me)) of
        None \<Rightarrow> ok () w
      | Some cmd \<Rightarrow>
          (let w1 = w\<lparr>w_log := w_log w @ [Setup cmd]\<rparr> in
           case me_setup me of None \<Rightarrow> ok () w1 | Some e \<Rightarrow> err e w1))"

definition mms_type :: string where "mms_type = ''application/vnd.wap.mms-message''"

definition get_mms :: "mms_env \<Rightarrow> string \<Rightarrow> http_response mms_action" where
  "get_mms me url = http_call (Get url) (\<lambda>he. http_get he url (http_options_for me))"

definition post_mms :: "mms_env \<Rightarrow> string \<Rightarrow> u8 list \<Rightarrow> http_response mms_action" where
  "post_mms me url pdu = http_call (Post url pdu) (\<lambda>he. http_post he url mms_type pdu (http_options_for me))"

section \<open>Retrieval\<close>

text \<open>A decoded message: a panic of the decoder is none of the results, and the theorems of \<open>Mms\<close> exclude it.\<close>

definition decode_mms :: "mms_env \<Rightarrow> u8 list \<Rightarrow> mms_message mms_action" where
  "decode_mms me bs =
     (case mms_decode (me_dec me) bs of Some (Inr m) \<Rightarrow> ok m | Some (Inl e) \<Rightarrow> err e | None \<Rightarrow> err ''panic'')"

definition attachment_of :: "mms_env \<Rightarrow> nat \<Rightarrow> int \<Rightarrow> mms_part \<Rightarrow> attachment" where
  "attachment_of me mid i p =
     \<lparr>at_message = mid, at_index = i, at_content_type = mp_type p, at_name = mp_name p, at_content_id = mp_id p,
      at_size = length (mp_data p),
      at_path = me_dir me @ ''/'' @ show_nat mid @ ''/'' @ sanitize_name (me_unicode me) (mp_name p) i (mp_type p)\<rparr>"

definition is_smil :: "mms_part \<Rightarrow> bool" where
  "is_smil p \<longleftrightarrow> contains_text ''smil'' (mp_type p)"

text \<open>The parts from one on, and how many were stored before them; the number stored at the end.\<close>

fun store_parts :: "mms_env \<Rightarrow> nat \<Rightarrow> mms_part list \<Rightarrow> int \<Rightarrow> int mms_action" where
  "store_parts me mid [] i = ok i"
| "store_parts me mid (p # ps) i =
     (if is_smil p then store_parts me mid ps i
      else and_try (db_write (AddAttachment (attachment_of me mid (i + 1) p)))
             (\<lambda>_. store_parts me mid ps (i + 1)))"

definition store_retrieved :: "mms_env \<Rightarrow> nat \<Rightarrow> mms_message \<Rightarrow> unit mms_action" where
  "store_retrieved me mid m =
     and_try (db_write (UpdateMms mid (mm_subject m) (body_text (me_dec me) (me_label me) m)
         (map_option (me_iso me) (mm_date m))))
       (\<lambda>_. and_try (store_parts me mid (mm_parts m) 0)
         (\<lambda>n. and_try (db_write (Prune mid n)) (\<lambda>_. db_write (SetStatus mid ''received'' None))))"

text \<open>What is refused of an answer of the MMSC.\<close>

definition refusal :: "http_response \<Rightarrow> mms_message \<Rightarrow> string option" where
  "refusal resp m =
     (if mm_type m \<noteq> RETRIEVE_CONF \<and> mm_parts m = []
      then Some (''the MMSC returned a '' @ msg_type_name (mm_type m) @ '' with no content ('' @
        (case hr_content_type resp of Some t \<Rightarrow> t | None \<Rightarrow> ''no content type'') @ '', '' @
        show_nat (length (hr_body resp)) @ '' bytes) instead of an M-Retrieve.conf'')
      else (case mm_retrieve m of
          Some s \<Rightarrow>
            if s \<noteq> 0x80
            then Some (''the MMSC refused the retrieval: status 0x'' @ show_hex_pad 2 (unat s) @ '' '' @
              (case mm_response_text m of Some t \<Rightarrow> t | None \<Rightarrow> []))
            else None
        | None \<Rightarrow> None))"

definition acknowledge :: "mms_env \<Rightarrow> mms_message \<Rightarrow> mms_message \<Rightarrow> unit mms_action" where
  "acknowledge me notification m =
     (case (first_of (mm_transaction m) (mm_transaction notification), ms_mmsc (cf_mms (me_cfg me))) of
        (Some tid, Some mmsc) \<Rightarrow>
          on_result (post_mms me mmsc (encode_acknowledge_ind tid False)) (\<lambda>_. ok ())
      | _ \<Rightarrow> ok ())"

definition mms_retrieve :: "mms_env \<Rightarrow> mms_message \<Rightarrow> nat \<Rightarrow> unit mms_action" where
  "mms_retrieve me notification mid =
     (case mm_location notification of
        None \<Rightarrow> err ''notification has no X-Mms-Content-Location''
      | Some url \<Rightarrow>
          if (case mm_size notification of Some n \<Rightarrow> ms_max_size (cf_mms (me_cfg me)) < unat n | None \<Rightarrow> False)
          then err (''message of '' @ show_u64 (mm_size notification) @ '' bytes exceeds mms.max_size'')
          else and_try (run_setup_command me) (\<lambda>_.
            and_try (with_context ''fetching the MMS body'' (get_mms me url)) (\<lambda>resp.
              if hr_status resp \<noteq> 200 then err (''MMSC returned HTTP '' @ show_nat (unat (hr_status resp)))
              else and_try (with_context ''decoding M-Retrieve.conf'' (decode_mms me (hr_body resp))) (\<lambda>m.
                case refusal resp m of
                  Some e \<Rightarrow> err e
                | None \<Rightarrow> and_try (store_retrieved me mid m) (\<lambda>_. acknowledge me notification m)))))"

definition notify_resp :: "mms_env \<Rightarrow> mms_message \<Rightarrow> u8 \<Rightarrow> unit mms_action" where
  "notify_resp me notification status =
     (case (mm_transaction notification, ms_mmsc (cf_mms (me_cfg me))) of
        (Some tid, Some mmsc) \<Rightarrow>
          on_result (post_mms me mmsc (encode_notify_resp_ind tid status False)) (\<lambda>_. ok ())
      | _ \<Rightarrow> ok ())"

section \<open>Notifications\<close>

definition cfg_local_number :: "config \<Rightarrow> string \<Rightarrow> string" where
  "cfg_local_number cfg n = to_national n (mm_country_code (cf_modem cfg)) (mm_national_prefix (cf_modem cfg))"

definition retriable_duplicate :: "mms_env \<Rightarrow> string option \<Rightarrow> nat option mms_action" where
  "retriable_duplicate me ext =
     (if \<not> ms_enabled (cf_mms (me_cfg me)) \<or> \<not> ms_auto_retrieve (cf_mms (me_cfg me)) then ok None
      else (case ext of
          None \<Rightarrow> ok None
        | Some e \<Rightarrow>
            on_result (db_read (\<lambda>db. find_by_external_id db ''mms'' Incoming e)) (\<lambda>r.
              ok (case r of
                  Inr (Some (mid, status)) \<Rightarrow>
                    if status \<in> {''notified'', ''retrieve_failed''} then Some mid else None
                | _ \<Rightarrow> None))))"

text \<open>A failed retrieval is recorded; \<open>v\<close> is what the caller returns then.\<close>

definition retrieve_or_mark :: "mms_env \<Rightarrow> mms_message \<Rightarrow> nat \<Rightarrow> 'a \<Rightarrow> 'a \<Rightarrow> 'a mms_action" where
  "retrieve_or_mark me notification mid done v =
     on_result (mms_retrieve me notification mid) (\<lambda>r.
       case r of
         Inr _ \<Rightarrow> ok done
       | Inl e \<Rightarrow> and_try (db_write (SetStatus mid ''retrieve_failed'' (Some e))) (\<lambda>_. ok v))"

definition notified_message :: "mms_env \<Rightarrow> sms_info \<Rightarrow> mms_message \<Rightarrow> u8 list \<Rightarrow> new_message" where
  "notified_message me sms n body =
     \<lparr>nm_kind = ''mms'', nm_direction = Incoming,
      nm_peer = cfg_local_number (me_cfg me) (case mm_sender n of Some s \<Rightarrow> s | None \<Rightarrow> si_number sms),
      nm_own_number = None, nm_subject = mm_subject n, nm_text = None, nm_timestamp = map_option (me_iso me) (mm_date n),
      nm_status = ''notified'', nm_external_id = first_of (mm_transaction n) (mm_id n), nm_raw = Some body\<rparr>"

definition handle_notification :: "mms_env \<Rightarrow> mms_message \<Rightarrow> nat option \<Rightarrow> nat option mms_action" where
  "handle_notification me n stored =
     (case stored of
        None \<Rightarrow>
          and_try (retriable_duplicate me (first_of (mm_transaction n) (mm_id n))) (\<lambda>existing.
            case existing of
              Some mid \<Rightarrow> retrieve_or_mark me n mid (Some mid) None
            | None \<Rightarrow> ok None)
      | Some mid \<Rightarrow>
          if \<not> ms_enabled (cf_mms (me_cfg me)) then
            and_try (db_write (SetStatus mid ''notified'' (Some ''mms disabled in the configuration'')))
              (\<lambda>_. ok (Some mid))
          else if \<not> ms_auto_retrieve (cf_mms (me_cfg me)) then
            and_try (notify_resp me n 0x83) (\<lambda>_. ok (Some mid))
          else retrieve_or_mark me n mid (Some mid) (Some mid))"

definition handle_push :: "mms_env \<Rightarrow> sms_info \<Rightarrow> nat option mms_action" where
  "handle_push me sms =
     (case parse_wap_push (me_dec me) (si_data sms) of
        None \<Rightarrow> err ''panic''
      | Some (Inl e) \<Rightarrow> err ''decoding the WAP push''
      | Some (Inr push) \<Rightarrow>
          if \<not> is_mms_push push then ok None
          else and_try (with_context ''decoding the MMS PDU'' (decode_mms me (wp_body push))) (\<lambda>n.
            and_try (db_insert me (notified_message me sms n (wp_body push))) (handle_notification me n)))"

definition mms_disabled :: string where
  "mms_disabled = ''MMS is disabled (set mms.enabled = true and mms.mmsc)''"

definition retrieve_stored :: "mms_env \<Rightarrow> nat \<Rightarrow> unit mms_action" where
  "retrieve_stored me mid =
     (if \<not> ms_enabled (cf_mms (me_cfg me)) then err mms_disabled
      else and_try (db_read (\<lambda>db. message_raw db mid)) (\<lambda>raw.
        case raw of
          None \<Rightarrow> err (''message '' @ show_nat mid @ '' has no stored notification'')
        | Some bs \<Rightarrow>
            and_try (with_context ''decoding the stored notification'' (decode_mms me bs)) (\<lambda>n.
              on_result (mms_retrieve me n mid) (\<lambda>r.
                case r of
                  Inr _ \<Rightarrow> ok ()
                | Inl e \<Rightarrow> and_try (db_write (SetStatus mid ''retrieve_failed'' (Some e))) (\<lambda>_. err e)))))"

section \<open>Submission\<close>

record send_attachment =
  sa_type :: string
  sa_name :: "string option"
  sa_base64 :: "string option"
  sa_path :: "string option"

record mms_request =
  sr_to :: "string list"
  sr_subject :: "string option"
  sr_text :: "string option"
  sr_attachments :: "send_attachment list"

definition load_attachment :: "mms_env \<Rightarrow> send_attachment \<Rightarrow> string + u8 list" where
  "load_attachment me att =
     (case sa_base64 att of
        Some b64 \<Rightarrow> (case me_base64 me (trim b64) of Some d \<Rightarrow> Inr d | None \<Rightarrow> Inl ''decoding data_base64'')
      | None \<Rightarrow>
          (case sa_path att of
             Some path \<Rightarrow> (case me_file me path of Some d \<Rightarrow> Inr d | None \<Rightarrow> Inl (''reading attachment '' @ path))
           | None \<Rightarrow> Inl ''attachment needs either data_base64 or path''))"

definition text_part :: "string \<Rightarrow> mms_part" where
  "text_part t = (mms_part_new ''text/plain'' (text_bytes t))
     \<lparr>mp_id := Some ''text0'', mp_params := [(''name'', ''text0.txt'')]\<rparr>"

fun attachment_parts :: "mms_env \<Rightarrow> nat \<Rightarrow> send_attachment list \<Rightarrow> string + mms_part list" where
  "attachment_parts me i [] = Inr []"
| "attachment_parts me i (a # as) =
     (case load_attachment me a of
        Inl e \<Rightarrow> Inl e
      | Inr data \<Rightarrow>
          (case attachment_parts me (Suc i) as of
             Inl e \<Rightarrow> Inl e
           | Inr ps \<Rightarrow> Inr ((mms_part_new (sa_type a) data)
                 \<lparr>mp_id := Some (''part'' @ show_nat i),
                  mp_params := (case sa_name a of Some n \<Rightarrow> [(''name'', n)] | None \<Rightarrow> [])\<rparr> # ps)))"

definition content_parts :: "mms_env \<Rightarrow> mms_request \<Rightarrow> string + mms_part list" where
  "content_parts me req =
     (case attachment_parts me 0 (sr_attachments req) of
        Inl e \<Rightarrow> Inl e
      | Inr ps \<Rightarrow>
          Inr ((case sr_text req of Some t \<Rightarrow> if t = [] then [] else [text_part t] | None \<Rightarrow> []) @ ps))"

definition with_smil :: "mms_part list \<Rightarrow> mms_part list" where
  "with_smil content =
     (if 1 < length content
      then (mms_part_new ''application/smil'' (text_bytes (build_smil content)))
        \<lparr>mp_id := Some ''smil'', mp_params := [(''name'', ''presentation.smil'')]\<rparr> # content
      else content)"

fun store_sent :: "mms_env \<Rightarrow> nat \<Rightarrow> nat \<Rightarrow> mms_part list \<Rightarrow> unit mms_action" where
  "store_sent me mid i [] = ok ()"
| "store_sent me mid i (p # ps) =
     (if is_smil p then store_sent me mid (Suc i) ps
      else and_try (db_write (AddAttachment (attachment_of me mid (int i) p))) (\<lambda>_. store_sent me mid (Suc i) ps))"

definition send_transaction :: "mms_env \<Rightarrow> string" where
  "send_transaction me = ''T'' @ random_hex (me_draws me)"

definition send_payload :: "mms_env \<Rightarrow> mms_request \<Rightarrow> mms_part list \<Rightarrow> send_req" where
  "send_payload me req parts =
     \<lparr>sq_transaction = send_transaction me, sq_from = None, sq_to = sr_to req, sq_subject = sr_subject req,
      sq_parts = parts, sq_delivery_report = False, sq_read_report = False\<rparr>"

definition sending_message :: "mms_env \<Rightarrow> mms_request \<Rightarrow> new_message" where
  "sending_message me req =
     \<lparr>nm_kind = ''mms'', nm_direction = Outgoing, nm_peer = join '','' (sr_to req), nm_own_number = None,
      nm_subject = sr_subject req, nm_text = sr_text req, nm_timestamp = None, nm_status = ''sending'',
      nm_external_id = Some (send_transaction me), nm_raw = None\<rparr>"

text \<open>What the MMSC's answer says of a submission: \<open>None\<close> where it is taken as sent, or the reason it is not.\<close>

definition submission_error :: "mms_env \<Rightarrow> u8 list \<Rightarrow> string option" where
  "submission_error me body =
     (let conf = (case mms_decode (me_dec me) body of Some (Inr m) \<Rightarrow> Some m | _ \<Rightarrow> None);
          status = (case Option.bind conf mm_response of Some s \<Rightarrow> s | None \<Rightarrow> 0x80) in
      if status = 0x80 then None
      else (case Option.bind conf mm_response_text of
          Some t \<Rightarrow> Some t | None \<Rightarrow> Some (''response status 0x'' @ show_hex_pad 2 (unat status))))"

definition record_submission :: "mms_env \<Rightarrow> nat \<Rightarrow> string + http_response \<Rightarrow> nat mms_action" where
  "record_submission me mid res =
     (case res of
        Inl e \<Rightarrow> and_try (db_write (SetStatus mid ''failed'' (Some e))) (\<lambda>_. err e)
      | Inr resp \<Rightarrow>
          if hr_status resp = 200 then
            (case submission_error me (hr_body resp) of
               None \<Rightarrow> and_try (db_write (SetStatus mid ''sent'' None)) (\<lambda>_. ok mid)
             | Some t \<Rightarrow>
                 and_try (db_write (SetStatus mid ''failed'' (Some t)))
                   (\<lambda>_. err (''MMSC rejected the message: '' @ t)))
          else (let t = ''MMSC returned HTTP '' @ show_nat (unat (hr_status resp)) in
            and_try (db_write (SetStatus mid ''failed'' (Some t))) (\<lambda>_. err t)))"

definition mms_send :: "mms_env \<Rightarrow> mms_request \<Rightarrow> nat mms_action" where
  "mms_send me req =
     (if \<not> ms_enabled (cf_mms (me_cfg me)) then err mms_disabled
      else (case ms_mmsc (cf_mms (me_cfg me)) of
          None \<Rightarrow> err ''mms.mmsc is not configured''
        | Some mmsc \<Rightarrow>
            if sr_to req = [] then err ''at least one recipient is required''
            else (case content_parts me req of
                Inl e \<Rightarrow> err e
              | Inr content \<Rightarrow>
                  if content = [] then err ''an MMS needs at least a text or one attachment''
                  else (let parts = with_smil content; total = sum_list (map (length \<circ> mp_data) parts) in
                    if ms_max_size (cf_mms (me_cfg me)) < total
                    then err (''message of '' @ show_nat total @ '' bytes exceeds mms.max_size'')
                    else and_try (db_insert me (sending_message me req)) (\<lambda>stored.
                      case stored of
                        None \<Rightarrow> err ''duplicate transaction id''
                      | Some mid \<Rightarrow>
                          and_try (store_sent me mid 0 parts) (\<lambda>_.
                          and_try (run_setup_command me) (\<lambda>_.
                          on_result (post_mms me mmsc (encode_send_req (send_payload me req parts)))
                            (record_submission me mid))))))))"

section \<open>What an action does to the world\<close>

text \<open>The writes of a log.\<close>

fun writes :: "mms_op list \<Rightarrow> db_op list" where
  "writes [] = []"
| "writes (Db op # ops) = op # writes ops"
| "writes (_ # ops) = writes ops"

lemma writes_append [simp]: "writes (a @ b) = writes a @ writes b"
  by (induction a rule: writes.induct) auto

text \<open>
  \<open>emits m Q\<close>: whatever the world, the action appends to the log, the database is what the writes of the appended
  part make of it, and \<open>Q\<close> holds of the result and of that part.
\<close>

definition emits :: "'a mms_action \<Rightarrow> (string + 'a \<Rightarrow> mms_op list \<Rightarrow> bool) \<Rightarrow> bool" where
  "emits m Q \<longleftrightarrow> (\<forall>w. \<exists>ops. w_log (snd (m w)) = w_log w @ ops \<and>
     w_db (snd (m w)) = fold db_step (writes ops) (w_db w) \<and> Q (fst (m w)) ops)"

lemma emitsE:
  assumes "emits m Q"
  obtains ops where "w_log (snd (m w)) = w_log w @ ops" "w_db (snd (m w)) = fold db_step (writes ops) (w_db w)"
    "Q (fst (m w)) ops"
  using assms unfolding emits_def by blast

lemma emits_weaken: "emits m Q \<Longrightarrow> (\<And>r ops. Q r ops \<Longrightarrow> Q' r ops) \<Longrightarrow> emits m Q'"
  unfolding emits_def by meson

lemma emits_ok: "Q (Inr v) [] \<Longrightarrow> emits (ok v) Q"
  by (auto simp: emits_def ok_def)

lemma emits_err: "Q (Inl e) [] \<Longrightarrow> emits (err e) Q"
  by (auto simp: emits_def err_def)

lemma emits_on_result:
  assumes m: "emits m Q1" and f: "\<And>r. emits (f r) (Q2 r)"
    and q: "\<And>r s a b. Q1 r a \<Longrightarrow> Q2 r s b \<Longrightarrow> Q s (a @ b)"
  shows "emits (on_result m f) Q"
  unfolding emits_def
proof
  fix w
  obtain a where a: "w_log (snd (m w)) = w_log w @ a" "w_db (snd (m w)) = fold db_step (writes a) (w_db w)"
    "Q1 (fst (m w)) a" using m by (rule emitsE)
  let ?w = "snd (m w)"
  obtain b where b: "w_log (snd (f (fst (m w)) ?w)) = w_log ?w @ b"
    "w_db (snd (f (fst (m w)) ?w)) = fold db_step (writes b) (w_db ?w)" "Q2 (fst (m w)) (fst (f (fst (m w)) ?w)) b"
    using f by (rule emitsE)
  have "on_result m f w = f (fst (m w)) ?w" by (simp add: on_result_def split_beta)
  then show "\<exists>ops. w_log (snd (on_result m f w)) = w_log w @ ops \<and>
      w_db (snd (on_result m f w)) = fold db_step (writes ops) (w_db w) \<and> Q (fst (on_result m f w)) ops"
    using a b q by (intro exI [of _ "a @ b"]) auto
qed

lemma bind_on_result: "and_try m f = on_result m (\<lambda>r. case r of Inl e \<Rightarrow> err e | Inr v \<Rightarrow> f v)"
  by (rule ext) (auto simp: and_try_def on_result_def err_def split: prod.split sum.split)

lemma emits_and_try:
  assumes "emits m Q1" and "\<And>v. emits (f v) (Q2 v)"
    and "\<And>e a. Q1 (Inl e) a \<Longrightarrow> Q (Inl e) a"
    and "\<And>v s a b. Q1 (Inr v) a \<Longrightarrow> Q2 v s b \<Longrightarrow> Q s (a @ b)"
  shows "emits (and_try m f) Q"
  unfolding bind_on_result
proof (rule emits_on_result [OF assms(1), where ?Q2.0 = "\<lambda>r s b. case r of Inl e \<Rightarrow> s = Inl e \<and> b = [] | Inr v \<Rightarrow> Q2 v s b"])
  show "emits (case r of Inl e \<Rightarrow> err e | Inr v \<Rightarrow> f v) (\<lambda>s b. case r of Inl e \<Rightarrow> s = Inl e \<and> b = [] | Inr v \<Rightarrow> Q2 v s b)"
    for r by (cases r) (simp_all add: emits_err assms(2))
  show "Q s (a @ b)" if "Q1 r a" "case r of Inl e \<Rightarrow> s = Inl e \<and> b = [] | Inr v \<Rightarrow> Q2 v s b" for r s a b
    using that assms(3,4) by (cases r) auto
qed

lemma emits_context:
  assumes "emits m Q1" and "\<And>e a. Q1 (Inl e) a \<Longrightarrow> Q (Inl c) a" and "\<And>v a. Q1 (Inr v) a \<Longrightarrow> Q (Inr v) a"
  shows "emits (with_context c m) Q"
  unfolding emits_def
proof
  fix w
  obtain a where "w_log (snd (m w)) = w_log w @ a" "w_db (snd (m w)) = fold db_step (writes a) (w_db w)"
    "Q1 (fst (m w)) a" using assms(1) by (rule emitsE)
  then show "\<exists>ops. w_log (snd (with_context c m w)) = w_log w @ ops \<and>
      w_db (snd (with_context c m w)) = fold db_step (writes ops) (w_db w) \<and> Q (fst (with_context c m w)) ops"
    using assms(2,3) by (intro exI [of _ a]) (auto simp: with_context_def split: prod.split sum.split)
qed

text \<open>What the single actions append.\<close>

definition wrote :: "db_op \<Rightarrow> string + 'a \<Rightarrow> mms_op list \<Rightarrow> bool" where
  "wrote op r ops \<longleftrightarrow> (case r of Inl _ \<Rightarrow> ops = [] | Inr _ \<Rightarrow> ops = [Db op])"

lemma emits_write: "emits (db_write op) (wrote op)"
  by (auto simp: emits_def db_write_def wrote_def split: list.split bool.split)

lemma emits_read: "emits (db_read f) (\<lambda>_ ops. ops = [])"
  by (auto simp: emits_def db_read_def split: list.split bool.split)

lemma emits_insert: "emits (db_insert me msg) (wrote (InsertMessage (me_now me) msg))"
  by (auto simp: emits_def db_insert_def db_write_def wrote_def Let_def split: list.split bool.split)

lemma emits_get: "emits (get_mms me url) (\<lambda>r ops. ops = [Get url r])"
  by (auto simp: emits_def get_mms_def http_call_def Let_def)

lemma emits_post: "emits (post_mms me url pdu) (\<lambda>r ops. ops = [Post url pdu r])"
  by (auto simp: emits_def post_mms_def http_call_def Let_def)

definition is_setup :: "mms_op \<Rightarrow> bool" where
  "is_setup op \<longleftrightarrow> (case op of Setup _ \<Rightarrow> True | _ \<Rightarrow> False)"

lemma is_setup_simps [simp]: "\<not> is_setup (Get u r)" "is_setup (Setup c)" "\<not> is_setup (Db d)" "\<not> is_setup (Post u p r)"
  by (simp_all add: is_setup_def)

lemma emits_setup: "emits (run_setup_command me) (\<lambda>_. list_all is_setup)"
  by (auto simp: emits_def run_setup_command_def ok_def err_def Let_def split: option.split)

lemma emits_decode:
  "emits (with_context c (decode_mms me bs)) (\<lambda>r ops. ops = [] \<and>
     (case r of Inr m \<Rightarrow> mms_decode (me_dec me) bs = Some (Inr m) | Inl _ \<Rightarrow> True))"
  by (auto simp: emits_def with_context_def decode_mms_def ok_def err_def split: option.split sum.split)

lemma emits_get_in:
  "emits (with_context c (get_mms me url)) (\<lambda>r ops.
     case r of Inr resp \<Rightarrow> ops = [Get url (Inr resp)] | Inl _ \<Rightarrow> \<exists>e. ops = [Get url (Inl e)])"
  by (rule emits_context [OF emits_get]) simp_all

definition ack_only :: "mms_op list \<Rightarrow> bool" where
  "ack_only post \<longleftrightarrow> post = [] \<or> (\<exists>mmsc tid res. post = [Post mmsc (encode_acknowledge_ind tid False) res])"

lemma emits_acknowledge: "emits (acknowledge me n m) (\<lambda>r ops. r = Inr () \<and> ack_only ops)"
  unfolding acknowledge_def ack_only_def
  by (auto intro!: emits_ok emits_on_result [OF emits_post, where ?Q2.0 = "\<lambda>_ r ops. r = Inr () \<and> ops = []"]
      split: option.split)

text \<open>Storing the parts of a message: one attachment for each that is not its layout, numbered from one.\<close>

fun part_writes :: "mms_env \<Rightarrow> nat \<Rightarrow> int \<Rightarrow> mms_part list \<Rightarrow> mms_op list" where
  "part_writes me mid i [] = []"
| "part_writes me mid i (p # ps) = Db (AddAttachment (attachment_of me mid (i + 1) p)) # part_writes me mid (i + 1) ps"

lemma emits_store_parts:
  "emits (store_parts me mid ps i) (\<lambda>r ops. case r of
     Inr n \<Rightarrow> n = i + int (length (filter (\<lambda>p. \<not> is_smil p) ps)) \<and> ops = part_writes me mid i (filter (\<lambda>p. \<not> is_smil p) ps)
   | Inl _ \<Rightarrow> \<exists>rest. part_writes me mid i (filter (\<lambda>p. \<not> is_smil p) ps) = ops @ rest)"
proof (induction ps arbitrary: i)
  case (Cons p ps)
  show ?case
  proof (cases "is_smil p")
    case False
    then show ?thesis
      by (auto intro!: emits_and_try [OF emits_write, where ?Q2.0 = "\<lambda>_ r ops. case r of
          Inr n \<Rightarrow> n = (i + 1) + int (length (filter (\<lambda>p. \<not> is_smil p) ps)) \<and>
            ops = part_writes me mid (i + 1) (filter (\<lambda>p. \<not> is_smil p) ps)
        | Inl _ \<Rightarrow> \<exists>rest. part_writes me mid (i + 1) (filter (\<lambda>p. \<not> is_smil p) ps) = ops @ rest"] Cons
          simp: wrote_def split: sum.splits)
  next
    case True
    then have f: "filter (\<lambda>p. \<not> is_smil p) (p # ps) = filter (\<lambda>p. \<not> is_smil p) ps" by simp
    show ?thesis unfolding f using Cons True by simp
  qed
qed (simp add: emits_ok)

definition content_of :: "mms_message \<Rightarrow> mms_part list" where
  "content_of m = filter (\<lambda>p. \<not> is_smil p) (mm_parts m)"

definition store_writes :: "mms_env \<Rightarrow> nat \<Rightarrow> mms_message \<Rightarrow> mms_op list" where
  "store_writes me mid m =
     Db (UpdateMms mid (mm_subject m) (body_text (me_dec me) (me_label me) m) (map_option (me_iso me) (mm_date m))) #
     part_writes me mid 0 (content_of m) @ [Db (Prune mid (int (length (content_of m))))]"

definition received :: "nat \<Rightarrow> mms_op" where
  "received mid = Db (SetStatus mid ''received'' None)"

lemma emits_store_retrieved:
  "emits (store_retrieved me mid m) (\<lambda>r ops. case r of
     Inr _ \<Rightarrow> ops = store_writes me mid m @ [received mid]
   | Inl _ \<Rightarrow> \<exists>rest. store_writes me mid m = ops @ rest)"
proof -
  let ?n = "int (length (content_of m))"
  have "emits (and_try (db_write (Prune mid n)) (\<lambda>_. db_write (SetStatus mid ''received'' None)))
      (\<lambda>r ops. case r of Inr _ \<Rightarrow> ops = [Db (Prune mid n), received mid] | Inl _ \<Rightarrow> \<exists>rest. [Db (Prune mid n)] = ops @ rest)" for n
    by (rule emits_and_try [OF emits_write, where ?Q2.0 = "\<lambda>_. wrote (SetStatus mid ''received'' None)"])
      (auto simp: emits_write wrote_def received_def split: sum.splits)
  then have "emits (and_try (store_parts me mid (mm_parts m) 0)
        (\<lambda>n. and_try (db_write (Prune mid n)) (\<lambda>_. db_write (SetStatus mid ''received'' None))))
      (\<lambda>r ops. case r of
         Inr _ \<Rightarrow> ops = part_writes me mid 0 (content_of m) @ [Db (Prune mid ?n), received mid]
       | Inl _ \<Rightarrow> \<exists>rest. part_writes me mid 0 (content_of m) @ [Db (Prune mid ?n)] = ops @ rest)"
    by (rule emits_and_try [OF emits_store_parts]) (auto simp: content_of_def split: sum.splits)
  then show ?thesis
    unfolding store_retrieved_def
    by (rule emits_and_try [OF emits_write, where ?Q2.0 = "\<lambda>_ r ops. case r of
         Inr _ \<Rightarrow> ops = part_writes me mid 0 (content_of m) @ [Db (Prune mid ?n), received mid]
       | Inl _ \<Rightarrow> \<exists>rest. part_writes me mid 0 (content_of m) @ [Db (Prune mid ?n)] = ops @ rest"])
      (auto simp: wrote_def store_writes_def split: sum.splits)
qed

definition acceptable :: "mms_message \<Rightarrow> bool" where
  "acceptable m \<longleftrightarrow> (mm_type m = RETRIEVE_CONF \<or> mm_parts m \<noteq> []) \<and>
     (case mm_retrieve m of Some s \<Rightarrow> s = 0x80 | None \<Rightarrow> True)"

lemma refusal_None: "refusal resp m = None \<longleftrightarrow> acceptable m"
  by (auto simp: refusal_def acceptable_def split: option.split)

definition stored_trace :: "mms_env \<Rightarrow> nat \<Rightarrow> mms_message \<Rightarrow> string + unit \<Rightarrow> mms_op list \<Rightarrow> bool" where
  "stored_trace me mid m r ops \<longleftrightarrow>
     (case r of
        Inr _ \<Rightarrow> \<exists>post. ops = store_writes me mid m @ [received mid] @ post \<and> ack_only post
      | Inl _ \<Rightarrow> \<exists>rest. store_writes me mid m = ops @ rest)"

text \<open>
  A retrieval: the setup command and the request; then, of an answer that is a message and acceptable, the writes that
  store it; and behind the last of them at most the acknowledgement.
\<close>

definition answer_trace :: "mms_env \<Rightarrow> nat \<Rightarrow> http_response \<Rightarrow> string + unit \<Rightarrow> mms_op list \<Rightarrow> bool" where
  "answer_trace me mid resp r ops \<longleftrightarrow>
     (\<exists>e. r = Inl e \<and> ops = []) \<or>
     (\<exists>m. hr_status resp = 200 \<and> mms_decode (me_dec me) (hr_body resp) = Some (Inr m) \<and> acceptable m \<and>
        stored_trace me mid m r ops)"

definition fetch_trace :: "mms_env \<Rightarrow> nat \<Rightarrow> string \<Rightarrow> string + unit \<Rightarrow> mms_op list \<Rightarrow> bool" where
  "fetch_trace me mid url r ops \<longleftrightarrow>
     (\<exists>e e'. r = Inl e \<and> ops = [Get url (Inl e')]) \<or>
     (\<exists>resp tail. ops = Get url (Inr resp) # tail \<and> answer_trace me mid resp r tail)"

definition retrieve_trace :: "mms_env \<Rightarrow> mms_message \<Rightarrow> nat \<Rightarrow> string + unit \<Rightarrow> mms_op list \<Rightarrow> bool" where
  "retrieve_trace me n mid r ops \<longleftrightarrow>
     (\<exists>e. r = Inl e \<and> list_all is_setup ops) \<or>
     (\<exists>pre url tail. mm_location n = Some url \<and> ops = pre @ tail \<and> list_all is_setup pre \<and> fetch_trace me mid url r tail)"

lemma emits_accepted:
  "acceptable m \<Longrightarrow>
     emits (and_try (store_retrieved me mid m) (\<lambda>_. acknowledge me n m)) (stored_trace me mid m)"
  by (rule emits_and_try [OF emits_store_retrieved emits_acknowledge]) (auto simp: stored_trace_def)

lemma emits_refused:
  "emits (case refusal resp m of Some e \<Rightarrow> err e
     | None \<Rightarrow> and_try (store_retrieved me mid m) (\<lambda>_. acknowledge me n m))
     (\<lambda>r ops. (\<exists>e. r = Inl e \<and> ops = []) \<or> acceptable m \<and> stored_trace me mid m r ops)"
proof (cases "refusal resp m")
  case None
  then have "acceptable m" by (simp add: refusal_None)
  show ?thesis unfolding None option.case
    by (rule emits_weaken [OF emits_accepted]) (use \<open>acceptable m\<close> in auto)
qed (simp add: emits_err)

lemma emits_answer:
  "emits (if hr_status resp \<noteq> 200 then err e
     else and_try (with_context c (decode_mms me (hr_body resp))) (\<lambda>m.
        case refusal resp m of Some e \<Rightarrow> err e
        | None \<Rightarrow> and_try (store_retrieved me mid m) (\<lambda>_. acknowledge me n m))) (answer_trace me mid resp)"
proof (cases "hr_status resp = 200")
  case True
  have "emits (and_try (with_context c (decode_mms me (hr_body resp))) (\<lambda>m.
        case refusal resp m of Some e \<Rightarrow> err e
        | None \<Rightarrow> and_try (store_retrieved me mid m) (\<lambda>_. acknowledge me n m))) (answer_trace me mid resp)"
    by (rule emits_and_try [OF emits_decode emits_refused]) (use True in \<open>auto simp: answer_trace_def\<close>)
  with True show ?thesis by simp
qed (simp add: emits_err answer_trace_def)

lemma emits_fetch:
  assumes "\<And>resp. emits (f resp) (answer_trace me mid resp)"
  shows "emits (and_try (with_context c (get_mms me url)) f) (fetch_trace me mid url)"
  by (rule emits_and_try [OF emits_get_in assms]) (auto simp: fetch_trace_def)

lemma emits_retrieve: "emits (mms_retrieve me n mid) (retrieve_trace me n mid)"
proof (cases "mm_location n")
  case (Some url)
  have "emits (and_try (run_setup_command me) (\<lambda>_. f)) (retrieve_trace me n mid)"
    if "emits f (fetch_trace me mid url)" for f :: "unit mms_action"
    by (rule emits_and_try [OF emits_setup that]) (use Some in \<open>auto simp: retrieve_trace_def\<close>)
  then show ?thesis
    using emits_fetch [OF emits_answer] Some by (auto simp: mms_retrieve_def retrieve_trace_def intro!: emits_err)
qed (simp add: mms_retrieve_def retrieve_trace_def emits_err)

section \<open>What the log says of the database\<close>

text \<open>
  Records that have a status, and operations of which some set it. What the operations owe: a status is what the
  operation sets, for a record that exists, and untouched otherwise.
\<close>

locale status_log =
  fixes step :: "'op \<Rightarrow> 'db \<Rightarrow> 'db" and status :: "'db \<Rightarrow> 'id \<Rightarrow> 'st option"
    and sets :: "'op \<Rightarrow> ('id \<times> 'st) option" and keeps :: "'op \<Rightarrow> bool"
  assumes set_law: "keeps op \<Longrightarrow> status (step op db) i =
    (case sets op of Some (j, s) \<Rightarrow> if j = i then map_option (\<lambda>_. s) (status db i) else status db i
     | None \<Rightarrow> status db i)"
begin

lemma unset_kept:
  "list_all keeps ops \<Longrightarrow> list_all (\<lambda>op. case sets op of Some (j, _) \<Rightarrow> j \<noteq> i | None \<Rightarrow> True) ops \<Longrightarrow>
     status (fold step ops db) i = status db i"
  by (induction ops arbitrary: db) (auto simp: set_law split: option.splits)

lemma last_set_wins:
  assumes "list_all keeps (before @ [op])" "sets op = Some (i, s)"
    and "list_all (\<lambda>op. case sets op of Some (j, _) \<Rightarrow> j \<noteq> i | None \<Rightarrow> True) before"
  shows "status (fold step (before @ [op]) db) i = map_option (\<lambda>_. s) (status db i)"
  using assms unset_kept [of before i db] by (simp add: set_law)

end

definition row_status :: "database \<Rightarrow> nat \<Rightarrow> string option" where
  "row_status db mid = map_option nm_status (row_of db mid)"

definition status_set :: "db_op \<Rightarrow> (nat \<times> string) option" where
  "status_set op = (case op of SetStatus i s _ \<Rightarrow> Some (i, s) | _ \<Rightarrow> None)"

definition no_insert :: "db_op \<Rightarrow> bool" where
  "no_insert op \<longleftrightarrow> (case op of InsertMessage _ _ \<Rightarrow> False | _ \<Rightarrow> True)"

lemma row_of_update:
  "(\<And>m. mr_id (f m) = mr_id m) \<Longrightarrow>
     row_of (update_row i f db) j = map_option (\<lambda>m. if j = i then f m else m) (row_of db j)"
proof -
  assume f: "\<And>m. mr_id (f m) = mr_id m"
  have "find (\<lambda>m. mr_id m = j) (map (\<lambda>m. if mr_id m = i then f m else m) ms) =
      map_option (\<lambda>m. if j = i then f m else m) (find (\<lambda>m. mr_id m = j) ms)" for ms
    by (induction ms) (auto simp: f)
  then show ?thesis by (simp add: row_of_def update_row_def)
qed

lemma row_of_other [simp]:
  "row_of (add_attachment a db) j = row_of db j" "row_of (snd (prune_attachments i keep db)) j = row_of db j"
  "row_of (snd (start_call now dir peer db)) j = row_of db j" "row_of (call_answered now i db) j = row_of db j"
  "row_of (call_ended now i d db) j = row_of db j"
  by (simp_all add: row_of_def add_attachment_def prune_attachments_def start_call_def call_answered_def call_ended_def
      update_call_def Let_def)

lemma row_status_step:
  "row_status (set_status i s e db) j = (if i = j then map_option (\<lambda>_. s) (row_status db j) else row_status db j)"
  "row_status (update_received_mms i x y z db) j = row_status db j"
  by (auto simp: row_status_def set_status_def update_received_mms_def row_of_update option.map_comp o_def
      intro!: option.map_cong)

interpretation rows: status_log db_step row_status status_set no_insert
proof
  fix op db i
  assume "no_insert op"
  then show "row_status (db_step op db) i =
    (case status_set op of Some (j, s) \<Rightarrow> if j = i then map_option (\<lambda>_. s) (row_status db i) else row_status db i
     | None \<Rightarrow> row_status db i)"
    by (cases op) (simp_all add: no_insert_def status_set_def row_status_step, simp_all add: row_status_def)
qed

text \<open>The attachments of a message, by number.\<close>

definition named :: "nat \<Rightarrow> int \<Rightarrow> attachment \<Rightarrow> bool" where
  "named mid j a \<longleftrightarrow> at_message a = mid \<and> at_index a = j"

lemma attachment_path_named:
  "attachment_path db mid j = map_option (\<lambda>a. (at_path a, at_content_type a)) (find (named mid j) (db_attachments db))"
  by (simp add: attachment_path_def named_def [abs_def])

lemma find_replace:
  "find (named mid j) (if list_ex (named k i) as then map (\<lambda>b. if named k i b then a else b) as else as @ [a]) =
     (if named mid j a then Some a else find (named mid j) as)" if "named k i a"
proof -
  have "find (named mid j) (map (\<lambda>b. if named k i b then a else b) as) =
      (if named mid j a \<and> list_ex (named k i) as then Some a else find (named mid j) as)"
    using that by (induction as) (auto simp: named_def)
  moreover have "find (named mid j) (as @ [a]) = (if named mid j a then Some a else find (named mid j) as)"
    if "\<not> list_ex (named k i) as"
    using that \<open>named k i a\<close> by (induction as) (auto simp: named_def)
  ultimately show ?thesis by auto
qed

lemma attachment_path_add:
  "attachment_path (add_attachment a db) mid j =
     (if named mid j a then Some (at_path a, at_content_type a) else attachment_path db mid j)"
proof -
  have "db_attachments (add_attachment a db) = (if list_ex (named (at_message a) (at_index a)) (db_attachments db)
      then map (\<lambda>b. if named (at_message a) (at_index a) b then a else b) (db_attachments db)
      else db_attachments db @ [a])"
    by (simp add: add_attachment_def named_def [abs_def] Let_def)
  moreover have "named (at_message a) (at_index a) a" by (simp add: named_def)
  ultimately show ?thesis using find_replace by (simp add: attachment_path_named)
qed

lemma attachment_path_prune:
  "attachment_path (snd (prune_attachments mid keep db)) mid j = (if keep < j then None else attachment_path db mid j)"
proof -
  have "find (named mid j) (filter (\<lambda>a. \<not> (at_message a = mid \<and> keep < at_index a)) as) =
      (if keep < j then None else find (named mid j) as)" for as
    by (induction as) (auto simp: named_def [abs_def])
  then show ?thesis by (simp add: attachment_path_named prune_attachments_def Let_def)
qed

lemma attachment_path_rows [simp]:
  "attachment_path (set_status i s e db) mid j = attachment_path db mid j"
  "attachment_path (update_received_mms i x y z db) mid j = attachment_path db mid j"
  by (simp_all add: attachment_path_def set_status_def update_received_mms_def update_row_def)

lemma attachment_path_parts:
  "attachment_path (fold db_step (writes (part_writes me mid i ps)) db) mid j =
     (if i < j \<and> j \<le> i + int (length ps)
      then (let a = attachment_of me mid j (ps ! nat (j - i - 1)) in Some (at_path a, at_content_type a))
      else attachment_path db mid j)"
proof (induction ps arbitrary: i db)
  case (Cons p ps)
  have n: "nat (j - i - 1) = Suc (nat (j - (i + 1) - 1))" if "i + 1 < j" using that by simp
  have "named mid j (attachment_of me mid (i + 1) p) \<longleftrightarrow> j = i + 1" by (auto simp: named_def attachment_of_def)
  then show ?case using Cons n by (auto simp: attachment_path_add Let_def)
qed auto

text \<open>The writes that store a message set no status, insert nothing, and leave its parts as its attachments.\<close>

lemma part_writes_quiet:
  "list_all no_insert (writes (part_writes me mid i ps))"
  "list_all (\<lambda>op. case status_set op of Some (j, _) \<Rightarrow> j \<noteq> k | None \<Rightarrow> True) (writes (part_writes me mid i ps))"
  by (induction ps arbitrary: i) (auto simp: no_insert_def status_set_def)

lemma store_writes_quiet:
  "list_all no_insert (writes (store_writes me mid m))"
  "list_all (\<lambda>op. case status_set op of Some (j, _) \<Rightarrow> j \<noteq> k | None \<Rightarrow> True) (writes (store_writes me mid m))"
  by (auto simp: store_writes_def part_writes_quiet, auto simp: no_insert_def status_set_def)

definition part_entry :: "mms_env \<Rightarrow> nat \<Rightarrow> mms_part list \<Rightarrow> nat \<Rightarrow> (string \<times> string) option" where
  "part_entry me mid ps j =
     (if j < length ps
      then (let a = attachment_of me mid (int j + 1) (ps ! j) in Some (at_path a, at_content_type a)) else None)"

lemma attachments_stored:
  "attachment_path (fold db_step (writes (store_writes me mid m)) db) mid (int j + 1) = part_entry me mid (content_of m) j"
proof -
  let ?ps = "content_of m"
  have "attachment_path (fold db_step (writes (store_writes me mid m)) db) mid (int j + 1) =
      (if int (length ?ps) < int j + 1 then None
       else attachment_path (fold db_step (writes (part_writes me mid 0 ?ps))
         (db_step (UpdateMms mid (mm_subject m) (body_text (me_dec me) (me_label me) m) (map_option (me_iso me) (mm_date m))) db))
           mid (int j + 1))"
    by (simp add: store_writes_def attachment_path_prune)
  then show ?thesis by (auto simp: attachment_path_parts part_entry_def Let_def)
qed

lemma writes_setup: "list_all is_setup ops \<Longrightarrow> writes ops = []"
  by (induction ops rule: writes.induct) auto

lemma writes_ack: "ack_only post \<Longrightarrow> writes post = []"
  by (auto simp: ack_only_def)


text \<open>What a response is that is no message at all: text without a NUL, as a page that says what went wrong.\<close>

definition error_page :: "u8 list \<Rightarrow> bool" where
  "error_page body \<longleftrightarrow> (case body of b # _ \<Rightarrow> b < 0x80 \<and> 0 \<notin> set body | [] \<Rightarrow> True)"

lemma decode_error_page: "error_page body \<Longrightarrow> mms_decode dec body = Some (Inr mms_default)"
proof (cases body)
  case Nil
  then show ?thesis by (simp add: mms_decode_def decode_end)
next
  case (Cons b bs)
  assume "error_page body"
  then have b: "b < 0x80" and z: "0 \<notin> set body" using Cons by (auto simp: error_page_def)
  have d: "dropWhile (\<lambda>b. b \<noteq> 0) (unquote body) = []" using z by (cases body) (auto simp: unquote_def)
  have "snd (text_string body) = []" unfolding text_string_def Let_def d by simp
  then have "header_step dec body mms_default = Some (Stop mms_default)"
    using b Cons by (simp add: header_step_def skip_value_def)
  then have "decode_headers dec body mms_default = Some (Inr (mms_default, None))"
    by (simp add: decode_headers.simps [of dec body])
  then show ?thesis by (simp add: mms_decode_def)
qed

lemma default_not_acceptable: "\<not> acceptable mms_default"
  by (simp add: acceptable_def mms_default_def RETRIEVE_CONF_def)

definition unannounced :: "nat \<Rightarrow> mms_op \<Rightarrow> bool" where
  "unannounced mid op \<longleftrightarrow> (case op of Post _ _ _ \<Rightarrow> False | _ \<Rightarrow> op \<noteq> received mid)"

lemma store_writes_unannounced: "list_all (unannounced mid) (store_writes me mid m)"
proof -
  have "list_all (unannounced mid) (part_writes me mid i ps)" for i ps
    by (induction ps arbitrary: i) (auto simp: unannounced_def received_def)
  then show ?thesis by (simp add: store_writes_def unannounced_def received_def)
qed

lemma setup_unannounced: "list_all is_setup ops \<Longrightarrow> list_all (unannounced mid) ops"
  by (induction ops) (auto simp: unannounced_def received_def is_setup_def split: mms_op.splits)

lemma failed_unannounced:
  assumes "retrieve_trace me n mid (Inl e) ops"
  shows "list_all (unannounced mid) ops"
proof -
  have g: "unannounced mid (Get url r)" for url r by (simp add: unannounced_def received_def)
  have "list_all (unannounced mid) tail" if "store_writes me mid m = tail @ rest" for tail rest m
    using store_writes_unannounced [of mid me m] that by simp
  then have "list_all (unannounced mid) tail" if "fetch_trace me mid url (Inl e) tail" for url tail
    using that g by (auto simp: fetch_trace_def answer_trace_def stored_trace_def)
  with assms show ?thesis by (auto simp: retrieve_trace_def setup_unannounced)
qed

lemma failed_leaves_status:
  assumes "retrieve_trace me n mid (Inl e) ops"
  shows "row_status (fold db_step (writes ops) db) mid = row_status db mid"
proof -
  have "row_status (fold db_step (writes tail) db) mid = row_status db mid" if "store_writes me mid m = tail @ rest" for tail rest m
  proof (rule rows.unset_kept)
    have "writes (store_writes me mid m) = writes tail @ writes rest" using that by simp
    then show "list_all no_insert (writes tail)"
      "list_all (\<lambda>op. case status_set op of Some (j, _) \<Rightarrow> j \<noteq> mid | None \<Rightarrow> True) (writes tail)"
      using store_writes_quiet(1) [of me mid m] store_writes_quiet(2) [where k = mid and me = me and mid = mid and m = m]
      by simp_all
  qed
  then show ?thesis
    using assms by (auto simp: retrieve_trace_def fetch_trace_def answer_trace_def stored_trace_def writes_setup)
qed

lemma succeeded_stored:
  assumes "retrieve_trace me n mid (Inr u) ops"
  obtains pre url resp m post where "mm_location n = Some url" "list_all is_setup pre"
    "ops = pre @ [Get url (Inr resp)] @ store_writes me mid m @ [received mid] @ post" "ack_only post"
    "hr_status resp = 200" "mms_decode (me_dec me) (hr_body resp) = Some (Inr m)" "acceptable m"
  using assms by (auto simp: retrieve_trace_def fetch_trace_def answer_trace_def stored_trace_def)

text \<open>A submission: local work, one request, and the record of its outcome.\<close>

definition local_op :: "mms_op \<Rightarrow> bool" where
  "local_op op \<longleftrightarrow> (case op of Db d \<Rightarrow> status_set d = None | Setup _ \<Rightarrow> True | _ \<Rightarrow> False)"

definition sent :: "nat \<Rightarrow> mms_op" where
  "sent mid = Db (SetStatus mid ''sent'' None)"

definition not_sent :: "mms_op \<Rightarrow> bool" where
  "not_sent op \<longleftrightarrow> (case op of Db d \<Rightarrow> (case status_set d of Some (_, s) \<Rightarrow> s \<noteq> ''sent'' | None \<Rightarrow> True) | _ \<Rightarrow> True)"

lemma local_not_sent: "list_all local_op ops \<Longrightarrow> list_all not_sent ops"
  by (induction ops) (auto simp: local_op_def not_sent_def split: mms_op.splits)

lemma local_op_simps [simp]:
  "local_op (Db (AddAttachment a))" "local_op (Db (InsertMessage now msg))" "local_op (Setup c)"
  by (simp_all add: local_op_def status_set_def)

lemma emits_store_sent: "emits (store_sent me mid i ps) (\<lambda>_. list_all local_op)"
proof (induction ps arbitrary: i)
  case (Cons p ps)
  have "emits (and_try (db_write (AddAttachment (attachment_of me mid (int i) p))) (\<lambda>_. store_sent me mid (Suc i) ps))
      (\<lambda>_. list_all local_op)"
    by (rule emits_and_try [OF emits_write Cons])
      (auto simp: wrote_def split: sum.splits)
  with Cons show ?case by simp
qed (simp add: emits_ok)

lemma emits_mark:
  assumes "s \<noteq> ''sent''"
  shows "emits (and_try (db_write (SetStatus mid s e)) (\<lambda>_. err e')) (\<lambda>r ops. (\<exists>e. r = Inl e) \<and> list_all not_sent ops)"
  by (rule emits_and_try [OF emits_write, where ?Q2.0 = "\<lambda>_ r ops. r = Inl e' \<and> ops = []"])
    (use assms in \<open>auto intro: emits_err simp: wrote_def not_sent_def status_set_def split: sum.splits\<close>)

definition recorded :: "mms_env \<Rightarrow> nat \<Rightarrow> string + http_response \<Rightarrow> string + nat \<Rightarrow> mms_op list \<Rightarrow> bool" where
  "recorded me mid res r ops \<longleftrightarrow>
     (case r of
        Inl _ \<Rightarrow> list_all not_sent ops
      | Inr i \<Rightarrow> i = mid \<and> ops = [sent mid] \<and>
          (\<exists>resp. res = Inr resp \<and> hr_status resp = 200 \<and> submission_error me (hr_body resp) = None))"

lemma emits_record: "emits (record_submission me mid res) (recorded me mid res)"
proof -
  have failed: "emits (and_try (db_write (SetStatus mid ''failed'' e)) (\<lambda>_. err e')) (recorded me mid res)" for e e'
    by (rule emits_weaken [OF emits_mark]) (auto simp: recorded_def)
  have ok: "emits (and_try (db_write (SetStatus mid ''sent'' None)) (\<lambda>_. ok mid)) (recorded me mid (Inr resp))"
    if "hr_status resp = 200" "submission_error me (hr_body resp) = None" for resp
    by (rule emits_and_try [OF emits_write, where ?Q2.0 = "\<lambda>_ r ops. r = Inr mid \<and> ops = []"])
      (use that in \<open>auto intro: emits_ok simp: wrote_def recorded_def sent_def\<close>)
  show ?thesis
    using failed ok by (auto simp: record_submission_def Let_def split: sum.split option.split)
qed

definition submit_trace :: "mms_env \<Rightarrow> string \<Rightarrow> u8 list \<Rightarrow> string + nat \<Rightarrow> mms_op list \<Rightarrow> bool" where
  "submit_trace me mmsc payload r ops \<longleftrightarrow>
     (case r of
        Inl _ \<Rightarrow> list_all not_sent ops
      | Inr mid \<Rightarrow> \<exists>pre resp. ops = pre @ [Post mmsc payload (Inr resp), sent mid] \<and> list_all local_op pre \<and>
          hr_status resp = 200 \<and> submission_error me (hr_body resp) = None)"

lemma submit_trace_local: "list_all local_op a \<Longrightarrow> submit_trace me mmsc payload r b \<Longrightarrow> submit_trace me mmsc payload r (a @ b)"
  by (auto simp: submit_trace_def local_not_sent split: sum.splits)

lemma submit_trace_error: "submit_trace me mmsc payload (Inl e) ops = list_all not_sent ops"
  by (simp add: submit_trace_def)

lemma setup_local: "list_all is_setup ops \<Longrightarrow> list_all local_op ops"
  by (induction ops) (auto simp: is_setup_def local_op_def split: mms_op.splits)

lemma emits_submit:
  "emits (and_try (store_sent me mid 0 parts) (\<lambda>_. and_try (run_setup_command me) (\<lambda>_.
     on_result (post_mms me mmsc payload) (record_submission me mid)))) (submit_trace me mmsc payload)"
proof -
  have "emits (on_result (post_mms me mmsc payload) (record_submission me mid)) (submit_trace me mmsc payload)"
    by (rule emits_on_result [OF emits_post emits_record])
      (auto simp: recorded_def submit_trace_def not_sent_def split: sum.splits)
  then have "emits (and_try (run_setup_command me) (\<lambda>_. on_result (post_mms me mmsc payload) (record_submission me mid)))
      (submit_trace me mmsc payload)"
    by (intro emits_and_try [OF emits_setup, where ?Q2.0 = "\<lambda>_. submit_trace me mmsc payload"])
      (simp_all add: submit_trace_error setup_local local_not_sent submit_trace_local)
  then show ?thesis
    by (intro emits_and_try [OF emits_store_sent, where ?Q2.0 = "\<lambda>_. submit_trace me mmsc payload"])
      (simp_all add: submit_trace_error local_not_sent submit_trace_local)
qed

lemma emits_send:
  "emits (mms_send me req) (\<lambda>r ops.
     case r of
       Inl _ \<Rightarrow> list_all not_sent ops
     | Inr mid \<Rightarrow> \<exists>mmsc content. ms_enabled (cf_mms (me_cfg me)) \<and> ms_mmsc (cf_mms (me_cfg me)) = Some mmsc \<and>
         content_parts me req = Inr content \<and>
         submit_trace me mmsc (encode_send_req (send_payload me req (with_smil content))) r ops)"
    (is "emits _ ?Q")
proof -
  have fail: "emits (err e) ?Q" for e by (rule emits_err) simp
  have main: "emits (and_try (db_insert me (sending_message me req)) (\<lambda>stored.
      case stored of None \<Rightarrow> err e
      | Some mid \<Rightarrow> and_try (store_sent me mid 0 parts) (\<lambda>_. and_try (run_setup_command me) (\<lambda>_.
          on_result (post_mms me mmsc payload) (record_submission me mid))))) (submit_trace me mmsc payload)"
    for e parts mmsc payload
  proof (rule emits_and_try [OF emits_insert, where ?Q2.0 = "\<lambda>_. submit_trace me mmsc payload"])
    show "emits (case stored of None \<Rightarrow> err e
      | Some mid \<Rightarrow> and_try (store_sent me mid 0 parts) (\<lambda>_. and_try (run_setup_command me) (\<lambda>_.
          on_result (post_mms me mmsc payload) (record_submission me mid)))) (submit_trace me mmsc payload)" for stored
      using emits_submit by (cases stored) (auto intro: emits_err simp: submit_trace_def)
    show "submit_trace me mmsc payload (Inl e) a" if "wrote (InsertMessage (me_now me) (sending_message me req)) (Inl e :: string + nat option) a" for e a
      using that by (simp add: wrote_def submit_trace_def)
    show "submit_trace me mmsc payload s (a @ b)"
      if "wrote (InsertMessage (me_now me) (sending_message me req)) (Inr v :: string + nat option) a" "submit_trace me mmsc payload s b" for v s a b
      using that by (intro submit_trace_local) (auto simp: wrote_def)
  qed
  show ?thesis
  proof (cases "ms_enabled (cf_mms (me_cfg me)) \<and> sr_to req \<noteq> []")
    case True
    show ?thesis
    proof (cases "ms_mmsc (cf_mms (me_cfg me))")
      case (Some mmsc)
      show ?thesis
      proof (cases "content_parts me req")
        case (Inr content)
        have "emits (and_try (db_insert me (sending_message me req)) (\<lambda>stored.
          case stored of None \<Rightarrow> err e
          | Some mid \<Rightarrow> and_try (store_sent me mid 0 (with_smil content)) (\<lambda>_. and_try (run_setup_command me) (\<lambda>_.
              on_result (post_mms me mmsc (encode_send_req (send_payload me req (with_smil content))))
                (record_submission me mid))))) ?Q" for e
          by (rule emits_weaken [OF main]) (use True Some Inr in \<open>auto simp: submit_trace_error split: sum.split\<close>)
        with True Some Inr fail show ?thesis by (simp add: mms_send_def Let_def)
      qed (use True Some fail in \<open>simp add: mms_send_def\<close>)
    qed (use True fail in \<open>simp add: mms_send_def\<close>)
  qed (use fail in \<open>auto simp: mms_send_def split: option.split\<close>)
qed

text \<open>
  A submission whose setup command fails leaves its record as it was inserted, as "sending": no status is
  written behind it.
\<close>

lemma failed_setup_leaves_sending:
  assumes "ms_setup_command (cf_mms (me_cfg me)) = Some cmd" "me_setup me = Some e"
  shows "emits (mms_send me req) (\<lambda>r ops. (\<exists>e'. r = Inl e') \<and> list_all local_op ops)"
proof -
  let ?Q = "\<lambda>(r :: string + nat) ops. (\<exists>e'. r = Inl e') \<and> list_all local_op ops"
  have fail: "emits (err e') ?Q" for e' by (rule emits_err) simp
  have "emits (run_setup_command me) (\<lambda>r ops. (\<exists>e'. r = Inl e') \<and> list_all local_op ops)"
    using assms by (auto simp: emits_def run_setup_command_def err_def Let_def)
  then have "emits (and_try (run_setup_command me) (\<lambda>_. k)) ?Q" for k :: "nat mms_action"
    by (auto simp: emits_def and_try_def split: prod.split sum.split) (metis fst_conv snd_conv sum.simps(4))+
  then have "emits (and_try (store_sent me mid 0 parts) (\<lambda>_. and_try (run_setup_command me) (\<lambda>_. k))) ?Q"
    for mid parts and k :: "nat mms_action"
    by (intro emits_and_try [OF emits_store_sent, where ?Q2.0 = "\<lambda>_. ?Q"]) auto
  then have "emits (case stored of None \<Rightarrow> err e' | Some mid \<Rightarrow>
      and_try (store_sent me mid 0 parts) (\<lambda>_. and_try (run_setup_command me) (\<lambda>_. k mid))) ?Q"
    for stored e' parts and k :: "nat \<Rightarrow> nat mms_action"
    using fail by (cases stored) simp_all
  then have "emits (and_try (db_insert me msg) (\<lambda>stored. case stored of None \<Rightarrow> err e' | Some mid \<Rightarrow>
      and_try (store_sent me mid 0 parts) (\<lambda>_. and_try (run_setup_command me) (\<lambda>_. k mid)))) ?Q"
    for msg e' parts and k :: "nat \<Rightarrow> nat mms_action"
    by (intro emits_and_try [OF emits_insert, where ?Q2.0 = "\<lambda>_. ?Q"]) (auto simp: wrote_def split: sum.splits)
  then show ?thesis using fail by (auto simp: mms_send_def Let_def split: option.split sum.split)
qed

text \<open>An answer to a submission that cannot be read counts as a confirmation.\<close>

lemma unreadable_answer_is_no_error: "mms_decode (me_dec me) body = Some (Inl e) \<Longrightarrow> submission_error me body = None"
  by (simp add: submission_error_def)

lemma submission_accepted:
  "submission_error me body = None \<longleftrightarrow>
     (case mms_decode (me_dec me) body of Some (Inr m) \<Rightarrow> mm_response m \<in> {None, Some 0x80} | _ \<Rightarrow> True)"
  by (auto simp: submission_error_def Let_def split: option.split sum.split)

definition is_write :: "mms_op \<Rightarrow> bool" where
  "is_write op \<longleftrightarrow> (case op of Db _ \<Rightarrow> True | _ \<Rightarrow> False)"

lemma emits_disabled_push:
  assumes "\<not> ms_enabled (cf_mms (me_cfg me))"
  shows "emits (handle_push me sms) (\<lambda>_. list_all is_write)"
proof -
  have none: "retriable_duplicate me ext = ok None" for ext using assms by (simp add: retriable_duplicate_def)
  have "emits (and_try (ok None) (\<lambda>existing. case existing of
      Some mid \<Rightarrow> retrieve_or_mark me n mid (Some mid) None | None \<Rightarrow> ok None)) (\<lambda>_. list_all is_write)" for n
    by (simp add: emits_def and_try_def ok_def)
  moreover have "emits (and_try (db_write op) (\<lambda>_. ok v)) (\<lambda>_. list_all is_write)" for op and v :: "nat option"
    by (rule emits_and_try [OF emits_write, where ?Q2.0 = "\<lambda>_ r ops. ops = []"])
      (auto intro: emits_ok simp: wrote_def is_write_def split: sum.splits)
  ultimately have noted: "emits (handle_notification me n stored) (\<lambda>_. list_all is_write)" for n stored
    using assms none by (cases stored) (simp_all add: handle_notification_def)
  have "emits (and_try (db_insert me msg) (handle_notification me n)) (\<lambda>_. list_all is_write)" for msg n
    by (rule emits_and_try [OF emits_insert noted]) (auto simp: wrote_def is_write_def split: sum.splits)
  then have "emits (and_try (with_context c (decode_mms me bs))
      (\<lambda>n. and_try (db_insert me (msg n)) (handle_notification me n))) (\<lambda>_. list_all is_write)" for c bs msg
    by (rule emits_and_try [OF emits_decode]) auto
  then show ?thesis
    by (auto simp: handle_push_def intro: emits_err emits_ok split: option.split sum.split)
qed

lemma stored_is_known:
  "find_by_external_id db ''mms'' Incoming ext = Some x \<Longrightarrow> nm_kind msg = ''mms'' \<Longrightarrow> nm_direction msg = Incoming \<Longrightarrow>
     nm_external_id msg = Some ext \<Longrightarrow> insert_message now msg db = (None, db)"
  by (auto simp: find_by_external_id_def insert_message_def known_message_def list_ex_iff dest!: find_in_set)

text \<open>A retrieval with nothing in its way begins with the request.\<close>

lemma bind_ok [simp]: "and_try (ok v) f = f v"
  by (rule ext) (simp add: and_try_def ok_def)

lemma emits_direct_retrieve:
  assumes "mm_location n = Some url" "case mm_size n of Some k \<Rightarrow> unat k \<le> ms_max_size (cf_mms (me_cfg me)) | None \<Rightarrow> True"
    and "ms_setup_command (cf_mms (me_cfg me)) = None \<or> me_setup me = None"
  shows "emits (mms_retrieve me n mid) (\<lambda>r ops. \<exists>res. Get url res \<in> set ops)"
proof -
  have "emits (run_setup_command me) (\<lambda>r ops. r = Inr ())"
    using assms(3) by (auto simp: emits_def run_setup_command_def ok_def Let_def split: option.split)
  moreover have "\<not> (case mm_size n of Some k \<Rightarrow> ms_max_size (cf_mms (me_cfg me)) < unat k | None \<Rightarrow> False)"
    using assms(2) by (auto split: option.splits)
  ultimately show ?thesis
    using assms(1) unfolding mms_retrieve_def
    by (auto intro!: emits_and_try [OF _ emits_fetch [OF emits_answer]] simp: fetch_trace_def; blast)
qed

lemma emits_direct_retry:
  assumes "emits (mms_retrieve me n mid) (\<lambda>r ops. \<exists>res. Get url res \<in> set ops)"
  shows "emits (retrieve_or_mark me n mid a b) (\<lambda>_ ops. \<exists>res. Get url res \<in> set ops)"
proof -
  have "emits (case r of Inr _ \<Rightarrow> ok a
      | Inl e \<Rightarrow> and_try (db_write (SetStatus mid ''retrieve_failed'' (Some e))) (\<lambda>_. ok b)) (\<lambda>_ _. True)" for r :: "string + unit"
    by (cases r) (auto intro!: emits_ok emits_and_try [OF emits_write, where ?Q2.0 = "\<lambda>_ _ _. True"])
  then show ?thesis
    unfolding retrieve_or_mark_def by (rule emits_on_result [OF assms]) auto
qed

section \<open>Properties\<close>

text \<open>Property C9: A message is acknowledged only once it is stored. A retrieval runs the setup command and fetches from the
  location of the notification; it succeeds only with a message the MMSC answered, an M-Retrieve.conf or something with parts and no
  refusing status, and never with a page of text in its place. Then it has written the message, every part and the
  status "received", and only behind that may have acknowledged. Where it fails it has acknowledged nothing
  and called nothing received.
\<close>

theorem mms_acknowledged_only_when_stored:
  "\<exists>ops. w_log (snd (mms_retrieve me n mid w)) = w_log w @ ops \<and>
    (case fst (mms_retrieve me n mid w) of
       Inr _ \<Rightarrow> \<exists>pre url resp m post. mm_location n = Some url \<and>
         ops = pre @ [Get url (Inr resp)] @ store_writes me mid m @ [received mid] @ post \<and>
         list_all is_setup pre \<and> hr_status resp = 200 \<and> \<not> error_page (hr_body resp) \<and>
         mms_decode (me_dec me) (hr_body resp) = Some (Inr m) \<and> acceptable m \<and>
         (post = [] \<or> (\<exists>mmsc tid res. post = [Post mmsc (encode_acknowledge_ind tid False) res]))
     | Inl _ \<Rightarrow> list_all (unannounced mid) ops)"
proof -
  obtain ops where o: "w_log (snd (mms_retrieve me n mid w)) = w_log w @ ops"
    "retrieve_trace me n mid (fst (mms_retrieve me n mid w)) ops"
    using emits_retrieve by (rule emitsE)
  show ?thesis
  proof (cases "fst (mms_retrieve me n mid w)")
    case (Inl e)
    with o failed_unannounced show ?thesis by auto
  next
    case (Inr u)
    obtain pre url resp m post where s: "mm_location n = Some url" "list_all is_setup pre"
      "ops = pre @ [Get url (Inr resp)] @ store_writes me mid m @ [received mid] @ post" "ack_only post"
      "hr_status resp = 200" "mms_decode (me_dec me) (hr_body resp) = Some (Inr m)" "acceptable m"
      using o(2) unfolding Inr by (rule succeeded_stored)
    have "\<not> error_page (hr_body resp)"
      using s(6,7) decode_error_page [of "hr_body resp" "me_dec me"] default_not_acceptable by auto
    then show ?thesis using o(1) s unfolding Inr sum.case ack_only_def by blast
  qed
qed

text \<open>What the database says of a message is what became of it. After a retrieval that succeeded its status is
  "received" and its attachments are the parts of the message the MMSC answered, without the layout, each
  with its type and a file of its own, numbered from one and with no leftover of an earlier attempt behind
  them; after one that failed its status is what it was.
\<close>

lemma mms_stored_message_is_complete:
  "case mms_retrieve me n mid w of
     (Inr _, w') \<Rightarrow> \<exists>url resp m. Get url (Inr resp) \<in> set (drop (length (w_log w)) (w_log w')) \<and>
       mms_decode (me_dec me) (hr_body resp) = Some (Inr m) \<and>
       row_status (w_db w') mid = map_option (\<lambda>_. ''received'') (row_status (w_db w) mid) \<and>
       (\<forall>j. attachment_path (w_db w') mid (int j + 1) = part_entry me mid (content_of m) j)
   | (Inl _, w') \<Rightarrow> row_status (w_db w') mid = row_status (w_db w) mid"
proof -
  obtain r w' where run: "mms_retrieve me n mid w = (r, w')" by fastforce
  obtain ops where o: "w_log w' = w_log w @ ops" "w_db w' = fold db_step (writes ops) (w_db w)"
    "retrieve_trace me n mid r ops"
    using emits_retrieve [of me n mid] run by (metis emitsE fst_conv snd_conv)
  let ?set = "SetStatus mid ''received'' None"
  show ?thesis
  proof (cases r)
    case (Inr u)
    obtain pre url resp m post where s: "mm_location n = Some url" "list_all is_setup pre"
      "ops = pre @ [Get url (Inr resp)] @ store_writes me mid m @ [received mid] @ post" "ack_only post"
      "hr_status resp = 200" "mms_decode (me_dec me) (hr_body resp) = Some (Inr m)" "acceptable m"
      using o(3) unfolding Inr by (rule succeeded_stored)
    let ?st = "writes (store_writes me mid m)"
    have d: "w_db w' = fold db_step (?st @ [?set]) (w_db w)"
      using o(2) s(2,3,4) by (simp add: received_def writes_ack writes_setup)
    have "row_status (w_db w') mid = map_option (\<lambda>_. ''received'') (row_status (w_db w) mid)"
      unfolding d
      by (rule rows.last_set_wins, simp add: store_writes_quiet(1) no_insert_def, simp add: status_set_def,
          rule store_writes_quiet(2))
    moreover have "attachment_path (w_db w') mid (int j + 1) = part_entry me mid (content_of m) j" for j
      using attachments_stored by (simp add: d)
    moreover have "Get url (Inr resp) \<in> set (drop (length (w_log w)) (w_log w'))" using o(1) s(3) by simp
    ultimately show ?thesis using Inr s(6) run by auto
  next
    case (Inl e)
    have "row_status (w_db w') mid = row_status (w_db w) mid"
      unfolding o(2) by (rule failed_leaves_status) (use o(3) Inl in simp)
    then show ?thesis using Inl run by simp
  qed
qed


text \<open>Property C10: A message is called sent only when the MMSC took it. Where a submission succeeds, exactly one request
  was made: the encoded message went to the configured MMSC, which answered with status 200 and no response status
  other than "Ok", and only then was the record set to "sent". Where it fails, no record was.
\<close>

theorem mms_sent_only_when_accepted:
  "\<exists>ops. w_log (snd (mms_send me req w)) = w_log w @ ops \<and>
    (case fst (mms_send me req w) of
       Inr mid \<Rightarrow> \<exists>pre mmsc content resp. ms_enabled (cf_mms (me_cfg me)) \<and> ms_mmsc (cf_mms (me_cfg me)) = Some mmsc \<and>
         content_parts me req = Inr content \<and> list_all local_op pre \<and>
         ops = pre @ [Post mmsc (encode_send_req (send_payload me req (with_smil content))) (Inr resp), sent mid] \<and>
         hr_status resp = 200 \<and>
         (case mms_decode (me_dec me) (hr_body resp) of Some (Inr m) \<Rightarrow> mm_response m \<in> {None, Some 0x80} | _ \<Rightarrow> True)
     | Inl _ \<Rightarrow> list_all not_sent ops)"
proof -
  obtain ops where o: "w_log (snd (mms_send me req w)) = w_log w @ ops"
    "case fst (mms_send me req w) of
       Inl _ \<Rightarrow> list_all not_sent ops
     | Inr mid \<Rightarrow> \<exists>mmsc content. ms_enabled (cf_mms (me_cfg me)) \<and> ms_mmsc (cf_mms (me_cfg me)) = Some mmsc \<and>
         content_parts me req = Inr content \<and>
         submit_trace me mmsc (encode_send_req (send_payload me req (with_smil content))) (fst (mms_send me req w)) ops"
    using emits_send by (rule emitsE)
  show ?thesis
  proof (cases "fst (mms_send me req w)")
    case (Inl e)
    with o show ?thesis by auto
  next
    case (Inr mid)
    show ?thesis using o unfolding Inr sum.case submit_trace_def submission_accepted by blast
  qed
qed


text \<open>While MMS is switched off nothing is sent or fetched. Retrieving and submitting are refused and change nothing,
  and a notification that arrives is stored and no more: nothing is requested from anyone, nor is the
  setup command run.
\<close>

lemma mms_disabled_is_silent:
  assumes "\<not> ms_enabled (cf_mms (me_cfg me))"
  shows "retrieve_stored me mid w = (Inl mms_disabled, w) \<and> mms_send me req w = (Inl mms_disabled, w) \<and>
    (\<exists>ops. w_log (snd (handle_push me sms w)) = w_log w @ ops \<and> list_all is_write ops)"
proof -
  have "\<exists>ops. w_log (snd (handle_push me sms w)) = w_log w @ ops \<and> list_all is_write ops"
    using emits_disabled_push [OF assms] by (rule emitsE) blast
  then show ?thesis using assms by (simp add: retrieve_stored_def mms_send_def err_def)
qed

text \<open>
  A notification as a carrier sends it: behind the push headers, its type, the transaction and the location; the
  environment and the world it arrives in.
\<close>

definition sample_note :: "u8 list" where
  "sample_note = [0x8C, 0x82, 0x98, 0x54, 0, 0x83, 0x75, 0]"

definition sample_sms :: sms_info where
  "sample_sms = \<lparr>si_state = 3, si_pdu_type = 1, si_number = ''01012345678'', si_text = [],
     si_data = [1, 6, 1, 0xBE] @ sample_note, si_timestamp = None\<rparr>"

definition mms_sample_env :: "bool \<Rightarrow> mms_env" where
  "mms_sample_env enabled = \<lparr>me_cfg = default_config\<lparr>cf_mms := default_mms\<lparr>ms_enabled := enabled, ms_auto_retrieve := True\<rparr>\<rparr>,
     me_dec = (\<lambda>_. bytes_text), me_label = (\<lambda>_. None), me_iso = (\<lambda>_. ''2026-01-01''), me_now = ''2026-01-01'', me_bearer = None,
     me_setup = None, me_draws = [0x5A], me_base64 = (\<lambda>_. None), me_file = (\<lambda>_. None), me_unicode = (\<lambda>_. False),
     me_dir = ''/var/attachments''\<rparr>"

definition sample_message :: new_message where
  "sample_message = \<lparr>nm_kind = ''mms'', nm_direction = Incoming, nm_peer = ''01012345678'', nm_own_number = None,
     nm_subject = None, nm_text = None, nm_timestamp = None, nm_status = ''retrieve_failed'', nm_external_id = Some ''T'',
     nm_raw = Some sample_note\<rparr>"

definition sample_world :: "database \<Rightarrow> world" where
  "sample_world db = \<lparr>w_db = db, w_faults = [], w_http = [], w_log = []\<rparr>"

lemma sample_decoded:
  "mms_decode (\<lambda>_. bytes_text) sample_note =
     Some (Inr (mms_default\<lparr>mm_type := 0x82, mm_transaction := Some ''T'', mm_location := Some ''u''\<rparr>))"
  by code_simp

lemma mms_disabled_is_silent_witness:
  "\<exists>ops. w_log (snd (handle_push (mms_sample_env False) sample_sms (sample_world empty_database))) = ops \<and> list_all is_write ops \<and>
     mms_send (mms_sample_env False) (\<lparr>sr_to = [''01012345678''], sr_subject = None, sr_text = Some ''hi'', sr_attachments = []\<rparr>)
       (sample_world empty_database) = (Inl mms_disabled, sample_world empty_database)"
  using mms_disabled_is_silent [of "mms_sample_env False" 1 "sample_world empty_database"
      "\<lparr>sr_to = [''01012345678''], sr_subject = None, sr_text = Some ''hi'', sr_attachments = []\<rparr>" sample_sms]
  by (simp add: mms_sample_env_def sample_world_def)

text \<open>Property C26: A message whose first download failed gets another chance when the carrier notifies again. Let a push be
  decoded as a notification of a message that is in the database, and let the database not fail. If the message is still owed (noted, or its
  retrieval failed), MMS is enabled and messages are retrieved automatically, the location that the notification names is
  fetched, provided that it announces no more bytes than the limit and the setup command, if there is one, succeeds. If
  the message was received or went its way in any other form, or MMS or its automatic retrieval is off, the notification
  is ignored: nothing is requested and the database stays as it is.
\<close>

theorem mms_renotification_retries:
  assumes db: "w_faults w = []"
    and push: "parse_wap_push (me_dec me) (si_data sms) = Some (Inr push)" "is_mms_push push"
      "mms_decode (me_dec me) (wp_body push) = Some (Inr n)"
    and ext: "first_of (mm_transaction n) (mm_id n) = Some ext"
    and stored: "find_by_external_id (w_db w) ''mms'' Incoming ext = Some (mid, status)"
    and url: "mm_location n = Some url" "case mm_size n of Some k \<Rightarrow> unat k \<le> ms_max_size (cf_mms (me_cfg me)) | None \<Rightarrow> True"
    and setup_works: "ms_setup_command (cf_mms (me_cfg me)) = None \<or> me_setup me = None"
  shows "if status \<in> {''notified'', ''retrieve_failed''} \<and> ms_enabled (cf_mms (me_cfg me)) \<and> ms_auto_retrieve (cf_mms (me_cfg me))
    then \<exists>res. Get url res \<in> set (drop (length (w_log w)) (w_log (snd (handle_push me sms w))))
    else fst (handle_push me sms w) = Inr None \<and> w_db (snd (handle_push me sms w)) = w_db w \<and>
      list_all is_write (drop (length (w_log w)) (w_log (snd (handle_push me sms w))))"
proof -
  let ?msg = "notified_message me sms n (wp_body push)"
  let ?w = "w\<lparr>w_log := w_log w @ [Db (InsertMessage (me_now me) ?msg)]\<rparr>"
  let ?owed = "status \<in> {''notified'', ''retrieve_failed''} \<and> ms_enabled (cf_mms (me_cfg me)) \<and> ms_auto_retrieve (cf_mms (me_cfg me))"
  have ins: "insert_message (me_now me) ?msg (w_db w) = (None, w_db w)"
    by (rule stored_is_known [OF stored]) (simp_all add: notified_message_def ext)
  then have "db_insert me ?msg w = (Inr None, ?w)" using db by (simp add: db_insert_def db_write_def)
  then have h: "handle_push me sms w = handle_notification me n None ?w"
    using push by (simp add: handle_push_def decode_mms_def with_context_def and_try_def ok_def)
  have r: "retriable_duplicate me (Some ext) ?w = (Inr (if ?owed then Some mid else None), ?w)"
    using db stored by (simp add: retriable_duplicate_def on_result_def db_read_def ok_def)
  show ?thesis
  proof (cases ?owed)
    case True
    then have "retriable_duplicate me (Some ext) ?w = (Inr (Some mid), ?w)" using r True by simp
    then have "handle_push me sms w = retrieve_or_mark me n mid (Some mid) None ?w"
      using h ext by (simp add: handle_notification_def and_try_def)
    moreover obtain ops where "w_log (snd (retrieve_or_mark me n mid (Some mid) None ?w)) = w_log ?w @ ops"
      "\<exists>res. Get url res \<in> set ops"
      using emits_direct_retry [OF emits_direct_retrieve [OF url setup_works]] by (rule emitsE)
    ultimately show ?thesis using True by auto
  next
    case False
    then have "retriable_duplicate me (Some ext) ?w = (Inr None, ?w)" using r by (simp only: False if_False)
    then have "handle_push me sms w = (Inr None, ?w)"
      using h ext by (simp add: handle_notification_def and_try_def ok_def)
    then show ?thesis using False by (simp add: is_write_def)
  qed
qed

lemma mms_renotification_retries_witness:
  "\<exists>res. Get ''u'' res \<in> set (w_log (snd (handle_push (mms_sample_env True) sample_sms
     (sample_world (snd (insert_message ''2026-01-01'' sample_message empty_database))))))"
proof -
  let ?db = "snd (insert_message ''2026-01-01'' sample_message empty_database)"
  obtain push where p: "parse_wap_push (\<lambda>_. bytes_text) (si_data sample_sms) = Some (Inr push)" "is_mms_push push"
    "wp_body push = sample_note"
  proof -
    have "parse_wap_push (\<lambda>_. bytes_text) (si_data sample_sms) = Some (Inr \<lparr>wp_type = mms_type, wp_body = sample_note\<rparr>)"
      by code_simp
    moreover have "is_mms_push \<lparr>wp_type = mms_type, wp_body = sample_note\<rparr>" by code_simp
    ultimately show ?thesis using that by simp
  qed
  have s: "find_by_external_id ?db ''mms'' Incoming ''T'' = Some (1, ''retrieve_failed'')" by code_simp
  show ?thesis
    using mms_renotification_retries [of "sample_world ?db" "mms_sample_env True" sample_sms push _ "''T''" 1 "''retrieve_failed''" "''u''"]
      p s sample_decoded by (simp add: mms_sample_env_def sample_world_def mms_default_def first_of_def default_mms_def)
qed

end
