(* ===== verification/HttpApi.thy ===== *)
theory HttpApi
  imports MmsManager Cards
begin

text \<open>
  The control API of \<open>src/http_api.rs\<close>: one request of a connection is read, checked against the token, answered and
  the connection closed. The world of the MMS manager holds the database and the log of what was requested of the
  network; the methods called on the modem and the tasks left behind come along. JSON is a value; its printer and
  readers, percent decoding and the files are parameters.
\<close>

section \<open>Requests\<close>

record api_request =
  hq_method :: string
  hq_path :: string
  hq_query :: string
  hq_headers :: "(string \<times> string) list"
  hq_body :: "u8 list"

text \<open>Reading the headers: \<open>None\<close> where the client closes before their end.\<close>

fun api_read_head :: "u8 list \<Rightarrow> u8 list list \<Rightarrow> string option \<Rightarrow> string + (u8 list \<times> nat \<times> u8 list list) option" where
  "api_read_head buf [] failure =
     (case find_bytes [13, 10, 13, 10] buf of
        Some pos \<Rightarrow> Inr (Some (buf, pos, []))
      | None \<Rightarrow> (case failure of Some e \<Rightarrow> Inl e | None \<Rightarrow> Inr None))"
| "api_read_head buf (c # cs) failure =
     (case find_bytes [13, 10, 13, 10] buf of
        Some pos \<Rightarrow> Inr (Some (buf, pos, c # cs))
      | None \<Rightarrow>
          if c = [] then Inr None
          else if 64 * 1024 < length (buf @ c) then Inl ''request headers too large''
          else api_read_head (buf @ c) cs failure)"

fun api_read_body :: "nat \<Rightarrow> u8 list \<Rightarrow> u8 list list \<Rightarrow> string option \<Rightarrow> string + u8 list" where
  "api_read_body len body [] failure =
     (if len \<le> length body then Inr (take len body)
      else (case failure of Some e \<Rightarrow> Inl e | None \<Rightarrow> Inr (take len body)))"
| "api_read_body len body (c # cs) failure =
     (if len \<le> length body \<or> c = [] then Inr (take len body) else api_read_body len (body @ c) cs failure)"

definition request_start :: "string \<Rightarrow> string \<times> string \<times> string" where
  "request_start line =
     (let parts = split_whitespace line;
          verb = (case parts of m # _ \<Rightarrow> m | [] \<Rightarrow> ''GET'');
          target = (case parts of _ # t # _ \<Rightarrow> t | _ \<Rightarrow> ''/'')
      in case split_once (CHR ''?'') target of Some (p, q) \<Rightarrow> (verb, p, q) | None \<Rightarrow> (verb, target, []))"

definition api_headers :: "string list \<Rightarrow> (string \<times> string) list" where
  "api_headers ls = map (\<lambda>(k, v). (trim k, trim v)) (List.map_filter (split_once (CHR '':'')) ls)"

definition api_content_length :: "(string \<times> string) list \<Rightarrow> nat" where
  "api_content_length headers =
     (case Option.bind (header_value headers ''content-length'') (\<lambda>v. parse_usize (trim v)) of Some n \<Rightarrow> n | None \<Rightarrow> 0)"

definition max_request_body :: nat where "max_request_body = 32 * 1024 * 1024"

definition read_request :: "u8 list list \<times> string option \<Rightarrow> string + api_request option" where
  "read_request stream =
     (case api_read_head [] (fst stream) (snd stream) of
        Inl e \<Rightarrow> Inl e
      | Inr None \<Rightarrow> Inr None
      | Inr (Some (buf, pos, cs)) \<Rightarrow>
          (let ls = split_crlf (lossy (take pos buf));
               (verb, path, query) = request_start (hd ls);
               headers = api_headers (tl ls);
               len = api_content_length headers in
           if max_request_body < len then Inl ''request body too large''
           else (case api_read_body len (drop (pos + 4) buf) cs (snd stream) of
               Inl e \<Rightarrow> Inl e
             | Inr body \<Rightarrow>
                 Inr (Some \<lparr>hq_method = verb, hq_path = path, hq_query = query, hq_headers = headers, hq_body = body\<rparr>))))"

section \<open>Answers\<close>

datatype json = JNull | JBool bool | JInt int | JStr string | JArr "json list" | JObj "(string \<times> json) list"

record api_answer =
  aa_status :: nat
  aa_type :: string
  aa_extra :: "string list"
  aa_body :: "u8 list"

definition media_char :: "char \<Rightarrow> bool" where
  "media_char c \<longleftrightarrow> in_range 0x30 0x39 (byte_of c) \<or> in_range 0x41 0x5A (byte_of c) \<or> in_range 0x61 0x7A (byte_of c) \<or>
     c \<in> set ''/.+-_;= ''"

definition sanitize_media_type :: "string \<Rightarrow> string" where
  "sanitize_media_type raw =
     (let cleaned = trim (take 128 (filter media_char (takeWhile (\<lambda>c. c \<noteq> CHR 0x0D \<and> c \<noteq> CHR 0x0A) raw))) in
      if cleaned = [] \<or> CHR ''/'' \<notin> set cleaned then ''application/octet-stream'' else cleaned)"

definition status_reason :: "nat \<Rightarrow> string" where
  "status_reason status =
     (if status = 200 then ''OK'' else if status = 202 then ''Accepted'' else if status = 400 then ''Bad Request''
      else if status = 401 then ''Unauthorized'' else if status = 404 then ''Not Found''
      else if status = 500 then ''Internal Server Error'' else if status = 502 then ''Bad Gateway''
      else if status = 503 then ''Service Unavailable'' else ''Status'')"

definition answer_lines :: "api_answer \<Rightarrow> string list" where
  "answer_lines a =
     [''HTTP/1.1 '' @ show_nat (aa_status a) @ '' '' @ status_reason (aa_status a),
      ''Content-Type: '' @ sanitize_media_type (aa_type a)] @ aa_extra a @
     [''Content-Length: '' @ show_nat (length (aa_body a)), ''Connection: close'']"

definition answer_head :: "api_answer \<Rightarrow> string" where
  "answer_head a = concat (map (\<lambda>l. l @ [CHR 0x0D, CHR 0x0A]) (answer_lines a @ [[]]))"

definition answer_bytes :: "api_answer \<Rightarrow> u8 list" where
  "answer_bytes a = text_bytes (answer_head a) @ aa_body a"

definition escape_html :: "string \<Rightarrow> string" where
  "escape_html s = concat (map (\<lambda>c.
     if c = CHR ''&'' then ''&amp;'' else if c = CHR ''<'' then ''&lt;'' else if c = CHR ''>'' then ''&gt;'' else [c]) s)"

type_synonym stored_message = "message_row \<times> attachment list"

definition shown :: "string option \<Rightarrow> bool" where
  "shown v \<longleftrightarrow> (case v of Some t \<Rightarrow> t \<noteq> [] | None \<Rightarrow> False)"

definition page_item :: "string \<Rightarrow> nat \<Rightarrow> attachment \<Rightarrow> string" where
  "page_item base mid att =
     ''<li><a href=\"'' @ base @ ''/messages/'' @ show_nat mid @ ''/attachments/'' @ show_int (at_index att) @ ''\">'' @
     escape_html (case at_name att of Some n \<Rightarrow> n | None \<Rightarrow> ''part'') @ ''</a> ('' @ escape_html (at_content_type att) @ '')</li>''"

definition retrieved_page :: "string \<Rightarrow> stored_message option \<Rightarrow> string" where
  "retrieved_page base msg =
     (case msg of
        None \<Rightarrow> ''<h2>Fetched</h2>''
      | Some (m, ats) \<Rightarrow>
          ''<h2>Fetched</h2>'' @ ''<p>From '' @ escape_html (nm_peer m) @
          (if shown (nm_subject m) then ''<br>'' @ escape_html (text_or_empty (nm_subject m)) else []) @ ''</p>'' @
          (if shown (nm_text m) then ''<p>'' @ escape_html (text_or_empty (nm_text m)) @ ''</p>'' else []) @
          (if ats \<noteq> [] then ''<ul>'' @ concat (map (page_item base (mr_id m)) ats) @ ''</ul>'' else []))"

definition html_page :: "string \<Rightarrow> string" where
  "html_page body =
     ''<!doctype html><meta charset=\"utf-8\"><meta name=\"viewport\" content=\"width=device-width,initial-scale=1\">'' @
     ''<title>modem2sip</title><body style=\"font:16px/1.5 system-ui,sans-serif;margin:2rem;max-width:40rem\">'' @ body"

definition answer_html :: "nat \<Rightarrow> string \<Rightarrow> api_answer" where
  "answer_html status body =
     \<lparr>aa_status = status, aa_type = ''text/html; charset=utf-8'', aa_extra = [], aa_body = text_bytes (html_page body)\<rparr>"

definition json_type :: string where "json_type = ''application/json; charset=utf-8''"

definition answer_json :: "(json \<Rightarrow> u8 list) \<Rightarrow> nat \<Rightarrow> json \<Rightarrow> api_answer" where
  "answer_json printer status body = \<lparr>aa_status = status, aa_type = json_type, aa_extra = [], aa_body = printer body\<rparr>"

text \<open>
  The text a SIP peer gets of a fetched message (\<open>format_mms_summary\<close> of \<open>src/gateway.rs\<close>). A size is a binary fraction that the
  floating point numbers of the code hold exactly (below 2^53), written with one decimal, a tie to the even one.
\<close>

definition size_unit :: "nat \<Rightarrow> nat" where
  "size_unit bytes = length (takeWhile (\<lambda>k. 1024 ^ (k + 1) \<le> bytes) [0, 1, 2])"

definition one_decimal :: "nat \<Rightarrow> nat \<Rightarrow> string" where
  "one_decimal n d =
     (let q = 10 * n div d; r = 10 * n mod d; t = (if d < 2 * r \<or> d = 2 * r \<and> odd q then q + 1 else q)
      in show_nat (t div 10) @ ''.'' @ show_nat (t mod 10))"

definition human_size :: "nat \<Rightarrow> string" where
  "human_size bytes =
     (let unit = size_unit bytes in
      if unit = 0 then show_nat bytes @ '' B''
      else one_decimal bytes (1024 ^ unit) @ '' '' @ [''B'', ''KB'', ''MB'', ''GB''] ! unit)"

definition summary_item :: "string \<Rightarrow> nat \<Rightarrow> attachment \<Rightarrow> string" where
  "summary_item base mid att =
     show_int (at_index att) @ ''. '' @ (case at_name att of Some n \<Rightarrow> n | None \<Rightarrow> ''part'' @ show_int (at_index att)) @ '' ('' @
     at_content_type att @ '', '' @ human_size (at_size att) @ '')'' @ [CHR 0x0A] @ ''   '' @ base @ ''/messages/'' @ show_nat mid @
     ''/attachments/'' @ show_int (at_index att) @ [CHR 0x0A]"

definition format_mms_summary :: "string \<Rightarrow> stored_message \<Rightarrow> string" where
  "format_mms_summary base msg =
     (case msg of (m, ats) \<Rightarrow>
        ''[MMS] from '' @ nm_peer m @ [CHR 0x0A] @
        (if shown (nm_subject m) then ''Subject: '' @ text_or_empty (nm_subject m) @ [CHR 0x0A] else []) @
        (if shown (nm_text m) then [CHR 0x0A] @ text_or_empty (nm_text m) @ [CHR 0x0A] else []) @
        (if ats \<noteq> []
         then [CHR 0x0A] @ ''-- '' @ show_nat (length ats) @ '' attachment(s) --'' @ [CHR 0x0A] @
           concat (map (summary_item base (mr_id m)) ats)
         else []) @
        (if nm_status m \<noteq> ''received''
         then [CHR 0x0A] @ ''-- the message itself has not been fetched ('' @ nm_status m @ '') --'' @ [CHR 0x0A] @
           ''fetch it:  '' @ base @ ''/messages/'' @ show_nat (mr_id m) @ ''/retrieve'' @ [CHR 0x0A]
         else []))"

section \<open>The routes\<close>

datatype api_job = ForgetMessage string | TellPeer string string

record api_state =
  as_world :: world
  as_bus :: "bus_call list"
  as_jobs :: "api_job list"

record api_modem =
  am_info :: modem_info
  am_signal :: "u32 option"
  am_card :: "alsa_card option"

record api_env =
  ap_mms :: mms_env
  ap_modem :: "api_modem option"
  ap_ready :: bool
  ap_sip :: bool
  ap_cards :: "alsa_card list"
  ap_calls :: call_env
  ap_json :: "json \<Rightarrow> u8 list"
  ap_sms_body :: "u8 list \<Rightarrow> string + string \<times> string"
  ap_mms_body :: "u8 list \<Rightarrow> string + mms_request"
  ap_percent :: "string \<Rightarrow> string"
  ap_file :: "string \<Rightarrow> u8 list option"

definition ap_cfg :: "api_env \<Rightarrow> config" where
  "ap_cfg ae = me_cfg (ap_mms ae)"

definition http_base_url :: "config \<Rightarrow> string" where
  "http_base_url cfg =
     (case ht_base_url (cf_http cfg) of Some b \<Rightarrow> b | None \<Rightarrow> ''http://'' @ ht_bind (cf_http cfg))"

definition in_world :: "'a mms_action \<Rightarrow> api_state \<Rightarrow> (string + 'a) \<times> api_state" where
  "in_world m s = (case m (as_world s) of (r, w) \<Rightarrow> (r, s\<lparr>as_world := w\<rparr>))"

definition query_param :: "api_env \<Rightarrow> api_request \<Rightarrow> string \<Rightarrow> string option" where
  "query_param ae req name =
     map_option (\<lambda>(_, v). ap_percent ae v)
       (find (\<lambda>(k, _). k = name) (List.map_filter (split_once (CHR ''='')) (split_on (CHR ''&'') (hq_query req))))"

definition constant_time_eq :: "string \<Rightarrow> string \<Rightarrow> bool" where
  "constant_time_eq a b \<longleftrightarrow> length a = length b \<and>
     fold (\<lambda>(x, y) acc. acc OR (x XOR y)) (zip (text_bytes a) (text_bytes b)) (0 :: u8) = 0"

definition presented_token :: "api_request \<Rightarrow> string" where
  "presented_token req =
     (case Option.bind (header_value (hq_headers req) ''authorization'') (\<lambda>v. strip_prefix ''Bearer '' (trim v)) of
        Some t \<Rightarrow> trim t
      | None \<Rightarrow> [])"

definition json_text :: "string option \<Rightarrow> json" where
  "json_text v = (case v of Some t \<Rightarrow> JStr t | None \<Rightarrow> JNull)"

definition json_error :: "string \<Rightarrow> json" where
  "json_error e = JObj [(''error'', JStr e)]"

definition json_attachment :: "attachment \<Rightarrow> json" where
  "json_attachment att =
     JObj [(''index'', JInt (at_index att)), (''content_type'', JStr (at_content_type att)), (''name'', json_text (at_name att)),
       (''content_id'', json_text (at_content_id att)), (''size'', JInt (int (at_size att))), (''path'', JStr (at_path att))]"

definition json_message :: "stored_message \<Rightarrow> json" where
  "json_message msg =
     (case msg of (m, ats) \<Rightarrow>
        JObj ([(''id'', JInt (int (mr_id m))), (''kind'', JStr (nm_kind m)),
          (''direction'', JStr (case nm_direction m of Incoming \<Rightarrow> ''incoming'' | Outgoing \<Rightarrow> ''outgoing'')), (''peer'', JStr (nm_peer m)),
          (''own_number'', json_text (nm_own_number m)), (''subject'', json_text (nm_subject m)),
          (''text'', json_text (nm_text m)), (''timestamp'', json_text (nm_timestamp m)),
          (''received_at'', JStr (mr_received_at m)), (''status'', JStr (nm_status m)),
          (''external_id'', json_text (nm_external_id m))] @
          (if ats = [] then [] else [(''attachments'', JArr (map json_attachment ats))])))"

definition fs_path_text :: "fs_path \<Rightarrow> string" where
  "fs_path_text p = (case p of c # rest \<Rightarrow> if c = ''/'' then ''/'' @ join ''/'' rest else join ''/'' p | [] \<Rightarrow> [])"

definition json_card :: "alsa_card \<Rightarrow> json" where
  "json_card c =
     JObj [(''card'', JInt (int (unat (al_index c)))), (''id'', JStr (al_id c)), (''name'', JStr (al_name c)),
       (''device_path'', JStr (fs_path_text (al_device c))), (''playback'', JBool (al_playback c)),
       (''capture'', JBool (al_capture c))]"

definition json_health :: "api_env \<Rightarrow> json" where
  "json_health ae =
     (case ap_modem ae of
        None \<Rightarrow> JObj [(''status'', JStr ''down''), (''reason'', JStr ''no modem'')]
      | Some am \<Rightarrow>
          (let i = am_info am in
           JObj [(''status'', JStr ''up''),
             (''modem'', JObj [(''path'', JStr (mi_path i)), (''manufacturer'', JStr (mi_manufacturer i)),
               (''model'', JStr (mi_model i)), (''imei'', JStr (mi_equipment i)), (''device'', JStr (mi_device i)),
               (''primary_port'', JStr (mi_primary_port i)), (''own_number'', json_text (mi_own_number i)),
               (''operator'', json_text (mi_operator i)),
               (''signal_quality'', case am_signal am of Some q \<Rightarrow> JInt (int (unat q)) | None \<Rightarrow> JNull)]),
             (''alsa'', case am_card am of
                 None \<Rightarrow> JNull
               | Some c \<Rightarrow> JObj [(''card'', JInt (int (unat (al_index c)))), (''id'', JStr (al_id c)),
                   (''name'', JStr (al_name c)), (''device'', JStr (device_string c True))]),
             (''mms_enabled'', JBool (ms_enabled (cf_mms (ap_cfg ae))))]))"

text \<open>A number in a path or a query is an \<open>i64\<close>; no row has a negative one.\<close>

definition message_numbered :: "database \<Rightarrow> int \<Rightarrow> stored_message option" where
  "message_numbered db i = (if 0 \<le> i then get_message db (nat i) else None)"

definition api_messages :: "api_env \<Rightarrow> api_request \<Rightarrow> api_state \<Rightarrow> api_answer \<times> api_state" where
  "api_messages ae req s =
     (let wanted = (case Option.bind (query_param ae req ''limit'') parse_i64 of Some n \<Rightarrow> n | None \<Rightarrow> 50);
          limit = max 1 (min 500 wanted);
          before = map_option nat (Option.bind (query_param ae req ''before'') parse_i64) in
      case in_world (db_read (\<lambda>db. list_messages db limit before)) s of
        (Inr ms, s1) \<Rightarrow> (answer_json (ap_json ae) 200 (JObj [(''messages'', JArr (map json_message ms))]), s1)
      | (Inl _, s1) \<Rightarrow> (answer_json (ap_json ae) 500 (json_error ''database error''), s1))"

definition api_message :: "api_env \<Rightarrow> string \<Rightarrow> api_state \<Rightarrow> api_answer \<times> api_state" where
  "api_message ae ident s =
     (case parse_i64 ident of
        None \<Rightarrow> (answer_json (ap_json ae) 400 (json_error ''bad id''), s)
      | Some i \<Rightarrow>
          (case in_world (db_read (\<lambda>db. message_numbered db i)) s of
             (Inr (Some m), s1) \<Rightarrow> (answer_json (ap_json ae) 200 (json_message m), s1)
           | (Inr None, s1) \<Rightarrow> (answer_json (ap_json ae) 404 (json_error ''not found''), s1)
           | (Inl _, s1) \<Rightarrow> (answer_json (ap_json ae) 500 (json_error ''database error''), s1)))"

definition api_attachment :: "api_env \<Rightarrow> string \<Rightarrow> string \<Rightarrow> api_state \<Rightarrow> api_answer \<times> api_state" where
  "api_attachment ae ident jdent s =
     (case (parse_i64 ident, parse_i64 jdent) of
        (Some i, Some j) \<Rightarrow>
          (case in_world (db_read (\<lambda>db. if 0 \<le> i then attachment_path db (nat i) j else None)) s of
             (Inl _, s1) \<Rightarrow> (answer_json (ap_json ae) 500 (json_error ''database error''), s1)
           | (Inr None, s1) \<Rightarrow> (answer_json (ap_json ae) 404 (json_error ''not found''), s1)
           | (Inr (Some (path, ctype)), s1) \<Rightarrow>
               (case ap_file ae path of
                  None \<Rightarrow> (answer_json (ap_json ae) 500 (json_error ''attachment unreadable''), s1)
                | Some data \<Rightarrow>
                    (\<lparr>aa_status = 200, aa_type = ctype,
                      aa_extra = [''X-Content-Type-Options: nosniff'', ''Content-Disposition: attachment''],
                      aa_body = data\<rparr>, s1)))
      | _ \<Rightarrow> (answer_json (ap_json ae) 400 (json_error ''bad id''), s))"

definition json_sent :: "nat option \<Rightarrow> json" where
  "json_sent i = JObj [(''status'', JStr ''sent''), (''id'', case i of Some n \<Rightarrow> JInt (int n) | None \<Rightarrow> JNull)]"

definition api_sms_row :: "api_env \<Rightarrow> modem_info \<Rightarrow> string \<Rightarrow> string \<Rightarrow> string \<Rightarrow> new_message" where
  "api_sms_row ae info number body path =
     \<lparr>nm_kind = ''sms'', nm_direction = Outgoing, nm_peer = number, nm_own_number = mi_own_number info, nm_subject = None,
      nm_text = Some body, nm_timestamp = None, nm_status = ''sent'',
      nm_external_id = Some (outgoing_sms_id path (me_now (ap_mms ae))), nm_raw = None\<rparr>"

definition api_sms :: "api_env \<Rightarrow> api_request \<Rightarrow> api_state \<Rightarrow> api_answer \<times> api_state" where
  "api_sms ae req s =
     (case ap_sms_body ae (hq_body req) of
        Inl e \<Rightarrow> (answer_json (ap_json ae) 400 (json_error e), s)
      | Inr (recipient, body) \<Rightarrow>
          (case ap_modem ae of
             None \<Rightarrow> (answer_json (ap_json ae) 503 (json_error ''no modem''), s)
           | Some am \<Rightarrow>
               (let number = sanitize_number recipient; sms = cf_sms (ap_cfg ae);
                    (res, calls) = mm_send_sms (ap_calls ae) number body (sm_delivery_report sms);
                    s1 = s\<lparr>as_bus := as_bus s @ calls\<rparr> in
                case res of
                  Inl e \<Rightarrow> (answer_json (ap_json ae) 500 (json_error e), s1)
                | Inr path \<Rightarrow>
                    (let (r, s2) = in_world (db_insert (ap_mms ae) (api_sms_row ae (am_info am) number body path)) s1;
                         mid = (case r of Inr m \<Rightarrow> m | Inl _ \<Rightarrow> None);
                         s3 = (if sm_delete_from_modem sms \<and> \<not> sm_delivery_report sms
                               then s2\<lparr>as_jobs := as_jobs s2 @ [ForgetMessage path]\<rparr> else s2)
                     in (answer_json (ap_json ae) 202 (json_sent mid), s3)))))"

definition wants_html :: "api_request \<Rightarrow> bool" where
  "wants_html req \<longleftrightarrow>
     (case header_value (hq_headers req) ''accept'' of Some a \<Rightarrow> contains_text ''text/html'' a | None \<Rightarrow> False)"

definition retrieve_numbered :: "mms_env \<Rightarrow> int \<Rightarrow> unit mms_action" where
  "retrieve_numbered me i =
     (if 0 \<le> i then retrieve_stored me (nat i)
      else if \<not> ms_enabled (cf_mms (me_cfg me)) then err mms_disabled
      else and_try (db_read (\<lambda>_. ())) (\<lambda>_. err (''message '' @ show_int i @ '' has no stored notification'')))"

definition api_retrieve :: "api_env \<Rightarrow> api_request \<Rightarrow> string \<Rightarrow> api_state \<Rightarrow> api_answer \<times> api_state" where
  "api_retrieve ae req ident s =
     (case parse_i64 ident of
        None \<Rightarrow> (answer_json (ap_json ae) 400 (json_error ''bad id''), s)
      | Some i \<Rightarrow>
          (case in_world (retrieve_numbered (ap_mms ae) i) s of
             (Inl e, s1) \<Rightarrow>
               (if wants_html req
                then answer_html 502 (''<h2>Could not fetch it</h2><p>'' @ escape_html e @ ''</p>'')
                else answer_json (ap_json ae) 502 (json_error e), s1)
           | (Inr _, s1) \<Rightarrow>
               (let (r, s2) = in_world (db_read (\<lambda>db. message_numbered db i)) s1;
                    msg = (case r of Inr m \<Rightarrow> m | Inl _ \<Rightarrow> None);
                    base = http_base_url (ap_cfg ae);
                    s3 = (case (ap_sip ae, msg) of
                        (True, Some m) \<Rightarrow>
                          s2\<lparr>as_jobs := as_jobs s2 @
                            [TellPeer (nm_peer (fst m)) (format_mms_summary base m)]\<rparr>
                      | _ \<Rightarrow> s2)
                in (if wants_html req then answer_html 200 (retrieved_page base msg)
                    else answer_json (ap_json ae) 200
                      (JObj [(''status'', JStr ''retrieved''),
                        (''message'', case msg of Some m \<Rightarrow> json_message m | None \<Rightarrow> JNull)]), s3))))"

definition api_mms :: "api_env \<Rightarrow> api_request \<Rightarrow> api_state \<Rightarrow> api_answer \<times> api_state" where
  "api_mms ae req s =
     (case ap_mms_body ae (hq_body req) of
        Inl e \<Rightarrow> (answer_json (ap_json ae) 400 (json_error e), s)
      | Inr body \<Rightarrow>
          if \<not> ap_ready ae then (answer_json (ap_json ae) 503 (json_error ''no modem''), s)
          else (case in_world (mms_send (ap_mms ae) body) s of
              (Inr mid, s1) \<Rightarrow> (answer_json (ap_json ae) 202 (json_sent (Some mid)), s1)
            | (Inl e, s1) \<Rightarrow> (answer_json (ap_json ae) 500 (json_error e), s1)))"

definition path_segments :: "string \<Rightarrow> string list" where
  "path_segments path = split_on (CHR ''/'') (trim_matches (\<lambda>c. c = CHR ''/'') path)"

definition api_route :: "api_env \<Rightarrow> api_request \<Rightarrow> api_state \<Rightarrow> api_answer \<times> api_state" where
  "api_route ae req s =
     (let verb = hq_method req; seg = path_segments (hq_path req);
          unknown = (answer_json (ap_json ae) 404 (json_error ''no such endpoint''), s) in
      if verb = ''GET'' then
        (if seg = [[]] \<or> seg = [''health'']
         then (answer_json (ap_json ae) (if ap_modem ae = None then 503 else 200) (json_health ae), s)
         else if seg = [''cards'']
         then (answer_json (ap_json ae) 200 (JObj [(''cards'', JArr (map json_card (ap_cards ae)))]), s)
         else if seg = [''messages''] then api_messages ae req s
         else (case seg of
             [a, i] \<Rightarrow> if a = ''messages'' then api_message ae i s else unknown
           | [a, i, b] \<Rightarrow> if a = ''messages'' \<and> b = ''retrieve'' then api_retrieve ae req i s else unknown
           | [a, i, b, j] \<Rightarrow> if a = ''messages'' \<and> b = ''attachments'' then api_attachment ae i j s else unknown
           | _ \<Rightarrow> unknown))
      else if verb = ''POST'' then
        (if seg = [''sms''] then api_sms ae req s
         else if seg = [''mms''] then api_mms ae req s
         else (case seg of
             [a, i, b] \<Rightarrow> if a = ''messages'' \<and> b = ''retrieve'' then api_retrieve ae req i s else unknown
           | _ \<Rightarrow> unknown))
      else unknown)"

definition api_handle :: "api_env \<Rightarrow> api_request \<Rightarrow> api_state \<Rightarrow> api_answer \<times> api_state" where
  "api_handle ae req s =
     (case ht_token (cf_http (ap_cfg ae)) of
        Some token \<Rightarrow>
          if \<not> constant_time_eq (presented_token req) token
          then (answer_json (ap_json ae) 401 (json_error ''unauthorized''), s)
          else api_route ae req s
      | None \<Rightarrow> api_route ae req s)"

text \<open>A connection: what is written to it, if anything.\<close>

definition api_connection :: "api_env \<Rightarrow> u8 list list \<times> string option \<Rightarrow> api_state \<Rightarrow> u8 list \<times> api_state" where
  "api_connection ae stream s =
     (case read_request stream of
        Inr (Some req) \<Rightarrow> (case api_handle ae req s of (a, s') \<Rightarrow> (answer_bytes a, s'))
      | _ \<Rightarrow> ([], s))"

text \<open>
  The task the gateway leaves behind for a push (\<open>handle_mms_push\<close> of \<open>src/gateway.rs\<close>): the manager handles it, the SIP side
  is told of the message as it is stored then, and the modem need not keep the push.
\<close>

definition mms_push_task :: "mms_env \<Rightarrow> string \<Rightarrow> sms_info \<Rightarrow> string \<Rightarrow> api_state \<Rightarrow> api_state" where
  "mms_push_task me path info fallback s =
     (let (r, s1) = in_world (handle_push me info) s;
          s2 = (case r of
              Inr (Some mid) \<Rightarrow>
                (case in_world (db_read (\<lambda>db. get_message db mid)) s1 of
                   (Inr (Some m), s') \<Rightarrow>
                     s'\<lparr>as_jobs := as_jobs s' @ [TellPeer (if nm_peer (fst m) = [] then fallback else nm_peer (fst m))
                       (format_mms_summary (http_base_url (me_cfg me)) m)]\<rparr>
                 | (_, s') \<Rightarrow> s')
            | _ \<Rightarrow> s1)
      in if sm_delete_from_modem (cf_sms (me_cfg me)) then s2\<lparr>as_jobs := as_jobs s2 @ [ForgetMessage path]\<rparr> else s2)"

section \<open>The token\<close>

lemma fold_or_zero:
  "fold (\<lambda>(x, y) acc. acc OR (x XOR y)) ps (a :: u8) = 0 \<longleftrightarrow> a = 0 \<and> list_all (\<lambda>(x, y). x = y) ps"
proof (induction ps arbitrary: a)
  case (Cons p ps)
  obtain x y where p: "p = (x, y)" by fastforce
  have "a OR (x XOR y) = 0 \<longleftrightarrow> a = 0 \<and> x = y"
    by (metis or.right_neutral or_eq_0_iff xor_self_eq bit.xor_left_self xor.right_neutral)
  then show ?case using Cons by (auto simp: p)
qed simp

lemma constant_time_eq_iff: "constant_time_eq a b \<longleftrightarrow> a = b"
proof
  assume eq: "constant_time_eq a b"
  then have "length (text_bytes a) = length (text_bytes b)" by (simp add: constant_time_eq_def text_bytes_def)
  moreover have "list_all (\<lambda>(x, y). x = y) (zip (text_bytes a) (text_bytes b))"
    using eq by (simp add: constant_time_eq_def fold_or_zero)
  ultimately have "text_bytes a = text_bytes b"
    by (simp add: list_eq_iff_nth_eq list_all_length)
  then show "a = b" by (metis bytes_text_text_bytes)
qed (auto simp: constant_time_eq_def fold_or_zero list_all_iff set_zip)

section \<open>What a request can do\<close>

text \<open>Reading the database takes its turn with the faults, and changes nothing else.\<close>

definition untouched :: "api_state \<Rightarrow> api_state \<Rightarrow> bool" where
  "untouched s s' \<longleftrightarrow> w_db (as_world s') = w_db (as_world s) \<and> w_log (as_world s') = w_log (as_world s) \<and>
     as_bus s' = as_bus s \<and> as_jobs s' = as_jobs s"

lemma untouched_refl [simp]: "untouched s s"
  by (simp add: untouched_def)

lemma untouched_read: "in_world (db_read f) s = (r, s') \<Longrightarrow> untouched s s'"
  by (auto simp: in_world_def db_read_def untouched_def split: list.splits bool.splits)

lemma untouched_messages: "untouched s (snd (api_messages ae req s))"
  by (auto simp: api_messages_def Let_def split: prod.split sum.split dest: untouched_read)

lemma untouched_message: "untouched s (snd (api_message ae ident s))"
  by (auto simp: api_message_def split: option.split prod.split sum.split dest: untouched_read)

lemma untouched_attachment: "untouched s (snd (api_attachment ae ident jdent s))"
  by (auto simp: api_attachment_def split: option.split prod.split sum.split dest: untouched_read)

definition asks_retrieval :: "api_request \<Rightarrow> bool" where
  "asks_retrieval req \<longleftrightarrow> (case path_segments (hq_path req) of [a, _, b] \<Rightarrow> a = ''messages'' \<and> b = ''retrieve'' | _ \<Rightarrow> False)"

lemma untouched_route:
  assumes "hq_method req \<noteq> ''POST''" and "\<not> asks_retrieval req"
  shows "untouched s (snd (api_route ae req s))"
  using assms untouched_messages untouched_message untouched_attachment
  by (auto simp: api_route_def asks_retrieval_def Let_def split: list.splits if_splits)

text \<open>A push is deleted from the modem whether it could be handled or not, as the last thing; before that the peer
  is told at most once.\<close>

lemma push_is_forgotten:
  "\<exists>told. as_jobs (mms_push_task me path info fallback s) =
     as_jobs s @ told @ (if sm_delete_from_modem (cf_sms (me_cfg me)) then [ForgetMessage path] else []) \<and>
     (told = [] \<or> (\<exists>peer body. told = [TellPeer peer body]))"
proof -
  have j: "as_jobs s' = as_jobs t" if "in_world m t = (r, s')" for m :: "'x mms_action" and t r s'
    using that by (auto simp: in_world_def split: prod.splits)
  show ?thesis
    by (auto simp: mms_push_task_def Let_def j split: prod.split sum.split option.split)
qed

section \<open>How it is answered\<close>

lemma media_char_clean: "media_char c \<Longrightarrow> \<not> control_char c"
  by (auto simp: media_char_def control_char_def in_range_def byte_of_def)

lemma sanitized_media: "list_all media_char (sanitize_media_type raw)"
proof -
  have "set (trim s) \<subseteq> set s" for s by (rule trim_set)
  then have "list_all media_char (trim (take n (filter media_char s)))" for n s
    unfolding list_all_iff by (fastforce dest: in_set_takeD)
  moreover have "list_all media_char ''application/octet-stream''" by code_simp
  ultimately show ?thesis by (simp add: sanitize_media_type_def Let_def)
qed

lemma sanitized_clean: "clean (sanitize_media_type raw)"
  using sanitized_media [of raw] media_char_clean by (auto simp: clean_def list_all_iff)

lemma reason_clean: "clean (status_reason status)"
  by (simp add: status_reason_def control_char_def byte_of_def)

definition known_extra :: "api_answer \<Rightarrow> bool" where
  "known_extra a \<longleftrightarrow> aa_extra a \<in> {[], [''X-Content-Type-Options: nosniff'', ''Content-Disposition: attachment'']}"

lemma known_extra_simps [simp]: "known_extra (answer_json p n j)" "known_extra (answer_html n b)"
  by (simp_all add: known_extra_def answer_json_def answer_html_def)

lemma handle_extra: "known_extra (fst (api_handle ae req s))"
proof -
  have "known_extra (fst (api_messages ae req s))" "known_extra (fst (api_message ae i s))"
    "known_extra (fst (api_attachment ae i j s))" "known_extra (fst (api_sms ae req s))"
    "known_extra (fst (api_retrieve ae req i s))" "known_extra (fst (api_mms ae req s))" for i j
    by (auto simp: api_messages_def api_message_def api_attachment_def api_sms_def api_retrieve_def api_mms_def Let_def
        split: option.split prod.split sum.split, simp_all add: known_extra_def)
  then show ?thesis
    by (auto simp: api_handle_def api_route_def Let_def split: option.split list.split)
qed

lemma answer_lines_clean: "known_extra a \<Longrightarrow> list_all clean (answer_lines a)"
  by (auto simp: answer_lines_def known_extra_def sanitized_clean reason_clean control_char_def byte_of_def)

lemma answer_head_lines: "list_all clean (answer_lines a) \<Longrightarrow> str_lines (answer_head a) = answer_lines a @ [[]]"
proof -
  assume "list_all clean (answer_lines a)"
  then have "list_all clean (answer_lines a @ [[]])" by simp
  then show ?thesis using str_lines_crlf_lines [of "answer_lines a @ [[]]" "[]"] by (simp add: answer_head_def crlf_def cr_def lf_def)
qed

section \<open>Pages\<close>

definition markup :: "string \<Rightarrow> string" where
  "markup s = filter (\<lambda>c. c \<in> {CHR ''<'', CHR ''>''}) s"

lemma markup_append [simp]: "markup (a @ b) = markup a @ markup b"
  by (simp add: markup_def)

lemma markup_simps [simp]:
  "markup [] = []" "markup (c # s) = (if c = CHR ''<'' \<or> c = CHR ''>'' then c # markup s else markup s)"
  by (simp_all add: markup_def)

lemma markup_concat [simp]: "markup (concat xs) = concat (map markup xs)"
  by (induction xs) simp_all

lemma markup_escaped [simp]: "markup (escape_html s) = []"
  by (induction s) (auto simp: escape_html_def)

lemma markup_show_nat [simp]: "markup (show_nat n) = []"
  by (auto simp: markup_def filter_empty_conv byte_of_def dest!: show_nat_digit)

lemma markup_show_int [simp]: "markup (show_int i) = []"
  by (simp add: show_int_def)

lemma markup_item: "markup (page_item base mid att) = ''<><'' @ markup base @ ''><><>''"
  by (simp add: page_item_def)

lemma markup_items: "concat (map (\<lambda>att. markup (page_item base mid att)) ats) = concat (replicate (length ats) (''<><'' @ markup base @ ''><><>''))"
  unfolding markup_item by (simp add: map_replicate_const)

lemma markup_page:
  "markup (retrieved_page base (Some (m, ats))) =
     ''<><><>'' @ (if shown (nm_subject m) then ''<>'' else []) @ ''<>'' @ (if shown (nm_text m) then ''<><>'' else []) @
     (if ats = [] then [] else ''<>'' @ concat (replicate (length ats) (''<><'' @ markup base @ ''><><>'')) @ ''<>'')"
  by (simp add: retrieved_page_def o_def markup_items)

lemma size_unit_scale: "0 < size_unit bytes \<Longrightarrow> 1024 ^ size_unit bytes \<le> bytes"
  by (auto simp: size_unit_def split: if_splits)

lemma sizes_read:
  "human_size 1023 = ''1023 B''" "human_size 1024 = ''1.0 KB''" "human_size 1280 = ''1.2 KB''" "human_size 1792 = ''1.8 KB''"
  "human_size (5 * 1024 ^ 3) = ''5.0 GB''" "human_size (2 ^ 42) = ''4096.0 GB''"
  by (simp_all add: human_size_def size_unit_def one_decimal_def show_nat_def show_radix.simps [of 10] digit_char_def char_of_def bit_0 Let_def)

section \<open>Properties\<close>

text \<open>Property C6: Nothing is changed through the API without permission. Whatever a request does, it left the database, the log of
  what was asked of the network, the modem and the tasks as they were, unless it presented the configured token, byte for byte (or none is
  configured), and it is a POST or asks for the retrieval of a message; without the token it is answered 401.
\<close>

theorem api_changes_are_permitted:
  "case api_handle ae req s of (a, s') \<Rightarrow>
     untouched s s' \<and> aa_status a = 401 \<and> ht_token (cf_http (ap_cfg ae)) \<notin> {None, Some (presented_token req)} \<or>
     ht_token (cf_http (ap_cfg ae)) \<in> {None, Some (presented_token req)} \<and>
       (untouched s s' \<or> hq_method req = ''POST'' \<or> asks_retrieval req)"
proof (cases "ht_token (cf_http (ap_cfg ae)) \<in> {None, Some (presented_token req)}")
  case True
  then have "api_handle ae req s = api_route ae req s"
    by (auto simp: api_handle_def constant_time_eq_iff)
  with True show ?thesis using untouched_route [of req s ae] by (auto simp: split_beta)
next
  case False
  then show ?thesis by (auto simp: api_handle_def constant_time_eq_iff answer_json_def split: option.splits)
qed

text \<open>Property C15: An answer is one answer, whoever wrote the message it carries. The head consists of exactly the
  lines the API means to send and the blank line behind them, each free of control characters, whatever
  type a part of a message claims to have; the last but one announces the length of the body that follows.
\<close>

theorem api_answers_are_framed:
  "case api_handle ae req s of (a, _) \<Rightarrow>
     str_lines (answer_head a) = answer_lines a @ [[]] \<and> list_all clean (answer_lines a) \<and>
     answer_bytes a = text_bytes (answer_head a) @ aa_body a \<and>
     last (butlast (answer_lines a)) = ''Content-Length: '' @ show_nat (length (aa_body a))"
proof -
  have "list_all clean (answer_lines (fst (api_handle ae req s)))" by (rule answer_lines_clean [OF handle_extra])
  then show ?thesis
    using answer_head_lines by (simp add: split_beta answer_bytes_def) (simp add: answer_lines_def butlast_append)
qed

text \<open>Property C25: The page that shows a fetched message has the markup of the program and none of the message's. Two messages with
  a subject or none, a text or none and as many parts give pages with the same angle brackets in the
  same order, whatever their sender, subject, text and the names and types of their parts hold.
\<close>

theorem api_page_markup_is_ours:
  assumes "shown (nm_subject m) = shown (nm_subject m')" and "shown (nm_text m) = shown (nm_text m')"
    and "length ats = length ats'"
  shows "markup (retrieved_page base (Some (m, ats))) = markup (retrieved_page base (Some (m', ats')))"
  using assms unfolding markup_page by auto

definition sample_row :: "string \<Rightarrow> message_row" where
  "sample_row body = new_message.extend (sample_message\<lparr>nm_text := Some body\<rparr>) (message_row.fields 1 ''2026-01-01'' None)"

lemma api_page_markup_is_ours_witness:
  "markup (retrieved_page ''http://gw'' (Some (sample_row ''<script>'', []))) =
     markup (retrieved_page ''http://gw'' (Some (sample_row ''hello'', [])))"
  by (rule api_page_markup_is_ours)
    (simp_all add: sample_row_def shown_def new_message.defs message_row.defs)

end
