(* ===== verification/Delivery.thy ===== *)
theory Delivery
  imports Upstream HttpApi
begin

text \<open>
  What becomes of a message for the SIP side: \<open>notify_sip_message\<close> of \<open>src/gateway.rs\<close> with the transaction it runs, and the jobs
  that the MMS part and the control API leave behind, run to their end.
\<close>

section \<open>Delivering\<close>

record delivery =
  dl_result :: "(string + response) option"
  dl_requests :: "(request \<times> socket_addr) list"

definition sip_credentials :: "config \<Rightarrow> (string \<times> string) option" where
  "sip_credentials cfg = map_option (\<lambda>u. (up_username u, up_password u)) (sp_register (cf_sip cfg))"

text \<open>The responses that arrive in time to the request, and to its repetition with credentials, are arguments.\<close>

definition notify_sip_message :: "gw_env \<Rightarrow> sip_env \<Rightarrow> response list \<Rightarrow> response list \<Rightarrow> string \<Rightarrow> string \<Rightarrow> string \<Rightarrow> gateway \<Rightarrow>
    delivery \<times> gateway" where
  "notify_sip_message ge again_env arrived again peer mime body gw =
     (case notify_request ge peer mime body gw of
        (gw1, None) \<Rightarrow> (\<lparr>dl_result = None, dl_requests = []\<rparr>, gw1)
      | (gw1, Some (req, addr)) \<Rightarrow>
          (case transact (gw_core gw1) again_env req addr (sip_credentials (gw_cfg gw)) arrived again of
             (r, reqs, co) \<Rightarrow> (\<lparr>dl_result = Some r, dl_requests = map (\<lambda>q. (q, addr)) reqs\<rparr>, gw1\<lparr>gw_core := co\<rparr>)))"

section \<open>What is delivered\<close>

definition same_message :: "request \<Rightarrow> request \<Rightarrow> bool" where
  "same_message req q \<longleftrightarrow> rq_method q = rq_method req \<and> rq_uri q = rq_uri req \<and> rq_body q = rq_body req"

lemma transact_repeats:
  assumes "transact co en req dest creds arrived again = (res, reqs, co')"
  shows "list_all (same_message req) reqs \<and> reqs \<noteq> [] \<and> length reqs \<le> 2"
proof -
  have "same_message req req2" if "transact_first co1 en req creds resp = Again req2 co2" for co1 resp req2 co2
    using that by (auto simp: transact_first_def next_cseq_def same_message_def Let_def split: if_splits option.splits prod.splits)
  then show ?thesis
    using assms by (auto simp: transact_def same_message_def split: sum.splits transact_step.splits prod.splits)
qed

lemma notify_request_message:
  assumes "notify_request ge peer mime body gw = (gw1, Some (req, addr))"
  shows "rq_method req = Message \<and> rq_body req = body"
  using assms by (auto simp: notify_request_def build_request_def request_new_def Let_def split: prod.splits sum.splits)

text \<open>The text a peer is sent is the text it was to be sent, in a MESSAGE, once, or twice where the first was challenged.\<close>

lemma message_is_delivered_once:
  assumes "notify_sip_message ge en arrived again peer mime body gw = (d, gw')"
  shows "list_all (\<lambda>(q, _). rq_method q = Message \<and> rq_body q = body) (dl_requests d) \<and> length (dl_requests d) \<le> 2 \<and>
    (dl_requests d = [] \<longleftrightarrow> dl_result d = None)"
proof (cases "notify_request ge peer mime body gw")
  case (Pair gw1 t)
  show ?thesis
  proof (cases t)
    case (Some s)
    obtain req addr where s: "s = (req, addr)" by fastforce
    obtain r reqs co where x: "transact (gw_core gw1) en req addr (sip_credentials (gw_cfg gw)) arrived again = (r, reqs, co)"
      by (metis prod_cases3)
    have d: "d = \<lparr>dl_result = Some r, dl_requests = map (\<lambda>q. (q, addr)) reqs\<rparr>"
      using assms by (simp add: notify_sip_message_def Pair Some s x)
    show ?thesis
      using transact_repeats [OF x] notify_request_message [of ge peer mime body gw gw1 req addr] Pair Some s
      by (auto simp: d same_message_def list_all_iff)
  qed (use assms Pair in \<open>auto simp: notify_sip_message_def\<close>)
qed

section \<open>The jobs\<close>

record job_env =
  je_gateway :: gw_env
  je_second :: sip_env
  je_arrived :: "response list"
  je_again :: "response list"
  je_delete :: "nat \<Rightarrow> bool"

datatype job_end = Told delivery | Forgot bool nat

definition run_api_job :: "api_job \<Rightarrow> job_env \<Rightarrow> gateway \<Rightarrow> job_end \<times> gateway" where
  "run_api_job j je gw =
     (case j of
        ForgetMessage path \<Rightarrow> (case delete_attempts delete_pauses (je_delete je) 0 0 of (gone, n) \<Rightarrow> (Forgot gone n, gw))
      | TellPeer peer body \<Rightarrow>
          (case notify_sip_message (je_gateway je) (je_second je) (je_arrived je) (je_again je) peer ''text/plain'' body gw of
             (d, gw') \<Rightarrow> (Told d, gw')))"

text \<open>Deleting is tried after 0, 3, 13, 43 and 163 seconds, until it succeeds.\<close>

lemma forget_attempts:
  "delete_attempts delete_pauses works 0 0 =
     (let tries = takeWhile (\<lambda>t. \<not> works t) [0, 3, 13, 43, 163] in (length tries < 5, min 5 (length tries + 1)))"
  by (simp add: delete_pauses_def Let_def)

end
