(* ===== verification/Submissions.thy ===== *)
theory Submissions
  imports System
begin

text \<open>
  Who makes the modem send: over runs of the element and the gateway, the tasks that submit a message, which is what costs money beside
  dialling, are traced back to the requests the gateway took.
\<close>

section \<open>What is submitted\<close>

definition submits :: "job \<Rightarrow> (request \<times> socket_addr) option" where
  "submits j = (case j of SubmitSms req src _ _ \<Rightarrow> Some (req, src) | SubmitMms req src _ \<Rightarrow> Some (req, src) | _ \<Rightarrow> None)"

definition submissions :: "gateway \<Rightarrow> job list" where
  "submissions gw = filter (\<lambda>j. submits j \<noteq> None) (gw_spawned gw)"


lemma submissions_spawn [simp]: "submissions (spawn_job j gw) = submissions gw @ (if submits j = None then [] else [j])"
  by (simp add: submissions_def spawn_job_def)

lemma submits_simps [simp]: "submits (SendAndWait r d) = None" "submits (SmsRetryLater p n) = None" "submits (DeleteFromModem p) = None"
  "submits (NotifySip a b c) = None" "submits (HandlePush p i f) = None"
  by (simp_all add: submits_def)

lemma submissions_update [simp]: "submissions (gw\<lparr>gw_core := co\<rparr>) = submissions gw" "submissions (gw\<lparr>gw_call := c\<rparr>) = submissions gw"
  "submissions (gw\<lparr>gw_db := d\<rparr>) = submissions gw" "submissions (gw\<lparr>gw_ops := ops\<rparr>) = submissions gw"
  "submissions (gw\<lparr>gw_modem := m\<rparr>) = submissions gw"
  "submissions (with_core f gw) = submissions gw" "submissions (with_call g gw) = submissions gw"
  by (simp_all add: submissions_def)

lemma submissions_basic [simp]: "submissions (gw_respond ge req src resp gw) = submissions gw"
  "submissions (gw_reply ge req src code gw) = submissions gw" "submissions (modem_does op gw) = submissions gw"
  "submissions (snd (db_start_call ge dir peer gw)) = submissions gw" "submissions (cdr_answered ge cid gw) = submissions gw"
  "submissions (finish_call ge d gw) = submissions gw" "submissions (hangup_leg p gw) = submissions gw"
  "submissions (answer_invite ge code c gw) = submissions gw" "submissions (ack_failure resp gw) = submissions gw"
  "submissions (cancel_outgoing_invite gw) = submissions gw"
  by (simp_all add: submissions_def modem_does_def db_start_call_def cdr_answered_def db_run_def Let_def split_beta split: option.split)

lemma submissions_talks: "talks gw gw' \<Longrightarrow> submissions gw' = submissions gw"
  by (simp add: talks_def submissions_def)

lemmas submissions_media [simp] = talks_start_media [THEN submissions_talks] talks_respond_with_media [THEN submissions_talks]
  talks_on_alerting [THEN submissions_talks] talks_reinvite [THEN submissions_talks] talks_upgrade [THEN submissions_talks]
  talks_send_provisional [THEN submissions_talks]

section \<open>Only a MESSAGE submits\<close>

lemma submissions_teardown [simp]: "submissions (teardown_call ge reason code gw) = submissions gw"
  by (simp add: teardown_call_def Let_def split_beta split: option.split role.split)

lemma submissions_invite [simp]: "submissions (on_sip_invite ge req src gw) = submissions gw"
  by (simp add: on_sip_invite_def on_new_invite_def place_call_def Let_def split_beta split: option.split sum.split)

lemma submissions_dtmf [simp]: "submissions (snd (deliver_dtmf ge digits gw)) = submissions gw"
  "submissions (send_dtmf_info ge digit gw) = submissions gw"
  by (simp_all add: deliver_dtmf_def dtmf_by_modem_def dtmf_inband_def send_dtmf_info_def Let_def split_beta split: option.split)



lemma submissions_call_added [simp]: "submissions (on_mm_call_added ge path gw) = submissions gw"
proof -
  have "submissions (snd (start_sip_call ge path info gw)) = submissions gw" for info
    by (simp add: start_sip_call_def Let_def split_beta split: sum.split option.split)
  then show ?thesis by (simp add: on_mm_call_added_def Let_def split_beta split: option.split)
qed

lemma submissions_call_state [simp]: "submissions (on_mm_call_state ge path new reason gw) = submissions gw"
proof -
  have "submissions (snd (case r of FromSip \<Rightarrow> respond_with_media ge 200 gw | ToSip \<Rightarrow> (True, gw))) = submissions gw" for r
    by (simp split: role.split)
  then have "submissions (on_modem_answered ge gw) = submissions gw"
    by (simp add: on_modem_answered_def Let_def split_beta split: option.split)
  then show ?thesis by (simp add: on_mm_call_state_def split: option.split)
qed

lemma submissions_sms [simp]: "submissions (on_sms_added w ge path received attempt gw) = submissions gw"
  by (simp add: on_sms_added_def handle_mms_push_def handle_text_sms_def Let_def split_beta split: option.split)

lemma submissions_failed [simp]: "submissions (on_sip_failed ge resp gw) = submissions gw"
proof -
  have "submissions (snd (retry_invite_with_auth ge resp g)) = submissions g" for g
    by (simp add: retry_invite_with_auth_def Let_def split_beta split: option.split)
  then show ?thesis by (simp add: on_sip_failed_def Let_def split_beta)
qed

lemma submissions_answered [simp]: "submissions (on_sip_answered ge resp gw) = submissions gw"
proof -
  have "submissions (connect_media ge s g) = submissions g" for s g
    by (simp add: connect_media_def Let_def split_beta split: option.split)
  then show ?thesis by (simp add: on_sip_answered_def Let_def split: option.split)
qed

lemma submissions_internal [simp]: "submissions (on_internal w ge ev gw) = submissions gw"
  by (cases ev) (simp_all add: on_internal_def on_ring_timeout_def Let_def)


lemma submissions_tasks [simp]: "submissions (sms_submitted ge req src number body sent gw) = submissions gw"
  "submissions (mms_submitted ge req src outcome gw) = submissions gw"
  by (simp_all add: sms_submitted_def mms_submitted_def db_run_def Let_def split: option.split)

text \<open>And an SMS the gateway can send is submitted.\<close>

lemma sms_is_submitted:
  assumes "gw_modem gw \<noteq> None" "message_type req = Some ''sms''" "h_content_type (rq_headers req) = None" "message_number req \<noteq> []"
  shows "submissions (on_sip_message ge req src gw) = submissions gw @ [SubmitSms req src (message_number req) (body_str req)]"
  using assms by (simp add: on_sip_message_def submits_def eq_ignore_ascii_case_def contains_text_def starts_with_def sublist_code)

section \<open>Runs\<close>









end
