(* ===== verification/Login.thy ===== *)
theory Login
  imports SipServer
begin

text \<open>
  The digest login from end to end: the challenge the server writes into a 401, what \<open>transact\<close> makes of it on the client's
  side, and what the server then thinks of the credentials, all of it through the header texts that go between them.
\<close>

section \<open>The challenge\<close>

lemma unquoted_append [simp]: "unquoted (a @ b) \<longleftrightarrow> unquoted a \<and> unquoted b"
  by (auto simp: unquoted_def)

lemma unquoted_hex [simp]: "unquoted (hex_text bs)" "unquoted (md5_hex md5 s)" "unquoted (random_hex draws)"
  using hex_text_set [of quote] by (auto simp: unquoted_def md5_hex_def random_hex_def quote_def byte_of_def)

lemma unquoted_Cons [simp]: "unquoted (a # b) \<longleftrightarrow> a \<noteq> quote \<and> unquoted b"
  by (auto simp: unquoted_def)

lemma unquoted_nonce: "unquoted (nonce_issue md5 nf now)"
proof -
  have "quote \<notin> set (show_int now)" using show_nat_notin [of quote] by (simp add: show_int_def quote_def byte_of_def)
  then have "unquoted (show_int now)" by (simp add: unquoted_def)
  then show ?thesis by (simp add: nonce_issue_def) (simp add: quote_def)
qed

definition issued_challenge :: "sip_core \<Rightarrow> sip_env \<Rightarrow> challenge" where
  "issued_challenge co en =
     \<lparr>ch_realm = domain_name co, ch_nonce = nonce_issue (en_md5 en) (co_nonce co) (en_wall en), ch_opaque = None,
      ch_qop = Some ''auth'', ch_algorithm = Some ''MD5''\<rparr>"

lemma challenge_fields:
  assumes "unquoted realm" "unquoted nonce"
  shows "params_loop Map.empty (''realm='' @ quoted realm @ '', nonce='' @ quoted nonce @ '', algorithm=MD5, qop=''
      @ quoted ''auth'' @ (if stale then '', stale=true'' else [])) =
    (let m = [''realm'' \<mapsto> realm, ''nonce'' \<mapsto> nonce, ''algorithm'' \<mapsto> ''MD5'', ''qop'' \<mapsto> ''auth''] in
     if stale then m(''stale'' \<mapsto> ''true'') else m)"
proof -
  have keys: "wf_key ''stale''" "wf_token ''MD5''" "wf_token ''true''" "quote \<notin> set ''auth''" by code_simp+
  note q = params_loop_quoted [OF wf_keys(2), simplified] params_loop_quoted [OF wf_keys(3), simplified]
    params_loop_quoted [OF wf_keys(7) keys(4), simplified]
  note t = params_loop_token [OF wf_keys(6) keys(2), simplified] params_loop_token [OF keys(1) keys(3), of "[]", simplified]
  show ?thesis
    using assms keys(4) by (simp add: unquoted_def quoted_def params_loop_sep q t Let_def)
qed

lemma challenge_parse_header:
  assumes "unquoted (domain_name co)"
  shows "challenge_parse (challenge_header co en stale) = Some (issued_challenge co en)"
proof -
  let ?rest = "''realm='' @ quoted (domain_name co) @ '', nonce='' @ quoted (nonce_issue (en_md5 en) (co_nonce co) (en_wall en))
    @ '', algorithm=MD5, qop='' @ quoted ''auth'' @ (if stale then '', stale=true'' else [])"
  have h: "challenge_header co en stale = ''Digest'' @ CHR '' '' # ?rest" by (simp add: challenge_header_def)
  have "trim (challenge_header co en stale) = challenge_header co en stale"
    by (rule trim_id) (simp add: h quoted_def vchar_def byte_of_def quote_def)
  moreover have "split_once_ws (challenge_header co en stale) = Some (''Digest'', ?rest)"
    unfolding h by (rule split_once_ws_vtext) (simp add: vchar_def byte_of_def)
  ultimately show ?thesis
    by (simp add: challenge_parse_def digest_params_def parse_params_def issued_challenge_def or_default_def
        challenge_fields [OF assms unquoted_nonce, simplified] Let_def)
qed

section \<open>The answer\<close>

lemma answer_issued:
  "answer h draws (issued_challenge co en) user pw mth uri body 1 =
     \<lparr>cr_username = user, cr_realm = domain_name co, cr_nonce = nonce_issue (en_md5 en) (co_nonce co) (en_wall en), cr_uri = uri,
      cr_response = digest_response h user pw (domain_name co) (nonce_issue (en_md5 en) (co_nonce co) (en_wall en)) mth uri
        (Some ''auth'') (Some (random_hex draws)) (Some ''00000001'') (Some ''MD5'') body,
      cr_algorithm = Some ''MD5'', cr_cnonce = Some (random_hex draws), cr_nc = Some ''00000001'', cr_qop = Some ''auth'',
      cr_opaque = None\<rparr>"
proof -
  have "find (\<lambda>s. eq_ignore_ascii_case s ''auth'') (map trim (split_on (CHR '','') ''auth'')) = Some ''auth''"
    and "show_hex_pad 8 (unat (1 :: u32)) = ''00000001''" by code_simp+
  then show ?thesis by (simp add: answer_def issued_challenge_def Let_def)
qed

lemma answer_wf:
  assumes "unquoted user" "unquoted (domain_name co)" "unquoted uri"
  shows "wf_credentials (answer h draws (issued_challenge co en) user pw mth uri body 1)"
proof -
  have "wf_token ''MD5''" "wf_token ''auth''" "wf_token ''00000001''" by code_simp+
  then show ?thesis
    using assms unquoted_nonce
    by (simp add: answer_issued wf_credentials_def opt_all_def digest_response_def Let_def)
qed

lemma answer_verified: "verify h (answer h draws (issued_challenge co en) user pw mth uri body 1) pw mth body"
  by (simp add: verify_def answer_issued)

lemma refreshed_via_keeps:
  "canonical n \<noteq> ''via'' \<Longrightarrow> hget (refresh_via_branch en h) n = hget h n"
proof -
  have "canonical ''via'' = ''via''" by code_simp
  then show "canonical n \<noteq> ''via'' \<Longrightarrow> hget (refresh_via_branch en h) n = hget h n"
    by (simp add: refresh_via_branch_def hs.get_set_other split: option.split)
qed

text \<open>What goes back: the request as it was but for its sequence number, its branch and the credentials.\<close>

lemma transact_first_answers:
  assumes "rs_code resp = 401" "hget_all (rs_headers resp) ''www-authenticate'' = [challenge_header co en stale]"
    and "unquoted (domain_name co)"
  obtains h cc' where "transact_first cc cen req (Some (user, pw)) resp =
      Again (req\<lparr>rq_headers := hset h ''authorization'' (to_header (answer (en_md5 cen) (en_cnonce cen) (issued_challenge co en)
        user pw (method_str (rq_method req)) (uri_show (rq_uri req)) (rq_body req) 1))\<rparr>) cc'"
    and "hget h ''to'' = hget (rq_headers req) ''to''"
proof -
  have "is_supported (issued_challenge co en)" by (simp add: is_supported_def issued_challenge_def eq_ignore_ascii_case_def)
  then have "find is_supported (List.map_filter challenge_parse [challenge_header co en stale]) = Some (issued_challenge co en)"
    by (simp add: map_filter_simps challenge_parse_header [OF assms(3)])
  moreover have "canonical ''to'' = ''to''" "canonical ''cseq'' = ''cseq''" "''to'' \<noteq> ''via''" by code_simp+
  then have "hget (refresh_via_branch cen (hset (rq_headers req) ''cseq'' v)) ''to'' = hget (rq_headers req) ''to''" for v
    by (simp add: refreshed_via_keeps hs.get_set_other)
  ultimately show ?thesis using that assms(1,2) by (simp add: transact_first_def Let_def split_beta)
qed

section \<open>The check\<close>

lemma addressed_to_itself:
  assumes "wf_uri (rq_uri req)"
  shows "uri_addressed req (uri_show (rq_uri req))"
  using uri_parse_show_aux [OF assms] by (simp add: uri_addressed_def)

lemma login_authorised:
  assumes "cfg_auth (co_cfg co) = Some account" "\<not> exempt req2"
    and "Option.bind (hget (rq_headers req2) ''authorization'') credentials_parse = Some c"
    and "cr_realm c = domain_name co" "uri_addressed req2 (cr_uri c)"
    and "cr_nonce c = nonce_issue (en_md5 en) (co_nonce co) issued" "kv_get (co_nonce_seen co) (cr_nonce c) = None"
    and "0 \<le> issued" "issued < 2 ^ 62" "0 \<le> en_wall en" "en_wall en < 2 ^ 62"
  shows "fst (check_auth co en req2 src) \<longleftrightarrow> cr_username c = fst account \<and>
      verify (en_md5 en) c (snd account) (method_str (rq_method req2)) (rq_body req2) \<and>
      issued \<le> en_wall en \<and> en_wall en \<le> issued + 300"
  using assms nonce_window_aux [OF assms(8-11), of "en_md5 en" "co_nonce co" 300]
  by (auto simp: check_auth_iff authorised_def credentials_ok_def claim_nonce_def Let_def)

lemma used_nonce_refused:
  assumes "fst (check_auth co en req2 src)" "cfg_auth (co_cfg co) = Some account" "\<not> exempt req2"
  shows "\<not> fst (check_auth (snd (check_auth co en req2 src)) en'' req2 src')"
proof -
  from assms obtain c where c: "Option.bind (hget (rq_headers req2) ''authorization'') credentials_parse = Some c"
    by (auto simp: check_auth_iff authorised_def)
  have "fst (claim_nonce (co_nonce_seen co) c (en_now en))" using assms c by (auto simp: check_auth_iff authorised_def)
  moreover have "co_nonce_seen (snd (check_auth co en req2 src)) = snd (claim_nonce (co_nonce_seen co) c (en_now en))"
    using assms c by (auto simp: check_auth_def Let_def split_beta split: if_splits)
  ultimately have "\<not> fst (claim_nonce (co_nonce_seen (snd (check_auth co en req2 src))) c t)" for t
    by (auto simp: claim_nonce_def Let_def kv.get_put split: option.splits if_splits)
  then show ?thesis using assms(2,3) c by (simp add: check_auth_iff authorised_def)
qed

text \<open>Property C40: Whoever knows the password gets in, and nobody else. Let the gateway challenge a request, and let a client answer the
  challenge, with this program's own client side. Then the client sends the request again with credentials the gateway can read. If the client
  has the account's password, the gateway accepts them exactly if the user is the account's and the
  challenge is at most 300 seconds old; with any other password it does so only if two texts that were hashed collide; and once it has accepted them it does not
  accept them again, whenever and from wherever they come.
\<close>

theorem login_needs_the_password:
  assumes account: "cfg_auth (co_cfg co) = Some account"
    and server: "co_cfg co' = co_cfg co" "co_bound co' = co_bound co" "co_nonce co' = co_nonce co"
    and hash: "en_md5 en' = en_md5 en" "en_md5 cen = en_md5 en"
    and clock: "0 \<le> en_wall en" "en_wall en < 2 ^ 62" "0 \<le> en_wall en'" "en_wall en' < 2 ^ 62"
    and unseen: "kv_get (co_nonce_seen co') (nonce_issue (en_md5 en) (co_nonce co) (en_wall en)) = None"
    and resp: "rs_code resp = 401" "hget_all (rs_headers resp) ''www-authenticate'' = [challenge_header co en stale]"
    and wf: "unquoted (domain_name co)" "unquoted user" "wf_uri (rq_uri req)" "unquoted (uri_show (rq_uri req))"
    and checked: "\<not> exempt req"
  shows "case transact_first cc cen req (Some (user, pw)) resp of
      Again req2 _ \<Rightarrow>
        (case Option.bind (hget (rq_headers req2) ''authorization'') credentials_parse of
           Some c \<Rightarrow>
             (let accepted = fst (check_auth co' en' req2 src);
                  in_time = (en_wall en \<le> en_wall en' \<and> en_wall en' \<le> en_wall en + 300);
                  texts = (\<lambda>p. digest_inputs (en_md5 en) c p (method_str (rq_method req)) (rq_body req)) in
              (if pw = snd account then accepted = (user = fst account \<and> in_time)
               else accepted \<longrightarrow> user = fst account \<and> in_time \<and>
                 list_ex (collision (en_md5 en)) (zip (texts pw) (texts (snd account)))) \<and>
              (accepted \<longrightarrow> \<not> fst (check_auth (snd (check_auth co' en' req2 src)) en'' req2 src')))
         | None \<Rightarrow> False)
    | _ \<Rightarrow> False"
proof -
  let ?c = "answer (en_md5 en) (en_cnonce cen) (issued_challenge co en) user pw (method_str (rq_method req))
    (uri_show (rq_uri req)) (rq_body req) 1"
  obtain h cc' where t: "transact_first cc cen req (Some (user, pw)) resp =
      Again (req\<lparr>rq_headers := hset h ''authorization'' (to_header ?c)\<rparr>) cc'" and h: "hget h ''to'' = hget (rq_headers req) ''to''"
    using transact_first_answers [OF resp wf(1), of cc cen req user pw] hash by metis
  let ?r = "req\<lparr>rq_headers := hset h ''authorization'' (to_header ?c)\<rparr>"
  have "canonical ''to'' \<noteq> canonical ''authorization''" by code_simp
  then have ex: "\<not> exempt ?r" using checked h by (simp add: exempt_def h_to_def hs.get_set_other)
  have c: "Option.bind (hget (rq_headers ?r) ''authorization'') credentials_parse = Some ?c"
    using answer_wf [OF wf(2,1,4)] by (simp add: hs.get_set credentials_parse_to_header)
  have v: "verify (en_md5 en) ?c pw (method_str (rq_method req)) (rq_body req)" by (rule answer_verified)
  have d: "domain_name co' = domain_name co" unfolding domain_name_def server ..
  have "uri_addressed ?r (uri_show (rq_uri req))" using addressed_to_itself [of ?r] wf(3) by simp
  then have a: "fst (check_auth co' en' ?r src) \<longleftrightarrow> user = fst account \<and>
      verify (en_md5 en) ?c (snd account) (method_str (rq_method req)) (rq_body req) \<and>
      en_wall en \<le> en_wall en' \<and> en_wall en' \<le> en_wall en + 300"
    using login_authorised [OF _ ex c, of co' account en' "en_wall en" src] account server hash clock unseen d
    by (simp add: answer_issued)
  have again: "fst (check_auth co' en' ?r src) \<Longrightarrow> \<not> fst (check_auth (snd (check_auth co' en' ?r src)) en'' ?r src')"
    using used_nonce_refused [OF _ _ ex] account server by simp
  show ?thesis
    unfolding t transact_step.case c option.case Let_def using a v again verify_bound_aux [OF v] by auto
qed

definition example_challenge :: response where
  "example_challenge = \<lparr>rs_code = 401, rs_reason = ''Unauthorized'',
     rs_headers = [(''www-authenticate'', challenge_header example_core example_env False)], rs_body = []\<rparr>"

theorem login_needs_the_password_witness:
  "case transact_first example_core example_env example_invite (Some (''gateway'', ''s3cret'')) example_challenge of
     Again req2 _ \<Rightarrow>
       fst (check_auth example_core example_env req2 example_src) \<and>
       \<not> fst (check_auth (snd (check_auth example_core example_env req2 example_src)) example_env req2 example_src)
   | _ \<Rightarrow> False"
proof -
  have c: "cfg_auth (co_cfg example_core) = Some (''gateway'', ''s3cret'')" by (simp add: example_core_def example_cfg_def)
  have t: "0 \<le> en_wall example_env" "en_wall example_env < 2 ^ 62" by (simp_all add: example_env_def)
  have n: "kv_get (co_nonce_seen example_core) x = None" for x by (simp add: example_core_def kv.get_empty)
  have "canonical ''www-authenticate'' = ''www-authenticate''" by code_simp
  then have h: "rs_code example_challenge = 401"
    "hget_all (rs_headers example_challenge) ''www-authenticate'' = [challenge_header example_core example_env False]"
    by (simp_all add: example_challenge_def hget_all_def)
  have w: "unquoted (domain_name example_core)" "unquoted ''gateway''" "wf_uri (rq_uri example_invite)"
    "unquoted (uri_show (rq_uri example_invite))"
    by (simp_all add: domain_name_def example_core_def example_cfg_def unquoted_def quote_def) code_simp+
  have e: "\<not> exempt example_invite" by code_simp
  from login_needs_the_password [OF c refl refl refl refl refl t t n h w e,
      where cc = example_core and pw = "''s3cret''" and src = example_src and en'' = example_env and src' = example_src]
  show ?thesis
    by (cases "transact_first example_core example_env example_invite (Some (''gateway'', ''s3cret'')) example_challenge")
      (auto simp: Let_def split: option.splits)
qed

end
