(* ===== verification/Spec2Isabelle.thy ===== *)
theory Spec2Isabelle
  imports Program Sound Delivery Submissions Login
begin

text \<open>
  A model of modem2sip, a gateway between the voice and messages of one mobile modem and SIP. The
  program's own logic, under \<open>src/src/\<close>, is translated function by function into executable
  definitions; what is proved about them is what the parts promise to each other and to the two
  networks.

  \<^bold>\<open>The parts and how they interact.\<close> Datagrams arrive at the SIP element (\<open>sip/core.rs\<close>), which parses
  them (\<open>sip/message.rs\<close>, \<open>sip/uri.rs\<close>), keeps server transactions, checks credentials (\<open>sip/auth.rs\<close>),
  answers REGISTER (\<open>sip/registrar.rs\<close>) and OPTIONS itself and queues everything else for the gateway
  (\<open>gateway.rs\<close>). The gateway's event loop takes requests from that queue, events from the watcher of the
  modem (\<open>mm/watcher.rs\<close>) and events of its own tasks; it carries one call, negotiates its media
  (\<open>sip/sdp.rs\<close>), runs its RTP session (\<open>media.rs\<close>) over the audio rings (\<open>audio/alsa_io.rs\<close>,
  \<open>audio/codec.rs\<close>), asks the modem through \<open>mm/mod.rs\<close>, and stores messages and call records (\<open>db.rs\<close>).
  Pushes of MMS messages go to the MMS manager (\<open>mms/manager.rs\<close>), which decodes them (\<open>mms/wsp.rs\<close>, \<open>mms/pdu.rs\<close>)
  and fetches them over the bearer of the modem (\<open>mms/dns.rs\<close>, \<open>mms/http.rs\<close>). The control API
  (\<open>http_api.rs\<close>) works on the store, the modem and the manager. A loop of its own registers the gateway
  upstream (\<open>sip/register.rs\<close>).

  \<^bold>\<open>The theories.\<close>
  \<^item> \<open>Prelude\<close>: text as Rust has it (byte predicates, trimming, splitting, numbers, hexadecimal), the
    attribute \<open>printable_intros\<close> and lemmas the parsers share. \<open>IpText\<close>: the text of IP addresses.
    \<open>KeyValue\<close>: finite tables, with the contract \<open>key_value\<close> as a locale.
  \<^item> \<open>SipUri\<close> (\<open>Uri\<close>, \<open>NameAddr\<close>) and \<open>SipMessage\<close> (\<open>Method\<close>, \<open>Headers\<close>, \<open>Via\<close>, \<open>Request\<close>,
    \<open>Response\<close>, \<open>Message::parse\<close> and the serialiser), with the contract of the header fields as the locale
    \<open>header_store\<close>. Lemmas: parse after print, no header injection, replies mirror their request.
  \<^item> \<open>SipAuth\<close>: digest authentication over a parameter \<open>md5_fn\<close>; a verified response is bound to method,
    password and body up to an explicit hash collision.
  \<^item> \<open>Registrar\<close>: bindings with expiry. \<open>SipTxn\<close>: the pieces of \<open>sip/core.rs\<close> with a contract of their
    own (the transaction cache as a step relation, nonce counts, the retransmission loop, contact
    lists, allow rules). \<open>SipCore\<close>: the element's state \<open>sip_core\<close> and its handlers. \<open>SipServer\<close>: what the
    element guarantees over runs, by simulation with the transaction table of \<open>SipTxn\<close>. \<open>Login\<close>: challenge, answer and
    check of the digest login, through the texts of the header fields. \<open>Upstream\<close>: the
    client transaction with its digest retry, and the registration loop over it.
  \<^item> \<open>Sdp\<close>: codecs, directions, the parser, the answer and the writer.
  \<^item> \<open>Numbers\<close>: telephone numbers, identities of messages, addresses and ALSA names (\<open>state.rs\<close> and the
    helpers at the end of \<open>gateway.rs\<close>). \<open>Config\<close>: the sections, defaults and validation of
    \<open>config.rs\<close>. \<open>Database\<close>: the tables of \<open>db.rs\<close> as lists of rows.
  \<^item> \<open>Audio\<close>: G.711, the tables of the DTMF keys and the rings. \<open>Media\<close>: ports, the RTP sender and receiver; a
    read outside a buffer is the value \<open>Panic\<close>. \<open>Cards\<close>: the sound cards and the one of a modem
    (\<open>audio/discovery.rs\<close>). \<open>Sound\<close>: the two threads between the card and the rings.
  \<^item> \<open>Wsp\<close>, \<open>Mms\<close>: the primitives and the PDUs of MMS, read and written. \<open>Dns\<close>: the resolver over the bearer's
    servers. \<open>MmsHttp\<close>: the HTTP client. \<open>MmsManager\<close>: notification, retrieval, deferral and submission as
    actions on a \<open>world\<close> (the database, its faults to come, the log of what was written and requested).
  \<^item> \<open>Gateway\<close>: the state \<open>gateway\<close> (configuration, element, store, modem, the call as \<open>active_call\<close>) and one
    function per handler of the event loop, composed to \<open>gw_step\<close>. What is asked of the modem is the
    list \<open>gw_ops\<close>, what is left to tasks \<open>gw_spawned\<close>; the answers of the outside world are the record
    \<open>gw_env\<close>. \<open>CallControl\<close>: every event keeps the call, ends it, or begins one (\<open>moves\<close>).
    \<open>CallRules\<close>: the properties of calls.
  \<^item> \<open>Modem\<close>: what is read of the objects of ModemManager and the methods called on them (\<open>mm/mod.rs\<close>), and the
    commands of the voice path (\<open>vendor.rs\<close>). \<open>ModemWatch\<close>: the search for the modem, its activation and
    the supervision of it and its calls, to the list of events the gateway is told.
  \<^item> \<open>HttpApi\<close>: a connection to the control API, from the bytes read to the bytes written, and the task of a push.
    \<open>Delivery\<close>: what becomes of the messages that these leave for the SIP side.
  \<^item> \<open>System\<close>: element and gateway together, a run being any interleaving of datagrams, events and tasks. \<open>Submissions\<close>: over
    such runs, the messages submitted and the requests they come from.
    \<open>Program\<close>: such runs with the modem events of the watcher.

  \<^bold>\<open>What is shown.\<close> Over runs of the whole system, a number is dialled only for an INVITE from an allowed
  source with credentials that verify, and once for each, and a message is submitted only for such a MESSAGE; the gateway's own challenge is
  passed only with the password, and once; a call has its modem, one that was selected and enabled.
  The event loop refines a machine with the stages idle, being set up, answered. Every ended call is hung up at the modem and
  closed in the record; the pending INVITE of its SIP caller is refused, unless it is ended by a BYE, which gets the answer to itself
  only; its peer is told with a BYE, a CANCEL or a refusal; requests of a stranger leave call, modem and database as they are, but for the messages
  they submit. Retransmitted requests are given to the gateway once. The RTP receiver never
  reads out of bounds and the audio goes only where the signalling said. An MMS message is acknowledged only
  when it is stored and recorded as sent only when it was accepted; a repeated notification fetches what is owed. Addresses are
  believed only in answer to a question asked; a URL cannot add to the request made of it, nor a
  stored message to an answer or a page of the API, and nothing changes through the API without its token.
  The watcher tells of a modem in brackets, keeps one watcher for a call, and leaves no call or unsent message in
  ModemManager; the upstream registration is one, refreshed in time, for the lifetime the registrar wants. What is written is read back:
  messages, URIs, credentials, session descriptions, RTP packets, DTMF bodies, MMS submissions. Bounds: nonces,
  bindings, rings, the error of G.711, parts, bodies, the sizes computed from a valid configuration. The
  properties carry their number in the text before them; other theorems are lemmas of their part.

  \<^bold>\<open>Bounds and fuel.\<close> Machine integers keep their width (\<open>u8\<close>, \<open>u16\<close>, \<open>u32\<close>, \<open>i16\<close> words) where the code
  computes with them; lengths and times are natural numbers, a time in nanoseconds. Every loop is a
  total function: recursion on its input (the pieces a socket delivers, the signals and polls of a modem, the scans of the
  bus), or on the bound the code itself has: the slots of the walk over the RTP ports, the steps through a compressed name,
  the 256 parts of a multipart, the 31 polls of a call that is hung up, the polls of a modem over two minutes.
  Nothing depends on fuel running out. A head is read up to 64 KiB, a body of the API up to 32 MiB.

  \<^bold>\<open>Idealised.\<close> The handlers run one after another; in the code the element's receive loop, the gateway's
  loop and the tasks interleave at their awaits and share the element behind locks. Sends on a
  socket succeed and the gateway's channel stays open. Calls over D-Bus take no time of the poll counts. MD5, random bytes,
  clocks, the name service, the answers and signals of ModemManager, the decoders of character sets, base64, JSON text,
  percent decoding and the tone detector are parameters. Log lines have no counterpart. Strings are lists of bytes.

  \<^bold>\<open>Not modelled.\<close> The samples of a tone, its detection, gain and resampling (\<open>audio/codec.rs\<close>) are floating
  point arithmetic, whose rounding a faithful model would have to carry. alsa-lib, the listener of the
  API with its deadline, reading sysfs, serial ports and files are I/O. Start-up (\<open>main.rs\<close>) parses arguments, prints and
  wires the tasks. D-Bus proxies, TOML, SQL and JSON are the business of libraries.
\<close>

end
